(* ===== verification/Prelude.thy ===== *)
theory Prelude
  imports Main "HOL-Library.Char_ord" "HOL-Library.List_Lexorder"
begin

section \<open>Errors, results, decimal text and dictionaries\<close>

text \<open>
  What every component shares: the exception classes of
  \<open>src/agent_runtime_lab/domain/errors.py\<close> as one datatype (with the built-in Python
  exceptions the code raises), a result type for pure operations that may raise, decimal
  rendering of integers, and Python dictionaries as association lists kept sorted by key.
  The text of an exception is modelled only where the code stores it (so a \<open>ToolTimeoutError\<close> a
  runner raises comes with its text and seconds, as \<open>TimedOut\<close> in Executor).
\<close>

subsection \<open>Exceptions\<close>

datatype error =
    EventValidationError
  | RunMismatchError
  | SequenceError
  | DuplicateEventConflictError
  | DuplicateToolEffectConflictError
  | MissingToolIntentError
  | MissingVerificationEvidenceError
  | ModelActionValidationError
  | ModelAdapterExhaustedError
  | ModelProviderError
  | StepBudgetExhaustedError string
  | UnsafeToolRetryError
  | ToolTimeoutError
  | UnknownToolError
  | DuplicateToolDefinitionError
  | ToolArgumentValidationError
  | WorkspaceExecutionError
  | RestrictedToolExecutionError
  | InvalidTransitionError
  | GateReferenceMismatchError
  | TerminalStateError
  | PyValueError
  | PyTypeError
  | PyKeyError
  | PyRuntimeError
  | PyRecursionError
  | PyOSError
  | IntegrityError
  | OperationalError
  | AssertionError
  | IllTypedValue
  | InjectedCrash

subsection \<open>Results of pure operations\<close>

type_synonym 'a result = "error + 'a"

text \<open>
  \<open>bindR\<close> runs the next statement unless an exception was raised; \<open>ensure\<close> is the
  guard \<open>if not b: raise e\<close>.
\<close>

definition bindR :: "'a result \<Rightarrow> ('a \<Rightarrow> 'b result) \<Rightarrow> 'b result" where
  "bindR m f = (case m of Inl e \<Rightarrow> Inl e | Inr x \<Rightarrow> f x)"

definition ensure :: "bool \<Rightarrow> error \<Rightarrow> 'a result \<Rightarrow> 'a result" where
  "ensure b e k = (if b then k else Inl e)"

named_theorems result_simps \<open>evaluation and inversion of results\<close>

lemma bindR_simps [simp]:
  "bindR (Inl e) f = Inl e"
  "bindR (Inr x) f = f x"
  by (simp_all add: bindR_def)

lemma bindR_Inr_iff [result_simps]: "bindR m f = Inr y \<longleftrightarrow> (\<exists>x. m = Inr x \<and> f x = Inr y)"
  by (cases m) simp_all

lemma bindR_Inl_iff [result_simps]:
  "bindR m f = Inl e \<longleftrightarrow> m = Inl e \<or> (\<exists>x. m = Inr x \<and> f x = Inl e)"
  by (cases m) simp_all

lemma ensure_simps [simp]:
  "ensure True e k = k"
  "ensure False e k = Inl e"
  by (simp_all add: ensure_def)

lemma ensure_Inr_iff [result_simps]: "ensure b e k = Inr y \<longleftrightarrow> b \<and> k = Inr y"
  by (simp add: ensure_def)

lemma ensure_Inl_iff [result_simps]:
  "ensure b e k = Inl e' \<longleftrightarrow> (\<not> b \<and> e' = e) \<or> (b \<and> k = Inl e')"
  by (auto simp: ensure_def)

lemma bindR_cong [fundef_cong]:
  "m = m' \<Longrightarrow> (\<And>x. m' = Inr x \<Longrightarrow> f x = g x) \<Longrightarrow> bindR m f = bindR m' g"
  by (cases m') simp_all

text \<open>\<open>hashlib.sha256(text).hexdigest()\<close> is the parameter \<open>H\<close> of every definition that hashes.\<close>

type_synonym hash = "string \<Rightarrow> string"

subsection \<open>Decimal text\<close>

definition digit_char :: "nat \<Rightarrow> char" where
  "digit_char d = char_of (48 + d)"

definition char_digit :: "char \<Rightarrow> nat" where
  "char_digit c = of_char c - 48"

definition is_digit :: "char \<Rightarrow> bool" where
  "is_digit c \<longleftrightarrow> 48 \<le> (of_char c :: nat) \<and> (of_char c :: nat) \<le> 57"

fun show_nat :: "nat \<Rightarrow> string" where
  "show_nat n = (if n < 10 then [digit_char n] else show_nat (n div 10) @ [digit_char (n mod 10)])"

declare show_nat.simps [simp del]

definition show_int :: "int \<Rightarrow> string" where
  "show_int i = (if i < 0 then CHR ''-'' # show_nat (nat (- i)) else show_nat (nat i))"

definition read_nat :: "string \<Rightarrow> nat" where
  "read_nat s = foldl (\<lambda>a c. a * 10 + char_digit c) 0 s"

lemma of_char_digit_char: "d < 10 \<Longrightarrow> (of_char (digit_char d) :: nat) = 48 + d"
  by (simp add: digit_char_def)

lemma char_digit_digit_char [simp]: "d < 10 \<Longrightarrow> char_digit (digit_char d) = d"
  by (simp add: char_digit_def of_char_digit_char)

lemma is_digit_digit_char [simp]: "d < 10 \<Longrightarrow> is_digit (digit_char d)"
  by (simp add: is_digit_def of_char_digit_char)

lemma show_nat_nonempty [simp]: "show_nat n \<noteq> []"
  by (subst show_nat.simps) simp

lemma show_nat_digits: "c \<in> set (show_nat n) \<Longrightarrow> is_digit c"
proof (induction n rule: show_nat.induct)
  case (1 n)
  then show ?case by (subst (asm) (2) show_nat.simps) (auto split: if_splits)
qed

lemma read_show_nat [simp]: "read_nat (show_nat n) = n"
proof (induction n rule: show_nat.induct)
  case (1 n)
  show ?case
  proof (cases "n < 10")
    case True
    then show ?thesis by (simp add: show_nat.simps [of n] read_nat_def)
  next
    case False
    with 1 have "read_nat (show_nat (n div 10)) = n div 10" by simp
    with False show ?thesis by (simp add: show_nat.simps [of n] read_nat_def)
  qed
qed

lemma show_nat_inj [simp]: "show_nat m = show_nat n \<longleftrightarrow> m = n"
  by (metis read_show_nat)

lemma digit_char_zero_iff: "d < 10 \<Longrightarrow> digit_char d = CHR ''0'' \<longleftrightarrow> d = 0"
  by (simp add: of_char_eq_iff [symmetric, where 'a = nat] of_char_digit_char)

lemma show_nat_hd_zero: "hd (show_nat n) = CHR ''0'' \<longleftrightarrow> n = 0"
proof (induction n rule: show_nat.induct)
  case (1 n)
  show ?case
  proof (cases "n < 10")
    case True
    then show ?thesis by (simp add: show_nat.simps [of n] digit_char_zero_iff)
  next
    case False
    with 1 show ?thesis by (simp add: show_nat.simps [of n] hd_append)
  qed
qed

lemma show_nat_zero: "show_nat 0 = ''0''"
  by (simp add: show_nat.simps [of 0] digit_char_zero_iff)

lemma dash_not_digit [simp]: "\<not> is_digit (CHR ''-'')"
  by (simp add: is_digit_def)

lemma show_nat_no_dash: "CHR ''-'' \<notin> set (show_nat n)"
  using show_nat_digits dash_not_digit by blast

lemma show_int_inj [simp]: "show_int i = show_int j \<longleftrightarrow> i = j"
proof
  assume eq: "show_int i = show_int j"
  have nodash: "show_nat n \<noteq> CHR ''-'' # s" for n s
    using show_nat_no_dash [of n] by (metis list.set_intros(1))
  from eq show "i = j"
    by (auto simp: show_int_def nodash nodash [symmetric] split: if_splits)
qed simp

lemma show_int_nonempty [simp]: "show_int i \<noteq> []"
  by (simp add: show_int_def)

subsection \<open>Dictionaries\<close>

text \<open>
  A Python dictionary is a list of key-value pairs sorted by key, with every key once. Two
  dictionaries are equal exactly when the lists are, and \<open>json.dumps(..., sort_keys=True)\<close>
  prints the pairs in this order.
\<close>

type_synonym ('k, 'v) dict = "('k \<times> 'v) list"

fun dict_put :: "'k::linorder \<Rightarrow> 'v \<Rightarrow> ('k, 'v) dict \<Rightarrow> ('k, 'v) dict" where
  "dict_put k v [] = [(k, v)]"
| "dict_put k v ((k', v') # d) =
     (if k < k' then (k, v) # (k', v') # d
      else if k = k' then (k, v) # d
      else (k', v') # dict_put k v d)"

definition mk_dict :: "('k::linorder \<times> 'v) list \<Rightarrow> ('k, 'v) dict" where
  "mk_dict kvs = foldl (\<lambda>d (k, v). dict_put k v d) [] kvs"

fun sorted_keys :: "('k::linorder, 'v) dict \<Rightarrow> bool" where
  "sorted_keys [] = True"
| "sorted_keys (kv # d) = ((\<forall>kv' \<in> set d. fst kv < fst kv') \<and> sorted_keys d)"

lemma set_dict_put: "fst ` set (dict_put k v d) = insert k (fst ` set d)"
  by (induction k v d rule: dict_put.induct) auto

lemma sorted_keys_dict_put: "sorted_keys d \<Longrightarrow> sorted_keys (dict_put k v d)"
proof (induction d)
  case (Cons kv d)
  obtain k' v' where kv: "kv = (k', v')" by fastforce
  have "\<forall>x \<in> fst ` set (dict_put k v d). k' < x" if "k' < k"
    using that Cons.prems by (auto simp: set_dict_put kv)
  with Cons show ?case
    by (force simp: kv)
qed simp

lemma map_of_dict_put: "sorted_keys d \<Longrightarrow> map_of (dict_put k v d) = (map_of d)(k \<mapsto> v)"
  by (induction d) (auto simp: fun_eq_iff)

lemma mk_dict_snoc: "mk_dict (kvs @ [(k, v)]) = dict_put k v (mk_dict kvs)"
  by (simp add: mk_dict_def)

lemma sorted_keys_mk_dict [simp]: "sorted_keys (mk_dict kvs)"
  by (induction kvs rule: rev_induct) (auto simp: mk_dict_snoc sorted_keys_dict_put, simp add: mk_dict_def)

lemma map_of_mk_dict: "map_of (mk_dict kvs) = map_of (rev kvs)"
proof (induction kvs rule: rev_induct)
  case (snoc kv kvs)
  then show ?case by (cases kv) (simp add: mk_dict_snoc map_of_dict_put)
qed (simp add: mk_dict_def)

lemma dict_put_greatest:
  "(\<forall>kv \<in> set d. fst kv < k) \<Longrightarrow> dict_put k v d = d @ [(k, v)]"
  by (induction d) auto

lemma sorted_keys_snoc: "sorted_keys (d @ [(k, v)]) \<Longrightarrow> sorted_keys d \<and> (\<forall>kv \<in> set d. fst kv < k)"
  by (induction d) auto

lemma mk_dict_sorted [simp]: "sorted_keys d \<Longrightarrow> mk_dict d = d"
proof (induction d rule: rev_induct)
  case (snoc kv d)
  then show ?case
    by (cases kv) (auto simp: mk_dict_snoc dict_put_greatest dest: sorted_keys_snoc)
qed (simp add: mk_dict_def)

lemma sorted_keys_distinct: "sorted_keys d \<Longrightarrow> distinct (map fst d)"
  by (induction d) auto

lemma sorted_keys_map_of_inject:
  "sorted_keys c \<Longrightarrow> sorted_keys d \<Longrightarrow> map_of c = map_of d \<Longrightarrow> c = d"
proof (induction c arbitrary: d)
  case Nil
  then show ?case by (cases d) (auto simp: fun_eq_iff split: if_splits)
next
  case (Cons kv c)
  obtain k v where kv: "kv = (k, v)" by fastforce
  have "map_of d k = Some v" using Cons.prems(3) [symmetric] kv by simp
  then obtain k' v' d' where d: "d = (k', v') # d'" by (cases d) auto
  have low: "map_of c x = None" if "x \<le> k" for x
    using that Cons.prems(1) by (force simp: kv map_of_eq_None_iff)
  have low': "map_of d' x = None" if "x \<le> k'" for x
    using that Cons.prems(2) by (force simp: d map_of_eq_None_iff)
  have at: "(if x = k then Some v else map_of c x) = (if x = k' then Some v' else map_of d' x)" for x
    using Cons.prems(3) by (simp add: kv d fun_eq_iff split: if_splits)
  have "k = k'"
  proof (cases k k' rule: linorder_cases)
    case less
    with at [of k] low' [of k] show ?thesis by (auto simp: less_imp_le split: if_splits)
  next
    case greater
    with at [of k'] low [of k'] show ?thesis by (auto simp: less_imp_le split: if_splits)
  qed
  moreover have "v = v'" using at [of k] \<open>k = k'\<close> by simp
  moreover have "map_of c = map_of d'"
  proof
    fix x show "map_of c x = map_of d' x"
      using at [of x] low [of x] low' [of x] \<open>k = k'\<close> by (auto split: if_splits)
  qed
  ultimately show ?case using Cons by (simp add: kv d)
qed

subsection \<open>Searching rows\<close>

lemma find_Some_in: "find P xs = Some x \<Longrightarrow> x \<in> set xs \<and> P x"
  by (induction xs) (auto split: if_splits)

lemma find_append: "find P (xs @ ys) = (case find P xs of None \<Rightarrow> find P ys | Some x \<Rightarrow> Some x)"
  by (induction xs) auto

lemma find_filter: "find (\<lambda>x. P x \<and> Q x) xs = find Q (filter P xs)"
  by (induction xs) auto

subsection \<open>Lists that differ\<close>

lemma map_differ:
  "length xs = length ys \<Longrightarrow> map f xs \<noteq> map f ys \<Longrightarrow> \<exists>j. j < length xs \<and> f (xs ! j) \<noteq> f (ys ! j)"
  by (auto simp: list_eq_iff_nth_eq)

end
