(* ===== verification/Json.thy ===== *)
theory Json
  imports Prelude
begin

section \<open>JSON values, their canonical text, and the parser\<close>

text \<open>
  The part of Python's \<open>json\<close> module the code uses: \<open>json.dumps\<close> with
  \<open>ensure_ascii=False, allow_nan=False, separators=(",", ":"), sort_keys=True\<close> and
  \<open>json.loads\<close>. A Python string is a \<open>string\<close> whose characters are code points
  below 256. A finite float is kept as its decimal text (\<open>repr\<close>); every value
  \<open>json.dumps\<close> refuses (NaN, infinities, arbitrary objects) is \<open>JUnserializable\<close>.
\<close>

datatype json =
    JNull
  | JBool bool
  | JInt int
  | JFloat string
  | JStr string
  | JArr "json list"
  | JObj "(string \<times> json) list"
  | JUnserializable

type_synonym payload = "(string, json) dict"

subsection \<open>Reading dictionaries\<close>

text \<open>\<open>d.get(k, default)\<close> and \<open>d.get(k)\<close>; Python's \<open>None\<close> is \<open>JNull\<close>.\<close>

definition get_default :: "payload \<Rightarrow> string \<Rightarrow> json \<Rightarrow> json" where
  "get_default d k v = (case map_of d k of None \<Rightarrow> v | Some x \<Rightarrow> x)"

definition get :: "payload \<Rightarrow> string \<Rightarrow> json" where
  "get d k = get_default d k JNull"

definition has_key :: "payload \<Rightarrow> string \<Rightarrow> bool" where
  "has_key d k = (map_of d k \<noteq> None)"

lemma get_mk_dict: "get (mk_dict kvs) k = (case map_of (rev kvs) k of None \<Rightarrow> JNull | Some x \<Rightarrow> x)"
  by (simp add: get_def get_default_def map_of_mk_dict)

text \<open>
  Python's \<open>==\<close> between a decoded JSON value and an integer: \<open>True == 1\<close>,
  \<open>False == 0\<close> and \<open>2.0 == 2\<close> hold.
\<close>

fun eq_int :: "json \<Rightarrow> int \<Rightarrow> bool" where
  "eq_int (JInt j) i = (j = i)"
| "eq_int (JBool b) i = (i = (if b then 1 else 0))"
| "eq_int (JFloat t) i = (t = show_int i @ ''.0'')"
| "eq_int _ i = False"

subsection \<open>json.dumps\<close>

definition hex_char :: "nat \<Rightarrow> char" where
  "hex_char d = (if d < 10 then char_of (48 + d) else char_of (87 + d))"

definition escape_char :: "char \<Rightarrow> string" where
  "escape_char c =
     (if c = CHR 0x22 then [CHR 0x5C, CHR 0x22]
      else if c = CHR 0x5C then [CHR 0x5C, CHR 0x5C]
      else if c = CHR 0x0A then [CHR 0x5C, CHR ''n'']
      else if c = CHR 0x0D then [CHR 0x5C, CHR ''r'']
      else if c = CHR 0x09 then [CHR 0x5C, CHR ''t'']
      else if c = CHR 0x0C then [CHR 0x5C, CHR ''f'']
      else if c = CHR 0x08 then [CHR 0x5C, CHR ''b'']
      else if (of_char c :: nat) < 32
        then [CHR 0x5C, CHR ''u'', CHR ''0'', CHR ''0'',
              hex_char (of_char c div 16), hex_char (of_char c mod 16)]
      else [c])"

definition quote :: "string \<Rightarrow> string" where
  "quote s = CHR 0x22 # concat (map escape_char s) @ [CHR 0x22]"

fun commas :: "string list \<Rightarrow> string" where
  "commas [] = []"
| "commas [s] = s"
| "commas (s # t # ss) = s @ CHR '','' # commas (t # ss)"

fun render :: "json \<Rightarrow> string" where
  "render JNull = ''null''"
| "render (JBool b) = (if b then ''true'' else ''false'')"
| "render (JInt i) = show_int i"
| "render (JFloat t) = t"
| "render (JStr s) = quote s"
| "render (JArr vs) = CHR ''['' # commas (map render vs) @ '']''"
| "render (JObj kvs) = CHR ''{'' # commas (map (\<lambda>(k, v). quote k @ CHR '':'' # render v) kvs) @ ''}''"
| "render JUnserializable = ''''"

text \<open>Every dictionary of a value is sorted by key (an invariant of the Python values modelled).\<close>

fun norm_json :: "json \<Rightarrow> json" where
  "norm_json (JArr vs) = JArr (map norm_json vs)"
| "norm_json (JObj kvs) = JObj (mk_dict (map (\<lambda>(k, v). (k, norm_json v)) kvs))"
| "norm_json v = v"

fun serializable :: "json \<Rightarrow> bool" where
  "serializable (JArr vs) = (\<forall>v \<in> set vs. serializable v)"
| "serializable (JObj kvs) = (\<forall>kv \<in> set kvs. serializable (snd kv))"
| "serializable JUnserializable = False"
| "serializable v = True"

definition dumps :: "json \<Rightarrow> string option" where
  "dumps v = (if serializable v then Some (render (norm_json v)) else None)"

subsection \<open>json.loads\<close>

definition is_ws :: "char \<Rightarrow> bool" where
  "is_ws c \<longleftrightarrow> c = CHR '' '' \<or> c = CHR 0x09 \<or> c = CHR 0x0A \<or> c = CHR 0x0D"

definition skip_ws :: "string \<Rightarrow> string" where
  "skip_ws s = dropWhile is_ws s"

definition hex_val :: "char \<Rightarrow> nat option" where
  "hex_val c = (let n = of_char c :: nat in
     if 48 \<le> n \<and> n \<le> 57 then Some (n - 48)
     else if 97 \<le> n \<and> n \<le> 102 then Some (n - 87)
     else if 65 \<le> n \<and> n \<le> 70 then Some (n - 55)
     else None)"

text \<open>Four hexadecimal digits; a code point of 256 or more is outside the model.\<close>

definition hex4 :: "char \<Rightarrow> char \<Rightarrow> char \<Rightarrow> char \<Rightarrow> char option" where
  "hex4 a b c d = (case (hex_val a, hex_val b, hex_val c, hex_val d) of
     (Some x, Some y, Some z, Some w) \<Rightarrow>
       (let n = ((x * 16 + y) * 16 + z) * 16 + w in
        if n < 256 then Some (char_of n) else None)
   | _ \<Rightarrow> None)"

definition unescape :: "char \<Rightarrow> char option" where
  "unescape e =
     (if e = CHR 0x22 \<or> e = CHR 0x5C \<or> e = CHR 0x2F then Some e
      else if e = CHR ''n'' then Some (CHR 0x0A)
      else if e = CHR ''r'' then Some (CHR 0x0D)
      else if e = CHR ''t'' then Some (CHR 0x09)
      else if e = CHR ''f'' then Some (CHR 0x0C)
      else if e = CHR ''b'' then Some (CHR 0x08)
      else None)"

definition cons_fst :: "char \<Rightarrow> (string \<times> string) option \<Rightarrow> (string \<times> string) option" where
  "cons_fst c r = map_option (\<lambda>(t, rest). (c # t, rest)) r"

text \<open>The characters of a string literal after its opening quote, and the text behind it.\<close>

fun parse_str :: "string \<Rightarrow> (string \<times> string) option" where
  "parse_str [] = None"
| "parse_str (c # cs) =
     (if c = CHR 0x22 then Some ([], cs)
      else if c = CHR 0x5C then
        (case cs of
           [] \<Rightarrow> None
         | e # rest \<Rightarrow>
             if e = CHR ''u'' then
               (case rest of
                  h1 # h2 # h3 # h4 # rest' \<Rightarrow>
                    (case hex4 h1 h2 h3 h4 of
                       None \<Rightarrow> None
                     | Some x \<Rightarrow> cons_fst x (parse_str rest'))
                | _ \<Rightarrow> None)
             else
               (case unescape e of
                  None \<Rightarrow> None
                | Some x \<Rightarrow> cons_fst x (parse_str rest)))
      else if (of_char c :: nat) < 32 then None
      else cons_fst c (parse_str cs))"

definition int_part :: "string \<Rightarrow> (string \<times> string) option" where
  "int_part s = (case s of
     [] \<Rightarrow> None
   | c # r \<Rightarrow>
       if c = CHR ''0'' then Some ([c], r)
       else if is_digit c then Some (c # takeWhile is_digit r, dropWhile is_digit r)
       else None)"

definition frac_part :: "string \<Rightarrow> string \<times> string" where
  "frac_part s = (case s of
     c # r \<Rightarrow>
       if c = CHR ''.'' \<and> takeWhile is_digit r \<noteq> []
       then (c # takeWhile is_digit r, dropWhile is_digit r) else ([], s)
   | [] \<Rightarrow> ([], s))"

definition exp_sign :: "string \<Rightarrow> string \<times> string" where
  "exp_sign s = (case s of
     c # r \<Rightarrow> if c = CHR ''+'' \<or> c = CHR ''-'' then ([c], r) else ([], s)
   | [] \<Rightarrow> ([], s))"

definition exp_part :: "string \<Rightarrow> string \<times> string" where
  "exp_part s = (case s of
     c # r \<Rightarrow>
       if (c = CHR ''e'' \<or> c = CHR ''E'') \<and> takeWhile is_digit (snd (exp_sign r)) \<noteq> []
       then (c # fst (exp_sign r) @ takeWhile is_digit (snd (exp_sign r)),
             dropWhile is_digit (snd (exp_sign r)))
       else ([], s)
   | [] \<Rightarrow> ([], s))"

definition parse_num :: "string \<Rightarrow> (json \<times> string) option" where
  "parse_num s =
     (let neg = (take 1 s = ''-''); s1 = (if neg then tl s else s)
      in case int_part s1 of
           None \<Rightarrow> None
         | Some (ip, s2) \<Rightarrow>
             (let (fr, s3) = frac_part s2; (ex, s4) = exp_part s3
              in if fr = [] \<and> ex = []
                 then Some (JInt (if neg then - int (read_nat ip) else int (read_nat ip)), s4)
                 else Some (JFloat ((if neg then ''-'' else []) @ ip @ fr @ ex), s4)))"

definition strip :: "string \<Rightarrow> string \<Rightarrow> string option" where
  "strip w s = (if take (length w) s = w then Some (drop (length w) s) else None)"

definition json_words :: "(string \<times> json) list" where
  "json_words = [(''null'', JNull), (''true'', JBool True), (''false'', JBool False),
     (''NaN'', JUnserializable), (''Infinity'', JUnserializable), (''-Infinity'', JUnserializable)]"

fun parse_keyword :: "(string \<times> json) list \<Rightarrow> string \<Rightarrow> (json \<times> string) option" where
  "parse_keyword [] s = None"
| "parse_keyword ((w, v) # ks) s =
     (case strip w s of Some r \<Rightarrow> Some (v, r) | None \<Rightarrow> parse_keyword ks s)"

text \<open>
  A value at the head of the text, the elements of an array after its bracket, the members
  of an object after its brace. The first argument bounds the nesting; the length of the
  text is enough, since every recursive call has consumed a character.
\<close>

fun parse_val :: "nat \<Rightarrow> string \<Rightarrow> (json \<times> string) option"
  and parse_elems :: "nat \<Rightarrow> string \<Rightarrow> (json list \<times> string) option"
  and parse_members :: "nat \<Rightarrow> string \<Rightarrow> ((string \<times> json) list \<times> string) option" where
  "parse_val 0 s = None"
| "parse_val (Suc n) s =
     (case s of
        [] \<Rightarrow> None
      | c # r \<Rightarrow>
          if c = CHR 0x22 then map_option (\<lambda>(t, r'). (JStr t, r')) (parse_str r)
          else if c = CHR ''{'' then
            (if take 1 (skip_ws r) = ''}'' then Some (JObj [], tl (skip_ws r))
             else map_option (\<lambda>(kvs, r'). (JObj (mk_dict kvs), r')) (parse_members n (skip_ws r)))
          else if c = CHR ''['' then
            (if take 1 (skip_ws r) = '']'' then Some (JArr [], tl (skip_ws r))
             else map_option (\<lambda>(vs, r'). (JArr vs, r')) (parse_elems n (skip_ws r)))
          else (case parse_keyword json_words s of Some vr \<Rightarrow> Some vr | None \<Rightarrow> parse_num s))"
| "parse_elems 0 s = None"
| "parse_elems (Suc n) s =
     (case parse_val n s of
        None \<Rightarrow> None
      | Some (v, r) \<Rightarrow>
          (case skip_ws r of
             [] \<Rightarrow> None
           | c # r' \<Rightarrow>
               if c = CHR '']'' then Some ([v], r')
               else if c = CHR '','' then
                 map_option (\<lambda>(vs, r''). (v # vs, r'')) (parse_elems n (skip_ws r'))
               else None))"
| "parse_members 0 s = None"
| "parse_members (Suc n) s =
     (if take 1 s \<noteq> [CHR 0x22] then None
      else case parse_str (tl s) of
        None \<Rightarrow> None
      | Some (k, r) \<Rightarrow>
          if take 1 (skip_ws r) \<noteq> '':'' then None
          else case parse_val n (skip_ws (tl (skip_ws r))) of
            None \<Rightarrow> None
          | Some (v, r1) \<Rightarrow>
              (case skip_ws r1 of
                 [] \<Rightarrow> None
               | c # r' \<Rightarrow>
                   if c = CHR ''}'' then Some ([(k, v)], r')
                   else if c = CHR '','' then
                     map_option (\<lambda>(kvs, r''). ((k, v) # kvs, r'')) (parse_members n (skip_ws r'))
                   else None))"

definition loads :: "string \<Rightarrow> json option" where
  "loads s = (case parse_val (Suc (length s)) (skip_ws s) of
     None \<Rightarrow> None
   | Some (v, r) \<Rightarrow> if skip_ws r = [] then Some v else None)"

subsection \<open>Canonical values\<close>

text \<open>The text of a finite float is one the number parser reads back unchanged.\<close>

definition float_text :: "string \<Rightarrow> bool" where
  "float_text t \<longleftrightarrow> parse_num t = Some (JFloat t, [])"

fun canon :: "json \<Rightarrow> bool" where
  "canon (JFloat t) = float_text t"
| "canon (JArr vs) = (\<forall>v \<in> set vs. canon v)"
| "canon (JObj kvs) = (sorted_keys kvs \<and> (\<forall>kv \<in> set kvs. canon (snd kv)))"
| "canon JUnserializable = False"
| "canon v = True"

lemma canon_serializable: "canon v \<Longrightarrow> serializable v"
  by (induction v) auto

lemma canon_norm: "canon v \<Longrightarrow> norm_json v = v"
proof (induction v)
  case (JArr vs)
  then show ?case by (simp add: map_idI)
next
  case (JObj kvs)
  have "map (\<lambda>(k, v). (k, norm_json v)) kvs = kvs"
  proof (rule map_idI)
    fix kv assume "kv \<in> set kvs"
    with JObj show "(\<lambda>(k, v). (k, norm_json v)) kv = kv"
      by (cases kv) (force dest: JObj.IH)
  qed
  with JObj.prems show ?case by simp
qed simp_all

lemma dumps_canon: "canon v \<Longrightarrow> dumps v = Some (render v)"
  by (simp add: dumps_def canon_serializable canon_norm)

subsection \<open>Parsing a rendered value gives it back\<close>

text \<open>What may follow a value inside an array or an object, or at the end of the text.\<close>

definition delim :: "string \<Rightarrow> bool" where
  "delim r \<longleftrightarrow> (case r of [] \<Rightarrow> True | c # _ \<Rightarrow> c = CHR '','' \<or> c = CHR '']'' \<or> c = CHR ''}'')"

lemma hex_val_hex_char: "d < 16 \<Longrightarrow> hex_val (hex_char d) = Some d"
  by (auto simp: hex_val_def hex_char_def)

lemma hex4_low:
  assumes "(of_char c :: nat) < 32"
  shows "hex4 (CHR ''0'') (CHR ''0'') (hex_char (of_char c div 16)) (hex_char (of_char c mod 16)) = Some c"
proof -
  have z: "hex_val (CHR ''0'') = Some 0" by (simp add: hex_val_def)
  have "(of_char c :: nat) div 16 < 16" using assms by simp
  then show ?thesis
    using assms by (simp add: hex4_def z hex_val_hex_char)
qed

lemma parse_str_escape: "parse_str (escape_char c @ s) = cons_fst c (parse_str s)"
proof -
  consider "c \<in> {CHR 0x22, CHR 0x5C, CHR 0x0A, CHR 0x0D, CHR 0x09, CHR 0x0C, CHR 0x08}"
    | "c \<notin> {CHR 0x22, CHR 0x5C, CHR 0x0A, CHR 0x0D, CHR 0x09, CHR 0x0C, CHR 0x08}"
      "(of_char c :: nat) < 32"
    | "c \<notin> {CHR 0x22, CHR 0x5C, CHR 0x0A, CHR 0x0D, CHR 0x09, CHR 0x0C, CHR 0x08}"
      "\<not> (of_char c :: nat) < 32"
    by blast
  then show ?thesis
  proof cases
    case 1
    then show ?thesis by (auto simp: escape_char_def unescape_def)
  next
    case 2
    then show ?thesis by (simp add: escape_char_def hex4_low)
  next
    case 3
    then show ?thesis by (simp add: escape_char_def)
  qed
qed

lemma parse_str_escaped:
  "parse_str (concat (map escape_char s) @ CHR 0x22 # rest) = Some (s, rest)"
  by (induction s) (simp_all add: parse_str_escape cons_fst_def del: parse_str.simps(2), simp)

lemma parse_str_quote: "parse_str (tl (quote s) @ rest) = Some (s, rest)"
  using parse_str_escaped [of s rest] by (simp add: quote_def)

lemma not_digit_delim: "delim r \<Longrightarrow> r = [] \<or> \<not> is_digit (hd r)"
  by (auto simp: delim_def is_digit_def split: list.splits)

lemma takeWhile_digits_append:
  "delim rest \<Longrightarrow> takeWhile is_digit (s @ rest) = takeWhile is_digit s"
  by (induction s) (auto dest!: not_digit_delim simp: takeWhile_eq_Nil_iff)

lemma dropWhile_digits_append:
  "delim rest \<Longrightarrow> dropWhile is_digit (s @ rest) = dropWhile is_digit s @ rest"
  by (induction s) (auto dest!: not_digit_delim simp: dropWhile_eq_self_iff)

lemma int_part_append:
  "delim rest \<Longrightarrow> int_part s = Some (a, r) \<Longrightarrow> int_part (s @ rest) = Some (a, r @ rest)"
  by (auto simp: int_part_def takeWhile_digits_append dropWhile_digits_append
      split: list.splits if_splits)

lemma frac_part_append:
  "delim rest \<Longrightarrow> frac_part (s @ rest) = (fst (frac_part s), snd (frac_part s) @ rest)"
  by (cases s) (auto simp: frac_part_def takeWhile_digits_append dropWhile_digits_append delim_def
      split: list.splits)

lemma exp_sign_append:
  "delim rest \<Longrightarrow> exp_sign (s @ rest) = (fst (exp_sign s), snd (exp_sign s) @ rest)"
  by (cases s) (auto simp: exp_sign_def delim_def split: list.splits)

lemma exp_part_append:
  "delim rest \<Longrightarrow> exp_part (s @ rest) = (fst (exp_part s), snd (exp_part s) @ rest)"
  by (cases s) (auto simp: exp_part_def takeWhile_digits_append dropWhile_digits_append
      exp_sign_append delim_def split: list.splits)

lemma parse_num_append:
  assumes d: "delim rest" and p: "parse_num s = Some (v, r)"
  shows "parse_num (s @ rest) = Some (v, r @ rest)"
proof -
  have "s \<noteq> []" using p by (auto simp: parse_num_def int_part_def)
  then have "take 1 (s @ rest) = take 1 s" and "tl (s @ rest) = tl s @ rest"
    by (cases s; simp)+
  with p show ?thesis
    by (auto simp: parse_num_def Let_def int_part_append [OF d] frac_part_append [OF d]
        exp_part_append [OF d] split: option.splits prod.splits if_splits)
qed


lemma int_part_show_nat:
  assumes "delim rest"
  shows "int_part (show_nat n @ rest) = Some (show_nat n, rest)"
proof -
  obtain c s where cs: "show_nat n = c # s" by (cases "show_nat n") simp_all
  have dg: "is_digit c" "\<forall>x \<in> set s. is_digit x"
    using show_nat_digits [of _ n] by (auto simp: cs)
  have tw: "takeWhile is_digit (s @ rest) = s" "dropWhile is_digit (s @ rest) = rest"
    using dg(2) not_digit_delim [OF assms]
    by (cases rest; simp add: takeWhile_append2 dropWhile_append2)+
  show ?thesis
  proof (cases "c = CHR ''0''")
    case True
    then have "n = 0" using show_nat_hd_zero [of n] by (simp add: cs)
    then have "s = []" using cs by (simp add: show_nat_zero)
    with True show ?thesis by (simp add: cs int_part_def)
  next
    case False
    with dg tw show ?thesis by (simp add: cs int_part_def)
  qed
qed

lemma frac_part_delim: "delim r \<Longrightarrow> frac_part r = ([], r)"
  by (auto simp: frac_part_def delim_def split: list.splits)

lemma exp_part_delim: "delim r \<Longrightarrow> exp_part r = ([], r)"
  by (auto simp: exp_part_def delim_def split: list.splits)

lemma parse_num_show_int:
  assumes "delim rest"
  shows "parse_num (show_int i @ rest) = Some (JInt i, rest)"
proof (cases "i < 0")
  case True
  then show ?thesis
    by (simp add: show_int_def parse_num_def int_part_show_nat frac_part_delim exp_part_delim assms)
next
  case False
  obtain c s where cs: "show_nat (nat i) = c # s" by (cases "show_nat (nat i)") simp_all
  have "c \<noteq> CHR ''-''" using show_nat_no_dash [of "nat i"] by (auto simp: cs)
  with False show ?thesis
    using int_part_show_nat [OF assms, of "nat i"] cs read_show_nat [of "nat i"]
    by (simp add: show_int_def parse_num_def frac_part_delim exp_part_delim assms)
qed

text \<open>A text that starts with a number is not one of the words and opens no other value.\<close>

lemma parse_num_head:
  assumes "parse_num s = Some vr"
  shows "\<exists>c r. s = c # r \<and> (is_digit c \<or> c = CHR ''-'' \<and> r \<noteq> [] \<and> is_digit (hd r))"
proof -
  have "int_part (if take 1 s = ''-'' then tl s else s) \<noteq> None"
    using assms by (auto simp: parse_num_def Let_def split: option.splits prod.splits)
  then show ?thesis
    by (cases s; cases "tl s")
      (auto simp: int_part_def is_digit_def split: list.splits if_splits)
qed

lemma parse_val_num:
  assumes "parse_num s = Some vr"
  shows "parse_val (Suc n) s = Some vr"
proof -
  obtain c r where s: "s = c # r" and c: "is_digit c \<or> c = CHR ''-'' \<and> r \<noteq> [] \<and> is_digit (hd r)"
    using parse_num_head [OF assms] by blast
  have ne: "c \<noteq> CHR 0x22" "c \<noteq> CHR ''{''" "c \<noteq> CHR ''[''" "c \<noteq> CHR ''n''" "c \<noteq> CHR ''t''"
    "c \<noteq> CHR ''f''" "c \<noteq> CHR ''N''" "c \<noteq> CHR ''I''" 
    using c by (auto simp: is_digit_def)
  have "\<not> (c = CHR ''-'' \<and> take 1 r = ''I'')"
    using c by (cases r) (auto simp: is_digit_def)
  then have inf: "strip ''-Infinity'' s = None"
    by (cases r) (auto simp: strip_def s)
  have "parse_keyword json_words s = None"
    using ne inf by (simp add: json_words_def strip_def s)
  then show ?thesis using assms ne by (simp add: s)
qed

lemma skip_ws_id: "s \<noteq> [] \<Longrightarrow> \<not> is_ws (hd s) \<Longrightarrow> skip_ws s = s"
  by (cases s) (simp_all add: skip_ws_def)

definition value_head :: "string \<Rightarrow> bool" where
  "value_head s \<longleftrightarrow> (case s of [] \<Rightarrow> False
     | c # _ \<Rightarrow> \<not> is_ws c \<and> c \<noteq> CHR '']'' \<and> c \<noteq> CHR ''}'')"

lemma value_head_num: "parse_num s = Some vr \<Longrightarrow> value_head s"
  by (drule parse_num_head) (auto simp: value_head_def is_ws_def is_digit_def)

lemma value_head_render: "canon v \<Longrightarrow> value_head (render v)"
proof (cases v)
  case (JInt i)
  have "parse_num (render v) = Some (JInt i, [])"
    using parse_num_show_int [of "[]" i] by (simp add: JInt delim_def)
  then show ?thesis by (rule value_head_num)
next
  case (JFloat t)
  assume "canon v"
  then have "parse_num (render v) = Some (JFloat t, [])" by (simp add: JFloat float_text_def)
  then show ?thesis by (rule value_head_num)
qed (simp_all add: value_head_def is_ws_def quote_def)

lemma value_head_take1: "value_head s \<Longrightarrow> take 1 s \<noteq> '']'' \<and> take 1 s \<noteq> ''}''"
  by (cases s) (auto simp: value_head_def)

lemma value_head_append: "value_head s \<Longrightarrow> value_head (s @ r)"
  by (cases s) (simp_all add: value_head_def)

lemma value_head_skip [simp]: "value_head s \<Longrightarrow> skip_ws s = s"
  by (cases s) (simp_all add: value_head_def skip_ws_id)

lemma value_head_quote: "value_head (quote s @ r)"
  by (simp add: value_head_def quote_def is_ws_def)

lemma commas_Cons: "ss \<noteq> [] \<Longrightarrow> commas (s # ss) = s @ CHR '','' # commas ss"
  by (cases ss) simp_all

lemma commas_head: "ss \<noteq> [] \<Longrightarrow> value_head (hd ss) \<Longrightarrow> value_head (commas ss)"
  by (cases ss; cases "tl ss") (simp_all add: value_head_append)

lemma length_hd_commas: "s \<in> set ss \<Longrightarrow> length s \<le> length (commas ss)"
  by (induction ss rule: commas.induct) auto

text \<open>The arrays and the members of objects, given the property for the values in them.\<close>

definition reads_back :: "json \<Rightarrow> bool" where
  "reads_back v \<longleftrightarrow>
     (\<forall>n rest. delim rest \<longrightarrow> length (render v) \<le> n \<longrightarrow> parse_val n (render v @ rest) = Some (v, rest))"

lemma delim_Cons [simp]: "delim (CHR '','' # r)" "delim (CHR '']'' # r)" "delim (CHR ''}'' # r)"
  by (simp_all add: delim_def)

lemma delim_skip [simp]:
  "skip_ws (CHR '','' # r) = CHR '','' # r" "skip_ws (CHR '']'' # r) = CHR '']'' # r"
  "skip_ws (CHR ''}'' # r) = CHR ''}'' # r" "skip_ws (CHR '':'' # r) = CHR '':'' # r"
  by (simp_all add: skip_ws_def is_ws_def)

lemma parse_elems_render:
  "vs \<noteq> [] \<Longrightarrow> \<forall>v \<in> set vs. canon v \<and> reads_back v \<Longrightarrow> length (commas (map render vs)) < n \<Longrightarrow>
    parse_elems n (commas (map render vs) @ CHR '']'' # rest) = Some (vs, rest)"
proof (induction vs arbitrary: n)
  case (Cons v vs)
  obtain m where n: "n = Suc m" using Cons.prems(3) by (cases n) simp_all
  have len: "length (render v) \<le> m"
    using Cons.prems(3) length_hd_commas [of "render v" "map render (v # vs)"] by (simp add: n)
  have pv: "parse_val m (render v @ r) = Some (v, r)" if "delim r" for r
    using Cons.prems(2) len that by (simp add: reads_back_def)
  show ?case
  proof (cases "vs = []")
    case True
    then show ?thesis by (simp add: n pv)
  next
    case False
    have head: "value_head (commas (map render vs))"
      using False Cons.prems(2) by (auto intro!: commas_head value_head_render simp: hd_map)
    have "length (commas (map render vs)) < m"
      using Cons.prems(3) False by (simp add: n commas_Cons)
    then have "parse_elems m (commas (map render vs) @ CHR '']'' # rest) = Some (vs, rest)"
      using Cons False by simp
    with False head show ?thesis
      by (simp add: n commas_Cons pv value_head_append)
  qed
qed simp

abbreviation render_member :: "string \<times> json \<Rightarrow> string" where
  "render_member kv \<equiv> quote (fst kv) @ CHR '':'' # render (snd kv)"

lemma parse_members_render:
  "kvs \<noteq> [] \<Longrightarrow> \<forall>kv \<in> set kvs. canon (snd kv) \<and> reads_back (snd kv) \<Longrightarrow>
    length (commas (map render_member kvs)) < n \<Longrightarrow>
    parse_members n (commas (map render_member kvs) @ CHR ''}'' # rest) = Some (kvs, rest)"
proof (induction kvs arbitrary: n)
  case (Cons kv kvs)
  obtain k v where kv: "kv = (k, v)" by fastforce
  obtain m where n: "n = Suc m" using Cons.prems(3) by (cases n) simp_all
  have len: "length (render v) \<le> m"
    using Cons.prems(3) length_hd_commas [of "render_member kv" "map render_member (kv # kvs)"]
    by (simp add: n kv)
  have pv: "parse_val m (render v @ r) = Some (v, r)" if "delim r" for r
    using Cons.prems(2) len that by (simp add: reads_back_def kv)
  have vh: "value_head (render v @ r)" for r
    using Cons.prems(2) by (simp add: kv value_head_append value_head_render)
  have q: "quote k @ r = CHR 0x22 # tl (quote k) @ r" for r by (simp add: quote_def)
  have step: "parse_members (Suc m) (quote k @ CHR '':'' # render v @ c # r) =
      (if c = CHR ''}'' then Some ([(k, v)], r)
       else map_option (\<lambda>(kvs, r'). ((k, v) # kvs, r')) (parse_members m (skip_ws r)))"
    if "c = CHR ''}'' \<or> c = CHR '',''" for c r
    using that by (subst q) (auto simp: parse_str_quote pv vh)
  show ?case
  proof (cases "kvs = []")
    case True
    then show ?thesis using step [of "CHR ''}''" rest] by (simp add: n kv)
  next
    case False
    have head: "value_head (commas (map render_member kvs))"
      using False by (auto intro!: commas_head value_head_quote simp: hd_map)
    have "length (commas (map render_member kvs)) < m"
      using Cons.prems(3) False by (simp add: n commas_Cons)
    then have "parse_members m (commas (map render_member kvs) @ CHR ''}'' # rest) = Some (kvs, rest)"
      using Cons False by simp
    with False head show ?thesis
      using step [of "CHR '',''" "commas (map render_member kvs) @ CHR ''}'' # rest"]
      by (simp add: n kv commas_Cons value_head_append)
  qed
qed simp

lemma parse_val_str: "parse_val (Suc n) (quote s @ rest) = Some (JStr s, rest)"
proof -
  have "quote s @ rest = CHR 0x22 # tl (quote s) @ rest" by (simp add: quote_def)
  then show ?thesis by (simp only: parse_val.simps) (simp add: parse_str_quote)
qed

lemma parse_val_words:
  "parse_val (Suc n) (''null'' @ rest) = Some (JNull, rest)"
  "parse_val (Suc n) (''true'' @ rest) = Some (JBool True, rest)"
  "parse_val (Suc n) (''false'' @ rest) = Some (JBool False, rest)"
  by (simp_all add: json_words_def strip_def)

lemma reads_back_SucI:
  assumes "render v \<noteq> []"
    and "\<And>m rest. delim rest \<Longrightarrow> length (render v) \<le> Suc m \<Longrightarrow>
      parse_val (Suc m) (render v @ rest) = Some (v, rest)"
  shows "reads_back v"
  unfolding reads_back_def
proof (intro allI impI)
  fix n rest assume "delim rest" "length (render v) \<le> n"
  moreover from this assms(1) obtain m where "n = Suc m" by (cases n) simp_all
  ultimately show "parse_val n (render v @ rest) = Some (v, rest)" using assms(2) by simp
qed

lemma parse_val_arr:
  "take 1 (skip_ws r) \<noteq> '']'' \<Longrightarrow> parse_elems n (skip_ws r) = Some (vs, r') \<Longrightarrow>
    parse_val (Suc n) (CHR ''['' # r) = Some (JArr vs, r')"
  by simp

lemma parse_val_obj:
  "take 1 (skip_ws r) \<noteq> ''}'' \<Longrightarrow> parse_members n (skip_ws r) = Some (kvs, r') \<Longrightarrow>
    parse_val (Suc n) (CHR ''{'' # r) = Some (JObj (mk_dict kvs), r')"
  by simp

lemma parse_val_empty:
  "parse_val (Suc n) (CHR ''['' # CHR '']'' # r) = Some (JArr [], r)"
  "parse_val (Suc n) (CHR ''{'' # CHR ''}'' # r) = Some (JObj [], r)"
  by simp_all

declare parse_val.simps [simp del] parse_elems.simps [simp del] parse_members.simps [simp del]

lemma render_members: "map (\<lambda>(k, v). quote k @ CHR '':'' # render v) kvs = map render_member kvs"
  by (simp add: case_prod_unfold)

lemma canon_reads_back: "canon v \<Longrightarrow> reads_back v"
proof (induction v)
  case JNull
  show ?case by (rule reads_back_SucI) (simp_all only: render.simps parse_val_words, simp)
next
  case (JBool b)
  show ?case by (rule reads_back_SucI; cases b) (simp_all only: render.simps parse_val_words if_True if_False, simp_all)
next
  case (JInt i)
  show ?case
    by (rule reads_back_SucI) (simp_all add: parse_val_num [OF parse_num_show_int])
next
  case (JFloat t)
  then have t: "parse_num t = Some (JFloat t, [])" by (simp add: float_text_def)
  have "parse_val (Suc m) (t @ rest) = Some (JFloat t, rest)" if "delim rest" for m rest
    using parse_num_append [OF that t] by (simp add: parse_val_num)
  moreover have "t \<noteq> []" using parse_num_head [OF t] by auto
  ultimately show ?case by (intro reads_back_SucI) (simp_all)
next
  case (JStr s)
  show ?case by (rule reads_back_SucI) (simp_all add: parse_val_str, simp add: quote_def)
next
  case (JArr vs)
  show ?case
  proof (rule reads_back_SucI)
    fix m rest assume n: "length (render (JArr vs)) \<le> Suc m"
    show "parse_val (Suc m) (render (JArr vs) @ rest) = Some (JArr vs, rest)"
    proof (cases "vs = []")
      case False
      have h: "value_head (commas (map render vs) @ r)" for r
        using False JArr.prems
        by (intro value_head_append commas_head) (simp_all add: hd_map value_head_render)
      have nb: "take 1 (commas (map render vs) @ r) \<noteq> '']''" for r
        using value_head_take1 [OF h] by simp
      have pe: "parse_elems m (commas (map render vs) @ CHR '']'' # rest) = Some (vs, rest)"
        using JArr False n by (intro parse_elems_render) auto
      show ?thesis using h nb pe by (simp add: parse_val_arr)
    qed (simp add: parse_val_empty)
  qed simp
next
  case (JObj kvs)
  show ?case
  proof (rule reads_back_SucI)
    fix m rest assume n: "length (render (JObj kvs)) \<le> Suc m"
    show "parse_val (Suc m) (render (JObj kvs) @ rest) = Some (JObj kvs, rest)"
    proof (cases "kvs = []")
      case False
      have h: "value_head (commas (map render_member kvs) @ r)" for r
        using False by (intro value_head_append commas_head) (simp_all add: hd_map value_head_quote)
      have nb: "take 1 (commas (map render_member kvs) @ r) \<noteq> ''}''" for r
        using value_head_take1 [OF h] by simp
      have ih: "\<forall>kv \<in> set kvs. canon (snd kv) \<and> reads_back (snd kv)"
      proof
        fix kv assume "kv \<in> set kvs"
        moreover have "snd kv \<in> Basic_BNFs.snds kv" by (simp add: snds.simps)
        ultimately show "canon (snd kv) \<and> reads_back (snd kv)"
          using JObj.IH [of kv "snd kv"] JObj.prems by simp
      qed
      have pm: "parse_members m (commas (map render_member kvs) @ CHR ''}'' # rest) = Some (kvs, rest)"
        using False n by (intro parse_members_render [OF False ih]) (simp add: render_members)
      show ?thesis using h nb pm JObj.prems by (simp add: parse_val_obj render_members)
    qed (simp add: parse_val_empty)
  qed simp
qed simp

lemma loads_render:
  assumes "canon v"
  shows "loads (render v) = Some v"
proof -
  have "delim []" by (simp add: delim_def)
  moreover have "length (render v) \<le> Suc (length (render v))" by simp
  ultimately have "parse_val (Suc (length (render v))) (render v @ []) = Some (v, [])"
    using canon_reads_back [OF assms] unfolding reads_back_def by blast
  then show ?thesis
    using value_head_render [OF assms] by (simp add: loads_def skip_ws_def [of "[]"])
qed

subsection \<open>Everything the parser returns is canonical\<close>

lemma digits_split:
  assumes "\<forall>c \<in> set ds. is_digit c" and "r = [] \<or> \<not> is_digit (hd r)"
  shows "takeWhile is_digit (ds @ r) = ds" and "dropWhile is_digit (ds @ r) = r"
  using assms by (cases r; simp add: takeWhile_append2 dropWhile_append2)+

lemma takeWhile_digits: "\<forall>c \<in> set (takeWhile is_digit s). is_digit c"
  by (blast dest: set_takeWhileD)

lemma dropWhile_digits: "dropWhile is_digit s = [] \<or> \<not> is_digit (hd (dropWhile is_digit s))"
  using hd_dropWhile [of is_digit s] by blast

lemma int_part_Some:
  assumes "int_part s = Some (ip, r)" and "r' = [] \<or> \<not> is_digit (hd r')"
  shows "int_part (ip @ r') = Some (ip, r')"
  using assms
  by (auto simp: int_part_def digits_split [OF takeWhile_digits assms(2)]
      split: list.splits if_splits dest: set_takeWhileD)

definition frac_text :: "string \<Rightarrow> bool" where
  "frac_text f \<longleftrightarrow> f = [] \<or> (\<exists>ds. f = CHR ''.'' # ds \<and> ds \<noteq> [] \<and> (\<forall>c \<in> set ds. is_digit c))"

definition exp_text :: "string \<Rightarrow> bool" where
  "exp_text e \<longleftrightarrow> e = [] \<or> (\<exists>c sg ds. e = c # sg @ ds \<and> (c = CHR ''e'' \<or> c = CHR ''E'') \<and>
     (sg = [] \<or> sg = ''+'' \<or> sg = ''-'') \<and> ds \<noteq> [] \<and> (\<forall>c \<in> set ds. is_digit c))"

lemma frac_part_text: "frac_text (fst (frac_part s))"
  using takeWhile_digits by (auto simp: frac_part_def frac_text_def split: list.splits)

lemma exp_sign_text: "fst (exp_sign r) = [] \<or> fst (exp_sign r) = ''+'' \<or> fst (exp_sign r) = ''-''"
  by (auto simp: exp_sign_def split: list.splits)

lemma exp_part_text: "exp_text (fst (exp_part s))"
proof (cases s)
  case (Cons c r)
  show ?thesis
  proof (cases "(c = CHR ''e'' \<or> c = CHR ''E'') \<and> takeWhile is_digit (snd (exp_sign r)) \<noteq> []")
    case True
    then show ?thesis
      using exp_sign_text [of r] takeWhile_digits [of "snd (exp_sign r)"]
      by (auto simp: exp_part_def exp_text_def Cons)
  qed (auto simp: exp_part_def exp_text_def Cons)
qed (simp add: exp_part_def exp_text_def)

lemma exp_text_head: "exp_text e \<Longrightarrow> e = [] \<or> \<not> is_digit (hd e) \<and> hd e \<noteq> CHR ''.''"
  by (auto simp: exp_text_def is_digit_def)

lemma frac_part_of_text:
  assumes "frac_text f" and "exp_text e"
  shows "frac_part (f @ e) = (f, e)"
proof (cases "f = []")
  case True
  then show ?thesis using exp_text_head [OF assms(2)] by (auto simp: frac_part_def split: list.splits)
next
  case False
  then obtain ds where ds: "f = CHR ''.'' # ds" "ds \<noteq> []" "\<forall>c \<in> set ds. is_digit c"
    using assms(1) by (auto simp: frac_text_def)
  have "e = [] \<or> \<not> is_digit (hd e)" using exp_text_head [OF assms(2)] by blast
  then show ?thesis using ds digits_split [OF ds(3)] by (simp add: frac_part_def)
qed

lemma exp_part_of_text: "exp_text e \<Longrightarrow> exp_part e = (e, [])"
proof -
  assume "exp_text e"
  then consider "e = []" | c sg ds where "e = c # sg @ ds" "c = CHR ''e'' \<or> c = CHR ''E''"
      "sg = [] \<or> sg = ''+'' \<or> sg = ''-''" "ds \<noteq> []" "\<forall>c \<in> set ds. is_digit c"
    by (auto simp: exp_text_def)
  then show ?thesis
  proof cases
    case 2
    have "exp_sign (sg @ ds) = (sg, ds)"
      using 2(3-5) by (cases ds) (auto simp: exp_sign_def is_digit_def)
    moreover have tk: "takeWhile is_digit ds = ds" "dropWhile is_digit ds = []"
      using digits_split [OF 2(5), of "[]"] by simp_all
    moreover have "takeWhile is_digit ds \<noteq> []" by (simp only: tk 2(4) not_False_eq_True)
    ultimately show ?thesis using 2(1-4) by (auto simp: exp_part_def)
  qed (simp add: exp_part_def)
qed

lemma parse_num_canon:
  assumes "parse_num s = Some (v, r)"
  shows "canon v"
proof -
  define neg where "neg = (take 1 s = ''-'')"
  obtain ip s2 where ip: "int_part (if neg then tl s else s) = Some (ip, s2)"
    using assms by (auto simp: parse_num_def Let_def neg_def split: option.splits)
  define fr where "fr = fst (frac_part s2)"
  define ex where "ex = fst (exp_part (snd (frac_part s2)))"
  define t where "t = (if neg then ''-'' else []) @ ip @ fr @ ex"
  show ?thesis
  proof (cases "fr = [] \<and> ex = []")
    case True
    then show ?thesis
      using assms ip by (auto simp: parse_num_def Let_def neg_def fr_def ex_def split: prod.splits)
  next
    case False
    then have v: "v = JFloat t"
      using assms ip by (auto simp: parse_num_def Let_def neg_def fr_def ex_def t_def split: prod.splits)
    have tx: "frac_text fr" "exp_text ex" by (simp_all add: fr_def ex_def frac_part_text exp_part_text)
    have "fr @ ex = [] \<or> \<not> is_digit (hd (fr @ ex))"
      using tx exp_text_head [OF tx(2)] by (auto simp: frac_text_def is_digit_def)
    then have i: "int_part (ip @ fr @ ex) = Some (ip, fr @ ex)" by (rule int_part_Some [OF ip])
    have "ip \<noteq> [] \<and> hd ip \<noteq> CHR ''-''"
      using ip by (auto simp: int_part_def is_digit_def split: list.splits if_splits)
    then have "take 1 (ip @ fr @ ex) \<noteq> ''-''" by (cases ip) simp_all
    then have "parse_num t = Some (JFloat t, [])"
      using False i by (auto simp: parse_num_def t_def frac_part_of_text [OF tx] exp_part_of_text [OF tx(2)])
    then show ?thesis by (simp add: v float_text_def)
  qed
qed

lemma parse_keyword_canon:
  "parse_keyword json_words s = Some (v, r) \<Longrightarrow> v \<noteq> JUnserializable \<Longrightarrow> canon v"
  by (auto simp: json_words_def split: option.splits)

lemma set_dict_put_subset: "set (dict_put k v d) \<subseteq> insert (k, v) (set d)"
  by (induction k v d rule: dict_put.induct) auto

lemma set_mk_dict_subset: "set (mk_dict kvs) \<subseteq> set kvs"
proof (induction kvs rule: rev_induct)
  case (snoc kv kvs)
  then show ?case using set_dict_put_subset [of "fst kv" "snd kv" "mk_dict kvs"]
    by (cases kv) (auto simp: mk_dict_snoc)
qed (simp add: mk_dict_def)

fun valid_json :: "json \<Rightarrow> bool" where
  "valid_json (JFloat t) = float_text t"
| "valid_json (JArr vs) = (\<forall>v \<in> set vs. valid_json v)"
| "valid_json (JObj kvs) = (sorted_keys kvs \<and> (\<forall>kv \<in> set kvs. valid_json (snd kv)))"
| "valid_json v = True"

lemma canon_iff: "canon v \<longleftrightarrow> valid_json v \<and> serializable v"
proof (induction v)
  case (JObj kvs)
  have "canon (snd kv) \<longleftrightarrow> valid_json (snd kv) \<and> serializable (snd kv)" if "kv \<in> set kvs" for kv
    using JObj [OF that, of "snd kv"] by (simp add: snds.simps)
  then show ?case by auto
qed auto

lemma parse_valid:
  "parse_val n s = Some (v, r) \<Longrightarrow> valid_json v"
  "parse_elems n s = Some (vs, r) \<Longrightarrow> \<forall>v \<in> set vs. valid_json v"
  "parse_members n s = Some (kvs, r) \<Longrightarrow> \<forall>kv \<in> set kvs. valid_json (snd kv)"
proof (induction n s and n s and n s arbitrary: v r and vs r and kvs r
    rule: parse_val_parse_elems_parse_members.induct)
  case (6 n s)
  from "6.prems" obtain k r0 v r1 c r' where q: "take 1 s = [CHR 0x22]" "parse_str (tl s) = Some (k, r0)"
      "take 1 (skip_ws r0) = '':''" "parse_val n (skip_ws (tl (skip_ws r0))) = Some (v, r1)"
      "skip_ws r1 = c # r'"
    by (auto simp: parse_members.simps split: list.splits if_splits option.splits)
  have v: "valid_json v" using "6.IH"(1) q by simp
  from "6.prems" q consider "kvs = [(k, v)]"
    | kvs' where "c = CHR '',''" "parse_members n (skip_ws r') = Some (kvs', r)" "kvs = (k, v) # kvs'"
    by (auto simp: parse_members.simps split: if_splits)
  then show ?case
  proof cases
    case 2
    with "6.IH"(2) q v show ?thesis by simp
  qed (simp add: v)
next
  case (2 n s)
  from "2.prems" obtain c t where s: "s = c # t" by (cases s) (simp_all add: parse_val.simps)
  consider "c = CHR 0x22" | "c = CHR ''{''" | "c = CHR ''[''"
    | "c \<noteq> CHR 0x22" "c \<noteq> CHR ''{''" "c \<noteq> CHR ''[''" by blast
  then show ?case
  proof cases
    case 1
    with "2.prems" show ?thesis by (auto simp: parse_val.simps s)
  next
    case 2
    with "2.prems" consider "v = JObj []"
      | kvs where "take 1 (skip_ws t) \<noteq> ''}''" "parse_members n (skip_ws t) = Some (kvs, r)" "v = JObj (mk_dict kvs)"
      by (auto simp: parse_val.simps s split: if_splits)
    then show ?thesis
    proof cases
      case (2 kvs)
      with \<open>c = CHR ''{''\<close> "2.IH"(1) [OF s] have "\<forall>kv \<in> set kvs. valid_json (snd kv)" by simp
      with 2 set_mk_dict_subset [of kvs] show ?thesis by auto
    qed simp
  next
    case 3
    with "2.prems" consider "v = JArr []"
      | vs where "take 1 (skip_ws t) \<noteq> '']''" "parse_elems n (skip_ws t) = Some (vs, r)" "v = JArr vs"
      by (auto simp: parse_val.simps s split: if_splits)
    then show ?thesis
    proof cases
      case (2 vs)
      with \<open>c = CHR ''[''\<close> "2.IH"(2) [OF s] show ?thesis by simp
    qed simp
  next
    case 4
    with "2.prems" have "parse_keyword json_words s = Some (v, r) \<or> parse_num s = Some (v, r)"
      by (auto simp: parse_val.simps s split: option.splits)
    then show ?thesis
      using parse_num_canon [of s v r] parse_keyword_canon [of s v r] by (cases "v = JUnserializable") (auto simp: canon_iff)
  qed
qed (auto simp: parse_val.simps parse_elems.simps parse_members.simps
    split: list.splits if_splits option.splits)

lemma loads_canon: "loads s = Some v \<Longrightarrow> serializable v \<Longrightarrow> canon v"
  by (auto simp: loads_def canon_iff split: option.splits if_splits dest: parse_valid(1))

text \<open>From here on texts stay folded: \<open>loads_render\<close> reads them back.\<close>

declare render.simps [simp del] canon.simps(3) [simp del] norm_json.simps(2) [simp del]

lemmas canon_obj = canon.simps(3)

end
