(* ===== verification/PyTime.thy ===== *)
theory PyTime
  imports Prelude "HOL-Library.Monad_Syntax"
begin

section \<open>Timestamps\<close>

text \<open>
  The timestamps of events: Python \<open>datetime\<close> values with an optional UTC offset in whole
  minutes, \<open>isoformat\<close>, and \<open>fromisoformat\<close> on the texts \<open>isoformat\<close> writes
  (the only ones the event store reads back).
\<close>

record datetime =
  year :: nat
  month :: nat
  day :: nat
  hour :: nat
  minute :: nat
  second :: nat
  microsecond :: nat
  utcoffset :: "int option"

definition leap_year :: "nat \<Rightarrow> bool" where
  "leap_year y \<longleftrightarrow> y mod 4 = 0 \<and> (y mod 100 \<noteq> 0 \<or> y mod 400 = 0)"

definition days_in_month :: "nat \<Rightarrow> nat \<Rightarrow> nat" where
  "days_in_month y m =
     (if m = 2 then (if leap_year y then 29 else 28)
      else if m \<in> {4, 6, 9, 11} then 30 else 31)"

text \<open>The range checks of the \<open>datetime\<close> constructor: every Python value satisfies them.\<close>

definition valid_datetime :: "datetime \<Rightarrow> bool" where
  "valid_datetime d \<longleftrightarrow>
     1 \<le> year d \<and> year d \<le> 9999 \<and> 1 \<le> month d \<and> month d \<le> 12 \<and>
     1 \<le> day d \<and> day d \<le> days_in_month (year d) (month d) \<and>
     hour d < 24 \<and> minute d < 60 \<and> second d < 60 \<and> microsecond d < 1000000 \<and>
     (case utcoffset d of None \<Rightarrow> True | Some z \<Rightarrow> \<bar>z\<bar> < 1440)"

subsection \<open>isoformat\<close>

definition pad :: "nat \<Rightarrow> nat \<Rightarrow> string" where
  "pad n k = replicate (n - length (show_nat k)) (CHR ''0'') @ show_nat k"

definition iso_offset :: "int option \<Rightarrow> string" where
  "iso_offset z = (case z of
     None \<Rightarrow> []
   | Some m \<Rightarrow> (if m < 0 then ''-'' else ''+'') @
       pad 2 (nat \<bar>m\<bar> div 60) @ '':'' @ pad 2 (nat \<bar>m\<bar> mod 60))"

definition isoformat :: "datetime \<Rightarrow> string" where
  "isoformat d =
     pad 4 (year d) @ ''-'' @ pad 2 (month d) @ ''-'' @ pad 2 (day d) @ ''T'' @
     pad 2 (hour d) @ '':'' @ pad 2 (minute d) @ '':'' @ pad 2 (second d) @
     (if microsecond d = 0 then [] else ''.'' @ pad 6 (microsecond d)) @
     iso_offset (utcoffset d)"

subsection \<open>fromisoformat\<close>

definition take_num :: "nat \<Rightarrow> string \<Rightarrow> (nat \<times> string) option" where
  "take_num n s =
     (if n \<le> length s \<and> list_all is_digit (take n s)
      then Some (read_nat (take n s), drop n s) else None)"

definition take_lit :: "char \<Rightarrow> string \<Rightarrow> string option" where
  "take_lit c s = (case s of [] \<Rightarrow> None | d # r \<Rightarrow> if d = c then Some r else None)"

definition take_micro :: "string \<Rightarrow> (nat \<times> string) option" where
  "take_micro s = (case take_lit (CHR ''.'') s of None \<Rightarrow> Some (0, s) | Some r \<Rightarrow> take_num 6 r)"

definition take_offset :: "string \<Rightarrow> int option option" where
  "take_offset s =
     (case s of
        [] \<Rightarrow> Some None
      | c # r \<Rightarrow>
          if c = CHR ''+'' \<or> c = CHR ''-'' then
            do {
              (h, r1) \<leftarrow> take_num 2 r;
              r2 \<leftarrow> take_lit (CHR '':'') r1;
              (m, r3) \<leftarrow> take_num 2 r2;
              if r3 = [] then
                Some (Some (if c = CHR ''-'' then - int (h * 60 + m) else int (h * 60 + m)))
              else None }
          else None)"

definition fromisoformat :: "string \<Rightarrow> datetime option" where
  "fromisoformat s = do {
     (y, s) \<leftarrow> take_num 4 s; s \<leftarrow> take_lit (CHR ''-'') s;
     (mo, s) \<leftarrow> take_num 2 s; s \<leftarrow> take_lit (CHR ''-'') s;
     (d, s) \<leftarrow> take_num 2 s; s \<leftarrow> take_lit (CHR ''T'') s;
     (h, s) \<leftarrow> take_num 2 s; s \<leftarrow> take_lit (CHR '':'') s;
     (mi, s) \<leftarrow> take_num 2 s; s \<leftarrow> take_lit (CHR '':'') s;
     (sec, s) \<leftarrow> take_num 2 s;
     (us, s) \<leftarrow> take_micro s;
     z \<leftarrow> take_offset s;
     let t = \<lparr>year = y, month = mo, day = d, hour = h, minute = mi, second = sec,
               microsecond = us, utcoffset = z\<rparr>;
     if valid_datetime t then Some t else None }"

subsection \<open>Round trip\<close>

lemma length_show_nat: "k < 10 ^ n \<Longrightarrow> 0 < n \<Longrightarrow> length (show_nat k) \<le> n"
proof (induction n arbitrary: k)
  case (Suc n)
  show ?case
  proof (cases "k < 10")
    case True
    then show ?thesis by (simp add: show_nat.simps [of k])
  next
    case False
    with Suc.prems have "0 < n" by (cases n) auto
    moreover have "k div 10 < 10 ^ n" using Suc.prems(1) by (simp add: less_mult_imp_div_less)
    ultimately show ?thesis using Suc.IH [of "k div 10"] False by (simp add: show_nat.simps [of k])
  qed
qed simp

lemma is_digit_zero [simp]: "is_digit (CHR ''0'')"
  by (simp add: is_digit_def)

lemma pad_digits: "list_all is_digit (pad n k)"
  by (auto simp: pad_def list_all_iff dest: show_nat_digits)

lemma length_pad: "k < 10 ^ n \<Longrightarrow> 0 < n \<Longrightarrow> length (pad n k) = n"
  using length_show_nat [of k n] by (simp add: pad_def)

lemma read_nat_zeros: "read_nat (replicate n (CHR ''0'') @ s) = read_nat s"
  by (induction n) (simp_all add: read_nat_def char_digit_def)

lemma read_nat_pad: "read_nat (pad n k) = k"
  by (simp add: pad_def read_nat_zeros)

lemma take_num_pad: "k < 10 ^ n \<Longrightarrow> 0 < n \<Longrightarrow> take_num n (pad n k @ r) = Some (k, r)"
  by (simp add: take_num_def length_pad pad_digits read_nat_pad)

lemma take_lit_same [simp]: "take_lit c (c # r) = Some r"
  by (simp add: take_lit_def)

lemma take_offset_iso:
  assumes "case z of None \<Rightarrow> True | Some m \<Rightarrow> \<bar>m\<bar> < 1440"
  shows "take_offset (iso_offset z) = Some z"
proof (cases z)
  case (Some m)
  define a where "a = nat \<bar>m\<bar>"
  have "a < 1440" using assms Some by (simp add: a_def)
  then have "a div 60 < 10 ^ 2" "a mod 60 < 10 ^ 2" by simp_all
  then have tn: "take_num 2 (pad 2 (a div 60) @ r) = Some (a div 60, r)"
      "take_num 2 (pad 2 (a mod 60)) = Some (a mod 60, [])" for r
    using take_num_pad [of "a mod 60" 2 "[]"] by (simp_all add: take_num_pad)
  have "a div 60 * 60 + a mod 60 = a" by simp
  then have "int (a div 60 * 60 + a mod 60) = \<bar>m\<bar>" by (simp only: a_def) simp
  then show ?thesis
    by (simp add: take_offset_def iso_offset_def Some tn a_def [symmetric] del: of_nat_add of_nat_mult)
qed (simp add: take_offset_def iso_offset_def)

lemma take_micro_iso:
  assumes "us < 1000000"
  shows "take_micro ((if us = 0 then [] else ''.'' @ pad 6 us) @ iso_offset z) = Some (us, iso_offset z)"
proof -
  have "take_lit (CHR ''.'') (iso_offset z) = None"
    by (simp add: take_lit_def iso_offset_def split: option.splits)
  with assms show ?thesis by (simp add: take_micro_def take_num_pad)
qed

lemma fromisoformat_isoformat:
  assumes v: "valid_datetime d"
  shows "fromisoformat (isoformat d) = Some d"
proof -
  have days: "days_in_month y m \<le> 31" for y m by (simp add: days_in_month_def)
  have b: "year d < 10 ^ 4" "month d < 10 ^ 2" "day d < 10 ^ 2" "hour d < 10 ^ 2"
      "minute d < 10 ^ 2" "second d < 10 ^ 2" "microsecond d < 1000000"
      "case utcoffset d of None \<Rightarrow> True | Some z \<Rightarrow> \<bar>z\<bar> < 1440"
    using v days [of "year d" "month d"] by (auto simp: valid_datetime_def)
  define R where "R = (if microsecond d = 0 then [] else ''.'' @ pad 6 (microsecond d)) @
    iso_offset (utcoffset d)"
  have R: "take_micro R = Some (microsecond d, iso_offset (utcoffset d))"
    unfolding R_def by (rule take_micro_iso [OF b(7)])
  have ok: "valid_datetime \<lparr>year = year d, month = month d, day = day d, hour = hour d,
      minute = minute d, second = second d, microsecond = microsecond d, utcoffset = utcoffset d\<rparr>"
    using v by (simp add: valid_datetime_def)
  show ?thesis
    using b ok by (simp add: fromisoformat_def isoformat_def R_def [symmetric] R take_num_pad
        take_offset_iso Let_def del: append_assoc)
qed

end
