(* ===== verification/Events.thy ===== *)
theory Events
  imports Json PyTime
begin

section \<open>Execution events (domain/events.py)\<close>

text \<open>
  The event types, the event record with the checks of its constructor, the canonical
  payload text, and the fingerprint.
\<close>

datatype EventType =
    RUN_CREATED | RUN_STARTED | RUN_PAUSED | RUN_RESUMED | RUN_CANCELLED
  | RUN_STEP_BUDGET_EXHAUSTED
  | MODEL_ACTION_REQUESTED | MODEL_ACTION_PROPOSED | MODEL_ACTION_FAILED
  | COMPLETION_ACCEPTED | COMPLETION_REJECTED
  | TOOL_REQUESTED | TOOL_AUTHORIZED | TOOL_ESCALATED | TOOL_DENIED
  | GATE_APPROVED | GATE_REJECTED | GATE_EVALUATED | GATE_REVISED
  | TOOL_STARTED | TOOL_SUCCEEDED | TOOL_FAILED | TOOL_TIMED_OUT
  | VERIFICATION_SUCCEEDED | VERIFICATION_FAILED

fun type_value :: "EventType \<Rightarrow> string" where
  "type_value RUN_CREATED = ''run.created''"
| "type_value RUN_STARTED = ''run.started''"
| "type_value RUN_PAUSED = ''run.paused''"
| "type_value RUN_RESUMED = ''run.resumed''"
| "type_value RUN_CANCELLED = ''run.cancelled''"
| "type_value RUN_STEP_BUDGET_EXHAUSTED = ''run.step_budget_exhausted''"
| "type_value MODEL_ACTION_REQUESTED = ''model.action_requested''"
| "type_value MODEL_ACTION_PROPOSED = ''model.action_proposed''"
| "type_value MODEL_ACTION_FAILED = ''model.action_failed''"
| "type_value COMPLETION_ACCEPTED = ''completion.accepted''"
| "type_value COMPLETION_REJECTED = ''completion.rejected''"
| "type_value TOOL_REQUESTED = ''tool.requested''"
| "type_value TOOL_AUTHORIZED = ''tool.authorized''"
| "type_value TOOL_ESCALATED = ''tool.escalated''"
| "type_value TOOL_DENIED = ''tool.denied''"
| "type_value GATE_APPROVED = ''gate.approved''"
| "type_value GATE_REJECTED = ''gate.rejected''"
| "type_value GATE_EVALUATED = ''gate.evaluated''"
| "type_value GATE_REVISED = ''gate.revised''"
| "type_value TOOL_STARTED = ''tool.started''"
| "type_value TOOL_SUCCEEDED = ''tool.succeeded''"
| "type_value TOOL_FAILED = ''tool.failed''"
| "type_value TOOL_TIMED_OUT = ''tool.timed_out''"
| "type_value VERIFICATION_SUCCEEDED = ''verification.succeeded''"
| "type_value VERIFICATION_FAILED = ''verification.failed''"

definition all_event_types :: "EventType list" where
  "all_event_types =
     [RUN_CREATED, RUN_STARTED, RUN_PAUSED, RUN_RESUMED, RUN_CANCELLED,
      RUN_STEP_BUDGET_EXHAUSTED, MODEL_ACTION_REQUESTED, MODEL_ACTION_PROPOSED,
      MODEL_ACTION_FAILED, COMPLETION_ACCEPTED, COMPLETION_REJECTED, TOOL_REQUESTED,
      TOOL_AUTHORIZED, TOOL_ESCALATED, TOOL_DENIED, GATE_APPROVED, GATE_REJECTED,
      GATE_EVALUATED, GATE_REVISED, TOOL_STARTED, TOOL_SUCCEEDED, TOOL_FAILED,
      TOOL_TIMED_OUT, VERIFICATION_SUCCEEDED, VERIFICATION_FAILED]"

text \<open>\<open>EventType(text)\<close>: the member with this value, or \<open>ValueError\<close>.\<close>

definition parse_type :: "string \<Rightarrow> EventType option" where
  "parse_type t = map_of (map (\<lambda>k. (type_value k, k)) all_event_types) t"

lemma parse_type_value [simp]: "parse_type (type_value k) = Some k"
  by (cases k) (simp_all add: parse_type_def all_event_types_def)

lemma type_value_inj [simp]: "type_value j = type_value k \<longleftrightarrow> j = k"
  by (metis option.inject parse_type_value)

subsection \<open>The event and its constructor\<close>

record ExecutionEvent =
  ev_event_id :: string
  ev_run_id :: string
  ev_sequence :: int
  ev_event_type :: EventType
  ev_occurred_at :: datetime
  ev_payload_json :: string

definition canonical_payload :: "payload \<Rightarrow> string result" where
  "canonical_payload p =
     (case dumps (JObj p) of None \<Rightarrow> Inl EventValidationError | Some t \<Rightarrow> Inr t)"

definition event_post_init :: "ExecutionEvent \<Rightarrow> ExecutionEvent result" where
  "event_post_init e =
     ensure (ev_event_id e \<noteq> []) EventValidationError
     (ensure (ev_run_id e \<noteq> []) EventValidationError
     (ensure (0 \<le> ev_sequence e) EventValidationError
     (ensure (utcoffset (ev_occurred_at e) \<noteq> None) EventValidationError
     (case loads (ev_payload_json e) of
        Some (JObj decoded) \<Rightarrow>
          bindR (canonical_payload decoded) (\<lambda>t. Inr (e\<lparr>ev_payload_json := t\<rparr>))
      | _ \<Rightarrow> Inl EventValidationError))))"

definition build_event ::
  "string \<Rightarrow> string \<Rightarrow> int \<Rightarrow> EventType \<Rightarrow> datetime \<Rightarrow> payload \<Rightarrow> ExecutionEvent result" where
  "build_event event_id run_id sequence event_type occurred_at payload =
     bindR (canonical_payload payload) (\<lambda>t.
       event_post_init \<lparr>ev_event_id = event_id, ev_run_id = run_id, ev_sequence = sequence,
         ev_event_type = event_type, ev_occurred_at = occurred_at, ev_payload_json = t\<rparr>)"

definition payload :: "ExecutionEvent \<Rightarrow> payload" where
  "payload e = (case loads (ev_payload_json e) of Some (JObj d) \<Rightarrow> d | _ \<Rightarrow> [])"

definition event_text :: "ExecutionEvent \<Rightarrow> string" where
  "event_text e = render (norm_json (JObj
     [(''event_id'', JStr (ev_event_id e)),
      (''event_type'', JStr (type_value (ev_event_type e))),
      (''occurred_at'', JStr (isoformat (ev_occurred_at e))),
      (''payload'', JObj (payload e)),
      (''run_id'', JStr (ev_run_id e)),
      (''sequence'', JInt (ev_sequence e))]))"

definition fingerprint :: "hash \<Rightarrow> ExecutionEvent \<Rightarrow> string" where
  "fingerprint H e = H (event_text e)"

subsection \<open>Constructed events\<close>

text \<open>
  An event the constructor returns is one it returns unchanged; its timestamp is a Python
  \<open>datetime\<close>.
\<close>

definition wf_event :: "ExecutionEvent \<Rightarrow> bool" where
  "wf_event e \<longleftrightarrow> event_post_init e = Inr e \<and> valid_datetime (ev_occurred_at e)"

lemma canonical_payload_canon:
  "canon (JObj p) \<Longrightarrow> canonical_payload p = Inr (render (JObj p))"
  by (simp add: canonical_payload_def dumps_canon)

lemma loads_obj_canonical:
  assumes "loads s = Some (JObj d)" and "canonical_payload d = Inr t"
  shows "canon (JObj d)" and "t = render (JObj d)"
proof -
  have "serializable (JObj d)"
    using assms(2) by (auto simp: canonical_payload_def dumps_def split: if_splits)
  with assms(1) show c: "canon (JObj d)" by (rule loads_canon)
  show "t = render (JObj d)" using assms(2) by (simp add: canonical_payload_canon [OF c])
qed

lemma event_post_init_iff:
  "event_post_init e = Inr e' \<longleftrightarrow>
     ev_event_id e \<noteq> [] \<and> ev_run_id e \<noteq> [] \<and> 0 \<le> ev_sequence e \<and>
     utcoffset (ev_occurred_at e) \<noteq> None \<and>
     (\<exists>d. loads (ev_payload_json e) = Some (JObj d) \<and> canon (JObj d) \<and>
          e' = e\<lparr>ev_payload_json := render (JObj d)\<rparr>)"
  by (auto simp: event_post_init_def result_simps canonical_payload_canon
      dest: loads_obj_canonical split: option.splits json.splits)

lemma event_post_init_idem:
  assumes "event_post_init e = Inr e'"
  shows "event_post_init e' = Inr e'"
  using assms by (auto simp: event_post_init_iff loads_render)

lemma wf_event_iff:
  "wf_event e \<longleftrightarrow>
     ev_event_id e \<noteq> [] \<and> ev_run_id e \<noteq> [] \<and> 0 \<le> ev_sequence e \<and>
     utcoffset (ev_occurred_at e) \<noteq> None \<and> valid_datetime (ev_occurred_at e) \<and>
     canon (JObj (payload e)) \<and> ev_payload_json e = render (JObj (payload e))"
proof
  assume "wf_event e"
  then have v: "valid_datetime (ev_occurred_at e)" and p: "event_post_init e = Inr e"
    by (simp_all add: wf_event_def)
  from p obtain d where d: "loads (ev_payload_json e) = Some (JObj d)" "canon (JObj d)"
      "e = e\<lparr>ev_payload_json := render (JObj d)\<rparr>"
    by (auto simp: event_post_init_iff)
  then have "ev_payload_json e = render (JObj d)"
    by (metis ExecutionEvent.select_convs(6) ExecutionEvent.surjective ExecutionEvent.update_convs(6))
  with v p d show "ev_event_id e \<noteq> [] \<and> ev_run_id e \<noteq> [] \<and> 0 \<le> ev_sequence e \<and>
     utcoffset (ev_occurred_at e) \<noteq> None \<and> valid_datetime (ev_occurred_at e) \<and>
     canon (JObj (payload e)) \<and> ev_payload_json e = render (JObj (payload e))"
    by (auto simp: event_post_init_iff payload_def)
next
  assume r: "ev_event_id e \<noteq> [] \<and> ev_run_id e \<noteq> [] \<and> 0 \<le> ev_sequence e \<and>
     utcoffset (ev_occurred_at e) \<noteq> None \<and> valid_datetime (ev_occurred_at e) \<and>
     canon (JObj (payload e)) \<and> ev_payload_json e = render (JObj (payload e))"
  then have "loads (ev_payload_json e) = Some (JObj (payload e))"
    using loads_render [of "JObj (payload e)"] by simp
  with r show "wf_event e" by (simp add: wf_event_def event_post_init_iff)
qed

lemma build_event_payload:
  assumes "canon (JObj p)" and "event_id \<noteq> []" and "run_id \<noteq> []" and "0 \<le> n"
    and "utcoffset t \<noteq> None" and "valid_datetime t"
  obtains e where "build_event event_id run_id n k t p = Inr e" and "wf_event e"
    and "payload e = p" and "ev_event_id e = event_id" and "ev_run_id e = run_id"
    and "ev_sequence e = n" and "ev_event_type e = k" and "ev_occurred_at e = t"
proof
  let ?e = "\<lparr>ev_event_id = event_id, ev_run_id = run_id, ev_sequence = n,
    ev_event_type = k, ev_occurred_at = t, ev_payload_json = render (JObj p)\<rparr>"
  have l: "loads (render (JObj p)) = Some (JObj p)" by (rule loads_render [OF assms(1)])
  show "build_event event_id run_id n k t p = Inr ?e"
    using assms l by (simp add: build_event_def canonical_payload_canon event_post_init_iff)
  show "payload ?e = p" by (simp add: payload_def l)
  then show "wf_event ?e" using assms l by (simp add: wf_event_iff)
qed simp_all

lemma build_event_time: "build_event event_id run_id n k t p = Inr e \<Longrightarrow> ev_occurred_at e = t"
  by (auto simp: build_event_def event_post_init_def ensure_def bindR_def
      split: sum.splits if_splits option.splits json.splits)

subsection \<open>The fingerprint determines the event\<close>

lemma canon_event_json:
  assumes "wf_event e"
  shows "canon (JObj
     [(''event_id'', JStr (ev_event_id e)),
      (''event_type'', JStr (type_value (ev_event_type e))),
      (''occurred_at'', JStr (isoformat (ev_occurred_at e))),
      (''payload'', JObj (payload e)),
      (''run_id'', JStr (ev_run_id e)),
      (''sequence'', JInt (ev_sequence e))])"
  using assms by (simp add: wf_event_iff canon_obj)

lemma event_text_inj:
  assumes "wf_event d" and "wf_event e" and "event_text d = event_text e"
  shows "d = e"
proof -
  note cs = canon_event_json [OF assms(1)] canon_event_json [OF assms(2)]
  have "loads (event_text d) = loads (event_text e)" by (simp only: assms(3))
  then have eq: "ev_event_id d = ev_event_id e" "ev_event_type d = ev_event_type e"
      "isoformat (ev_occurred_at d) = isoformat (ev_occurred_at e)" "payload d = payload e"
      "ev_run_id d = ev_run_id e" "ev_sequence d = ev_sequence e"
    by (simp_all only: event_text_def canon_norm [OF cs(1)] canon_norm [OF cs(2)]
        loads_render [OF cs(1)] loads_render [OF cs(2)] option.inject json.inject list.inject
        prod.inject type_value_inj simp_thms)
  moreover have "ev_occurred_at d = ev_occurred_at e"
    using eq(3) assms(1,2) fromisoformat_isoformat
    by (metis option.inject wf_event_def)
  moreover have "ev_payload_json d = ev_payload_json e"
    using eq(4) assms(1,2) by (simp add: wf_event_iff)
  ultimately show ?thesis by simp
qed

text \<open>Equal fingerprints mean equal events, or a collision of the hash.\<close>

lemma fingerprints_bind:
  assumes "\<forall>e \<in> set es. wf_event e" and "\<forall>e \<in> set fs. wf_event e"
    and "map (fingerprint H) es = map (fingerprint H) fs"
  shows "es = fs \<or> (\<exists>x \<in> event_text ` set es. \<exists>y \<in> event_text ` set fs. x \<noteq> y \<and> H x = H y)"
proof (cases "map event_text es = map event_text fs")
  case True
  then have "es = fs"
    using assms(1,2) event_text_inj by (intro map_inj_on [of event_text]) (auto intro!: inj_onI)
  then show ?thesis ..
next
  case False
  have len: "length es = length fs" using arg_cong [OF assms(3), of length] by simp
  with False obtain j where j: "j < length es" "event_text (es ! j) \<noteq> event_text (fs ! j)"
    using map_differ [of es fs event_text] by blast
  with assms(3) len have "H (event_text (es ! j)) = H (event_text (fs ! j))"
    by (metis fingerprint_def nth_map)
  moreover have "es ! j \<in> set es" "fs ! j \<in> set fs" using j(1) len by simp_all
  ultimately show ?thesis using j(2) by blast
qed

end
