(* ===== verification/RunStates.thy ===== *)
theory RunStates
  imports Prelude
begin

section \<open>Run state (domain/state.py)\<close>

text \<open>
  The statuses of a run, the immutable state derived from its events, and the checks its
  constructor makes, which \<open>dataclasses.replace\<close> makes again at every update.
\<close>

datatype RunStatus =
    NEW | CREATED | READY | MODEL_PENDING | ACTION_PENDING | TOOL_PENDING | AWAITING_GATE
  | TOOL_READY | TOOL_RUNNING | VERIFYING | PAUSED | COMPLETED | FAILED | CANCELLED

fun status_value :: "RunStatus \<Rightarrow> string" where
  "status_value NEW = ''new''"
| "status_value CREATED = ''created''"
| "status_value READY = ''ready''"
| "status_value MODEL_PENDING = ''model_pending''"
| "status_value ACTION_PENDING = ''action_pending''"
| "status_value TOOL_PENDING = ''tool_pending''"
| "status_value AWAITING_GATE = ''awaiting_gate''"
| "status_value TOOL_READY = ''tool_ready''"
| "status_value TOOL_RUNNING = ''tool_running''"
| "status_value VERIFYING = ''verifying''"
| "status_value PAUSED = ''paused''"
| "status_value COMPLETED = ''completed''"
| "status_value FAILED = ''failed''"
| "status_value CANCELLED = ''cancelled''"

definition all_statuses :: "RunStatus list" where
  "all_statuses = [NEW, CREATED, READY, MODEL_PENDING, ACTION_PENDING, TOOL_PENDING,
     AWAITING_GATE, TOOL_READY, TOOL_RUNNING, VERIFYING, PAUSED, COMPLETED, FAILED, CANCELLED]"

definition parse_status :: "string \<Rightarrow> RunStatus option" where
  "parse_status t = map_of (map (\<lambda>s. (status_value s, s)) all_statuses) t"

lemma parse_status_value [simp]: "parse_status (status_value s) = Some s"
  by (cases s) (simp_all add: parse_status_def all_statuses_def)

definition terminal_statuses :: "RunStatus set" where
  "terminal_statuses = {COMPLETED, FAILED, CANCELLED}"

record RunState =
  state_run_id :: string
  status :: RunStatus
  next_sequence :: int
  turn_index :: int
  max_steps :: "int option"
  active_step_id :: "string option"
  active_model_invocation_id :: "string option"
  active_model_action_event_id :: "string option"
  active_tool_call_id :: "string option"
  active_gate_proposal_digest :: "string option"
  active_gate_revision :: "int option"
  active_gate_mode :: "string option"
  active_gate_attempts :: int
  active_gate_max_attempts :: "int option"
  failure_reason :: "string option"
  applied_event_fingerprints :: "(string \<times> string) list"

definition valid_state :: "RunState \<Rightarrow> bool" where
  "valid_state s \<longleftrightarrow>
     state_run_id s \<noteq> [] \<and> 0 \<le> next_sequence s \<and> 0 \<le> turn_index s \<and>
     (case max_steps s of None \<Rightarrow> True | Some m \<Rightarrow> 1 \<le> m)"

definition state_post_init :: "RunState \<Rightarrow> RunState result" where
  "state_post_init s =
     ensure (state_run_id s \<noteq> []) EventValidationError
     (ensure (0 \<le> next_sequence s) EventValidationError
     (ensure (0 \<le> turn_index s) EventValidationError
     (ensure (case max_steps s of None \<Rightarrow> True | Some m \<Rightarrow> 1 \<le> m) EventValidationError
     (Inr s))))"

lemma state_post_init_Inr_iff [result_simps]:
  "state_post_init s = Inr s' \<longleftrightarrow> valid_state s \<and> s' = s"
  by (auto simp: state_post_init_def valid_state_def result_simps)

lemma state_post_init_valid: "valid_state s \<Longrightarrow> state_post_init s = Inr s"
  by (simp add: state_post_init_Inr_iff)

definition empty_state :: "string \<Rightarrow> RunState" where
  "empty_state run_id =
     \<lparr>state_run_id = run_id, status = NEW, next_sequence = 0, turn_index = 0,
      max_steps = None, active_step_id = None, active_model_invocation_id = None,
      active_model_action_event_id = None, active_tool_call_id = None,
      active_gate_proposal_digest = None, active_gate_revision = None,
      active_gate_mode = None, active_gate_attempts = 0, active_gate_max_attempts = None,
      failure_reason = None, applied_event_fingerprints = []\<rparr>"

definition initial_state :: "string \<Rightarrow> RunState result" where
  "initial_state run_id = state_post_init (empty_state run_id)"

definition is_terminal :: "RunState \<Rightarrow> bool" where
  "is_terminal s \<longleftrightarrow> status s \<in> terminal_statuses"

definition fingerprint_for :: "RunState \<Rightarrow> string \<Rightarrow> string option" where
  "fingerprint_for s event_id = map_of (applied_event_fingerprints s) event_id"

lemma is_terminal_iff:
  "is_terminal s \<longleftrightarrow> status s = COMPLETED \<or> status s = FAILED \<or> status s = CANCELLED"
  by (simp add: is_terminal_def terminal_statuses_def)

end
