(* ===== verification/Machines.thy ===== *)
theory Machines
  imports Prelude
begin

section \<open>Event-driven machines\<close>

text \<open>
  The loop \<open>for x in xs: s = f(s, x)\<close> over a step that may raise, and the interfaces the
  components of that shape share: a step with an invariant, a step with a relation that every
  step keeps, and a step that accepts the redelivery of an event it has applied.
\<close>

fun foldR :: "('s \<Rightarrow> 'e \<Rightarrow> 's result) \<Rightarrow> 's \<Rightarrow> 'e list \<Rightarrow> 's result" where
  "foldR f s [] = Inr s"
| "foldR f s (x # xs) = bindR (f s x) (\<lambda>s'. foldR f s' xs)"

lemma foldR_append: "foldR f s (xs @ ys) = bindR (foldR f s xs) (\<lambda>t. foldR f t ys)"
proof (induction xs arbitrary: s)
  case (Cons x xs)
  show ?case by (cases "f s x") (simp_all add: Cons.IH)
qed simp

lemma foldR_snoc: "foldR f s (xs @ [x]) = bindR (foldR f s xs) (\<lambda>t. f t x)"
  by (cases "foldR f s xs") (simp_all add: foldR_append bindR_def split: sum.splits)

text \<open>The comprehension \<open>[f(x) for x in xs]\<close> over a function that may raise.\<close>

fun mapR :: "('a \<Rightarrow> 'b result) \<Rightarrow> 'a list \<Rightarrow> 'b list result" where
  "mapR f [] = Inr []"
| "mapR f (x # xs) = bindR (f x) (\<lambda>y. bindR (mapR f xs) (\<lambda>ys. Inr (y # ys)))"

lemma mapR_Inr: "(\<And>x. x \<in> set xs \<Longrightarrow> f x = Inr (g x)) \<Longrightarrow> mapR f xs = Inr (map g xs)"
  by (induction xs) simp_all

locale event_machine =
  fixes step :: "'s \<Rightarrow> 'e \<Rightarrow> 's result"
    and inv :: "'s \<Rightarrow> bool"
  assumes inv_step: "inv s \<Longrightarrow> step s e = Inr t \<Longrightarrow> inv t"
begin

lemma inv_run: "inv s \<Longrightarrow> foldR step s es = Inr t \<Longrightarrow> inv t"
proof (induction es arbitrary: s)
  case (Cons e es)
  then obtain u where "step s e = Inr u" "foldR step u es = Inr t"
    by (auto simp: bindR_Inr_iff)
  with Cons show ?case by (blast intro: inv_step)
qed simp

lemma run_prefix_inv:
  assumes "inv s" and "foldR step s (as @ bs) = Inr t"
  obtains u where "foldR step s as = Inr u" and "inv u" and "foldR step u bs = Inr t"
proof -
  from assms(2) obtain u where "foldR step s as = Inr u" "foldR step u bs = Inr t"
    by (auto simp: foldR_append bindR_Inr_iff)
  with assms(1) that show thesis by (blast intro: inv_run)
qed

end

text \<open>A relation between earlier and later states, under the invariant.\<close>

locale monotone_machine = event_machine +
  fixes rel :: "'a \<Rightarrow> 'a \<Rightarrow> bool"
  assumes rel_refl: "rel s s"
    and rel_trans: "rel s t \<Longrightarrow> rel t u \<Longrightarrow> rel s u"
    and rel_step: "inv s \<Longrightarrow> step s e = Inr t \<Longrightarrow> rel s t"
begin

lemma rel_run: "inv s \<Longrightarrow> foldR step s es = Inr t \<Longrightarrow> rel s t"
proof (induction es arbitrary: s)
  case Nil
  then show ?case by (simp add: rel_refl)
next
  case (Cons e es)
  then obtain u where u: "step s e = Inr u" "foldR step u es = Inr t"
    by (auto simp: bindR_Inr_iff)
  with Cons show ?case by (blast intro: rel_trans rel_step inv_step)
qed

end

text \<open>At-least-once delivery: an applied event stays applied, and applying it again changes nothing.\<close>

locale redelivery_machine = event_machine +
  fixes applied :: "'a \<Rightarrow> 'b \<Rightarrow> bool"
  assumes applied_step: "inv s \<Longrightarrow> step s e = Inr t \<Longrightarrow> applied t e"
    and applied_keep: "inv s \<Longrightarrow> step s e = Inr t \<Longrightarrow> applied s d \<Longrightarrow> applied t d"
    and applied_skip: "inv s \<Longrightarrow> applied s e \<Longrightarrow> step s e = Inr s"
begin

lemma applied_run_keep:
  "inv s \<Longrightarrow> foldR step s es = Inr t \<Longrightarrow> applied s d \<Longrightarrow> applied t d"
proof (induction es arbitrary: s)
  case (Cons e es)
  then obtain u where u: "step s e = Inr u" "foldR step u es = Inr t"
    by (auto simp: bindR_Inr_iff)
  with Cons show ?case by (blast intro: applied_keep inv_step)
qed simp

lemma applied_run: "inv s \<Longrightarrow> foldR step s es = Inr t \<Longrightarrow> e \<in> set es \<Longrightarrow> applied t e"
proof (induction es arbitrary: s)
  case (Cons d es)
  then obtain u where u: "step s d = Inr u" "foldR step u es = Inr t"
    by (auto simp: bindR_Inr_iff)
  with Cons show ?case
    by (cases "e = d") (auto intro: applied_run_keep applied_step inv_step)
qed simp

lemma skip_run: "inv s \<Longrightarrow> \<forall>d \<in> set ds. applied s d \<Longrightarrow> foldR step s ds = Inr s"
  by (induction ds) (simp_all add: applied_skip)

text \<open>Redelivering already delivered events, in any order and number, changes nothing.\<close>

lemma redeliver:
  assumes "inv s" and "set ds \<subseteq> set es"
  shows "foldR step s (es @ ds @ fs) = foldR step s (es @ fs)"
proof (cases "foldR step s es")
  case (Inr t)
  have "inv t" by (rule inv_run [OF assms(1) Inr])
  moreover have "\<forall>d \<in> set ds. applied t d"
    using applied_run [OF assms(1) Inr] assms(2) by blast
  ultimately have "foldR step t ds = Inr t" by (rule skip_run)
  then show ?thesis by (simp add: foldR_append Inr)
qed (simp add: foldR_append)

end

end
