(* ===== verification/Reducer.thy ===== *)
theory Reducer
  imports Events RunStates Machines
begin

section \<open>The reducer (domain/reducer.py) and replay (domain/replay.py)\<close>

text \<open>
  One definition per guard helper and per branch of \<open>_transition\<close>, in the order of the
  code. \<open>replace(state, ...)\<close> is a record update followed by the constructor's checks.
  Every guard of this module raises \<open>InvalidTransitionError\<close>.
\<close>

subsection \<open>Guards\<close>

definition expect_status :: "RunState \<Rightarrow> RunStatus \<Rightarrow> 'a result \<Rightarrow> 'a result" where
  "expect_status s expected k = ensure (status s = expected) InvalidTransitionError k"

definition required_text :: "ExecutionEvent \<Rightarrow> string \<Rightarrow> string result" where
  "required_text e field =
     (case get (payload e) field of
        JStr v \<Rightarrow> ensure (v \<noteq> []) InvalidTransitionError (Inr v)
      | _ \<Rightarrow> Inl InvalidTransitionError)"

definition expect_active_tool :: "RunState \<Rightarrow> ExecutionEvent \<Rightarrow> string result" where
  "expect_active_tool s e =
     bindR (required_text e ''tool_call_id'') (\<lambda>tool_call_id.
     ensure (Some tool_call_id = active_tool_call_id s) InvalidTransitionError
     (Inr tool_call_id))"

definition required_positive_int :: "ExecutionEvent \<Rightarrow> string \<Rightarrow> int result" where
  "required_positive_int e field =
     (case get (payload e) field of
        JInt v \<Rightarrow> ensure (1 \<le> v) InvalidTransitionError (Inr v)
      | _ \<Rightarrow> Inl InvalidTransitionError)"

definition expect_model_budget_available :: "RunState \<Rightarrow> 'a result \<Rightarrow> 'a result" where
  "expect_model_budget_available s k =
     ensure (case max_steps s of None \<Rightarrow> True | Some m \<Rightarrow> turn_index s < m)
       InvalidTransitionError k"

definition expect_pending_model_action :: "RunState \<Rightarrow> ExecutionEvent \<Rightarrow> 'a result \<Rightarrow> 'a result" where
  "expect_pending_model_action s e k =
     bindR (required_text e ''model_action_event_id'') (\<lambda>action_event_id.
     ensure (Some action_event_id = active_model_action_event_id s) InvalidTransitionError k)"

definition expect_active_gate :: "RunState \<Rightarrow> ExecutionEvent \<Rightarrow> 'a result \<Rightarrow> 'a result" where
  "expect_active_gate s e k =
     bindR (expect_active_tool s e) (\<lambda>_.
     bindR (required_text e ''proposal_digest'') (\<lambda>proposal_digest.
     bindR (required_positive_int e ''revision'') (\<lambda>revision.
     ensure (Some proposal_digest = active_gate_proposal_digest s) InvalidTransitionError
     (ensure (Some revision = active_gate_revision s) InvalidTransitionError k))))"

text \<open>\<open>f"step-{state.turn_index + 1}"\<close>\<close>

definition next_step_id :: "RunState \<Rightarrow> string" where
  "next_step_id s = ''step-'' @ show_int (turn_index s + 1)"

text \<open>The five gate fields, cleared together by every branch that leaves the gate.\<close>

definition clear_gate :: "RunState \<Rightarrow> RunState" where
  "clear_gate s = s\<lparr>active_gate_proposal_digest := None, active_gate_revision := None,
     active_gate_mode := None, active_gate_attempts := 0, active_gate_max_attempts := None\<rparr>"

text \<open>The update of the branches that fail a run from the tool or gate part of its life.\<close>

definition fail_tool :: "RunState \<Rightarrow> string \<Rightarrow> RunState" where
  "fail_tool s reason = (clear_gate s)\<lparr>status := FAILED, active_step_id := None,
     active_tool_call_id := None, failure_reason := Some reason\<rparr>"

subsection \<open>Run lifecycle\<close>

definition on_run_cancelled :: "RunState \<Rightarrow> ExecutionEvent \<Rightarrow> RunState result" where
  "on_run_cancelled s e =
     state_post_init ((clear_gate s)\<lparr>status := CANCELLED, active_step_id := None,
       active_model_invocation_id := None, active_model_action_event_id := None,
       active_tool_call_id := None, failure_reason := None\<rparr>)"

definition on_run_created :: "RunState \<Rightarrow> ExecutionEvent \<Rightarrow> RunState result" where
  "on_run_created s e = expect_status s NEW
     (bindR (if get (payload e) ''max_steps'' \<noteq> JNull
             then map_sum id Some (required_positive_int e ''max_steps'') else Inr None)
       (\<lambda>m. state_post_init (s\<lparr>status := CREATED, max_steps := m\<rparr>)))"

definition on_run_started :: "RunState \<Rightarrow> ExecutionEvent \<Rightarrow> RunState result" where
  "on_run_started s e = expect_status s CREATED (state_post_init (s\<lparr>status := READY\<rparr>))"

definition on_run_paused :: "RunState \<Rightarrow> ExecutionEvent \<Rightarrow> RunState result" where
  "on_run_paused s e = expect_status s READY (state_post_init (s\<lparr>status := PAUSED\<rparr>))"

definition on_run_resumed :: "RunState \<Rightarrow> ExecutionEvent \<Rightarrow> RunState result" where
  "on_run_resumed s e = expect_status s PAUSED (state_post_init (s\<lparr>status := READY\<rparr>))"

definition on_budget_exhausted :: "RunState \<Rightarrow> ExecutionEvent \<Rightarrow> RunState result" where
  "on_budget_exhausted s e = expect_status s READY
     (bindR (required_positive_int e ''max_steps'') (\<lambda>m.
      case get (payload e) ''completed_steps'' of
        JInt completed_steps \<Rightarrow>
          ensure (max_steps s = Some m) InvalidTransitionError
          (ensure (completed_steps = turn_index s \<and> m \<le> completed_steps) InvalidTransitionError
          (state_post_init (s\<lparr>status := FAILED,
             failure_reason := Some (''step budget exhausted: '' @ show_int completed_steps @
               ''/'' @ show_int m @ '' steps consumed'')\<rparr>)))
      | _ \<Rightarrow> Inl InvalidTransitionError))"

subsection \<open>Model actions and completion\<close>

definition on_model_action_requested :: "RunState \<Rightarrow> ExecutionEvent \<Rightarrow> RunState result" where
  "on_model_action_requested s e = expect_status s READY
     (expect_model_budget_available s
     (bindR (required_text e ''step_id'') (\<lambda>step_id.
      ensure (step_id = next_step_id s) InvalidTransitionError
      (ensure (eq_int (get (payload e) ''turn_index'') (turn_index s)) InvalidTransitionError
      (bindR (required_text e ''observation_json'') (\<lambda>_.
       bindR (required_text e ''invocation_id'') (\<lambda>invocation_id.
       state_post_init (s\<lparr>status := MODEL_PENDING, active_step_id := Some step_id,
         active_model_invocation_id := Some invocation_id\<rparr>))))))))"

definition on_model_action_proposed :: "RunState \<Rightarrow> ExecutionEvent \<Rightarrow> RunState result" where
  "on_model_action_proposed s e = expect_status s MODEL_PENDING
     (bindR (required_text e ''invocation_id'') (\<lambda>invocation_id.
      ensure (Some invocation_id = active_model_invocation_id s) InvalidTransitionError
      (bindR (required_text e ''step_id'') (\<lambda>step_id.
       ensure (Some step_id = active_step_id s) InvalidTransitionError
       (ensure (eq_int (get (payload e) ''turn_index'') (turn_index s)) InvalidTransitionError
       (bindR (required_text e ''action_type'') (\<lambda>action_type.
        bindR (if action_type = ''tool_call'' then
                 bindR (required_text e ''tool_call_id'') (\<lambda>_.
                 bindR (required_text e ''tool_name'') (\<lambda>_.
                 required_text e ''arguments_json''))
               else if action_type = ''final_answer'' then required_text e ''answer''
               else Inl InvalidTransitionError) (\<lambda>_.
        state_post_init (s\<lparr>status := ACTION_PENDING,
          active_model_action_event_id := Some (ev_event_id e)\<rparr>)))))))))"

definition on_model_action_failed :: "RunState \<Rightarrow> ExecutionEvent \<Rightarrow> RunState result" where
  "on_model_action_failed s e =
     ensure (status s = READY \<or> status s = MODEL_PENDING) InvalidTransitionError
     (bindR (required_text e ''reason'') (\<lambda>reason.
      state_post_init (s\<lparr>status := FAILED, active_step_id := None,
        active_model_invocation_id := None, active_model_action_event_id := None,
        failure_reason := Some reason\<rparr>)))"

definition on_completion :: "RunState \<Rightarrow> ExecutionEvent \<Rightarrow> RunState result" where
  "on_completion s e =
     (if status s = ACTION_PENDING then expect_pending_model_action s e
      else expect_status s READY)
     (expect_model_budget_available s
     (bindR (required_text e ''step_id'') (\<lambda>step_id.
      ensure (step_id = next_step_id s) InvalidTransitionError
      (bindR (required_text e ''answer_sha256'') (\<lambda>_.
       bindR (required_text e ''summary'') (\<lambda>_.
       state_post_init (s\<lparr>status := (if ev_event_type e = COMPLETION_ACCEPTED then COMPLETED else READY),
         turn_index := turn_index s + 1, active_step_id := None,
         active_model_invocation_id := None, active_model_action_event_id := None\<rparr>)))))))"

subsection \<open>Tool requests and gates\<close>

definition on_tool_requested :: "RunState \<Rightarrow> ExecutionEvent \<Rightarrow> RunState result" where
  "on_tool_requested s e =
     (if status s = ACTION_PENDING then expect_pending_model_action s e
      else expect_status s READY)
     (bindR (case get (payload e) ''step_id'' of
               JNull \<Rightarrow> Inr None
             | JStr step_id \<Rightarrow>
                 ensure (step_id \<noteq> []) InvalidTransitionError
                 (expect_model_budget_available s (Inr (Some step_id)))
             | _ \<Rightarrow> Inl InvalidTransitionError) (\<lambda>step_id.
      bindR (required_text e ''tool_call_id'') (\<lambda>tool_call_id.
      state_post_init (s\<lparr>status := TOOL_PENDING, active_step_id := step_id,
        active_model_invocation_id := None, active_model_action_event_id := None,
        active_tool_call_id := Some tool_call_id\<rparr>))))"

definition on_tool_authorized :: "RunState \<Rightarrow> ExecutionEvent \<Rightarrow> RunState result" where
  "on_tool_authorized s e = expect_status s TOOL_PENDING
     (bindR (expect_active_tool s e) (\<lambda>_. state_post_init (s\<lparr>status := TOOL_READY\<rparr>)))"

definition gate_limit :: "ExecutionEvent \<Rightarrow> (string \<times> int option) result" where
  "gate_limit e =
     bindR (required_text e ''ownership_mode'') (\<lambda>ownership_mode.
     ensure (ownership_mode = ''pair'' \<or> ownership_mode = ''user_gate'') InvalidTransitionError
     (if ownership_mode = ''user_gate''
      then bindR (required_positive_int e ''max_attempts'') (\<lambda>m. Inr (ownership_mode, Some m))
      else Inr (ownership_mode, None)))"

definition on_tool_escalated :: "RunState \<Rightarrow> ExecutionEvent \<Rightarrow> RunState result" where
  "on_tool_escalated s e = expect_status s TOOL_PENDING
     (bindR (expect_active_tool s e) (\<lambda>_.
      bindR (required_text e ''proposal_digest'') (\<lambda>proposal_digest.
      bindR (required_positive_int e ''revision'') (\<lambda>revision.
      bindR (gate_limit e) (\<lambda>(ownership_mode, max_attempts).
      state_post_init (s\<lparr>status := AWAITING_GATE,
        active_gate_proposal_digest := Some proposal_digest,
        active_gate_revision := Some revision, active_gate_mode := Some ownership_mode,
        active_gate_attempts := 0, active_gate_max_attempts := max_attempts\<rparr>))))))"

definition on_gate_approved :: "RunState \<Rightarrow> ExecutionEvent \<Rightarrow> RunState result" where
  "on_gate_approved s e = expect_status s AWAITING_GATE
     (expect_active_gate s e
     (ensure (active_gate_mode s = Some ''pair'') InvalidTransitionError
     (state_post_init ((clear_gate s)\<lparr>status := TOOL_READY\<rparr>))))"

definition on_gate_revised :: "RunState \<Rightarrow> ExecutionEvent \<Rightarrow> RunState result" where
  "on_gate_revised s e = expect_status s AWAITING_GATE
     (bindR (expect_active_tool s e) (\<lambda>_.
      bindR (required_text e ''previous_proposal_digest'') (\<lambda>previous_digest.
      bindR (required_positive_int e ''previous_revision'') (\<lambda>previous_revision.
      ensure (Some previous_digest = active_gate_proposal_digest s) InvalidTransitionError
      (ensure (Some previous_revision = active_gate_revision s) InvalidTransitionError
      (bindR (required_text e ''proposal_digest'') (\<lambda>proposal_digest.
       bindR (required_positive_int e ''revision'') (\<lambda>revision.
       ensure (revision = previous_revision + 1) InvalidTransitionError
       (ensure (proposal_digest \<noteq> previous_digest) InvalidTransitionError
       (bindR (gate_limit e) (\<lambda>(ownership_mode, max_attempts).
        state_post_init (s\<lparr>active_gate_proposal_digest := Some proposal_digest,
          active_gate_revision := Some revision, active_gate_mode := Some ownership_mode,
          active_gate_attempts := 0, active_gate_max_attempts := max_attempts\<rparr>))))))))))))"

definition on_gate_evaluated :: "RunState \<Rightarrow> ExecutionEvent \<Rightarrow> RunState result" where
  "on_gate_evaluated s e = expect_status s AWAITING_GATE
     (expect_active_gate s e
     (ensure (active_gate_mode s = Some ''user_gate'') InvalidTransitionError
     (bindR (required_positive_int e ''attempt'') (\<lambda>attempt.
      bindR (required_positive_int e ''max_attempts'') (\<lambda>max_attempts.
      ensure (Some max_attempts = active_gate_max_attempts s) InvalidTransitionError
      (ensure (attempt = active_gate_attempts s + 1) InvalidTransitionError
      (bindR (required_text e ''outcome'') (\<lambda>outcome.
       bindR (required_text e ''reason'') (\<lambda>reason.
       if outcome = ''retry'' then
         ensure (attempt < max_attempts) InvalidTransitionError
         (state_post_init (s\<lparr>active_gate_attempts := attempt\<rparr>))
       else if outcome = ''pass'' then
         state_post_init ((clear_gate s)\<lparr>status := TOOL_READY\<rparr>)
       else if outcome = ''block'' then state_post_init (fail_tool s reason)
       else Inl InvalidTransitionError)))))))))"

definition on_gate_rejected :: "RunState \<Rightarrow> ExecutionEvent \<Rightarrow> RunState result" where
  "on_gate_rejected s e = expect_status s AWAITING_GATE
     (expect_active_gate s e
     (bindR (required_text e ''reason'') (\<lambda>reason. state_post_init (fail_tool s reason))))"

definition on_tool_denied :: "RunState \<Rightarrow> ExecutionEvent \<Rightarrow> RunState result" where
  "on_tool_denied s e = expect_status s TOOL_PENDING
     (bindR (expect_active_tool s e) (\<lambda>_.
      bindR (required_text e ''reason'') (\<lambda>reason. state_post_init (fail_tool s reason))))"

subsection \<open>Tool execution and verification\<close>

definition on_tool_started :: "RunState \<Rightarrow> ExecutionEvent \<Rightarrow> RunState result" where
  "on_tool_started s e = expect_status s TOOL_READY
     (bindR (expect_active_tool s e) (\<lambda>_. state_post_init (s\<lparr>status := TOOL_RUNNING\<rparr>)))"

definition on_tool_succeeded :: "RunState \<Rightarrow> ExecutionEvent \<Rightarrow> RunState result" where
  "on_tool_succeeded s e = expect_status s TOOL_RUNNING
     (bindR (expect_active_tool s e) (\<lambda>_.
      state_post_init ((clear_gate s)\<lparr>status := VERIFYING, active_tool_call_id := None\<rparr>)))"

definition on_tool_failed :: "RunState \<Rightarrow> ExecutionEvent \<Rightarrow> RunState result" where
  "on_tool_failed s e = expect_status s TOOL_RUNNING
     (bindR (expect_active_tool s e) (\<lambda>_.
      bindR (required_text e ''reason'') (\<lambda>reason. state_post_init (fail_tool s reason))))"

definition on_tool_timed_out :: "RunState \<Rightarrow> ExecutionEvent \<Rightarrow> RunState result" where
  "on_tool_timed_out s e = expect_status s TOOL_RUNNING
     (bindR (expect_active_tool s e) (\<lambda>_.
      bindR (required_text e ''reason'') (\<lambda>reason. state_post_init (fail_tool s reason))))"

definition on_verification_succeeded :: "RunState \<Rightarrow> ExecutionEvent \<Rightarrow> RunState result" where
  "on_verification_succeeded s e = expect_status s VERIFYING
     (let scope = get_default (payload e) ''scope'' (JStr ''run'') in
      if scope = JStr ''run'' then
        state_post_init (s\<lparr>status := COMPLETED, active_step_id := None\<rparr>)
      else if scope = JStr ''step'' then
        bindR (required_text e ''step_id'') (\<lambda>step_id.
        ensure (Some step_id = active_step_id s) InvalidTransitionError
        (state_post_init (s\<lparr>status := READY, turn_index := turn_index s + 1,
           active_step_id := None\<rparr>)))
      else Inl InvalidTransitionError)"

definition on_verification_failed :: "RunState \<Rightarrow> ExecutionEvent \<Rightarrow> RunState result" where
  "on_verification_failed s e = expect_status s VERIFYING
     (bindR (required_text e ''reason'') (\<lambda>reason.
      state_post_init (s\<lparr>status := FAILED, active_step_id := None,
        failure_reason := Some reason\<rparr>)))"

subsection \<open>Dispatch, reduce, replay\<close>

fun handler :: "EventType \<Rightarrow> RunState \<Rightarrow> ExecutionEvent \<Rightarrow> RunState result" where
  "handler RUN_CANCELLED = on_run_cancelled"
| "handler RUN_CREATED = on_run_created"
| "handler RUN_STARTED = on_run_started"
| "handler RUN_PAUSED = on_run_paused"
| "handler RUN_RESUMED = on_run_resumed"
| "handler RUN_STEP_BUDGET_EXHAUSTED = on_budget_exhausted"
| "handler MODEL_ACTION_REQUESTED = on_model_action_requested"
| "handler MODEL_ACTION_PROPOSED = on_model_action_proposed"
| "handler MODEL_ACTION_FAILED = on_model_action_failed"
| "handler COMPLETION_ACCEPTED = on_completion"
| "handler COMPLETION_REJECTED = on_completion"
| "handler TOOL_REQUESTED = on_tool_requested"
| "handler TOOL_AUTHORIZED = on_tool_authorized"
| "handler TOOL_ESCALATED = on_tool_escalated"
| "handler GATE_APPROVED = on_gate_approved"
| "handler GATE_REVISED = on_gate_revised"
| "handler GATE_EVALUATED = on_gate_evaluated"
| "handler GATE_REJECTED = on_gate_rejected"
| "handler TOOL_DENIED = on_tool_denied"
| "handler TOOL_STARTED = on_tool_started"
| "handler TOOL_SUCCEEDED = on_tool_succeeded"
| "handler TOOL_FAILED = on_tool_failed"
| "handler TOOL_TIMED_OUT = on_tool_timed_out"
| "handler VERIFICATION_SUCCEEDED = on_verification_succeeded"
| "handler VERIFICATION_FAILED = on_verification_failed"

definition transition :: "RunState \<Rightarrow> ExecutionEvent \<Rightarrow> RunState result" where
  "transition s e = handler (ev_event_type e) s e"

definition reduce :: "hash \<Rightarrow> RunState \<Rightarrow> ExecutionEvent \<Rightarrow> RunState result" where
  "reduce H s e =
     ensure (ev_run_id e = state_run_id s) RunMismatchError
     (case fingerprint_for s (ev_event_id e) of
        Some existing \<Rightarrow>
          if existing = fingerprint H e then Inr s else Inl DuplicateEventConflictError
      | None \<Rightarrow>
          ensure (\<not> is_terminal s) TerminalStateError
          (ensure (ev_sequence e = next_sequence s) SequenceError
          (bindR (transition s e) (\<lambda>t.
           state_post_init (t\<lparr>next_sequence := next_sequence s + 1,
             applied_event_fingerprints :=
               applied_event_fingerprints s @ [(ev_event_id e, fingerprint H e)]\<rparr>)))))"

definition replay_tail :: "hash \<Rightarrow> RunState \<Rightarrow> ExecutionEvent list \<Rightarrow> RunState result" where
  "replay_tail H s events = foldR (reduce H) s events"

definition replay :: "hash \<Rightarrow> string \<Rightarrow> ExecutionEvent list \<Rightarrow> RunState result" where
  "replay H run_id events = bindR (initial_state run_id) (\<lambda>s. replay_tail H s events)"

end
