(* ===== verification/Lifecycle.thy ===== *)
theory Lifecycle
  imports Reducer
begin

section \<open>The life of a run: what the reducer keeps\<close>

text \<open>
  The well-formedness of a derived run state (which fields are set in which status, the bounds
  of the gate attempts and of the step budget), its preservation by every branch of the reducer,
  the abstract lifecycle every accepted event follows, and what holds of every replayed history.
\<close>

subsection \<open>Well-formed states\<close>


definition gate_ok :: "RunState \<Rightarrow> bool" where
  "gate_ok s \<longleftrightarrow>
     (if status s = AWAITING_GATE then
        active_gate_proposal_digest s \<noteq> None \<and>
        (\<exists>r. active_gate_revision s = Some r \<and> 1 \<le> r) \<and>
        (active_gate_mode s = Some ''pair'' \<and> active_gate_max_attempts s = None \<and>
           active_gate_attempts s = 0 \<or>
         active_gate_mode s = Some ''user_gate'' \<and>
           (\<exists>k. active_gate_max_attempts s = Some k \<and>
                0 \<le> active_gate_attempts s \<and> active_gate_attempts s < k))
      else
        active_gate_proposal_digest s = None \<and> active_gate_revision s = None \<and>
        active_gate_mode s = None \<and> active_gate_attempts s = 0 \<and>
        active_gate_max_attempts s = None)"

definition tool_ok :: "RunState \<Rightarrow> bool" where
  "tool_ok s \<longleftrightarrow>
     (active_tool_call_id s \<noteq> None \<longleftrightarrow>
      status s \<in> {TOOL_PENDING, AWAITING_GATE, TOOL_READY, TOOL_RUNNING})"

definition model_ok :: "RunState \<Rightarrow> bool" where
  "model_ok s \<longleftrightarrow>
     (active_model_invocation_id s \<noteq> None \<longleftrightarrow> status s \<in> {MODEL_PENDING, ACTION_PENDING}) \<and>
     (active_model_action_event_id s \<noteq> None \<longleftrightarrow> status s = ACTION_PENDING) \<and>
     (status s \<in> {MODEL_PENDING, ACTION_PENDING} \<longrightarrow> active_step_id s = Some (next_step_id s))"

definition step_ok :: "RunState \<Rightarrow> bool" where
  "step_ok s \<longleftrightarrow>
     (active_step_id s \<noteq> None \<longrightarrow>
      status s \<in> {MODEL_PENDING, ACTION_PENDING, TOOL_PENDING, AWAITING_GATE, TOOL_READY,
        TOOL_RUNNING, VERIFYING})"

definition budget_ok :: "RunState \<Rightarrow> bool" where
  "budget_ok s \<longleftrightarrow>
     (case max_steps s of None \<Rightarrow> True
      | Some m \<Rightarrow> turn_index s \<le> m \<and> (active_step_id s \<noteq> None \<longrightarrow> turn_index s < m)) \<and>
     (status s = NEW \<longrightarrow> max_steps s = None \<and> turn_index s = 0)"

definition failure_ok :: "RunState \<Rightarrow> bool" where
  "failure_ok s \<longleftrightarrow> (failure_reason s \<noteq> None \<longleftrightarrow> status s = FAILED)"

lemmas ok_defs = gate_ok_def tool_ok_def model_ok_def step_ok_def budget_ok_def failure_ok_def

definition core_inv :: "RunState \<Rightarrow> bool" where
  "core_inv s \<longleftrightarrow> valid_state s \<and> gate_ok s \<and> tool_ok s \<and> model_ok s \<and> step_ok s \<and>
     budget_ok s \<and> failure_ok s"

lemmas handler_defs =
  on_run_cancelled_def on_run_created_def on_run_started_def on_run_paused_def
  on_run_resumed_def on_budget_exhausted_def on_model_action_requested_def
  on_model_action_proposed_def on_model_action_failed_def on_completion_def
  on_tool_requested_def on_tool_authorized_def on_tool_escalated_def on_gate_approved_def
  on_gate_revised_def on_gate_evaluated_def on_gate_rejected_def on_tool_denied_def
  on_tool_started_def on_tool_succeeded_def on_tool_failed_def on_tool_timed_out_def
  on_verification_succeeded_def on_verification_failed_def

subsection \<open>Inversion of the guards\<close>

lemma case_JInt_Inr_iff [result_simps]:
  "(case j of JNull \<Rightarrow> Inl e | JBool b \<Rightarrow> Inl e | JInt i \<Rightarrow> f i | JFloat x \<Rightarrow> Inl e | JStr s \<Rightarrow> Inl e
    | JArr vs \<Rightarrow> Inl e | JObj d \<Rightarrow> Inl e | JUnserializable \<Rightarrow> Inl e) = Inr t \<longleftrightarrow>
   (\<exists>i. j = JInt i \<and> f i = Inr t)"
  by (cases j) simp_all

lemma case_JStr_Inr_iff [result_simps]:
  "(case j of JNull \<Rightarrow> Inl e | JBool b \<Rightarrow> Inl e | JInt i \<Rightarrow> Inl e | JFloat x \<Rightarrow> Inl e | JStr s \<Rightarrow> f s
    | JArr vs \<Rightarrow> Inl e | JObj d \<Rightarrow> Inl e | JUnserializable \<Rightarrow> Inl e) = Inr t \<longleftrightarrow>
   (\<exists>s. j = JStr s \<and> f s = Inr t)"
  by (cases j) simp_all

lemma case_JNull_JStr_Inr_iff [result_simps]:
  "(case j of JNull \<Rightarrow> Inr a | JBool b \<Rightarrow> Inl e | JInt i \<Rightarrow> Inl e | JFloat x \<Rightarrow> Inl e | JStr s \<Rightarrow> f s
    | JArr vs \<Rightarrow> Inl e | JObj d \<Rightarrow> Inl e | JUnserializable \<Rightarrow> Inl e) = Inr t \<longleftrightarrow>
   j = JNull \<and> t = a \<or> (\<exists>s. j = JStr s \<and> f s = Inr t)"
  by (cases j) auto

lemma map_sum_id_Inr_iff [result_simps]: "map_sum id f x = Inr y \<longleftrightarrow> (\<exists>v. x = Inr v \<and> y = f v)"
  by (cases x) auto

lemma required_text_Inr_iff [result_simps]:
  "required_text e f = Inr v \<longleftrightarrow> get (payload e) f = JStr v \<and> v \<noteq> []"
  by (auto simp: required_text_def result_simps split: json.splits)

lemma required_positive_int_Inr_iff [result_simps]:
  "required_positive_int e f = Inr v \<longleftrightarrow> get (payload e) f = JInt v \<and> 1 \<le> v"
  by (auto simp: required_positive_int_def result_simps split: json.splits)

lemma expect_active_tool_Inr_iff [result_simps]:
  "expect_active_tool s e = Inr v \<longleftrightarrow>
     get (payload e) ''tool_call_id'' = JStr v \<and> v \<noteq> [] \<and> active_tool_call_id s = Some v"
  by (auto simp: expect_active_tool_def result_simps)

lemma expect_status_Inr_iff [result_simps]:
  "expect_status s st k = Inr t \<longleftrightarrow> status s = st \<and> k = Inr t"
  by (auto simp: expect_status_def result_simps)

lemma expect_budget_Inr_iff [result_simps]:
  "expect_model_budget_available s k = Inr t \<longleftrightarrow>
     (case max_steps s of None \<Rightarrow> True | Some m \<Rightarrow> turn_index s < m) \<and> k = Inr t"
  by (auto simp: expect_model_budget_available_def result_simps)

lemma expect_pending_Inr_iff [result_simps]:
  "expect_pending_model_action s e k = Inr t \<longleftrightarrow>
     (\<exists>a. get (payload e) ''model_action_event_id'' = JStr a \<and> a \<noteq> [] \<and>
          active_model_action_event_id s = Some a) \<and> k = Inr t"
  by (auto simp: expect_pending_model_action_def result_simps)

lemma expect_gate_Inr_iff [result_simps]:
  "expect_active_gate s e k = Inr t \<longleftrightarrow>
     (\<exists>c d r. get (payload e) ''tool_call_id'' = JStr c \<and> c \<noteq> [] \<and> active_tool_call_id s = Some c \<and>
        get (payload e) ''proposal_digest'' = JStr d \<and> d \<noteq> [] \<and>
        active_gate_proposal_digest s = Some d \<and>
        get (payload e) ''revision'' = JInt r \<and> 1 \<le> r \<and> active_gate_revision s = Some r) \<and>
     k = Inr t"
  by (auto simp: expect_active_gate_def result_simps)

lemma gate_limit_Inr_iff [result_simps]:
  "gate_limit e = Inr (m, k) \<longleftrightarrow>
     get (payload e) ''ownership_mode'' = JStr m \<and>
     (m = ''pair'' \<and> k = None \<or>
      m = ''user_gate'' \<and>
        (\<exists>n. get (payload e) ''max_attempts'' = JInt n \<and> 1 \<le> n \<and> k = Some n))"
proof (cases "get (payload e) ''ownership_mode''")
  case (JStr w)
  consider "w = ''user_gate''" | "w = ''pair''" | "w \<noteq> ''pair''" "w \<noteq> ''user_gate''" by blast
  then show ?thesis
  proof cases
    case 1
    then show ?thesis
      by (auto simp: gate_limit_def required_text_def JStr bindR_Inr_iff required_positive_int_Inr_iff)
  next
    case 2
    then show ?thesis by (auto simp: gate_limit_def required_text_def JStr)
  next
    case 3
    then have "gate_limit e = Inl InvalidTransitionError"
      by (simp add: gate_limit_def required_text_def JStr ensure_def)
    with 3 show ?thesis by (auto simp: JStr)
  qed
qed (simp_all add: gate_limit_def required_text_def)

lemma valid_state_frame [simp]:
  "valid_state (s\<lparr>status := a\<rparr>) = valid_state s"
  "valid_state (s\<lparr>active_step_id := b\<rparr>) = valid_state s"
  "valid_state (s\<lparr>active_model_invocation_id := b\<rparr>) = valid_state s"
  "valid_state (s\<lparr>active_model_action_event_id := b\<rparr>) = valid_state s"
  "valid_state (s\<lparr>active_tool_call_id := b\<rparr>) = valid_state s"
  "valid_state (s\<lparr>active_gate_proposal_digest := b\<rparr>) = valid_state s"
  "valid_state (s\<lparr>active_gate_revision := c\<rparr>) = valid_state s"
  "valid_state (s\<lparr>active_gate_mode := b\<rparr>) = valid_state s"
  "valid_state (s\<lparr>active_gate_attempts := n\<rparr>) = valid_state s"
  "valid_state (s\<lparr>active_gate_max_attempts := c\<rparr>) = valid_state s"
  "valid_state (s\<lparr>failure_reason := b\<rparr>) = valid_state s"
  "valid_state (s\<lparr>applied_event_fingerprints := fs\<rparr>) = valid_state s"
  "valid_state (clear_gate s) = valid_state s"
  by (simp_all add: valid_state_def clear_gate_def)

lemma valid_fail_tool [simp]: "valid_state (fail_tool s r) = valid_state s"
  by (simp add: fail_tool_def)

lemma core_facts [simp]:
  "status (clear_gate s) = status s"
  "active_step_id (clear_gate s) = active_step_id s"
  "active_model_invocation_id (clear_gate s) = active_model_invocation_id s"
  "active_model_action_event_id (clear_gate s) = active_model_action_event_id s"
  "active_tool_call_id (clear_gate s) = active_tool_call_id s"
  "active_gate_proposal_digest (clear_gate s) = None"
  "active_gate_revision (clear_gate s) = None"
  "active_gate_mode (clear_gate s) = None"
  "active_gate_attempts (clear_gate s) = 0"
  "active_gate_max_attempts (clear_gate s) = None"
  "failure_reason (clear_gate s) = failure_reason s"
  "next_sequence (clear_gate s) = next_sequence s"
  "turn_index (clear_gate s) = turn_index s"
  "max_steps (clear_gate s) = max_steps s"
  "state_run_id (clear_gate s) = state_run_id s"
  "applied_event_fingerprints (clear_gate s) = applied_event_fingerprints s"
  by (simp_all add: clear_gate_def)

subsection \<open>Every branch keeps a state well formed\<close>

lemma on_model_action_requested_Inr:
  assumes "on_model_action_requested s e = Inr t"
  obtains i where "status s = READY" and "\<forall>m. max_steps s = Some m \<longrightarrow> turn_index s < m"
    and "t = s\<lparr>status := MODEL_PENDING, active_step_id := Some (next_step_id s),
           active_model_invocation_id := Some i\<rparr>" and "valid_state t"
  using assms by (auto simp: on_model_action_requested_def result_simps split: option.splits)

lemma inv_model_action_requested: "on_model_action_requested s e = Inr t \<Longrightarrow> core_inv s \<Longrightarrow> core_inv t"
  apply (erule on_model_action_requested_Inr)
  apply (simp add: core_inv_def ok_defs next_step_id_def; force split: option.splits)
  done

lemma on_model_action_failed_Inr:
  assumes "on_model_action_failed s e = Inr t"
  obtains r where "status s = READY \<or> status s = MODEL_PENDING"
    and "t = s\<lparr>status := FAILED, active_step_id := None, active_model_invocation_id := None,
           active_model_action_event_id := None, failure_reason := Some r\<rparr>" and "valid_state t"
  using assms by (auto simp: on_model_action_failed_def result_simps)

lemma inv_model_action_failed: "on_model_action_failed s e = Inr t \<Longrightarrow> core_inv s \<Longrightarrow> core_inv t"
  apply (erule on_model_action_failed_Inr)
  apply (erule disjE; simp add: core_inv_def ok_defs; simp split: option.splits)
  done

lemma completion_guard_Inr_iff:
  "(if status s = ACTION_PENDING then expect_pending_model_action s e
    else expect_status s READY) k = Inr t \<longleftrightarrow>
   (status s = ACTION_PENDING \<and>
      (\<exists>a. get (payload e) ''model_action_event_id'' = JStr a \<and> a \<noteq> [] \<and>
          active_model_action_event_id s = Some a) \<or>
    status s = READY) \<and> k = Inr t"
  by (auto simp: result_simps)

lemma on_completion_Inr:
  assumes "on_completion s e = Inr t"
  shows "status s = ACTION_PENDING \<or> status s = READY"
    and "\<forall>m. max_steps s = Some m \<longrightarrow> turn_index s < m"
    and "t = s\<lparr>status := (if ev_event_type e = COMPLETION_ACCEPTED then COMPLETED else READY),
           turn_index := turn_index s + 1, active_step_id := None,
           active_model_invocation_id := None, active_model_action_event_id := None\<rparr>"
    and "valid_state t"
  using assms unfolding on_completion_def completion_guard_Inr_iff
  by (auto simp: result_simps simp del: if_split split: option.splits)

lemma inv_completion: "on_completion s e = Inr t \<Longrightarrow> core_inv s \<Longrightarrow> core_inv t"
  apply (frule on_completion_Inr(1), frule on_completion_Inr(2), frule on_completion_Inr(3), drule on_completion_Inr(4))
  apply (erule disjE; simp add: core_inv_def ok_defs; force split: option.splits)
  done

lemma on_gate_revised_Inr:
  assumes "on_gate_revised s e = Inr t"
  obtains d q m k where "status s = AWAITING_GATE" and "active_gate_revision s = Some q" and "1 \<le> q"
    and "active_gate_proposal_digest s \<noteq> Some d"
    and "gate_limit e = Inr (m, k)"
    and "t = s\<lparr>active_gate_proposal_digest := Some d, active_gate_revision := Some (q + 1),
          active_gate_mode := Some m, active_gate_attempts := 0, active_gate_max_attempts := k\<rparr>"
    and "valid_state t"
proof -
  note rules = on_gate_revised_def expect_status_Inr_iff expect_active_tool_Inr_iff
    required_text_Inr_iff required_positive_int_Inr_iff bindR_Inr_iff ensure_Inr_iff
    state_post_init_Inr_iff
  from assms obtain d p q m k where
    *: "status s = AWAITING_GATE" "Some q = active_gate_revision s" "1 \<le> q"
       "Some p = active_gate_proposal_digest s" "d \<noteq> p" and gl: "gate_limit e = Inr (m, k)"
       and t: "t = s\<lparr>active_gate_proposal_digest := Some d, active_gate_revision := Some (q + 1),
          active_gate_mode := Some m, active_gate_attempts := 0, active_gate_max_attempts := k\<rparr>"
       and v: "valid_state t"
    unfolding rules by (elim exE conjE) (clarsimp simp: rules)
  show thesis
    by (rule that [OF _ _ _ _ gl t v]) (use * in auto)
qed

lemma inv_gate_revised:
  assumes "on_gate_revised s e = Inr t" and "core_inv s" shows "core_inv t"
  using assms(1)
proof (cases rule: on_gate_revised_Inr)
  case (1 d q m k)
  from 1(5) have "m = ''pair'' \<and> k = None \<or> m = ''user_gate'' \<and> (\<exists>n. 1 \<le> n \<and> k = Some n)"
    by (auto simp: gate_limit_Inr_iff)
  then have "gate_ok t" using 1(1,3) by (elim disjE) (auto simp: gate_ok_def 1(6))
  moreover have "tool_ok t \<and> model_ok t \<and> step_ok t \<and> budget_ok t \<and> failure_ok t"
    using assms(2) 1(1)
    by (simp add: core_inv_def tool_ok_def model_ok_def step_ok_def budget_ok_def failure_ok_def
        1(6) next_step_id_def split: option.splits)
  ultimately show ?thesis using 1(7) by (simp add: core_inv_def)
qed

lemma transition_core_inv:
  assumes step: "transition s e = Inr t" and inv: "core_inv s"
  shows "core_inv t"
proof (cases "ev_event_type e")
  case MODEL_ACTION_REQUESTED
  with assms show ?thesis by (auto simp: transition_def intro: inv_model_action_requested)
next
  case MODEL_ACTION_FAILED
  with assms show ?thesis by (auto simp: transition_def intro: inv_model_action_failed)
next
  case COMPLETION_ACCEPTED
  with assms show ?thesis by (auto simp: transition_def intro: inv_completion)
next
  case COMPLETION_REJECTED
  with assms show ?thesis by (auto simp: transition_def intro: inv_completion)
next
  case GATE_REVISED
  with assms show ?thesis by (auto simp: transition_def intro: inv_gate_revised)
qed (use assms in \<open>auto simp: transition_def handler_defs result_simps Let_def core_inv_def ok_defs
      next_step_id_def fail_tool_def split: if_splits option.splits\<close>)

subsection \<open>Postconditions of successful branches\<close>

text \<open>\<open>post r P\<close>: if the computation returns, its result satisfies \<open>P\<close>.\<close>

definition post :: "'a result \<Rightarrow> ('a \<Rightarrow> bool) \<Rightarrow> bool" where
  "post r P \<longleftrightarrow> (\<forall>x. r = Inr x \<longrightarrow> P x)"

lemma post_simps [simp]:
  "post (Inl e) P"
  "post (Inr x) P = P x"
  "post (ensure b e k) P = (b \<longrightarrow> post k P)"
  "post (bindR m f) P = post m (\<lambda>x. post (f x) P)"
  "post m (\<lambda>_. True)"
  by (auto simp: post_def ensure_def bindR_def split: sum.splits)

lemma post_map_sum [simp]: "post (map_sum id f m) P = post m (\<lambda>x. P (f x))"
  by (cases m) simp_all

lemma post_prod [simp]: "post (case p of (a, b) \<Rightarrow> f a b) P = post (f (fst p) (snd p)) P"
  by (simp add: case_prod_beta)

lemma postD: "post r P \<Longrightarrow> r = Inr x \<Longrightarrow> P x"
  by (simp add: post_def)

lemma post_all: "(\<And>x. P x) \<Longrightarrow> post m P"
  by (simp add: post_def)

lemma post_if [simp]: "post (if b then m else n) P \<longleftrightarrow> (b \<longrightarrow> post m P) \<and> (\<not> b \<longrightarrow> post n P)"
  by simp

lemma post_state [simp]: "post (state_post_init s) P \<longleftrightarrow> (valid_state s \<longrightarrow> P s)"
  by (auto simp: post_def result_simps)

lemma post_guards [simp]:
  "post (expect_status s st k) P \<longleftrightarrow> (status s = st \<longrightarrow> post k P)"
  "post (expect_model_budget_available s k) P \<longleftrightarrow>
     ((\<forall>m. max_steps s = Some m \<longrightarrow> turn_index s < m) \<longrightarrow> post k P)"
  by (auto simp: expect_status_def expect_model_budget_available_def split: option.splits)

lemma post_references [simp]:
  "post (expect_pending_model_action s e k) P \<longleftrightarrow>
     ((\<exists>a. get (payload e) ''model_action_event_id'' = JStr a \<and> a \<noteq> [] \<and>
         active_model_action_event_id s = Some a) \<longrightarrow> post k P)"
  "post (expect_active_gate s e k) P \<longleftrightarrow>
     ((\<exists>c d r. get (payload e) ''tool_call_id'' = JStr c \<and> c \<noteq> [] \<and> active_tool_call_id s = Some c \<and>
        get (payload e) ''proposal_digest'' = JStr d \<and> d \<noteq> [] \<and>
        active_gate_proposal_digest s = Some d \<and>
        get (payload e) ''revision'' = JInt r \<and> 1 \<le> r \<and> active_gate_revision s = Some r) \<longrightarrow>
      post k P)"
  by (auto simp: post_def result_simps)

subsection \<open>What a branch leaves alone, and the abstract lifecycle\<close>

definition consumes_step :: "ExecutionEvent \<Rightarrow> bool" where
  "consumes_step e \<longleftrightarrow>
     ev_event_type e = COMPLETION_ACCEPTED \<or> ev_event_type e = COMPLETION_REJECTED \<or>
     ev_event_type e = VERIFICATION_SUCCEEDED \<and>
       get_default (payload e) ''scope'' (JStr ''run'') = JStr ''step''"

definition frame :: "RunState \<Rightarrow> ExecutionEvent \<Rightarrow> RunState \<Rightarrow> bool" where
  "frame s e t \<longleftrightarrow>
     state_run_id t = state_run_id s \<and> next_sequence t = next_sequence s \<and>
     applied_event_fingerprints t = applied_event_fingerprints s \<and>
     (status s \<noteq> NEW \<longrightarrow> max_steps t = max_steps s) \<and>
     turn_index t = turn_index s + (if consumes_step e then 1 else 0)"

lemma transition_frame: "transition s e = Inr t \<Longrightarrow> frame s e t"
proof -
  have "post (transition s e) (frame s e)"
    by (cases "ev_event_type e")
       (auto simp: transition_def handler_defs frame_def consumes_step_def fail_tool_def Let_def
         intro!: post_all split: json.splits)
  then show "transition s e = Inr t \<Longrightarrow> frame s e t" by (rule postD)
qed

inductive lifecycle :: "RunStatus \<Rightarrow> EventType \<Rightarrow> RunStatus \<Rightarrow> bool" where
  cancel: "lifecycle a RUN_CANCELLED CANCELLED"
| create: "lifecycle NEW RUN_CREATED CREATED"
| start: "lifecycle CREATED RUN_STARTED READY"
| pause: "lifecycle READY RUN_PAUSED PAUSED"
| resume: "lifecycle PAUSED RUN_RESUMED READY"
| budget: "lifecycle READY RUN_STEP_BUDGET_EXHAUSTED FAILED"
| ask: "lifecycle READY MODEL_ACTION_REQUESTED MODEL_PENDING"
| propose: "lifecycle MODEL_PENDING MODEL_ACTION_PROPOSED ACTION_PENDING"
| ask_failed: "a = READY \<or> a = MODEL_PENDING \<Longrightarrow> lifecycle a MODEL_ACTION_FAILED FAILED"
| accept: "a = READY \<or> a = ACTION_PENDING \<Longrightarrow> lifecycle a COMPLETION_ACCEPTED COMPLETED"
| reject: "a = READY \<or> a = ACTION_PENDING \<Longrightarrow> lifecycle a COMPLETION_REJECTED READY"
| request: "a = READY \<or> a = ACTION_PENDING \<Longrightarrow> lifecycle a TOOL_REQUESTED TOOL_PENDING"
| authorize: "lifecycle TOOL_PENDING TOOL_AUTHORIZED TOOL_READY"
| escalate: "lifecycle TOOL_PENDING TOOL_ESCALATED AWAITING_GATE"
| deny: "lifecycle TOOL_PENDING TOOL_DENIED FAILED"
| approve: "lifecycle AWAITING_GATE GATE_APPROVED TOOL_READY"
| revise: "lifecycle AWAITING_GATE GATE_REVISED AWAITING_GATE"
| evaluate: "b = AWAITING_GATE \<or> b = TOOL_READY \<or> b = FAILED \<Longrightarrow>
    lifecycle AWAITING_GATE GATE_EVALUATED b"
| gate_reject: "lifecycle AWAITING_GATE GATE_REJECTED FAILED"
| execute: "lifecycle TOOL_READY TOOL_STARTED TOOL_RUNNING"
| succeed: "lifecycle TOOL_RUNNING TOOL_SUCCEEDED VERIFYING"
| tool_fail: "lifecycle TOOL_RUNNING TOOL_FAILED FAILED"
| time_out: "lifecycle TOOL_RUNNING TOOL_TIMED_OUT FAILED"
| verify: "b = COMPLETED \<or> b = READY \<Longrightarrow> lifecycle VERIFYING VERIFICATION_SUCCEEDED b"
| verify_fail: "lifecycle VERIFYING VERIFICATION_FAILED FAILED"

inductive_cases lifecycle_completed [elim]: "lifecycle a ty COMPLETED"
inductive_cases lifecycle_running [elim]: "lifecycle a ty TOOL_RUNNING"
inductive_cases lifecycle_ready [elim]: "lifecycle a ty TOOL_READY"
inductive_simps lifecycle_to_cancelled: "lifecycle a ty CANCELLED"

lemma transition_lifecycle:
  assumes "transition s e = Inr t"
  shows "lifecycle (status s) (ev_event_type e) (status t)"
proof -
  have "post (transition s e) (\<lambda>t. lifecycle (status s) (ev_event_type e) (status t))"
    by (cases "ev_event_type e")
       (auto simp: transition_def handler_defs fail_tool_def Let_def
         intro: lifecycle.intros intro!: post_all split: json.splits)
  then show ?thesis using assms by (rule postD)
qed


subsection \<open>One reduction\<close>

definition state_inv :: "RunState \<Rightarrow> bool" where
  "state_inv s \<longleftrightarrow> core_inv s \<and>
     next_sequence s = int (length (applied_event_fingerprints s)) \<and>
     distinct (map fst (applied_event_fingerprints s))"

lemma reduce_cases [consumes 1, case_names duplicate fresh]:
  assumes "reduce H s e = Inr t"
  obtains "ev_run_id e = state_run_id s"
      and "fingerprint_for s (ev_event_id e) = Some (fingerprint H e)" and "t = s"
  | u where "ev_run_id e = state_run_id s" and "fingerprint_for s (ev_event_id e) = None"
      and "\<not> is_terminal s" and "ev_sequence e = next_sequence s" and "transition s e = Inr u"
      and "t = u\<lparr>next_sequence := next_sequence s + 1,
             applied_event_fingerprints :=
               applied_event_fingerprints s @ [(ev_event_id e, fingerprint H e)]\<rparr>"
  using assms by (auto simp: reduce_def result_simps split: option.splits if_splits)

lemma core_inv_bookkeeping:
  "core_inv u \<Longrightarrow> 0 \<le> n \<Longrightarrow> core_inv (u\<lparr>next_sequence := n, applied_event_fingerprints := f\<rparr>)"
  by (simp add: core_inv_def ok_defs next_step_id_def valid_state_def split: option.splits)

lemma fingerprint_for_None:
  "fingerprint_for s i = None \<longleftrightarrow> i \<notin> fst ` set (applied_event_fingerprints s)"
  by (simp add: fingerprint_for_def map_of_eq_None_iff)

lemma state_inv_reduce:
  assumes "state_inv s" and "reduce H s e = Inr t"
  shows "state_inv t"
  using assms(2)
proof (cases rule: reduce_cases)
  case duplicate
  then show ?thesis using assms(1) by simp
next
  case (fresh u)
  have "core_inv t" unfolding fresh(6)
    using assms(1) fresh(5)
    by (intro core_inv_bookkeeping) (auto simp: state_inv_def intro: transition_core_inv)
  then show ?thesis
    using assms(1) fresh(2) by (auto simp: state_inv_def fresh(6) fingerprint_for_None)
qed

lemma state_inv_empty: "r \<noteq> [] \<Longrightarrow> state_inv (empty_state r)"
  by (simp add: state_inv_def core_inv_def ok_defs valid_state_def empty_state_def)

text \<open>What every reduction keeps between the state before and the state after.\<close>

definition extends_state :: "RunState \<Rightarrow> RunState \<Rightarrow> bool" where
  "extends_state s t \<longleftrightarrow>
     state_run_id t = state_run_id s \<and>
     (\<exists>more. applied_event_fingerprints t = applied_event_fingerprints s @ more) \<and>
     turn_index s \<le> turn_index t \<and>
     (status s \<noteq> NEW \<longrightarrow> status t \<noteq> NEW \<and> max_steps t = max_steps s) \<and>
     (is_terminal s \<longrightarrow> t = s)"

lemma lifecycle_not_new: "lifecycle a ty b \<Longrightarrow> b \<noteq> NEW"
  by (induction rule: lifecycle.induct) auto

lemma extends_state_reduce:
  assumes "reduce H s e = Inr t"
  shows "extends_state s t"
  using assms
proof (cases rule: reduce_cases)
  case (fresh u)
  then show ?thesis
    using transition_frame [OF fresh(5)] lifecycle_not_new [OF transition_lifecycle [OF fresh(5)]]
    by (simp add: extends_state_def frame_def)
qed (simp add: extends_state_def)

definition applied :: "hash \<Rightarrow> RunState \<Rightarrow> ExecutionEvent \<Rightarrow> bool" where
  "applied H s e \<longleftrightarrow>
     ev_run_id e = state_run_id s \<and>
     fingerprint_for s (ev_event_id e) = Some (fingerprint H e)"

lemma fingerprint_for_keep:
  "extends_state s t \<Longrightarrow> fingerprint_for s i = Some f \<Longrightarrow> fingerprint_for t i = Some f"
  by (auto simp: extends_state_def fingerprint_for_def)

interpretation reducer: event_machine "reduce H" state_inv
  by unfold_locales (rule state_inv_reduce)

interpretation reducer_order: monotone_machine "reduce H" state_inv extends_state
proof unfold_locales
  fix s t u :: RunState
  show "extends_state s s" by (simp add: extends_state_def)
  show "extends_state s t \<Longrightarrow> extends_state t u \<Longrightarrow> extends_state s u"
    by (auto simp: extends_state_def)
qed (rule extends_state_reduce)

interpretation reducer_delivery: redelivery_machine "reduce H" state_inv "applied H"
proof unfold_locales
  fix s t :: RunState and e d :: ExecutionEvent
  assume step: "reduce H s e = Inr t"
  from step show "applied H t e"
  proof (cases rule: reduce_cases)
    case (fresh u)
    then show ?thesis
      using transition_frame [OF fresh(5)]
      by (simp add: applied_def frame_def fingerprint_for_def map_add_def map_of_append)
  qed (simp add: applied_def)
  show "applied H s d \<Longrightarrow> applied H t d"
    using extends_state_reduce [OF step]
    by (auto simp: applied_def extends_state_def fingerprint_for_keep [OF extends_state_reduce [OF step]])
next
  fix s e assume "applied H s e"
  then show "reduce H s e = Inr s" by (simp add: applied_def reduce_def)
qed

subsection \<open>Replay\<close>

lemma replay_Inr_iff: "replay H r es = Inr s \<longleftrightarrow> r \<noteq> [] \<and> foldR (reduce H) (empty_state r) es = Inr s"
  by (auto simp: replay_def replay_tail_def initial_state_def result_simps valid_state_def
      empty_state_def)

lemma replay_append: "replay H r (es @ fs) = bindR (replay H r es) (\<lambda>s. replay_tail H s fs)"
  by (cases "initial_state r") (simp_all add: replay_def replay_tail_def foldR_append)

lemma replay_snoc: "replay H r (es @ [e]) = bindR (replay H r es) (\<lambda>s. reduce H s e)"
  by (cases "replay H r es") (simp_all add: replay_append replay_tail_def bindR_def split: sum.splits)

lemma replay_state_inv: "replay H r es = Inr s \<Longrightarrow> state_inv s"
  by (auto simp: replay_Inr_iff intro: reducer.inv_run state_inv_empty)

lemma replay_induct [consumes 1, case_names initial step]:
  assumes "replay H r es = Inr s"
    and "r \<noteq> [] \<Longrightarrow> P [] (empty_state r)"
    and "\<And>es s e t. replay H r es = Inr s \<Longrightarrow> state_inv s \<Longrightarrow> P es s \<Longrightarrow> reduce H s e = Inr t \<Longrightarrow>
          P (es @ [e]) t"
  shows "P es s"
  using assms(1)
proof (induction es arbitrary: s rule: rev_induct)
  case Nil
  then show ?case using assms(2) by (auto simp: replay_Inr_iff)
next
  case (snoc e es)
  then obtain u where "replay H r es = Inr u" "reduce H u e = Inr s"
    by (auto simp: replay_snoc bindR_Inr_iff)
  with snoc.IH assms(3) replay_state_inv show ?case by blast
qed

end
