(* ===== verification/Samples.thy ===== *)
theory Samples
  imports Lifecycle
begin

section \<open>Concrete histories\<close>

text \<open>
  Small event histories and the states they replay to, evaluated once: the inputs on which the
  properties of the reducer and of the event store are applied. The hash is constant, so that
  fingerprints evaluate at once; a history with a second hash is built where a property needs it.
\<close>


definition noon :: datetime where
  "noon = \<lparr>year = 2026, month = 1, day = 2, hour = 12, minute = 0, second = 0,
           microsecond = 0, utcoffset = Some 0\<rparr>"

definition sample_event :: "string \<Rightarrow> int \<Rightarrow> EventType \<Rightarrow> payload \<Rightarrow> ExecutionEvent" where
  "sample_event i n k p =
     \<lparr>ev_event_id = i, ev_run_id = ''r'', ev_sequence = n, ev_event_type = k,
      ev_occurred_at = noon, ev_payload_json = render (JObj p)\<rparr>"

lemma sample_event_simps [simp]:
  "ev_event_id (sample_event i n k p) = i"
  "ev_run_id (sample_event i n k p) = ''r''"
  "ev_sequence (sample_event i n k p) = n"
  "ev_event_type (sample_event i n k p) = k"
  "canon (JObj p) \<Longrightarrow> payload (sample_event i n k p) = p"
  by (simp_all add: sample_event_def payload_def loads_render)

lemma noon_offset [simp]: "utcoffset noon = Some 0"
  by (simp add: noon_def)

lemma noon_valid [simp]: "valid_datetime noon"
  by (simp add: noon_def valid_datetime_def days_in_month_def)

lemma wf_sample_event:
  "i \<noteq> [] \<Longrightarrow> 0 \<le> n \<Longrightarrow> canon (JObj p) \<Longrightarrow> wf_event (sample_event i n k p)"
  by (simp add: wf_event_iff) (simp add: sample_event_def)

definition flat_hash :: hash where
  "flat_hash t = ''h''"

definition started_events :: "ExecutionEvent list" where
  "started_events =
     [sample_event ''a'' 0 RUN_CREATED [(''max_steps'', JInt 2)],
      sample_event ''b'' 1 RUN_STARTED []]"

definition tool_payload :: payload where
  "tool_payload = [(''tool_call_id'', JStr ''c'')]"

definition tool_events :: "ExecutionEvent list" where
  "tool_events = started_events @
     [sample_event ''c'' 2 TOOL_REQUESTED [(''step_id'', JStr ''s''), (''tool_call_id'', JStr ''c'')],
      sample_event ''d'' 3 TOOL_AUTHORIZED tool_payload,
      sample_event ''e'' 4 TOOL_STARTED tool_payload]"

definition step_events :: "ExecutionEvent list" where
  "step_events = tool_events @
     [sample_event ''f'' 5 TOOL_SUCCEEDED tool_payload,
      sample_event ''g'' 6 VERIFICATION_SUCCEEDED [(''scope'', JStr ''step''), (''step_id'', JStr ''s'')]]"

definition ready_state :: RunState where
  "ready_state = (empty_state ''r'')\<lparr>status := READY, next_sequence := 2, max_steps := Some 2,
     applied_event_fingerprints := [(''a'', ''h''), (''b'', ''h'')]\<rparr>"

lemmas reduce_eval = reduce_def fingerprint_for_def ensure_def transition_def handler_defs expect_status_def
  expect_active_tool_def required_text_def required_positive_int_def state_post_init_def
  is_terminal_iff fingerprint_def flat_hash_def get_def get_default_def canon_obj
  expect_model_budget_available_def expect_active_gate_def expect_pending_model_action_def

lemma replay_started: "replay flat_hash ''r'' started_events = Inr ready_state"
  by (simp add: replay_def replay_tail_def started_events_def ready_state_def initial_state_def empty_state_def
      reduce_eval)

definition running_state :: RunState where
  "running_state = (empty_state ''r'')\<lparr>status := TOOL_RUNNING, next_sequence := 5, max_steps := Some 2,
     active_step_id := Some ''s'', active_tool_call_id := Some ''c'',
     applied_event_fingerprints := [(''a'', ''h''), (''b'', ''h''), (''c'', ''h''), (''d'', ''h''), (''e'', ''h'')]\<rparr>"

lemma replay_tool: "replay flat_hash ''r'' tool_events = Inr running_state"
  by (simp add: tool_events_def replay_append replay_started)
     (simp add: replay_tail_def ready_state_def running_state_def empty_state_def
      reduce_eval tool_payload_def)

definition gate_payload :: payload where
  "gate_payload = [(''max_attempts'', JInt 2), (''ownership_mode'', JStr ''user_gate''),
     (''proposal_digest'', JStr ''p''), (''revision'', JInt 1), (''tool_call_id'', JStr ''c'')]"

definition gate_events :: "ExecutionEvent list" where
  "gate_events = started_events @
     [sample_event ''c'' 2 TOOL_REQUESTED tool_payload,
      sample_event ''d'' 3 TOOL_ESCALATED gate_payload]"

definition gated_state :: RunState where
  "gated_state = (empty_state ''r'')\<lparr>status := AWAITING_GATE, next_sequence := 4,
     max_steps := Some 2, active_tool_call_id := Some ''c'',
     active_gate_proposal_digest := Some ''p'', active_gate_revision := Some 1,
     active_gate_mode := Some ''user_gate'', active_gate_attempts := 0,
     active_gate_max_attempts := Some 2,
     applied_event_fingerprints := [(''a'', ''h''), (''b'', ''h''), (''c'', ''h''), (''d'', ''h'')]\<rparr>"

lemma replay_gate: "replay flat_hash ''r'' gate_events = Inr gated_state"
  by (simp add: gate_events_def replay_append replay_started)
     (simp add: replay_tail_def ready_state_def gated_state_def empty_state_def
      reduce_eval gate_limit_def gate_payload_def tool_payload_def)

definition gate_retry :: ExecutionEvent where
  "gate_retry = sample_event ''e'' 4 GATE_EVALUATED
     [(''attempt'', JInt 1), (''max_attempts'', JInt 2), (''outcome'', JStr ''retry''),
      (''proposal_digest'', JStr ''p''), (''reason'', JStr ''no''), (''revision'', JInt 1),
      (''tool_call_id'', JStr ''c'')]"

definition gate_revision :: ExecutionEvent where
  "gate_revision = sample_event ''e'' 4 GATE_REVISED
     [(''ownership_mode'', JStr ''pair''), (''previous_proposal_digest'', JStr ''p''),
      (''previous_revision'', JInt 1), (''proposal_digest'', JStr ''q''), (''revision'', JInt 2),
      (''tool_call_id'', JStr ''c'')]"

definition gate_rejection :: ExecutionEvent where
  "gate_rejection = sample_event ''f'' 5 GATE_REJECTED
     [(''proposal_digest'', JStr ''p''), (''reason'', JStr ''no''), (''revision'', JInt 1),
      (''tool_call_id'', JStr ''c'')]"

definition done_state :: RunState where
  "done_state = (empty_state ''r'')\<lparr>status := READY, next_sequence := 7, turn_index := 1,
     max_steps := Some 2,
     applied_event_fingerprints := [(''a'', ''h''), (''b'', ''h''), (''c'', ''h''), (''d'', ''h''),
       (''e'', ''h''), (''f'', ''h''), (''g'', ''h'')]\<rparr>"

lemma replay_step: "replay flat_hash ''r'' step_events = Inr done_state"
  by (simp add: step_events_def replay_append replay_tool)
     (simp add: replay_tail_def running_state_def done_state_def empty_state_def clear_gate_def
      reduce_eval tool_payload_def)

definition completed_events :: "ExecutionEvent list" where
  "completed_events = tool_events @
     [sample_event ''f'' 5 TOOL_SUCCEEDED tool_payload, sample_event ''g'' 6 VERIFICATION_SUCCEEDED []]"

definition completed_state :: RunState where
  "completed_state = done_state\<lparr>status := COMPLETED, turn_index := 0\<rparr>"

lemma replay_completed: "replay flat_hash ''r'' completed_events = Inr completed_state"
  by (simp add: completed_events_def replay_append replay_tool)
     (simp add: replay_tail_def running_state_def completed_state_def done_state_def empty_state_def
      clear_gate_def reduce_eval tool_payload_def)

end
