(* ===== verification/Histories.thy ===== *)
theory Histories
  imports Samples
begin

section \<open>What holds of every replayed history\<close>

text \<open>
  Theorems about \<open>replay\<close> and \<open>reduce\<close>: delivery (duplicates, conflicts, order), the
  shape of histories that reach a tool start or a completion, gates, budgets, cancellation, and
  the exceptions a reduction can raise.
\<close>

subsection \<open>Histories and the events they record\<close>

lemma replay_append_Inr:
  assumes "replay H r (es @ fs) = Inr t"
  obtains s where "replay H r es = Inr s" and "foldR (reduce H) s fs = Inr t"
  using assms by (auto simp: replay_append replay_tail_def bindR_Inr_iff)

lemma replay_run_id: "replay H r es = Inr s \<Longrightarrow> state_run_id s = r"
  by (induction rule: replay_induct)
     (auto simp: empty_state_def extends_state_def dest!: extends_state_reduce)

lemma applied_in_history:
  assumes "replay H r es = Inr s" and "e \<in> set es"
  shows "applied H s e"
  using assms by (auto simp: replay_Inr_iff intro: reducer_delivery.applied_run state_inv_empty)

lemma replay_ids:
  "replay H r es = Inr s \<Longrightarrow> fst ` set (applied_event_fingerprints s) = ev_event_id ` set es"
proof (induction rule: replay_induct)
  case (step es s e t)
  from step.hyps(3) show ?case
  proof (cases rule: reduce_cases)
    case duplicate
    then have "ev_event_id e \<in> fst ` set (applied_event_fingerprints s)"
      using fingerprint_for_None [of s "ev_event_id e"] by auto
    with step.IH duplicate show ?thesis by auto
  next
    case (fresh u)
    then show ?thesis by (simp add: step.IH)
  qed
qed (simp add: empty_state_def)

lemma fresh_iff:
  "replay H r es = Inr s \<Longrightarrow> fingerprint_for s i = None \<longleftrightarrow> i \<notin> ev_event_id ` set es"
  by (simp add: fingerprint_for_None replay_ids)

lemma replay_snoc_fresh:
  assumes "replay H r (es @ [e]) = Inr t" and "ev_event_id e \<notin> ev_event_id ` set es"
  obtains s u where "replay H r es = Inr s" and "state_inv s" and "\<not> is_terminal s"
    and "ev_sequence e = next_sequence s" and "transition s e = Inr u"
    and "t = u\<lparr>next_sequence := next_sequence s + 1,
           applied_event_fingerprints :=
             applied_event_fingerprints s @ [(ev_event_id e, fingerprint H e)]\<rparr>"
proof -
  from assms(1) obtain s where s: "replay H r es = Inr s" and step: "reduce H s e = Inr t"
    by (auto simp: replay_snoc bindR_Inr_iff)
  from step show thesis
  proof (cases rule: reduce_cases)
    case duplicate
    then show thesis using assms(2) fresh_iff [OF s, of "ev_event_id e"] by simp
  next
    case (fresh u)
    then show thesis using that s replay_state_inv by blast
  qed
qed

definition grants :: "ExecutionEvent \<Rightarrow> string \<Rightarrow> bool" where
  "grants e c \<longleftrightarrow>
     (ev_event_type e = TOOL_AUTHORIZED \<or> ev_event_type e = GATE_APPROVED \<or>
      ev_event_type e = GATE_EVALUATED \<and> get (payload e) ''outcome'' = JStr ''pass'') \<and>
     get (payload e) ''tool_call_id'' = JStr c"

definition about_call :: "EventType \<Rightarrow> ExecutionEvent \<Rightarrow> string \<Rightarrow> bool" where
  "about_call k e c \<longleftrightarrow> ev_event_type e = k \<and> get (payload e) ''tool_call_id'' = JStr c"

lemma transition_to_ready:
  assumes "transition s e = Inr t" and "status t = TOOL_READY"
  obtains c where "grants e c" and "active_tool_call_id t = Some c"
proof -
  from transition_lifecycle [OF assms(1)] assms(2)
  consider "ev_event_type e = TOOL_AUTHORIZED" | "ev_event_type e = GATE_APPROVED"
    | "ev_event_type e = GATE_EVALUATED" by auto
  then have "\<exists>c. grants e c \<and> active_tool_call_id t = Some c"
    by cases (use assms in \<open>auto simp: transition_def on_tool_authorized_def on_gate_approved_def
        on_gate_evaluated_def result_simps grants_def fail_tool_def split: if_splits\<close>)
  with that show thesis by blast
qed

lemma transition_started:
  assumes "transition s e = Inr t" and "ev_event_type e = TOOL_STARTED"
  obtains c where "status s = TOOL_READY" and "active_tool_call_id s = Some c"
    and "about_call TOOL_STARTED e c" and "active_tool_call_id t = Some c"
  using assms by (auto simp: transition_def on_tool_started_def result_simps about_call_def)

lemma ends_with_grant:
  assumes "replay H r es = Inr s" and "distinct (map ev_event_id es)" and "status s = TOOL_READY"
  obtains as g c where "es = as @ [g]" and "grants g c" and "active_tool_call_id s = Some c"
proof (cases es rule: rev_cases)
  case Nil
  with assms show thesis by (auto simp: replay_Inr_iff empty_state_def)
next
  case (snoc as g)
  with assms(2) have new: "ev_event_id g \<notin> ev_event_id ` set as" by simp
  from assms(1) snoc obtain u v where "transition u g = Inr v" "status v = TOOL_READY"
      "active_tool_call_id s = active_tool_call_id v"
    using assms(3) by (auto elim: replay_snoc_fresh [OF _ new])
  with that snoc show thesis by (auto elim: transition_to_ready)
qed

lemma ends_with_started:
  assumes "replay H r es = Inr s" and "distinct (map ev_event_id es)" and "status s = TOOL_RUNNING"
  obtains as g b c where "es = as @ [g, b]" and "grants g c" and "about_call TOOL_STARTED b c"
    and "active_tool_call_id s = Some c"
proof (cases es rule: rev_cases)
  case Nil
  with assms show thesis by (auto simp: replay_Inr_iff empty_state_def)
next
  case (snoc as b)
  with assms(2) have new: "ev_event_id b \<notin> ev_event_id ` set as" by simp
  from assms(1) snoc obtain u v where u: "replay H r as = Inr u" and v: "transition u b = Inr v"
      and s: "status v = TOOL_RUNNING" "active_tool_call_id s = active_tool_call_id v"
    using assms(3) by (auto elim: replay_snoc_fresh [OF _ new])
  from transition_lifecycle [OF v] s(1) have "ev_event_type b = TOOL_STARTED" by auto
  with v obtain c where "status u = TOOL_READY" "active_tool_call_id u = Some c"
      "about_call TOOL_STARTED b c" "active_tool_call_id v = Some c" by (rule transition_started)
  with u that snoc s assms(2) show thesis by (auto elim: ends_with_grant)
qed

inductive_cases lifecycle_verifying [elim]: "lifecycle a ty VERIFYING"

lemma ends_with_succeeded:
  assumes "replay H r es = Inr s" and "distinct (map ev_event_id es)" and "status s = VERIFYING"
  obtains as g b f c where "es = as @ [g, b, f]" and "grants g c" and "about_call TOOL_STARTED b c"
    and "about_call TOOL_SUCCEEDED f c"
proof (cases es rule: rev_cases)
  case Nil
  with assms show thesis by (auto simp: replay_Inr_iff empty_state_def)
next
  case (snoc as f)
  with assms(2) have new: "ev_event_id f \<notin> ev_event_id ` set as" by simp
  from assms(1) snoc obtain u v where u: "replay H r as = Inr u" and v: "transition u f = Inr v"
      and s: "status v = VERIFYING"
    using assms(3) by (auto elim: replay_snoc_fresh [OF _ new])
  from transition_lifecycle [OF v] s have "ev_event_type f = TOOL_SUCCEEDED" by auto
  with v obtain c where "status u = TOOL_RUNNING" "active_tool_call_id u = Some c"
      "about_call TOOL_SUCCEEDED f c"
    by (auto simp: transition_def on_tool_succeeded_def result_simps about_call_def)
  with u that snoc assms(2) show thesis by (auto elim!: ends_with_started)
qed

lemma replay_bookkeeping:
  assumes "replay H r es = Inr s" and "distinct (map ev_event_id es)"
  shows "map ev_sequence es = map int [0..<length es] \<and> next_sequence s = int (length es) \<and>
     applied_event_fingerprints s = map (\<lambda>e. (ev_event_id e, fingerprint H e)) es"
  using assms
proof (induction es arbitrary: s rule: rev_induct)
  case Nil
  then show ?case by (auto simp: replay_Inr_iff empty_state_def)
next
  case (snoc e es)
  from snoc.prems(2) have new: "ev_event_id e \<notin> ev_event_id ` set es" by simp
  from snoc.prems(1) new obtain u v where u: "replay H r es = Inr u"
      and "ev_sequence e = next_sequence u"
      and s: "s = v\<lparr>next_sequence := next_sequence u + 1,
        applied_event_fingerprints := applied_event_fingerprints u @ [(ev_event_id e, fingerprint H e)]\<rparr>"
    by (rule replay_snoc_fresh)
  with snoc.IH [OF u] snoc.prems(2) show ?case by simp
qed

lemma replay_turns:
  assumes "replay H r es = Inr s" and "distinct (map ev_event_id es)"
  shows "turn_index s = int (length (filter consumes_step es))"
  using assms
proof (induction es arbitrary: s rule: rev_induct)
  case Nil
  then show ?case by (auto simp: replay_Inr_iff empty_state_def)
next
  case (snoc e es)
  from snoc.prems(2) have new: "ev_event_id e \<notin> ev_event_id ` set es" by simp
  from snoc.prems(1) new obtain u v where u: "replay H r es = Inr u"
      and v: "transition u e = Inr v"
      and "s = v\<lparr>next_sequence := next_sequence u + 1,
        applied_event_fingerprints := applied_event_fingerprints u @ [(ev_event_id e, fingerprint H e)]\<rparr>"
    by (rule replay_snoc_fresh)
  with snoc.IH [OF u] snoc.prems(2) transition_frame [OF v] show ?case by (simp add: frame_def)
qed

lemma gate_reference_current:
  assumes "transition s e = Inr t" and "ev_event_type e \<in> {GATE_APPROVED, GATE_EVALUATED, GATE_REJECTED}"
  shows "\<exists>q. active_gate_revision s = Some q \<and> get (payload e) ''revision'' = JInt q"
  using assms
  by (auto simp: transition_def on_gate_approved_def on_gate_evaluated_def on_gate_rejected_def
      expect_status_Inr_iff expect_gate_Inr_iff)

lemma gate_evaluation_step:
  assumes "state_inv s" and "status s = AWAITING_GATE" and "active_gate_max_attempts s = Some k"
    and "transition s e = Inr t" and "ev_event_type e = GATE_EVALUATED"
  shows "active_gate_attempts s < k \<and>
    (status t = AWAITING_GATE \<longrightarrow>
       active_gate_attempts t = active_gate_attempts s + 1 \<and> active_gate_max_attempts t = Some k)"
  using assms
  by (auto simp: state_inv_def core_inv_def gate_ok_def transition_def on_gate_evaluated_def
      result_simps fail_tool_def split: if_splits)

lemma gate_run_bounded:
  assumes "state_inv s" and "status s = AWAITING_GATE" and "active_gate_max_attempts s = Some k"
    and "foldR (reduce H) s es = Inr t" and "\<forall>e \<in> set es. ev_event_type e = GATE_EVALUATED"
    and "distinct (map ev_event_id es)"
    and "\<forall>e \<in> set es. fingerprint_for s (ev_event_id e) = None"
  shows "int (length es) \<le> k - active_gate_attempts s"
  using assms
proof (induction es arbitrary: s)
  case Nil
  then show ?case by (auto simp: state_inv_def core_inv_def gate_ok_def)
next
  case (Cons e es)
  then obtain u where step: "reduce H s e = Inr u" and run: "foldR (reduce H) u es = Inr t"
    by (auto simp: bindR_Inr_iff)
  have inv: "state_inv u" by (rule state_inv_reduce [OF Cons.prems(1) step])
  from step show ?case
  proof (cases rule: reduce_cases)
    case duplicate
    with Cons.prems(7) show ?thesis by simp
  next
    case (fresh v)
    have g: "active_gate_attempts s < k \<and> (status u = AWAITING_GATE \<longrightarrow>
        active_gate_attempts u = active_gate_attempts s + 1 \<and> active_gate_max_attempts u = Some k)"
      using gate_evaluation_step [OF Cons.prems(1-3) fresh(5)] Cons.prems(5) fresh(6) by simp
    have new: "\<forall>d \<in> set es. fingerprint_for u (ev_event_id d) = None"
      using Cons.prems(6,7) transition_frame [OF fresh(5)]
      by (auto simp: fresh(6) fingerprint_for_None frame_def image_iff)
    show ?thesis
    proof (cases "status u = AWAITING_GATE")
      case True
      with Cons.IH [OF inv True _ run _ _ new] Cons.prems(5,6) g show ?thesis by simp
    next
      case False
      have "es = []"
      proof (cases es)
        case (Cons d ds)
        then obtain w where "reduce H u d = Inr w" using run by (auto simp: bindR_Inr_iff)
        then show ?thesis
        proof (cases rule: reduce_cases)
          case duplicate
          then show ?thesis using new Cons by simp
        next
          case (fresh x)
          then show ?thesis using Cons.prems(5) Cons False
            by (simp add: transition_def on_gate_evaluated_def result_simps)
        qed
      qed simp
      with g show ?thesis by simp
    qed
  qed
qed

subsection \<open>Which exceptions a reduction raises\<close>

definition fails_in :: "'a result \<Rightarrow> error set \<Rightarrow> bool" where
  "fails_in r E \<longleftrightarrow> (\<forall>e. r = Inl e \<longrightarrow> e \<in> E)"

lemma fails_in_simps [simp]:
  "fails_in (Inl e) E \<longleftrightarrow> e \<in> E"
  "fails_in (Inr x) E"
  "fails_in (ensure b e k) E \<longleftrightarrow> (if b then fails_in k E else e \<in> E)"
  "fails_in (bindR m f) E \<longleftrightarrow> fails_in m E \<and> post m (\<lambda>x. fails_in (f x) E)"
  "fails_in (state_post_init s) E \<longleftrightarrow> valid_state s \<or> EventValidationError \<in> E"
  by (auto simp: fails_in_def ensure_def post_def bindR_def state_post_init_def valid_state_def
      split: sum.splits if_splits)

lemma fails_in_guards [simp]:
  "fails_in (required_text e f) {InvalidTransitionError}"
  "fails_in (required_positive_int e f) {InvalidTransitionError}"
  "fails_in (expect_active_tool s e) {InvalidTransitionError}"
  "fails_in (gate_limit e) {InvalidTransitionError}"
  by (auto simp: required_text_def required_positive_int_def expect_active_tool_def gate_limit_def
      intro!: post_all split: json.splits)

lemma fails_in_case_json:
  "fails_in (case j of JNull \<Rightarrow> a | JStr s \<Rightarrow> f s | _ \<Rightarrow> b) E \<longleftrightarrow>
   (case j of JNull \<Rightarrow> fails_in a E | JStr s \<Rightarrow> fails_in (f s) E | _ \<Rightarrow> fails_in b E)"
  by (cases j) simp_all

lemma fails_in_status [simp]:
  "fails_in (expect_status s st k) {InvalidTransitionError} \<longleftrightarrow>
     (status s = st \<longrightarrow> fails_in k {InvalidTransitionError})"
  "fails_in (expect_model_budget_available s k) {InvalidTransitionError} \<longleftrightarrow>
     ((case max_steps s of None \<Rightarrow> True | Some m \<Rightarrow> turn_index s < m) \<longrightarrow>
      fails_in k {InvalidTransitionError})"
  by (simp_all add: expect_status_def expect_model_budget_available_def)

lemma fails_in_references:
  "fails_in k {InvalidTransitionError} \<Longrightarrow>
     fails_in (expect_pending_model_action s e k) {InvalidTransitionError}"
  "fails_in k {InvalidTransitionError} \<Longrightarrow>
     fails_in (expect_active_gate s e k) {InvalidTransitionError}"
  by (auto simp: expect_pending_model_action_def expect_active_gate_def intro!: post_all)

lemma fails_in_map_sum [simp]: "fails_in (map_sum id f m) E = fails_in m E"
  by (cases m) (simp_all add: fails_in_def)

lemma fails_in_prod [simp]: "fails_in (case p of (a, b) \<Rightarrow> f a b) E = fails_in (f (fst p) (snd p)) E"
  by (simp add: case_prod_beta)

lemma post_positive: "(\<And>i. 1 \<le> i \<Longrightarrow> P i) \<Longrightarrow> post (required_positive_int e f) P"
  by (auto simp: post_def required_positive_int_Inr_iff)

lemma valid_turn [simp]:
  "valid_state s \<Longrightarrow> valid_state (s\<lparr>turn_index := turn_index s + 1\<rparr>)"
  "valid_state s \<Longrightarrow> 1 \<le> i \<Longrightarrow> valid_state (s\<lparr>max_steps := Some i\<rparr>)"
  "valid_state s \<Longrightarrow> valid_state (s\<lparr>max_steps := None\<rparr>)"
  by (simp_all add: valid_state_def)

lemma transition_fails_in:
  assumes "valid_state s"
  shows "fails_in (transition s e) {InvalidTransitionError}"
proof (cases "ev_event_type e = RUN_CREATED")
  case True
  then show ?thesis
    using assms by (auto simp: transition_def on_run_created_def intro!: post_positive)
next
  case False
  with assms show ?thesis
    by (cases "ev_event_type e")
       (auto simp: transition_def handler_defs Let_def valid_state_def clear_gate_def fail_tool_def
         intro!: post_all fails_in_references split: json.splits)
qed

subsection \<open>Events\<close>

text \<open>An event built from a JSON payload keeps it: the payload read back is the given one, and
  constructing the event again from its stored fields returns the same event.\<close>

theorem build_event_roundtrip:
  assumes "canon (JObj p)" and "build_event i r n k t p = Inr e"
  shows "payload e = p \<and> event_post_init e = Inr e \<and>
    ev_event_id e = i \<and> ev_run_id e = r \<and> ev_sequence e = n \<and> ev_event_type e = k \<and>
    ev_occurred_at e = t"
proof -
  have l: "loads (render (JObj p)) = Some (JObj p)" by (rule loads_render [OF assms(1)])
  have "event_post_init \<lparr>ev_event_id = i, ev_run_id = r, ev_sequence = n, ev_event_type = k,
      ev_occurred_at = t, ev_payload_json = render (JObj p)\<rparr> = Inr e"
    using assms by (simp add: build_event_def canonical_payload_canon)
  then show ?thesis using l
    by (auto simp: event_post_init_iff payload_def)
qed

definition example_payload :: payload where
  "example_payload = [(''reason'', JStr ''no''), (''revision'', JInt 1)]"

theorem build_event_roundtrip_witness:
  "\<exists>e. build_event ''e'' ''r'' 0 TOOL_DENIED noon example_payload = Inr e \<and> payload e = example_payload"
proof -
  have c: "canon (JObj example_payload)" by (simp add: example_payload_def canon_obj)
  then obtain e where e: "build_event ''e'' ''r'' 0 TOOL_DENIED noon example_payload = Inr e"
    using build_event_payload [OF c, of "''e''" "''r''" 0 noon TOOL_DENIED] by auto
  then show ?thesis using build_event_roundtrip [OF c e] by blast
qed

text \<open>Two constructed events with the same fingerprint are the same event, unless their different
  canonical texts collide under the hash.\<close>

theorem fingerprint_determines_event:
  assumes "wf_event d" and "wf_event e" and "fingerprint H d = fingerprint H e"
  shows "d = e \<or> (event_text d \<noteq> event_text e \<and> H (event_text d) = H (event_text e))"
  using assms event_text_inj by (auto simp: fingerprint_def)

theorem fingerprint_determines_event_witness:
  "\<exists>d e. wf_event d \<and> wf_event e \<and> fingerprint id d = fingerprint id e \<and> d = e"
proof -
  let ?e = "sample_event ''e'' 0 RUN_CREATED []"
  have "wf_event ?e" by (simp add: wf_sample_event canon_obj)
  with fingerprint_determines_event [of ?e ?e id] show ?thesis by auto
qed

subsection \<open>Replayed histories\<close>

text \<open>C18: every state a history replays to is well formed: the constructor's checks hold, exactly the
  fields of its status are set, gate attempts stay below their limit, the consumed turns within
  the step budget, a failure reason is present exactly when the run failed, and every applied
  event is recorded once under the next sequence number.\<close>

theorem replay_well_formed:
  assumes "replay H r es = Inr s"
  shows "state_inv s \<and> state_run_id s = r"
  using replay_state_inv [OF assms] replay_run_id [OF assms] by simp

theorem replay_well_formed_witness: "state_inv gated_state \<and> state_run_id gated_state = ''r''"
  by (rule replay_well_formed [OF replay_gate])

text \<open>C20: at-least-once delivery: redelivering, anywhere later in a history, events it already contains
  (in any order and number) does not change the outcome of the replay, errors included.\<close>

theorem replay_redelivery:
  assumes "set ds \<subseteq> set es"
  shows "replay H r (es @ ds @ fs) = replay H r (es @ fs)"
proof (cases "r = []")
  case False
  then show ?thesis
    using reducer_delivery.redeliver [OF state_inv_empty [OF False] assms]
    by (simp add: replay_def replay_tail_def initial_state_def state_post_init_valid
        valid_state_def empty_state_def)
qed (simp add: replay_def initial_state_def state_post_init_def empty_state_def)

theorem replay_redelivery_witness:
  "replay flat_hash ''r'' (tool_events @ started_events @ []) = Inr running_state"
proof -
  have "set started_events \<subseteq> set tool_events" by (auto simp: tool_events_def)
  from replay_redelivery [OF this, of flat_hash "''r''" "[]"] show ?thesis
    by (simp add: replay_tool)
qed

text \<open>An event that reuses the id of an applied event of the same run with different content is
  refused as a conflict, unless the two canonical texts collide under the hash.\<close>

theorem conflicting_event_refused:
  assumes "replay H r es = Inr s" and "e \<in> set es" and "wf_event e" and "wf_event d"
    and "ev_event_id d = ev_event_id e" and "ev_run_id d = r" and "d \<noteq> e"
  shows "reduce H s d = Inl DuplicateEventConflictError \<or>
    (event_text d \<noteq> event_text e \<and> H (event_text d) = H (event_text e))"
proof -
  have "applied H s e" using assms(1,2) by (rule applied_in_history)
  moreover have "event_text d \<noteq> event_text e" using assms(3,4,7) event_text_inj by blast
  ultimately show ?thesis
    using assms(5,6) replay_run_id [OF assms(1)] by (auto simp: reduce_def applied_def fingerprint_def)
qed

theorem conflicting_event_refused_witness:
  "\<exists>e d. e \<in> set started_events \<and> d \<noteq> e \<and>
     (reduce flat_hash ready_state d = Inl DuplicateEventConflictError \<or>
      (event_text d \<noteq> event_text e \<and> flat_hash (event_text d) = flat_hash (event_text e)))"
proof -
  let ?e = "sample_event ''b'' 1 RUN_STARTED []" and ?d = "sample_event ''b'' 2 RUN_PAUSED []"
  have "?e \<in> set started_events" "?d \<noteq> ?e" "wf_event ?e" "wf_event ?d"
    by (simp_all add: started_events_def wf_sample_event canon_obj) (simp add: sample_event_def)
  with conflicting_event_refused [OF replay_started, of ?e ?d] show ?thesis by auto
qed

text \<open>C32: terminal states absorb: no extension of a history changes a completed, failed or cancelled
  run, and a new event for it raises \<open>TerminalStateError\<close>.\<close>

theorem terminal_absorbs:
  assumes "replay H r es = Inr s" and "is_terminal s"
  shows "(replay H r (es @ fs) = Inr t \<longrightarrow> t = s) \<and>
    (ev_event_id e \<notin> ev_event_id ` set es \<longrightarrow> ev_run_id e = r \<longrightarrow>
       reduce H s e = Inl TerminalStateError)"
proof
  show "replay H r (es @ fs) = Inr t \<longrightarrow> t = s"
    using reducer_order.rel_run [OF replay_state_inv [OF assms(1)], of H fs t] assms
    by (simp add: replay_append replay_tail_def extends_state_def)
  have "fingerprint_for s (ev_event_id e) = None" if "ev_event_id e \<notin> ev_event_id ` set es"
    using that fresh_iff [OF assms(1)] by simp
  then show "ev_event_id e \<notin> ev_event_id ` set es \<longrightarrow> ev_run_id e = r \<longrightarrow>
       reduce H s e = Inl TerminalStateError"
    using assms(2) replay_run_id [OF assms(1)] by (simp add: reduce_def)
qed

theorem terminal_absorbs_witness:
  "reduce flat_hash completed_state (sample_event ''z'' 7 RUN_CANCELLED []) = Inl TerminalStateError"
  using terminal_absorbs [OF replay_completed, of "[]" completed_state "sample_event ''z'' 7 RUN_CANCELLED []"]
  by (simp add: completed_state_def is_terminal_def terminal_statuses_def completed_events_def
      tool_events_def started_events_def)

text \<open>A replayed history of distinct events has the sequence numbers 0, 1, 2, ... without a gap, and
  the state records exactly these events with their fingerprints, in order.\<close>

theorem replay_gap_free:
  assumes "replay H r es = Inr s" and "distinct (map ev_event_id es)"
  shows "map ev_sequence es = map int [0..<length es] \<and> next_sequence s = int (length es) \<and>
     applied_event_fingerprints s = map (\<lambda>e. (ev_event_id e, fingerprint H e)) es"
  using assms by (rule replay_bookkeeping)

theorem replay_gap_free_witness: "map ev_sequence tool_events = map int [0..<5]"
proof -
  have d: "distinct (map ev_event_id tool_events)" and l: "length tool_events = 5"
    by (simp_all add: tool_events_def started_events_def)
  from replay_gap_free [OF replay_tool d] show ?thesis by (simp only: l)
qed

text \<open>C10: no tool starts without a grant of its own: in a history of distinct events the event right
  before an accepted tool start is an authorization, a gate approval or a passed gate evaluation
  for the same tool call.\<close>

theorem tool_start_needs_grant:
  assumes "replay H r (es @ [e]) = Inr t" and "distinct (map ev_event_id (es @ [e]))"
    and "ev_event_type e = TOOL_STARTED"
  shows "\<exists>as g c. es = as @ [g] \<and> grants g c \<and> get (payload e) ''tool_call_id'' = JStr c"
proof -
  have new: "ev_event_id e \<notin> ev_event_id ` set es" using assms(2) by simp
  obtain s u where s: "replay H r es = Inr s" and u: "transition s e = Inr u"
    using assms(1) new by (rule replay_snoc_fresh)
  from u assms(3) obtain c where "status s = TOOL_READY" "active_tool_call_id s = Some c"
      "about_call TOOL_STARTED e c" by (rule transition_started)
  moreover have "distinct (map ev_event_id es)" using assms(2) by simp
  ultimately show ?thesis using s by (auto simp: about_call_def elim: ends_with_grant)
qed

theorem tool_start_needs_grant_witness:
  "\<exists>as g c. butlast tool_events = as @ [g] \<and> grants g c \<and>
     get (payload (last tool_events)) ''tool_call_id'' = JStr c"
  using tool_start_needs_grant [of flat_hash "''r''" "butlast tool_events" "last tool_events" running_state]
  by (simp add: tool_events_def started_events_def butlast_append)
     (use replay_tool in \<open>simp add: tool_events_def started_events_def\<close>)

text \<open>C17: a completed run earned it: its last event is an accepted completion, or the history ends with
  the grant, the start and the success of one tool call followed by a successful verification.\<close>

theorem completion_is_earned:
  assumes "replay H r es = Inr s" and "distinct (map ev_event_id es)" and "status s = COMPLETED"
  shows "(\<exists>as e. es = as @ [e] \<and> ev_event_type e = COMPLETION_ACCEPTED) \<or>
    (\<exists>as g b f v c. es = as @ [g, b, f, v] \<and> grants g c \<and> about_call TOOL_STARTED b c \<and>
       about_call TOOL_SUCCEEDED f c \<and> ev_event_type v = VERIFICATION_SUCCEEDED)"
proof (cases es rule: rev_cases)
  case Nil
  with assms show ?thesis by (auto simp: replay_Inr_iff empty_state_def)
next
  case (snoc as e)
  with assms(2) have new: "ev_event_id e \<notin> ev_event_id ` set as" by simp
  from assms(1) snoc obtain u v where u: "replay H r as = Inr u" and v: "transition u e = Inr v"
      and s: "status v = COMPLETED"
    using assms(3) by (auto elim: replay_snoc_fresh [OF _ new])
  have "lifecycle (status u) (ev_event_type e) COMPLETED"
    using transition_lifecycle [OF v] by (simp add: s)
  then consider (accepted) "ev_event_type e = COMPLETION_ACCEPTED"
    | (verified) "status u = VERIFYING" "ev_event_type e = VERIFICATION_SUCCEEDED"
    by (rule lifecycle_completed)
  then show ?thesis
  proof cases
    case accepted
    show ?thesis by (intro disjI1 exI [of _ as] exI [of _ e]) (simp add: accepted snoc)
  next
    case verified
    have d: "distinct (map ev_event_id as)" using assms(2) snoc by simp
    obtain bs g b f c where "as = bs @ [g, b, f]" "grants g c"
        "about_call TOOL_STARTED b c" "about_call TOOL_SUCCEEDED f c"
      using ends_with_succeeded [OF u d verified(1)] by blast
    moreover from this snoc have "es = bs @ [g, b, f, e]" by simp
    ultimately show ?thesis using verified(2)
      by (intro disjI2 exI [of _ bs] exI [of _ g] exI [of _ b] exI [of _ f] exI [of _ e] exI [of _ c]) simp
  qed
qed

theorem completion_is_earned_witness:
  "(\<exists>as e. completed_events = as @ [e] \<and> ev_event_type e = COMPLETION_ACCEPTED) \<or>
   (\<exists>as g b f v c. completed_events = as @ [g, b, f, v] \<and> grants g c \<and> about_call TOOL_STARTED b c \<and>
       about_call TOOL_SUCCEEDED f c \<and> ev_event_type v = VERIFICATION_SUCCEEDED)"
  by (rule completion_is_earned [OF replay_completed])
     (simp_all add: completed_events_def tool_events_def started_events_def completed_state_def)

text \<open>C11: a gate in \<open>user_gate\<close> mode opens only for a passed evaluation of the active proposal and
  revision, with the next attempt number and within the attempt limit; \<open>gate.approved\<close> never
  opens it.\<close>

theorem user_gate_needs_evaluation:
  assumes "replay H r es = Inr s" and "status s = AWAITING_GATE"
    and "active_gate_mode s = Some ''user_gate''" and "reduce H s e = Inr t" and "status t = TOOL_READY"
  shows "ev_event_type e = GATE_EVALUATED \<and> get (payload e) ''outcome'' = JStr ''pass'' \<and>
    get (payload e) ''attempt'' = JInt (active_gate_attempts s + 1) \<and>
    (\<exists>d q k. active_gate_proposal_digest s = Some d \<and> get (payload e) ''proposal_digest'' = JStr d \<and>
       active_gate_revision s = Some q \<and> get (payload e) ''revision'' = JInt q \<and>
       active_gate_max_attempts s = Some k \<and> active_gate_attempts s + 1 \<le> k)"
  using assms(4)
proof (cases rule: reduce_cases)
  case duplicate
  with assms show ?thesis by simp
next
  case (fresh u)
  have u: "status u = TOOL_READY" using assms(5) fresh(6) by simp
  have k: "\<exists>k. active_gate_max_attempts s = Some k \<and> active_gate_attempts s + 1 \<le> k"
    using replay_state_inv [OF assms(1)] assms(2,3)
    by (auto simp: state_inv_def core_inv_def gate_ok_def)
  have "lifecycle AWAITING_GATE (ev_event_type e) TOOL_READY"
    using transition_lifecycle [OF fresh(5)] u assms(2) by simp
  then consider "ev_event_type e = GATE_APPROVED" | "ev_event_type e = GATE_EVALUATED"
    by (rule lifecycle_ready) simp_all
  then show ?thesis
  proof cases
    case 1
    then show ?thesis using fresh(5) assms(3) by (simp add: transition_def on_gate_approved_def result_simps)
  next
    case 2
    then show ?thesis using fresh(5) u k assms(2)
      by (auto simp: transition_def on_gate_evaluated_def result_simps fail_tool_def split: if_splits)
  qed
qed

theorem user_gate_needs_evaluation_witness:
  "\<exists>e t. reduce flat_hash gated_state e = Inr t \<and> status t = TOOL_READY \<and>
     ev_event_type e = GATE_EVALUATED \<and> get (payload e) ''attempt'' = JInt 1"
proof -
  let ?p = "[(''attempt'', JInt 1), (''max_attempts'', JInt 2), (''outcome'', JStr ''pass''),
    (''proposal_digest'', JStr ''p''), (''reason'', JStr ''ok''), (''revision'', JInt 1),
    (''tool_call_id'', JStr ''c'')]"
  let ?e = "sample_event ''e'' 4 GATE_EVALUATED ?p"
  obtain t where t: "reduce flat_hash gated_state ?e = Inr t" "status t = TOOL_READY"
    by (simp add: reduce_eval gated_state_def empty_state_def clear_gate_def)
  have g: "status gated_state = AWAITING_GATE" "active_gate_mode gated_state = Some ''user_gate''"
      "active_gate_attempts gated_state = 0"
    by (simp_all add: gated_state_def)
  show ?thesis
    using user_gate_needs_evaluation [OF replay_gate g(1,2) t] t g(3)
    by (intro exI [of _ ?e] exI [of _ t]) simp
qed

text \<open>C34: evaluating a gate ends: from a gate with a limit of \<open>k\<close> attempts, an extension of the
  history by distinct gate evaluations contains at most as many as are left.\<close>

theorem gate_attempts_bounded:
  assumes "replay H r es = Inr s" and "status s = AWAITING_GATE"
    and "active_gate_max_attempts s = Some k" and "replay H r (es @ fs) = Inr t"
    and "distinct (map ev_event_id (es @ fs))" and "\<forall>e \<in> set fs. ev_event_type e = GATE_EVALUATED"
  shows "active_gate_attempts s + int (length fs) \<le> k"
proof -
  have run: "foldR (reduce H) s fs = Inr t"
    using assms(4) by (simp add: replay_append assms(1) replay_tail_def)
  have "\<forall>e \<in> set fs. fingerprint_for s (ev_event_id e) = None"
    using assms(5) fresh_iff [OF assms(1)] by auto
  with gate_run_bounded [OF replay_state_inv [OF assms(1)] assms(2,3) run assms(6)] assms(5)
  show ?thesis by simp
qed

theorem gate_attempts_bounded_witness:
  "active_gate_attempts gated_state + int (length [gate_retry]) \<le> 2"
proof -
  obtain t where t: "replay flat_hash ''r'' (gate_events @ [gate_retry]) = Inr t"
    by (simp add: replay_append replay_gate)
       (simp add: replay_tail_def gate_retry_def reduce_eval gated_state_def empty_state_def clear_gate_def)
  show ?thesis
    by (rule gate_attempts_bounded [OF replay_gate _ _ t])
       (simp_all add: gated_state_def gate_events_def started_events_def gate_retry_def)
qed

text \<open>A revised gate invalidates every decision on the earlier revision: after the revision, an
  approval, evaluation or rejection that names the previous revision, or an older one, changes
  nothing.\<close>

theorem stale_gate_decision_refused:
  assumes "replay H r es = Inr s" and "ev_event_id g \<notin> ev_event_id ` set es"
    and "ev_event_type g = GATE_REVISED" and "reduce H s g = Inr t"
    and "active_gate_revision s = Some q" and "get (payload e) ''revision'' = JInt p" and "p \<le> q"
    and "ev_event_type e \<in> {GATE_APPROVED, GATE_EVALUATED, GATE_REJECTED}"
  shows "active_gate_revision t = Some (q + 1) \<and> (reduce H t e = Inr v \<longrightarrow> v = t)"
proof
  from assms(4) show rev: "active_gate_revision t = Some (q + 1)"
  proof (cases rule: reduce_cases)
    case duplicate
    with fresh_iff [OF assms(1), of "ev_event_id g"] assms(2) show ?thesis by simp
  next
    case (fresh u)
    then have "on_gate_revised s g = Inr u" using assms(3) by (simp add: transition_def)
    with fresh(6) assms(5) show ?thesis by (auto elim: on_gate_revised_Inr)
  qed
  show "reduce H t e = Inr v \<longrightarrow> v = t"
  proof
    assume "reduce H t e = Inr v"
    then show "v = t"
    proof (cases rule: reduce_cases)
      case (fresh u)
      with gate_reference_current [OF fresh(5) assms(8)] rev assms(6,7) show ?thesis by simp
    qed
  qed
qed

theorem stale_gate_decision_refused_witness:
  "\<exists>t. reduce flat_hash gated_state gate_revision = Inr t \<and> active_gate_revision t = Some 2 \<and>
     (\<forall>v. reduce flat_hash t gate_rejection = Inr v \<longrightarrow> v = t)"
proof -
  obtain t where t: "reduce flat_hash gated_state gate_revision = Inr t"
    by (simp add: gate_revision_def reduce_eval gate_limit_def gated_state_def empty_state_def)
  have "active_gate_revision t = Some (1 + 1) \<and>
      (reduce flat_hash t gate_rejection = Inr v \<longrightarrow> v = t)" for v
    by (rule stale_gate_decision_refused [OF replay_gate _ _ t, where p = 1])
       (simp_all add: gate_revision_def gate_rejection_def gated_state_def gate_events_def
         started_events_def get_def get_default_def canon_obj gate_payload_def)
  with t show ?thesis by auto
qed

text \<open>C33: in a history of distinct events the turn index counts the events that consume a step, and never
  exceeds the step budget the run was created with.\<close>

theorem step_budget_respected:
  assumes "replay H r es = Inr s" and "distinct (map ev_event_id es)" and "max_steps s = Some m"
  shows "turn_index s = int (length (filter consumes_step es)) \<and>
    length (filter consumes_step es) \<le> nat m"
proof -
  have "turn_index s \<le> m"
    using replay_state_inv [OF assms(1)] assms(3) by (simp add: state_inv_def core_inv_def budget_ok_def)
  with replay_turns [OF assms(1,2)] show ?thesis by simp
qed

theorem step_budget_respected_witness:
  "turn_index done_state = int (length (filter consumes_step step_events)) \<and>
   length (filter consumes_step step_events) \<le> nat 2"
  by (rule step_budget_respected [OF replay_step])
     (simp_all add: step_events_def tool_events_def started_events_def done_state_def)

text \<open>C19: refinement of the lifecycle: a reduction either skips an event the history contains, or follows
  an edge of the abstract lifecycle out of a status that is not terminal.\<close>

theorem lifecycle_simulation:
  assumes "replay H r es = Inr s" and "reduce H s e = Inr t"
  shows "if ev_event_id e \<in> ev_event_id ` set es then t = s
    else status s \<notin> terminal_statuses \<and> lifecycle (status s) (ev_event_type e) (status t)"
  using assms(2)
proof (cases rule: reduce_cases)
  case duplicate
  with fresh_iff [OF assms(1), of "ev_event_id e"] show ?thesis by simp
next
  case (fresh u)
  with fresh_iff [OF assms(1), of "ev_event_id e"] transition_lifecycle [OF fresh(5)]
  show ?thesis by (simp add: is_terminal_def)
qed

theorem lifecycle_simulation_witness:
  "\<exists>t. reduce flat_hash ready_state (sample_event ''z'' 2 RUN_PAUSED []) = Inr t \<and>
     lifecycle (status ready_state) RUN_PAUSED (status t)"
proof -
  let ?e = "sample_event ''z'' 2 RUN_PAUSED []"
  obtain t where t: "reduce flat_hash ready_state ?e = Inr t"
    by (simp add: reduce_eval ready_state_def empty_state_def)
  then show ?thesis
    using lifecycle_simulation [OF replay_started t] by (simp add: started_events_def)
qed

text \<open>A run that has not ended can always be cancelled, from every status, and the cancelled state
  has no active step, tool call or gate.\<close>

theorem cancellation_always_possible:
  assumes "replay H r es = Inr s" and "\<not> is_terminal s" and "ev_event_type e = RUN_CANCELLED"
    and "ev_run_id e = r" and "ev_sequence e = next_sequence s"
    and "ev_event_id e \<notin> ev_event_id ` set es"
  shows "\<exists>t. reduce H s e = Inr t \<and> status t = CANCELLED \<and> active_tool_call_id t = None \<and>
    active_step_id t = None \<and> active_gate_proposal_digest t = None \<and> turn_index t = turn_index s"
proof -
  have v: "valid_state s" and n: "next_sequence s \<ge> 0"
    using replay_state_inv [OF assms(1)] by (auto simp: state_inv_def core_inv_def valid_state_def)
  have "fingerprint_for s (ev_event_id e) = None" using fresh_iff [OF assms(1)] assms(6) by simp
  moreover have "state_run_id s = r" using assms(1) by (rule replay_run_id)
  ultimately show ?thesis
    using assms(2-5) v n
    by (simp add: reduce_def transition_def on_run_cancelled_def state_post_init_valid valid_state_def
        clear_gate_def)
qed

theorem cancellation_always_possible_witness:
  "\<exists>t. reduce flat_hash gated_state (sample_event ''z'' 4 RUN_CANCELLED []) = Inr t \<and>
    status t = CANCELLED \<and> active_tool_call_id t = None \<and> active_step_id t = None \<and>
    active_gate_proposal_digest t = None \<and> turn_index t = turn_index gated_state"
  by (rule cancellation_always_possible [OF replay_gate])
     (simp_all add: gated_state_def empty_state_def is_terminal_iff gate_events_def started_events_def)

text \<open>The only exceptions a reduction of a replayed state raises are the reducer's own: a mismatched
  run, a conflicting duplicate, a terminal state, a wrong sequence or an invalid transition; the
  state constructor's checks never fail in \<open>replace\<close>.\<close>

theorem reduce_errors:
  assumes "replay H r es = Inr s" and "reduce H s e = Inl x"
  shows "x \<in> {RunMismatchError, DuplicateEventConflictError, TerminalStateError, SequenceError,
    InvalidTransitionError}"
proof -
  have v: "valid_state s" using replay_state_inv [OF assms(1)] by (simp add: state_inv_def core_inv_def)
  have "x = InvalidTransitionError" if "transition s e = Inl x"
    using transition_fails_in [OF v, of e] that by (simp add: fails_in_def)
  moreover have "valid_state (u\<lparr>next_sequence := next_sequence s + 1, applied_event_fingerprints := f\<rparr>)"
    if "transition s e = Inr u" for u f
    using replay_state_inv [OF assms(1)] transition_core_inv [OF that] v
    by (simp add: state_inv_def core_inv_def valid_state_def)
  ultimately show ?thesis
    using assms(2) by (auto simp: reduce_def result_simps state_post_init_valid split: option.splits if_splits)
qed

theorem reduce_errors_witness:
  "\<exists>x. reduce flat_hash ready_state (sample_event ''z'' 2 TOOL_STARTED []) = Inl x \<and>
     x \<in> {RunMismatchError, DuplicateEventConflictError, TerminalStateError, SequenceError,
       InvalidTransitionError}"
proof -
  let ?e = "sample_event ''z'' 2 TOOL_STARTED []"
  obtain x where x: "reduce flat_hash ready_state ?e = Inl x"
    by (simp add: reduce_eval ready_state_def empty_state_def)
  with reduce_errors [OF replay_started x] show ?thesis by blast
qed

end
