(* ===== verification/Actions.thy ===== *)
theory Actions
  imports Prelude
begin

section \<open>Operations on mutable state that may raise\<close>

text \<open>
  A method that changes an object and may raise is a function from the state to the result and the
  state left behind: an exception does not undo what happened before it.
\<close>


type_synonym ('s, 'a) action = "'s \<Rightarrow> 'a result \<times> 's"

definition returnA :: "'a \<Rightarrow> ('s, 'a) action" where
  "returnA x s = (Inr x, s)"

definition raiseA :: "error \<Rightarrow> ('s, 'a) action" where
  "raiseA e s = (Inl e, s)"

definition bindA :: "('s, 'a) action \<Rightarrow> ('a \<Rightarrow> ('s, 'b) action) \<Rightarrow> ('s, 'b) action" where
  "bindA m f s = (case m s of (Inl e, t) \<Rightarrow> (Inl e, t) | (Inr x, t) \<Rightarrow> f x t)"

definition liftA :: "'a result \<Rightarrow> ('s, 'a) action" where
  "liftA r s = (r, s)"

definition askA :: "('s \<Rightarrow> 'a result) \<Rightarrow> ('s, 'a) action" where
  "askA f s = (f s, s)"

definition checkA :: "bool \<Rightarrow> error \<Rightarrow> ('s, 'a) action \<Rightarrow> ('s, 'a) action" where
  "checkA b e k = (if b then k else raiseA e)"

named_theorems action_simps \<open>evaluation of actions\<close>

lemma bindA_result [action_simps]:
  "m s = (Inl e, t) \<Longrightarrow> bindA m f s = (Inl e, t)"
  "m s = (Inr x, t) \<Longrightarrow> bindA m f s = f x t"
  by (simp_all add: bindA_def)

lemma action_eval [simp, action_simps]:
  "returnA x s = (Inr x, s)"
  "raiseA e s = (Inl e, s)"
  "liftA r s = (r, s)"
  "askA f s = (f s, s)"
  "bindA (returnA x) g s = g x s"
  "bindA (raiseA e) g s = (Inl e, s)"
  "bindA (liftA (Inr x)) g s = g x s"
  "bindA (liftA (Inl e)) g s = (Inl e, s)"
  by (simp_all add: returnA_def raiseA_def liftA_def askA_def bindA_def)

lemma bindA_ask [action_simps]:
  "bindA (askA f) g s = (case f s of Inl e \<Rightarrow> (Inl e, s) | Inr x \<Rightarrow> g x s)"
  by (simp add: bindA_def split: sum.splits)

lemma bindA_lift [action_simps]:
  "bindA (liftA r) g s = (case r of Inl e \<Rightarrow> (Inl e, s) | Inr x \<Rightarrow> g x s)"
  by (simp add: bindA_def split: sum.splits)

lemma bindA_assoc: "bindA (bindA m f) g = bindA m (\<lambda>x. bindA (f x) g)"
  by (rule ext) (simp add: bindA_def split: prod.splits sum.splits)

subsection \<open>Triples\<close>

text \<open>
  \<open>triple P m Q E\<close>: from a state with \<open>P\<close>, the action \<open>m\<close> either returns a value \<open>x\<close> in a
  state with \<open>Q x\<close> or raises in a state with \<open>E\<close>. Actions are total functions, so a triple is a
  statement of total correctness.
\<close>

definition triple ::
  "('s \<Rightarrow> bool) \<Rightarrow> ('s, 'a) action \<Rightarrow> ('a \<Rightarrow> 's \<Rightarrow> bool) \<Rightarrow> ('s \<Rightarrow> bool) \<Rightarrow> bool" where
  "triple P m Q E \<longleftrightarrow>
     (\<forall>s. P s \<longrightarrow> (case m s of (Inl e, t) \<Rightarrow> E t | (Inr x, t) \<Rightarrow> Q x t))"

lemma triple_returns: "triple P m Q E \<Longrightarrow> P s \<Longrightarrow> m s = (Inr x, t) \<Longrightarrow> Q x t"
  by (force simp: triple_def)

lemma triple_raises: "triple P m Q E \<Longrightarrow> P s \<Longrightarrow> m s = (Inl e, t) \<Longrightarrow> E t"
  by (force simp: triple_def)

lemma triple_always: "triple P m (\<lambda>_. E) E \<Longrightarrow> P s \<Longrightarrow> E (snd (m s))"
  unfolding triple_def by (cases "m s"; cases "fst (m s)") fastforce+

lemma tripleI:
  assumes "\<And>s x t. P s \<Longrightarrow> m s = (Inr x, t) \<Longrightarrow> Q x t"
    and "\<And>s e t. P s \<Longrightarrow> m s = (Inl e, t) \<Longrightarrow> E t"
  shows "triple P m Q E"
  unfolding triple_def
proof (intro allI impI)
  fix s assume "P s"
  with assms show "case m s of (Inl e, t) \<Rightarrow> E t | (Inr x, t) \<Rightarrow> Q x t"
    by (cases "m s"; cases "fst (m s)") fastforce+
qed

lemma triple_bind:
  assumes "triple P m Q E" and "\<And>x. triple (Q x) (f x) Q' E"
  shows "triple P (bindA m f) Q' E"
proof (rule tripleI)
  fix s y t assume P: "P s" and r: "bindA m f s = (Inr y, t)"
  then obtain x u where "m s = (Inr x, u)" "f x u = (Inr y, t)"
    by (auto simp: bindA_def split: prod.splits sum.splits)
  then show "Q' y t" using assms P by (blast dest: triple_returns)
next
  fix s e t assume P: "P s" and r: "bindA m f s = (Inl e, t)"
  then consider "m s = (Inl e, t)" | x u where "m s = (Inr x, u)" "f x u = (Inl e, t)"
    by (auto simp: bindA_def split: prod.splits sum.splits)
  then show "E t" using assms P by cases (blast dest: triple_returns triple_raises)+
qed

lemma triple_seq:
  "triple P m (\<lambda>_. P) E \<Longrightarrow> (\<And>x. triple P (f x) Q E) \<Longrightarrow> triple P (bindA m f) Q E"
  by (rule triple_bind)

lemma triple_conseq:
  assumes "triple P m Q E" and "\<And>s. P' s \<Longrightarrow> P s" and "\<And>x s. Q x s \<Longrightarrow> Q' x s"
    and "\<And>s. E s \<Longrightarrow> E' s"
  shows "triple P' m Q' E'"
  using assms(2-) by (intro tripleI) (blast dest: triple_returns [OF assms(1)] triple_raises [OF assms(1)])+

lemma triple_pre: "triple P m Q E \<Longrightarrow> (\<And>s. P' s \<Longrightarrow> P s) \<Longrightarrow> triple P' m Q E"
  by (rule triple_conseq)

lemma triple_case: "(\<And>s. P s \<Longrightarrow> triple (\<lambda>t. t = s) m Q E) \<Longrightarrow> triple P m Q E"
  by (force simp: triple_def)

lemma triple_pure: "(b \<Longrightarrow> triple P m Q E) \<Longrightarrow> triple (\<lambda>s. b \<and> P s) m Q E"
  by (auto simp: triple_def)

lemma triple_ghost: "(\<And>g. triple (\<lambda>s. P g s) m Q E) \<Longrightarrow> triple (\<lambda>s. \<exists>g. P g s) m Q E"
  by (fastforce simp: triple_def)

lemma triple_return: "(\<And>s. P s \<Longrightarrow> Q x s) \<Longrightarrow> triple P (returnA x) Q E"
  by (simp add: triple_def)

lemma triple_raise: "(\<And>s. P s \<Longrightarrow> E s) \<Longrightarrow> triple P (raiseA e) Q E"
  by (simp add: triple_def)

lemma triple_lift:
  "(\<And>x s. r = Inr x \<Longrightarrow> P s \<Longrightarrow> Q x s) \<Longrightarrow> (\<And>s. P s \<Longrightarrow> E s) \<Longrightarrow> triple P (liftA r) Q E"
  by (simp add: triple_def split: sum.splits)

lemma triple_ask:
  "(\<And>x s. f s = Inr x \<Longrightarrow> P s \<Longrightarrow> Q x s) \<Longrightarrow> (\<And>s. P s \<Longrightarrow> E s) \<Longrightarrow> triple P (askA f) Q E"
  by (simp add: triple_def split: sum.splits)

lemma triple_check:
  "(b \<Longrightarrow> triple P k Q E) \<Longrightarrow> (\<And>s. P s \<Longrightarrow> E s) \<Longrightarrow> triple P (checkA b e k) Q E"
  by (simp add: checkA_def triple_raise)

lemma triple_if:
  "(b \<Longrightarrow> triple P m Q E) \<Longrightarrow> (\<not> b \<Longrightarrow> triple P n Q E) \<Longrightarrow> triple P (if b then m else n) Q E"
  by simp

lemma triple_keeps:
  "triple P (returnA x) (\<lambda>_. P) P"
  "triple P (raiseA e) (\<lambda>_. P) P"
  "triple P (liftA r) (\<lambda>_. P) P"
  "triple P (askA f) (\<lambda>_. P) P"
  by (simp_all add: triple_def split: sum.splits)

subsection \<open>Actions that keep a property of the state\<close>

text \<open>\<open>keeps I m\<close>: whatever \<open>m\<close> returns or raises, it leaves a state with \<open>I\<close>.\<close>

definition keeps :: "('s \<Rightarrow> bool) \<Rightarrow> ('s, 'a) action \<Rightarrow> bool" where
  "keeps I m \<longleftrightarrow> (\<forall>w. I w \<longrightarrow> I (snd (m w)))"

lemma keepsD: "keeps I m \<Longrightarrow> I w \<Longrightarrow> I (snd (m w))"
  by (simp add: keeps_def)

lemma keeps_triple: "triple I m (\<lambda>_. I) I \<Longrightarrow> keeps I m"
  by (simp add: keeps_def triple_always)

lemma keeps_basic [intro!]:
  "keeps I (returnA x)"
  "keeps I (raiseA e)"
  "keeps I (liftA r)"
  "keeps I (askA f)"
  "keeps I k \<Longrightarrow> keeps I (checkA b e k)"
  by (auto simp: keeps_def checkA_def)

lemma keeps_bind [intro!]: "keeps I m \<Longrightarrow> (\<And>x. keeps I (f x)) \<Longrightarrow> keeps I (bindA m f)"
  unfolding keeps_def bindA_def by (auto split: prod.splits sum.splits)

lemma keeps_if [intro!]:
  "keeps I m \<Longrightarrow> keeps I n \<Longrightarrow> keeps I (if b then m else n)"
  "keeps I m \<Longrightarrow> (\<And>x. keeps I (f x)) \<Longrightarrow> keeps I (case y of None \<Rightarrow> m | Some x \<Rightarrow> f x)"
  by (auto split: option.split)

end
