(* ===== verification/ToolEffects.thy ===== *)
theory ToolEffects
  imports Json Actions Machines
begin

section \<open>Tool effects (domain/tool_effects.py, tool_registry.py, tool_recovery.py)\<close>

text \<open>
  The durable identity of an external tool effect, the intent and receipt that describe it, the
  recovery decision, and the registry of trusted tool metadata. The hash of the identity is a
  parameter.
\<close>

subsection \<open>Intents and receipts\<close>


datatype ToolOutcome = TOOL_SUCCEEDED_OUTCOME | TOOL_FAILED_OUTCOME | TOOL_TIMED_OUT_OUTCOME

fun outcome_value :: "ToolOutcome \<Rightarrow> string" where
  "outcome_value TOOL_SUCCEEDED_OUTCOME = ''succeeded''"
| "outcome_value TOOL_FAILED_OUTCOME = ''failed''"
| "outcome_value TOOL_TIMED_OUT_OUTCOME = ''timed_out''"

definition parse_outcome :: "string \<Rightarrow> ToolOutcome option" where
  "parse_outcome t = map_of (map (\<lambda>k. (outcome_value k, k))
     [TOOL_SUCCEEDED_OUTCOME, TOOL_FAILED_OUTCOME, TOOL_TIMED_OUT_OUTCOME]) t"

lemma parse_outcome_value [simp]: "parse_outcome (outcome_value k) = Some k"
  by (cases k) (simp_all add: parse_outcome_def)

datatype RecoveryDecision = RECOVERY_COMPLETED | SAFE_RETRY | UNKNOWN

record ToolIntent =
  in_effect_id :: string
  in_run_id :: string
  in_tool_call_id :: string
  in_tool_name :: string
  in_arguments_json :: string

record ToolReceipt =
  rc_effect_id :: string
  rc_outcome :: ToolOutcome
  rc_output_json :: string

definition canonical_json :: "payload \<Rightarrow> string result" where
  "canonical_json p =
     (case dumps (JObj p) of None \<Rightarrow> Inl EventValidationError | Some t \<Rightarrow> Inr t)"

definition effect_identity :: "string \<Rightarrow> string \<Rightarrow> string" where
  "effect_identity run_id tool_call_id =
     render (JObj [(''run_id'', JStr run_id), (''tool_call_id'', JStr tool_call_id)])"

definition derive_effect_id :: "hash \<Rightarrow> string \<Rightarrow> string \<Rightarrow> string result" where
  "derive_effect_id H run_id tool_call_id =
     ensure (run_id \<noteq> []) EventValidationError
     (ensure (tool_call_id \<noteq> []) EventValidationError
     (Inr (H (effect_identity run_id tool_call_id))))"

text \<open>The object check and canonical form the two constructors share.\<close>

definition canonical_object :: "string \<Rightarrow> string result" where
  "canonical_object t =
     (case loads t of Some (JObj d) \<Rightarrow> canonical_json d | _ \<Rightarrow> Inl EventValidationError)"

definition intent_post_init :: "hash \<Rightarrow> ToolIntent \<Rightarrow> ToolIntent result" where
  "intent_post_init H i =
     ensure (in_effect_id i \<noteq> []) EventValidationError
     (ensure (in_run_id i \<noteq> []) EventValidationError
     (ensure (in_tool_call_id i \<noteq> []) EventValidationError
     (ensure (in_tool_name i \<noteq> []) EventValidationError
     (bindR (derive_effect_id H (in_run_id i) (in_tool_call_id i)) (\<lambda>expected.
      ensure (in_effect_id i = expected) EventValidationError
      (bindR (canonical_object (in_arguments_json i)) (\<lambda>t.
       Inr (i\<lparr>in_arguments_json := t\<rparr>))))))))"

definition build_intent :: "hash \<Rightarrow> string \<Rightarrow> string \<Rightarrow> string \<Rightarrow> payload \<Rightarrow> ToolIntent result" where
  "build_intent H run_id tool_call_id tool_name arguments =
     bindR (derive_effect_id H run_id tool_call_id) (\<lambda>effect_id.
     bindR (canonical_json arguments) (\<lambda>t.
     intent_post_init H \<lparr>in_effect_id = effect_id, in_run_id = run_id,
       in_tool_call_id = tool_call_id, in_tool_name = tool_name, in_arguments_json = t\<rparr>))"

definition decoded :: "string \<Rightarrow> payload" where
  "decoded t = (case loads t of Some (JObj d) \<Rightarrow> d | _ \<Rightarrow> [])"

definition intent_arguments :: "ToolIntent \<Rightarrow> payload" where
  "intent_arguments i = decoded (in_arguments_json i)"

definition idempotency_key :: "ToolIntent \<Rightarrow> string" where
  "idempotency_key i = in_effect_id i"

definition receipt_post_init :: "ToolReceipt \<Rightarrow> ToolReceipt result" where
  "receipt_post_init r =
     ensure (rc_effect_id r \<noteq> []) EventValidationError
     (bindR (canonical_object (rc_output_json r)) (\<lambda>t. Inr (r\<lparr>rc_output_json := t\<rparr>)))"

definition build_receipt :: "string \<Rightarrow> ToolOutcome \<Rightarrow> payload \<Rightarrow> ToolReceipt result" where
  "build_receipt effect_id outcome output =
     bindR (canonical_json output) (\<lambda>t.
     receipt_post_init \<lparr>rc_effect_id = effect_id, rc_outcome = outcome, rc_output_json = t\<rparr>)"

definition receipt_output :: "ToolReceipt \<Rightarrow> payload" where
  "receipt_output r = decoded (rc_output_json r)"

definition decide_recovery :: "ToolIntent \<Rightarrow> ToolReceipt option \<Rightarrow> bool \<Rightarrow> RecoveryDecision result" where
  "decide_recovery i receipt retry_is_idempotent =
     (case receipt of
        Some r \<Rightarrow> ensure (rc_effect_id r = in_effect_id i) EventValidationError (Inr RECOVERY_COMPLETED)
      | None \<Rightarrow> if retry_is_idempotent then Inr SAFE_RETRY else Inr UNKNOWN)"

subsection \<open>Constructed intents and receipts\<close>

definition wf_intent :: "hash \<Rightarrow> ToolIntent \<Rightarrow> bool" where
  "wf_intent H i \<longleftrightarrow> intent_post_init H i = Inr i"

definition wf_receipt :: "ToolReceipt \<Rightarrow> bool" where
  "wf_receipt r \<longleftrightarrow> receipt_post_init r = Inr r"

lemma canonical_json_canon: "canon (JObj p) \<Longrightarrow> canonical_json p = Inr (render (JObj p))"
  by (simp add: canonical_json_def dumps_canon)

lemma canonical_object_Inr_iff:
  "canonical_object t = Inr u \<longleftrightarrow>
     (\<exists>d. loads t = Some (JObj d) \<and> canon (JObj d) \<and> u = render (JObj d))"
proof
  assume a: "canonical_object t = Inr u"
  then obtain d where d: "loads t = Some (JObj d)" and u: "canonical_json d = Inr u"
    by (auto simp: canonical_object_def split: option.splits json.splits)
  have "serializable (JObj d)"
    using u by (auto simp: canonical_json_def dumps_def split: if_splits)
  with d have c: "canon (JObj d)" by (rule loads_canon)
  then show "\<exists>d. loads t = Some (JObj d) \<and> canon (JObj d) \<and> u = render (JObj d)"
    using d u by (auto simp: canonical_json_canon)
qed (auto simp: canonical_object_def canonical_json_canon)

lemma canonical_object_idem: "canonical_object t = Inr u \<Longrightarrow> canonical_object u = Inr u"
  by (auto simp: canonical_object_Inr_iff loads_render)

lemma intent_post_init_wf: "intent_post_init H i = Inr j \<Longrightarrow> wf_intent H j"
  by (auto simp: wf_intent_def intent_post_init_def result_simps dest: canonical_object_idem)

lemma receipt_post_init_wf: "receipt_post_init r = Inr q \<Longrightarrow> wf_receipt q"
  by (auto simp: wf_receipt_def receipt_post_init_def result_simps dest: canonical_object_idem)

lemma build_intent_wf: "build_intent H r c n a = Inr i \<Longrightarrow> wf_intent H i"
  by (auto simp: build_intent_def bindR_Inr_iff dest: intent_post_init_wf)

lemma build_receipt_wf: "build_receipt k oc a = Inr r \<Longrightarrow> wf_receipt r"
  by (auto simp: build_receipt_def bindR_Inr_iff dest: receipt_post_init_wf)

lemma build_receipt_fields: "build_receipt k oc a = Inr r \<Longrightarrow> rc_effect_id r = k \<and> rc_outcome r = oc"
  by (auto simp: build_receipt_def receipt_post_init_def result_simps)

lemma wf_intent_effect_id:
  "wf_intent H i \<Longrightarrow> in_effect_id i = H (effect_identity (in_run_id i) (in_tool_call_id i))"
  by (auto simp: wf_intent_def intent_post_init_def derive_effect_id_def result_simps)

lemma effect_identity_inj [simp]:
  "effect_identity r c = effect_identity r' c' \<longleftrightarrow> r = r' \<and> c = c'"
proof
  have c: "canon (JObj [(''run_id'', JStr a), (''tool_call_id'', JStr b)])" for a b
    by (simp add: canon_obj)
  assume "effect_identity r c = effect_identity r' c'"
  then have "loads (effect_identity r c) = loads (effect_identity r' c')" by simp
  then show "r = r' \<and> c = c'" by (simp add: effect_identity_def loads_render [OF c])
qed simp


subsection \<open>The registry\<close>

record ToolDefinition =
  td_tool_name :: string
  td_retry_is_idempotent :: bool
  td_path_argument_names :: "string list"

type_synonym ToolRegistry = "(string \<times> ToolDefinition) list"

definition register :: "ToolRegistry \<Rightarrow> ToolDefinition \<Rightarrow> ToolRegistry result" where
  "register definitions d =
     ensure (map_of definitions (td_tool_name d) = None) DuplicateToolDefinitionError
     (Inr (definitions @ [(td_tool_name d, d)]))"

definition make_registry :: "ToolDefinition list \<Rightarrow> ToolRegistry result" where
  "make_registry ds = foldR register [] ds"

definition resolve :: "ToolRegistry \<Rightarrow> string \<Rightarrow> ToolDefinition result" where
  "resolve definitions tool_name =
     (case map_of definitions tool_name of Some d \<Rightarrow> Inr d | None \<Rightarrow> Inl UnknownToolError)"

lemma register_run:
  "foldR register ds0 ds = Inr ds1 \<longleftrightarrow>
     distinct (map td_tool_name ds) \<and> (\<forall>d \<in> set ds. map_of ds0 (td_tool_name d) = None) \<and>
     ds1 = ds0 @ map (\<lambda>d. (td_tool_name d, d)) ds"
proof (induction ds arbitrary: ds0)
  case (Cons d ds)
  let ?new = "ds0 @ [(td_tool_name d, d)]"
  have none: "map_of ?new n = None \<longleftrightarrow> map_of ds0 n = None \<and> n \<noteq> td_tool_name d" for n
    by (auto simp: map_of_eq_None_iff)
  show ?case
  proof (cases "map_of ds0 (td_tool_name d)")
    case None
    then have "foldR register ds0 (d # ds) = Inr ds1 \<longleftrightarrow>
        distinct (map td_tool_name ds) \<and> (\<forall>x \<in> set ds. map_of ?new (td_tool_name x) = None) \<and>
        ds1 = ?new @ map (\<lambda>d. (td_tool_name d, d)) ds"
      by (simp add: register_def Cons.IH)
    then show ?thesis unfolding none using None by (auto simp: image_iff)
  qed (simp add: register_def)
qed auto

lemma make_registry_Inr_iff:
  "make_registry ds = Inr reg \<longleftrightarrow>
     distinct (map td_tool_name ds) \<and> reg = map (\<lambda>d. (td_tool_name d, d)) ds"
  by (auto simp: make_registry_def register_run)

end
