(* ===== verification/EffectStore.thy ===== *)
theory EffectStore
  imports ToolEffects
begin

section \<open>The store of tool effects (persistence/sqlite_tool_effect_store.py)\<close>

text \<open>
  The interface the durable executor relies on (\<open>ToolEffectStore\<close>), as a record of
  operations and a locale of the laws it promises, and the SQLite store that implements it:
  two tables as lists of rows, one transaction per operation (a rolled back transaction leaves
  the tables as they were), and the constraints of the schema.
\<close>

subsection \<open>The interface\<close>

record 'd effect_store =
  st_save_intent :: "'d \<Rightarrow> ToolIntent \<Rightarrow> 'd result"
  st_load_intent :: "'d \<Rightarrow> string \<Rightarrow> ToolIntent option result"
  st_save_receipt :: "'d \<Rightarrow> ToolReceipt \<Rightarrow> 'd result"
  st_load_receipt :: "'d \<Rightarrow> string \<Rightarrow> ToolReceipt option result"

text \<open>
  The laws: \<open>intents\<close> and \<open>receipts\<close> are the facts a store state holds. A saved fact is
  never changed; an exact redelivery is accepted; a conflicting one is refused; a receipt needs
  its intent.
\<close>

locale tool_effect_store =
  fixes H :: hash
    and S :: "'d effect_store"
    and ok :: "'d \<Rightarrow> bool"
    and intents :: "'d \<Rightarrow> string \<Rightarrow> ToolIntent option"
    and receipts :: "'d \<Rightarrow> string \<Rightarrow> ToolReceipt option"
  assumes load_intent: "ok d \<Longrightarrow> st_load_intent S d k = Inr (intents d k)"
    and load_receipt: "ok d \<Longrightarrow> st_load_receipt S d k = Inr (receipts d k)"
    and intent_key: "ok d \<Longrightarrow> intents d k = Some i \<Longrightarrow> in_effect_id i = k \<and> wf_intent H i"
    and receipt_key: "ok d \<Longrightarrow> receipts d k = Some r \<Longrightarrow> rc_effect_id r = k \<and> wf_receipt r \<and>
      intents d k \<noteq> None"
    and save_intent_new: "ok d \<Longrightarrow> wf_intent H i \<Longrightarrow> intents d (in_effect_id i) = None \<Longrightarrow>
      \<exists>d'. st_save_intent S d i = Inr d' \<and> ok d' \<and>
        intents d' = (intents d)(in_effect_id i \<mapsto> i) \<and> receipts d' = receipts d"
    and save_intent_old: "ok d \<Longrightarrow> wf_intent H i \<Longrightarrow> intents d (in_effect_id i) = Some j \<Longrightarrow>
      st_save_intent S d i = (if j = i then Inr d else Inl DuplicateToolEffectConflictError)"
    and save_receipt_new: "ok d \<Longrightarrow> wf_receipt r \<Longrightarrow> receipts d (rc_effect_id r) = None \<Longrightarrow>
      intents d (rc_effect_id r) \<noteq> None \<Longrightarrow>
      \<exists>d'. st_save_receipt S d r = Inr d' \<and> ok d' \<and>
        intents d' = intents d \<and> receipts d' = (receipts d)(rc_effect_id r \<mapsto> r)"
    and save_receipt_old: "ok d \<Longrightarrow> wf_receipt r \<Longrightarrow> receipts d (rc_effect_id r) = Some q \<Longrightarrow>
      st_save_receipt S d r = (if q = r then Inr d else Inl DuplicateToolEffectConflictError)"
    and save_receipt_orphan: "ok d \<Longrightarrow> wf_receipt r \<Longrightarrow> intents d (rc_effect_id r) = None \<Longrightarrow>
      st_save_receipt S d r = Inl MissingToolIntentError"

subsection \<open>The SQLite tables\<close>

record receipt_row =
  rr_effect_id :: string
  rr_outcome :: string
  rr_output_json :: string

record EffectDB =
  tool_intents :: "ToolIntent list"
  tool_receipts :: "receipt_row list"

definition empty_effects :: EffectDB where
  "empty_effects = \<lparr>tool_intents = [], tool_receipts = []\<rparr>"

definition select_intent :: "EffectDB \<Rightarrow> string \<Rightarrow> ToolIntent option" where
  "select_intent db k = find (\<lambda>r. in_effect_id r = k) (tool_intents db)"

definition select_receipt :: "EffectDB \<Rightarrow> string \<Rightarrow> receipt_row option" where
  "select_receipt db k = find (\<lambda>r. rr_effect_id r = k) (tool_receipts db)"

text \<open>The row of an intent has the columns of the record, and is read through the constructor.\<close>

definition intent_from_row :: "hash \<Rightarrow> ToolIntent \<Rightarrow> ToolIntent result" where
  "intent_from_row H row = intent_post_init H row"

definition receipt_from_row :: "receipt_row \<Rightarrow> ToolReceipt result" where
  "receipt_from_row row =
     (case parse_outcome (rr_outcome row) of
        None \<Rightarrow> Inl PyValueError
      | Some oc \<Rightarrow> receipt_post_init \<lparr>rc_effect_id = rr_effect_id row, rc_outcome = oc,
          rc_output_json = rr_output_json row\<rparr>)"

definition row_of_receipt :: "ToolReceipt \<Rightarrow> receipt_row" where
  "row_of_receipt r = \<lparr>rr_effect_id = rc_effect_id r,
     rr_outcome = outcome_value (rc_outcome r), rr_output_json = rc_output_json r\<rparr>"

text \<open>The constraints of the schema, checked by every insert.\<close>

definition insert_intent :: "EffectDB \<Rightarrow> ToolIntent \<Rightarrow> EffectDB result" where
  "insert_intent db i =
     ensure (\<forall>r \<in> set (tool_intents db). in_effect_id r \<noteq> in_effect_id i \<and>
       (in_run_id r \<noteq> in_run_id i \<or> in_tool_call_id r \<noteq> in_tool_call_id i)) IntegrityError
     (Inr (db\<lparr>tool_intents := tool_intents db @ [i]\<rparr>))"

definition insert_receipt :: "EffectDB \<Rightarrow> receipt_row \<Rightarrow> EffectDB result" where
  "insert_receipt db q =
     ensure (\<forall>r \<in> set (tool_receipts db). rr_effect_id r \<noteq> rr_effect_id q) IntegrityError
     (ensure (rr_outcome q \<in> {''succeeded'', ''failed'', ''timed_out''}) IntegrityError
     (ensure (\<exists>i \<in> set (tool_intents db). in_effect_id i = rr_effect_id q) IntegrityError
     (Inr (db\<lparr>tool_receipts := tool_receipts db @ [q]\<rparr>))))"

subsection \<open>The operations\<close>

definition save_intent :: "hash \<Rightarrow> EffectDB \<Rightarrow> ToolIntent \<Rightarrow> EffectDB result" where
  "save_intent H db i =
     (case select_intent db (in_effect_id i) of
        Some existing \<Rightarrow>
          bindR (intent_from_row H existing) (\<lambda>persisted.
          ensure (persisted = i) DuplicateToolEffectConflictError (Inr db))
      | None \<Rightarrow> insert_intent db i)"

definition load_intent :: "hash \<Rightarrow> EffectDB \<Rightarrow> string \<Rightarrow> ToolIntent option result" where
  "load_intent H db effect_id =
     (case select_intent db effect_id of
        None \<Rightarrow> Inr None
      | Some row \<Rightarrow> bindR (intent_from_row H row) (\<lambda>i. Inr (Some i)))"

definition save_receipt :: "EffectDB \<Rightarrow> ToolReceipt \<Rightarrow> EffectDB result" where
  "save_receipt db r =
     (case select_receipt db (rc_effect_id r) of
        Some existing \<Rightarrow>
          bindR (receipt_from_row existing) (\<lambda>persisted.
          ensure (persisted = r) DuplicateToolEffectConflictError (Inr db))
      | None \<Rightarrow>
          ensure (select_intent db (rc_effect_id r) \<noteq> None) MissingToolIntentError
          (insert_receipt db (row_of_receipt r)))"

definition load_receipt :: "EffectDB \<Rightarrow> string \<Rightarrow> ToolReceipt option result" where
  "load_receipt db effect_id =
     (case select_receipt db effect_id of
        None \<Rightarrow> Inr None
      | Some row \<Rightarrow> bindR (receipt_from_row row) (\<lambda>r. Inr (Some r)))"

definition sqlite_effects :: "hash \<Rightarrow> EffectDB effect_store" where
  "sqlite_effects H = \<lparr>st_save_intent = save_intent H, st_load_intent = load_intent H,
     st_save_receipt = save_receipt, st_load_receipt = load_receipt\<rparr>"

subsection \<open>The tables keep well-formed rows\<close>

definition effects_ok :: "hash \<Rightarrow> EffectDB \<Rightarrow> bool" where
  "effects_ok H db \<longleftrightarrow>
     (\<forall>i \<in> set (tool_intents db). wf_intent H i) \<and>
     (\<forall>q \<in> set (tool_receipts db). \<exists>r. wf_receipt r \<and> q = row_of_receipt r \<and>
        (\<exists>i \<in> set (tool_intents db). in_effect_id i = rc_effect_id r))"

definition the_receipt :: "receipt_row \<Rightarrow> ToolReceipt option" where
  "the_receipt q = (case receipt_from_row q of Inr r \<Rightarrow> Some r | Inl _ \<Rightarrow> None)"

definition receipt_at :: "EffectDB \<Rightarrow> string \<Rightarrow> ToolReceipt option" where
  "receipt_at db k = Option.bind (select_receipt db k) the_receipt"

lemma receipt_from_row_of_receipt [simp]:
  "wf_receipt r \<Longrightarrow> receipt_from_row (row_of_receipt r) = Inr r"
  by (cases r) (simp add: receipt_from_row_def row_of_receipt_def wf_receipt_def)

lemma row_of_receipt_sel [simp]:
  "rr_effect_id (row_of_receipt r) = rc_effect_id r"
  "rr_outcome (row_of_receipt r) = outcome_value (rc_outcome r)"
  by (simp_all add: row_of_receipt_def)

lemma outcome_value_allowed [simp]:
  "outcome_value k = ''succeeded'' \<or> outcome_value k = ''failed'' \<or> outcome_value k = ''timed_out''"
  by (cases k) simp_all

lemma intent_from_row_wf [simp]: "wf_intent H i \<Longrightarrow> intent_from_row H i = Inr i"
  by (simp add: intent_from_row_def wf_intent_def)

lemma select_intent_ok:
  assumes "effects_ok H db" and "select_intent db k = Some i"
  shows "wf_intent H i \<and> in_effect_id i = k \<and> i \<in> set (tool_intents db)"
  using assms find_Some_in [of "\<lambda>r. in_effect_id r = k" "tool_intents db" i]
  by (simp add: effects_ok_def select_intent_def)

lemma select_receipt_ok:
  assumes "effects_ok H db" and "select_receipt db k = Some q"
  obtains r where "wf_receipt r" and "q = row_of_receipt r" and "rc_effect_id r = k"
    and "select_intent db k \<noteq> None"
proof -
  from assms(2) have q: "q \<in> set (tool_receipts db)" "rr_effect_id q = k"
    using find_Some_in [of "\<lambda>r. rr_effect_id r = k" "tool_receipts db" q]
    by (simp_all add: select_receipt_def)
  with assms(1) obtain r i where "wf_receipt r" "q = row_of_receipt r"
      "i \<in> set (tool_intents db)" "in_effect_id i = rc_effect_id r"
    by (auto simp: effects_ok_def)
  with q that show thesis by (auto simp: select_intent_def find_None_iff)
qed

text \<open>The row that violates the uniqueness of run and call would have the effect id searched for.\<close>

lemma insert_intent_ok:
  assumes "effects_ok H db" and "wf_intent H i" and "select_intent db (in_effect_id i) = None"
  shows "insert_intent db i = Inr (db\<lparr>tool_intents := tool_intents db @ [i]\<rparr>)"
proof -
  have "in_effect_id r \<noteq> in_effect_id i" if "r \<in> set (tool_intents db)" for r
    using that assms(3) by (simp add: select_intent_def find_None_iff)
  moreover have "in_effect_id r = in_effect_id i"
    if "r \<in> set (tool_intents db)" "in_run_id r = in_run_id i" "in_tool_call_id r = in_tool_call_id i" for r
    using that assms(1,2) wf_intent_effect_id [of H r] wf_intent_effect_id [of H i]
    by (simp add: effects_ok_def)
  ultimately show ?thesis by (auto simp: insert_intent_def ensure_def)
qed

subsection \<open>The SQLite store keeps the contract\<close>

interpretation sqlite: tool_effect_store H "sqlite_effects H" "effects_ok H" select_intent receipt_at
  for H
proof unfold_locales
  fix d :: EffectDB and k i j r q
  assume ok: "effects_ok H d"
  show "st_load_intent (sqlite_effects H) d k = Inr (select_intent d k)"
    using select_intent_ok [OF ok]
    by (auto simp: sqlite_effects_def load_intent_def split: option.split)
  show "st_load_receipt (sqlite_effects H) d k = Inr (receipt_at d k)"
    by (cases "select_receipt d k")
       (auto simp: sqlite_effects_def load_receipt_def receipt_at_def the_receipt_def
         elim: select_receipt_ok [OF ok])
  show "in_effect_id i = k \<and> wf_intent H i" if "select_intent d k = Some i"
    using select_intent_ok [OF ok that] by simp
  show "rc_effect_id r = k \<and> wf_receipt r \<and> select_intent d k \<noteq> None" if "receipt_at d k = Some r"
    using that by (auto simp: receipt_at_def the_receipt_def bind_eq_Some_conv elim!: select_receipt_ok [OF ok])
  assume wf: "wf_intent H i"
  show "\<exists>d'. st_save_intent (sqlite_effects H) d i = Inr d' \<and> effects_ok H d' \<and>
      select_intent d' = (select_intent d)(in_effect_id i \<mapsto> i) \<and> receipt_at d' = receipt_at d"
    if none: "select_intent d (in_effect_id i) = None"
  proof (intro exI conjI)
    let ?d = "d\<lparr>tool_intents := tool_intents d @ [i]\<rparr>"
    show "st_save_intent (sqlite_effects H) d i = Inr ?d"
      by (simp add: sqlite_effects_def save_intent_def none insert_intent_ok [OF ok wf none])
    show "effects_ok H ?d" using ok wf by (fastforce simp: effects_ok_def)
    show "select_intent ?d = (select_intent d)(in_effect_id i \<mapsto> i)"
      using none by (auto simp: select_intent_def find_append fun_eq_iff split: option.split)
    show "receipt_at ?d = receipt_at d" by (simp add: receipt_at_def select_receipt_def fun_eq_iff)
  qed
  show "st_save_intent (sqlite_effects H) d i =
      (if j = i then Inr d else Inl DuplicateToolEffectConflictError)"
    if "select_intent d (in_effect_id i) = Some j"
    using that select_intent_ok [OF ok that]
    by (simp add: sqlite_effects_def save_intent_def ensure_def)
next
  fix d :: EffectDB and r q
  assume ok: "effects_ok H d" and wf: "wf_receipt r"
  show "\<exists>d'. st_save_receipt (sqlite_effects H) d r = Inr d' \<and> effects_ok H d' \<and>
      select_intent d' = select_intent d \<and> receipt_at d' = (receipt_at d)(rc_effect_id r \<mapsto> r)"
    if none: "receipt_at d (rc_effect_id r) = None" and
      int: "select_intent d (rc_effect_id r) \<noteq> None"
  proof (intro exI conjI)
    let ?d = "d\<lparr>tool_receipts := tool_receipts d @ [row_of_receipt r]\<rparr>"
    have s: "select_receipt d (rc_effect_id r) = None"
      using none by (cases "select_receipt d (rc_effect_id r)")
        (auto simp: receipt_at_def the_receipt_def elim: select_receipt_ok [OF ok])
    from int obtain i where i: "i \<in> set (tool_intents d)" "in_effect_id i = rc_effect_id r"
      using select_intent_ok [OF ok] by blast
    have "insert_receipt d (row_of_receipt r) = Inr ?d"
      using s i by (auto simp: insert_receipt_def ensure_def select_receipt_def find_None_iff)
    then show "st_save_receipt (sqlite_effects H) d r = Inr ?d"
      using int by (auto simp: sqlite_effects_def save_receipt_def s)
    show "effects_ok H ?d" using ok wf i by (auto simp: effects_ok_def)
    show "select_intent ?d = select_intent d" by (simp add: select_intent_def fun_eq_iff)
    show "receipt_at ?d = (receipt_at d)(rc_effect_id r \<mapsto> r)"
      using s wf
      by (auto simp: receipt_at_def select_receipt_def find_append the_receipt_def fun_eq_iff
          split: option.split)
  qed
  show "st_save_receipt (sqlite_effects H) d r =
      (if q = r then Inr d else Inl DuplicateToolEffectConflictError)"
    if "receipt_at d (rc_effect_id r) = Some q"
    using that
    by (cases "select_receipt d (rc_effect_id r)")
       (auto simp: sqlite_effects_def save_receipt_def receipt_at_def the_receipt_def ensure_def
         elim!: select_receipt_ok [OF ok])
  show "st_save_receipt (sqlite_effects H) d r = Inl MissingToolIntentError"
    if none: "select_intent d (rc_effect_id r) = None"
    using none by (cases "select_receipt d (rc_effect_id r)")
      (auto simp: sqlite_effects_def save_receipt_def elim: select_receipt_ok [OF ok])
qed

end
