(* ===== verification/Executor.thy ===== *)
theory Executor
  imports EffectStore
begin

section \<open>The durable tool executor (durable_tool_executor.py, tool_recovery.py)\<close>

text \<open>
  One external tool effect is executed between a persisted intent and a persisted receipt. The
  tool runner and the failure injector are parameters: the runner is a function of the world
  outside, the injector stops the process at a checkpoint by raising. The world of the executor
  is the store, the outside, and the log of the invocations made.
\<close>

subsection \<open>Runner, injector, world\<close>

datatype ExecutionCheckpoint =
  AFTER_INTENT_PERSISTED | AFTER_TOOL_INVOKED | AFTER_RECEIPT_PERSISTED

text \<open>
  What an invocation can do: return a mapping, raise \<open>ToolTimeoutError\<close> (class, message,
  seconds), raise another \<open>Exception\<close> (class, message), or stop the process.
\<close>

datatype invoke_result =
    Returned payload
  | TimedOut string string json
  | Raised string string
  | Aborted error

type_synonym 'w runner = "string \<Rightarrow> payload \<Rightarrow> string \<Rightarrow> 'w \<Rightarrow> invoke_result \<times> 'w"
type_synonym injector = "ExecutionCheckpoint \<Rightarrow> ToolIntent \<Rightarrow> error option"

record tool_call =
  tc_tool_name :: string
  tc_arguments :: payload
  tc_key :: string

record ('d, 'w) tool_world =
  tw_store :: 'd
  tw_outside :: 'w
  tw_calls :: "tool_call list"

definition storeA :: "('d \<Rightarrow> 'd result) \<Rightarrow> (('d, 'w) tool_world, unit) action" where
  "storeA f w =
     (case f (tw_store w) of Inl e \<Rightarrow> (Inl e, w) | Inr d \<Rightarrow> (Inr (), w\<lparr>tw_store := d\<rparr>))"

definition reach_checkpoint :: "injector \<Rightarrow> ExecutionCheckpoint \<Rightarrow> ToolIntent \<Rightarrow> ('s, unit) action" where
  "reach_checkpoint injector c i =
     (case injector c i of None \<Rightarrow> returnA () | Some e \<Rightarrow> raiseA e)"

definition call_of :: "ToolIntent \<Rightarrow> tool_call" where
  "call_of i = \<lparr>tc_tool_name = in_tool_name i, tc_arguments = intent_arguments i,
     tc_key = idempotency_key i\<rparr>"

definition invokeA :: "'w runner \<Rightarrow> ToolIntent \<Rightarrow> (('d, 'w) tool_world, invoke_result) action" where
  "invokeA runner i w =
     (let (r, outside) =
        runner (in_tool_name i) (intent_arguments i) (idempotency_key i) (tw_outside w)
      in (Inr r, w\<lparr>tw_outside := outside, tw_calls := tw_calls w @ [call_of i]\<rparr>))"

subsection \<open>Execution\<close>

definition receipt_for :: "ToolIntent \<Rightarrow> invoke_result \<Rightarrow> ToolReceipt result" where
  "receipt_for i r =
     (case r of
        Returned output \<Rightarrow> build_receipt (in_effect_id i) TOOL_SUCCEEDED_OUTCOME output
      | TimedOut name message seconds \<Rightarrow>
          build_receipt (in_effect_id i) TOOL_TIMED_OUT_OUTCOME
            [(''error_type'', JStr name), (''message'', JStr message), (''timeout_seconds'', seconds)]
      | Raised name message \<Rightarrow>
          build_receipt (in_effect_id i) TOOL_FAILED_OUTCOME
            [(''error_type'', JStr name), (''message'', JStr message)]
      | Aborted e \<Rightarrow> Inl e)"

definition invoke_and_record ::
  "'d effect_store \<Rightarrow> 'w runner \<Rightarrow> injector \<Rightarrow> ToolIntent \<Rightarrow> (('d, 'w) tool_world, ToolReceipt) action" where
  "invoke_and_record S runner injector i =
     bindA (invokeA runner i) (\<lambda>r.
     bindA (liftA (receipt_for i r)) (\<lambda>receipt.
     bindA (reach_checkpoint injector AFTER_TOOL_INVOKED i) (\<lambda>_.
     bindA (storeA (\<lambda>d. st_save_receipt S d receipt)) (\<lambda>_.
     bindA (reach_checkpoint injector AFTER_RECEIPT_PERSISTED i) (\<lambda>_.
     returnA receipt)))))"

definition execute ::
  "'d effect_store \<Rightarrow> ToolRegistry \<Rightarrow> 'w runner \<Rightarrow> injector \<Rightarrow> ToolIntent \<Rightarrow>
   (('d, 'w) tool_world, ToolReceipt) action" where
  "execute S registry runner injector i =
     bindA (liftA (resolve registry (in_tool_name i))) (\<lambda>definition.
     bindA (askA (\<lambda>w. st_load_intent S (tw_store w) (in_effect_id i))) (\<lambda>persisted_intent.
     case persisted_intent of
       None \<Rightarrow>
         bindA (storeA (\<lambda>d. st_save_intent S d i)) (\<lambda>_.
         bindA (reach_checkpoint injector AFTER_INTENT_PERSISTED i) (\<lambda>_.
         invoke_and_record S runner injector i))
     | Some persisted \<Rightarrow>
         bindA (storeA (\<lambda>d. st_save_intent S d i)) (\<lambda>_.
         bindA (askA (\<lambda>w. st_load_receipt S (tw_store w) (in_effect_id i))) (\<lambda>persisted_receipt.
         case persisted_receipt of
           Some receipt \<Rightarrow> returnA receipt
         | None \<Rightarrow>
             bindA (liftA (decide_recovery persisted None (td_retry_is_idempotent definition)))
               (\<lambda>decision.
             if decision = UNKNOWN then raiseA UnsafeToolRetryError
             else invoke_and_record S runner injector i)))))"

definition inspect_recovery ::
  "'d effect_store \<Rightarrow> 'd \<Rightarrow> string \<Rightarrow> bool \<Rightarrow> RecoveryDecision result" where
  "inspect_recovery S d effect_id retry_is_idempotent =
     bindR (st_load_intent S d effect_id) (\<lambda>intent.
     case intent of
       None \<Rightarrow> Inl MissingToolIntentError
     | Some i \<Rightarrow> bindR (st_load_receipt S d effect_id) (\<lambda>receipt.
         decide_recovery i receipt retry_is_idempotent))"

text \<open>
  A sequence of attempts, in any number of processes one after the other: each attempt has its
  own intent and its own crash schedule, and finds the world the earlier ones left.
\<close>

fun attempts ::
  "'d effect_store \<Rightarrow> ToolRegistry \<Rightarrow> 'w runner \<Rightarrow> (ToolIntent \<times> injector) list \<Rightarrow>
   ('d, 'w) tool_world \<Rightarrow> ('d, 'w) tool_world" where
  "attempts S registry runner [] w = w"
| "attempts S registry runner ((i, injector) # as) w =
     attempts S registry runner as (snd (execute S registry runner injector i w))"

subsection \<open>Every branch of an execution, for any store that keeps the contract\<close>

lemma receipt_for_wf: "receipt_for i r = Inr q \<Longrightarrow> wf_receipt q \<and> rc_effect_id q = in_effect_id i"
  by (auto simp: receipt_for_def dest: build_receipt_wf build_receipt_fields split: invoke_result.splits)

lemma call_of_simps [simp]:
  "tc_key (call_of i) = in_effect_id i"
  "tc_tool_name (call_of i) = in_tool_name i"
  "tc_arguments (call_of i) = intent_arguments i"
  by (simp_all add: call_of_def idempotency_key_def)

text \<open>The recorded calls with one idempotency key.\<close>

definition calls_for :: "string \<Rightarrow> tool_call list \<Rightarrow> nat" where
  "calls_for k cs = length (filter (\<lambda>c. tc_key c = k) cs)"

lemma calls_for_simps [simp]:
  "calls_for k [] = 0"
  "calls_for k (cs @ [c]) = calls_for k cs + (if tc_key c = k then 1 else 0)"
  by (simp_all add: calls_for_def)

lemma calls_for_zero: "calls_for k cs = 0 \<longleftrightarrow> (\<forall>c \<in> set cs. tc_key c \<noteq> k)"
  by (simp add: calls_for_def filter_empty_conv)

context tool_effect_store
begin

lemma invoke_outcome:
  assumes "ok (tw_store w)" and "intents (tw_store w) (in_effect_id i) = Some i"
    and "receipts (tw_store w) (in_effect_id i) = None"
    and "invoke_and_record S runner injector i w = (res, w')"
  shows "ok (tw_store w') \<and> tw_calls w' = tw_calls w @ [call_of i] \<and>
    intents (tw_store w') = intents (tw_store w) \<and>
    (receipts (tw_store w') = receipts (tw_store w) \<or>
     (\<exists>r. receipts (tw_store w') = (receipts (tw_store w))(in_effect_id i \<mapsto> r))) \<and>
    (\<forall>r. res = Inr r \<longrightarrow> receipts (tw_store w') (in_effect_id i) = Some r)"
proof -
  obtain r0 out where run:
    "runner (in_tool_name i) (intent_arguments i) (idempotency_key i) (tw_outside w) = (r0, out)"
    by fastforce
  show ?thesis
  proof (cases "receipt_for i r0")
    case (Inl e)
    with assms run show ?thesis
      by (auto simp: invoke_and_record_def bindA_def invokeA_def)
  next
    case (Inr q)
    then have q: "wf_receipt q" "rc_effect_id q = in_effect_id i" using receipt_for_wf by auto
    with save_receipt_new [OF assms(1) q(1)] assms(2,3) obtain d' where d':
      "st_save_receipt S (tw_store w) q = Inr d'" "ok d'"
      "intents d' = intents (tw_store w)"
      "receipts d' = (receipts (tw_store w))(in_effect_id i \<mapsto> q)" by auto
    show ?thesis
    proof (cases "injector AFTER_TOOL_INVOKED i")
      case None
      with assms run Inr d' show ?thesis
        by (cases "injector AFTER_RECEIPT_PERSISTED i")
           (auto simp: invoke_and_record_def bindA_def invokeA_def storeA_def reach_checkpoint_def)
    next
      case (Some e)
      with assms run Inr show ?thesis
        by (auto simp: invoke_and_record_def bindA_def invokeA_def reach_checkpoint_def)
    qed
  qed
qed

lemma execute_unknown_tool:
  "resolve registry (in_tool_name i) = Inl e \<Longrightarrow> execute S registry runner injector i w = (Inl e, w)"
  by (simp add: execute_def)

lemma execute_conflict:
  assumes "resolve registry (in_tool_name i) = Inr def" and "ok (tw_store w)" and "wf_intent H i"
    and "intents (tw_store w) (in_effect_id i) = Some j" and "j \<noteq> i"
  shows "execute S registry runner injector i w = (Inl DuplicateToolEffectConflictError, w)"
  using assms save_intent_old [OF assms(2,3,4)]
  by (simp add: execute_def bindA_def load_intent storeA_def)

lemma execute_done:
  assumes "resolve registry (in_tool_name i) = Inr def" and "ok (tw_store w)" and "wf_intent H i"
    and "intents (tw_store w) (in_effect_id i) = Some i"
    and "receipts (tw_store w) (in_effect_id i) = Some r"
  shows "execute S registry runner injector i w = (Inr r, w)"
  using assms save_intent_old [OF assms(2,3,4)]
  by (simp add: execute_def bindA_def load_intent load_receipt storeA_def)

lemma execute_pending:
  assumes "resolve registry (in_tool_name i) = Inr def" and "ok (tw_store w)" and "wf_intent H i"
    and "intents (tw_store w) (in_effect_id i) = Some i"
    and "receipts (tw_store w) (in_effect_id i) = None"
  shows "execute S registry runner injector i w =
    (if td_retry_is_idempotent def then invoke_and_record S runner injector i w
     else (Inl UnsafeToolRetryError, w))"
  using assms save_intent_old [OF assms(2,3,4)]
  by (simp add: execute_def bindA_def load_intent load_receipt storeA_def decide_recovery_def)

lemma execute_new:
  assumes "resolve registry (in_tool_name i) = Inr def" and "ok (tw_store w)" and "wf_intent H i"
    and "intents (tw_store w) (in_effect_id i) = None"
  obtains d' where "ok d'" and "intents d' = (intents (tw_store w))(in_effect_id i \<mapsto> i)"
    and "receipts d' = receipts (tw_store w)"
    and "execute S registry runner injector i w =
      (case injector AFTER_INTENT_PERSISTED i of
         Some e \<Rightarrow> (Inl e, w\<lparr>tw_store := d'\<rparr>)
       | None \<Rightarrow> invoke_and_record S runner injector i (w\<lparr>tw_store := d'\<rparr>))"
proof -
  obtain d' where d': "st_save_intent S (tw_store w) i = Inr d'" "ok d'"
      "intents d' = (intents (tw_store w))(in_effect_id i \<mapsto> i)"
      "receipts d' = receipts (tw_store w)"
    using save_intent_new [OF assms(2-4)] by blast
  then have "execute S registry runner injector i w =
      (case injector AFTER_INTENT_PERSISTED i of
         Some e \<Rightarrow> (Inl e, w\<lparr>tw_store := d'\<rparr>)
       | None \<Rightarrow> invoke_and_record S runner injector i (w\<lparr>tw_store := d'\<rparr>))"
    using assms
    by (auto simp: execute_def bindA_def load_intent storeA_def reach_checkpoint_def
        split: option.splits)
  with d' that show thesis by blast
qed

end

subsection \<open>Sequences of attempts\<close>

text \<open>
  What holds of a world all attempts have left: every recorded call is the call of the persisted
  intent of its key, a receipt has a call, and a tool that may not be retried was called at most
  once per key.
\<close>

definition world_ok ::
  "('d \<Rightarrow> string \<Rightarrow> ToolIntent option) \<Rightarrow> ('d \<Rightarrow> string \<Rightarrow> ToolReceipt option) \<Rightarrow> ToolRegistry \<Rightarrow>
   ('d, 'w) tool_world \<Rightarrow> bool" where
  "world_ok intents receipts registry w \<longleftrightarrow>
     (\<forall>c \<in> set (tw_calls w). \<exists>i. intents (tw_store w) (tc_key c) = Some i \<and> c = call_of i) \<and>
     (\<forall>k i def. intents (tw_store w) k = Some i \<longrightarrow> resolve registry (in_tool_name i) = Inr def \<longrightarrow>
        \<not> td_retry_is_idempotent def \<longrightarrow> calls_for k (tw_calls w) \<le> 1) \<and>
     (\<forall>k. receipts (tw_store w) k \<noteq> None \<longrightarrow> 1 \<le> calls_for k (tw_calls w))"

text \<open>What an attempt changes: facts are only added, calls only appended.\<close>

definition grows ::
  "('d \<Rightarrow> string \<Rightarrow> ToolIntent option) \<Rightarrow> ('d \<Rightarrow> string \<Rightarrow> ToolReceipt option) \<Rightarrow>
   ('d, 'w) tool_world \<Rightarrow> ('d, 'w) tool_world \<Rightarrow> bool" where
  "grows intents receipts w w' \<longleftrightarrow> intents (tw_store w) \<subseteq>\<^sub>m intents (tw_store w') \<and>
     receipts (tw_store w) \<subseteq>\<^sub>m receipts (tw_store w') \<and>
     (\<exists>more. tw_calls w' = tw_calls w @ more)"

context tool_effect_store
begin

lemma world_ok_new_intent:
  assumes "world_ok intents receipts registry w" and "intents (tw_store w) (in_effect_id i) = None"
    and "intents d = (intents (tw_store w))(in_effect_id i \<mapsto> i)"
    and "receipts d = receipts (tw_store w)"
  shows "world_ok intents receipts registry (w\<lparr>tw_store := d\<rparr>) \<and>
    calls_for (in_effect_id i) (tw_calls w) = 0"
proof -
  have none: "calls_for (in_effect_id i) (tw_calls w) = 0"
    using assms(1,2) by (force simp: calls_for_zero world_ok_def)
  then have "tc_key c \<noteq> in_effect_id i" if "c \<in> set (tw_calls w)" for c
    using that by (simp add: calls_for_zero)
  with none assms show ?thesis by (auto simp: world_ok_def split: if_splits)
qed

lemma world_ok_invoked:
  assumes w: "world_ok intents receipts registry w" and i: "intents (tw_store w) (in_effect_id i) = Some i"
    and once: "\<And>def. resolve registry (in_tool_name i) = Inr def \<Longrightarrow> \<not> td_retry_is_idempotent def \<Longrightarrow>
      calls_for (in_effect_id i) (tw_calls w) = 0"
    and c: "tw_calls w' = tw_calls w @ [call_of i]"
    and s: "intents (tw_store w') = intents (tw_store w)"
    and r: "receipts (tw_store w') = receipts (tw_store w) \<or>
     (\<exists>r. receipts (tw_store w') = (receipts (tw_store w))(in_effect_id i \<mapsto> r))"
  shows "world_ok intents receipts registry w'"
  unfolding world_ok_def
proof (intro conjI ballI allI impI)
  fix c' assume "c' \<in> set (tw_calls w')"
  then show "\<exists>j. intents (tw_store w') (tc_key c') = Some j \<and> c' = call_of j"
    using w i c s by (auto simp: world_ok_def)
next
  fix k j def
  assume j: "intents (tw_store w') k = Some j" "resolve registry (in_tool_name j) = Inr def"
    "\<not> td_retry_is_idempotent def"
  then show "calls_for k (tw_calls w') \<le> 1"
    using w i s once [of def] by (cases "k = in_effect_id i") (auto simp: c world_ok_def)
next
  fix k assume "receipts (tw_store w') k \<noteq> None"
  then show "1 \<le> calls_for k (tw_calls w')"
    using w r by (cases "k = in_effect_id i") (auto simp: c world_ok_def)
qed

lemma invoke_keeps:
  assumes "ok (tw_store w)" and "world_ok intents receipts registry w"
    and "intents (tw_store w) (in_effect_id i) = Some i"
    and "receipts (tw_store w) (in_effect_id i) = None"
    and "\<And>def. resolve registry (in_tool_name i) = Inr def \<Longrightarrow> \<not> td_retry_is_idempotent def \<Longrightarrow>
      calls_for (in_effect_id i) (tw_calls w) = 0"
    and "invoke_and_record S runner injector i w = (res, w')"
  shows "ok (tw_store w') \<and> world_ok intents receipts registry w' \<and> grows intents receipts w w'"
proof -
  note out = invoke_outcome [OF assms(1,3,4,6)]
  have "world_ok intents receipts registry w'"
    by (rule world_ok_invoked [OF assms(2,3,5)]) (use out in auto)
  moreover have "receipts (tw_store w) \<subseteq>\<^sub>m receipts (tw_store w')"
    using out assms(4) by (auto simp: map_le_def)
  ultimately show ?thesis using out by (simp add: grows_def)
qed

lemma execute_keeps:
  assumes "ok (tw_store w)" and "world_ok intents receipts registry w" and "wf_intent H i"
    and "execute S registry runner injector i w = (res, w')"
  shows "ok (tw_store w') \<and> world_ok intents receipts registry w' \<and> grows intents receipts w w'"
proof (cases "resolve registry (in_tool_name i)")
  case (Inl e)
  with assms execute_unknown_tool [OF Inl, of runner injector w] show ?thesis
    by (auto simp: grows_def)
next
  case (Inr def)
  show ?thesis
  proof (cases "intents (tw_store w) (in_effect_id i)")
    case None
    obtain d where d: "ok d" "intents d = (intents (tw_store w))(in_effect_id i \<mapsto> i)"
        "receipts d = receipts (tw_store w)"
        and ex: "execute S registry runner injector i w =
          (case injector AFTER_INTENT_PERSISTED i of Some e \<Rightarrow> (Inl e, w\<lparr>tw_store := d\<rparr>)
           | None \<Rightarrow> invoke_and_record S runner injector i (w\<lparr>tw_store := d\<rparr>))"
      using execute_new [OF Inr assms(1,3) None] by metis
    let ?v = "w\<lparr>tw_store := d\<rparr>"
    note v = world_ok_new_intent [OF assms(2) None d(2,3)]
    have rn: "receipts (tw_store w) (in_effect_id i) = None"
      using None assms(1) receipt_key by (cases "receipts (tw_store w) (in_effect_id i)") auto
    have g: "grows intents receipts w ?v" using None d by (auto simp: grows_def map_le_def)
    show ?thesis
    proof (cases "injector AFTER_INTENT_PERSISTED i")
      case (Some e)
      then have "w' = ?v" using ex assms(4) by simp
      with v g d show ?thesis by simp
    next
      case None
      with ex assms(4) have "invoke_and_record S runner injector i ?v = (res, w')" by simp
      then have "ok (tw_store w') \<and> world_ok intents receipts registry w' \<and> grows intents receipts ?v w'"
        using v d rn by (intro invoke_keeps) auto
      with g show ?thesis by (auto simp: grows_def intro: map_le_trans)
    qed
  next
    case (Some j)
    show ?thesis
    proof (cases "j = i")
      case False
      with execute_conflict [OF Inr assms(1,3) Some] assms show ?thesis by (auto simp: grows_def)
    next
      case True
      show ?thesis
      proof (cases "receipts (tw_store w) (in_effect_id i)")
        case None
        show ?thesis
        proof (cases "td_retry_is_idempotent def")
          case True
          have i: "intents (tw_store w) (in_effect_id i) = Some i" using Some \<open>j = i\<close> by simp
          have "invoke_and_record S runner injector i w = (res, w')"
            using execute_pending [OF Inr assms(1,3) i None] True assms(4) by simp
          then show ?thesis
            by (rule invoke_keeps [OF assms(1,2) i None, rotated]) (use Inr True in auto)
        next
          case False
          with execute_pending [OF Inr assms(1,3) _ None] Some \<open>j = i\<close> assms show ?thesis
            by (auto simp: grows_def)
        qed
      next
        case (Some r)
        with execute_done [OF Inr assms(1,3)] \<open>intents _ _ = _\<close> True assms show ?thesis
          by (auto simp: grows_def)
      qed
    qed
  qed
qed

lemma attempts_keep:
  assumes "ok (tw_store w)" and "world_ok intents receipts registry w"
    and "\<forall>(i, _) \<in> set as. wf_intent H i"
  shows "ok (tw_store (attempts S registry runner as w)) \<and>
    world_ok intents receipts registry (attempts S registry runner as w) \<and>
    grows intents receipts w (attempts S registry runner as w)"
  using assms
proof (induction as arbitrary: w)
  case Nil
  then show ?case by (simp add: grows_def)
next
  case (Cons a as)
  obtain i injector where a: "a = (i, injector)" by fastforce
  obtain res v where ex: "execute S registry runner injector i w = (res, v)" by fastforce
  have v: "ok (tw_store v) \<and> world_ok intents receipts registry v \<and> grows intents receipts w v"
    using Cons.prems by (intro execute_keeps [OF _ _ _ ex]) (auto simp: a)
  with Cons.IH [of v] Cons.prems(3)
  have "ok (tw_store (attempts S registry runner as v)) \<and>
      world_ok intents receipts registry (attempts S registry runner as v) \<and>
      grows intents receipts v (attempts S registry runner as v)" by auto
  with v show ?case by (auto simp: a ex grows_def intro: map_le_trans)
qed

lemma execute_returned:
  assumes "ok (tw_store w)" and "wf_intent H i"
    and "execute S registry runner injector i w = (Inr r, w')"
  shows "receipts (tw_store w') (in_effect_id i) = Some r \<and>
    intents (tw_store w') (in_effect_id i) = Some i \<and> (\<exists>def. resolve registry (in_tool_name i) = Inr def)"
proof (cases "resolve registry (in_tool_name i)")
  case (Inl e)
  with assms execute_unknown_tool show ?thesis by (metis prod.inject sum.distinct(1))
next
  case (Inr def)
  show ?thesis
  proof (cases "intents (tw_store w) (in_effect_id i)")
    case None
    obtain d where d: "ok d" "intents d = (intents (tw_store w))(in_effect_id i \<mapsto> i)"
        "receipts d = receipts (tw_store w)"
        and ex: "execute S registry runner injector i w =
          (case injector AFTER_INTENT_PERSISTED i of Some e \<Rightarrow> (Inl e, w\<lparr>tw_store := d\<rparr>)
           | None \<Rightarrow> invoke_and_record S runner injector i (w\<lparr>tw_store := d\<rparr>))"
      using execute_new [OF Inr assms(1,2) None] by metis
    have rn: "receipts (tw_store w) (in_effect_id i) = None"
      using None assms(1) receipt_key by (cases "receipts (tw_store w) (in_effect_id i)") auto
    from ex assms(3) have "invoke_and_record S runner injector i (w\<lparr>tw_store := d\<rparr>) = (Inr r, w')"
      by (auto split: option.splits)
    from invoke_outcome [OF _ _ _ this] d rn Inr show ?thesis by simp
  next
    case (Some j)
    show ?thesis
    proof (cases "j = i")
      case False
      with execute_conflict [OF Inr assms(1,2) Some] assms show ?thesis by auto
    next
      case True
      with Some have i: "intents (tw_store w) (in_effect_id i) = Some i" by simp
      show ?thesis
      proof (cases "receipts (tw_store w) (in_effect_id i)")
        case None
        from execute_pending [OF Inr assms(1,2) i None] assms(3)
        have "invoke_and_record S runner injector i w = (Inr r, w')" by (auto split: if_splits)
        from invoke_outcome [OF assms(1) i None this] i Inr show ?thesis by simp
      next
        case (Some q)
        with execute_done [OF Inr assms(1,2) i Some] assms i Inr show ?thesis by simp
      qed
    qed
  qed
qed

text \<open>A returned receipt is the answer to every later attempt, without another invocation.\<close>

lemma receipt_forever:
  assumes "ok (tw_store w)" and "world_ok intents receipts registry w"
    and "wf_intent H i" and "\<forall>(j, _) \<in> set as. wf_intent H j"
    and "execute S registry runner injector i w = (Inr r, w')"
  shows "execute S registry runner injector' i (attempts S registry runner as w') =
    (Inr r, attempts S registry runner as w')"
proof -
  let ?v = "attempts S registry runner as w'"
  have w': "ok (tw_store w') \<and> world_ok intents receipts registry w' \<and> grows intents receipts w w'"
    by (rule execute_keeps [OF assms(1-3,5)])
  then have v: "ok (tw_store ?v) \<and> world_ok intents receipts registry ?v \<and> grows intents receipts w' ?v"
    using attempts_keep [OF _ _ assms(4)] by blast
  note ret = execute_returned [OF assms(1,3,5)]
  have "receipts (tw_store ?v) (in_effect_id i) = Some r" "intents (tw_store ?v) (in_effect_id i) = Some i"
    using v ret unfolding grows_def map_le_def by (metis domI)+
  moreover obtain def where "resolve registry (in_tool_name i) = Inr def" using ret by blast
  ultimately show ?thesis using execute_done [of registry i] v assms(3) by blast
qed

end

end
