(* ===== verification/EffectProperties.thy ===== *)
theory EffectProperties
  imports Executor
begin

section \<open>Properties of durable tool execution\<close>

text \<open>
  The executor on the SQLite store: at most one invocation of a tool that may not be retried,
  write-ahead intents, stable receipts, fail-closed recovery, completion, and the store's own
  round trips. Every attempt may crash at any checkpoint or inside the tool.
\<close>

subsection \<open>Worlds and samples\<close>

definition fresh_world :: "'w \<Rightarrow> (EffectDB, 'w) tool_world" where
  "fresh_world outside = \<lparr>tw_store = empty_effects, tw_outside = outside, tw_calls = []\<rparr>"

lemma fresh_world_ok [simp]:
  "effects_ok H (tw_store (fresh_world o0))"
  "world_ok select_intent receipt_at registry (fresh_world o0)"
  by (simp_all add: fresh_world_def empty_effects_def effects_ok_def world_ok_def
      select_intent_def receipt_at_def select_receipt_def)

definition no_crash :: injector where
  "no_crash c i = None"

definition crash_at :: "ExecutionCheckpoint \<Rightarrow> injector" where
  "crash_at c0 c i = (if c = c0 then Some InjectedCrash else None)"

definition sample_registry :: ToolRegistry where
  "sample_registry =
     [(''pay'', \<lparr>td_tool_name = ''pay'', td_retry_is_idempotent = False, td_path_argument_names = []\<rparr>),
      (''put'', \<lparr>td_tool_name = ''put'', td_retry_is_idempotent = True, td_path_argument_names = []\<rparr>)]"

definition sample_intent :: "string \<Rightarrow> ToolIntent" where
  "sample_intent n = \<lparr>in_effect_id = effect_identity ''r'' ''c'', in_run_id = ''r'',
     in_tool_call_id = ''c'', in_tool_name = n, in_arguments_json = render (JObj [])\<rparr>"

definition sample_runner :: "unit runner" where
  "sample_runner n a k w = (Returned [], w)"

lemma sample_tool: "in_tool_name (sample_intent n) = n"
  by (simp add: sample_intent_def)

lemma canonical_empty [simp]: "canonical_object (render (JObj [])) = Inr (render (JObj []))"
  unfolding canonical_object_Inr_iff by (rule exI [of _ "[]"]) (simp add: loads_render canon_obj)

lemma effect_identity_nonempty [simp]: "effect_identity r c \<noteq> []"
  by (simp add: effect_identity_def render.simps)

lemma wf_sample_intent [simp]: "n \<noteq> [] \<Longrightarrow> wf_intent id (sample_intent n)"
  by (simp add: wf_intent_def intent_post_init_def sample_intent_def derive_effect_id_def)

lemma resolve_sample [simp]:
  "resolve sample_registry ''pay'' =
     Inr \<lparr>td_tool_name = ''pay'', td_retry_is_idempotent = False, td_path_argument_names = []\<rparr>"
  "resolve sample_registry ''put'' =
     Inr \<lparr>td_tool_name = ''put'', td_retry_is_idempotent = True, td_path_argument_names = []\<rparr>"
  by (simp_all add: resolve_def sample_registry_def)

lemma resolve_sample_pay:
  "resolve sample_registry (in_tool_name (sample_intent ''pay'')) =
     Inr \<lparr>td_tool_name = ''pay'', td_retry_is_idempotent = False, td_path_argument_names = []\<rparr>"
  by (simp add: sample_tool)

lemma attempts_facts:
  assumes "\<forall>(i, _) \<in> set as. wf_intent H i"
  shows "effects_ok H (tw_store (attempts (sqlite_effects H) registry runner as (fresh_world o0))) \<and>
    world_ok select_intent receipt_at registry
      (attempts (sqlite_effects H) registry runner as (fresh_world o0))"
  using sqlite.attempts_keep [OF _ _ assms, of "fresh_world o0" registry runner] by simp

lemma length_filter_conj: "length (filter (\<lambda>x. P x \<and> Q x) xs) \<le> length (filter P xs)"
  by (induction xs) auto

text \<open>A process that stopped between the invocation and the receipt.\<close>

definition crashed_world :: "string \<Rightarrow> (EffectDB, unit) tool_world" where
  "crashed_world n = attempts (sqlite_effects id) sample_registry sample_runner
     [(sample_intent n, crash_at AFTER_TOOL_INVOKED)] (fresh_world ())"

lemma build_empty_receipt:
  "k \<noteq> [] \<Longrightarrow> build_receipt k oc [] = Inr \<lparr>rc_effect_id = k, rc_outcome = oc, rc_output_json = render (JObj [])\<rparr>"
  by (simp add: build_receipt_def receipt_post_init_def canonical_json_canon canon_obj)

lemma crashed_world_eq:
  assumes "n = ''pay'' \<or> n = ''put''"
  shows "crashed_world n =
    \<lparr>tw_store = empty_effects\<lparr>tool_intents := [sample_intent n]\<rparr>, tw_outside = (),
     tw_calls = [call_of (sample_intent n)]\<rparr>"
proof -
  have r: "\<exists>d. resolve sample_registry (in_tool_name (sample_intent n)) = Inr d"
    using assms by (auto simp: sample_intent_def)
  show ?thesis using r
    by (auto simp: crashed_world_def fresh_world_def execute_def bindA_def sqlite_effects_def
        load_intent_def select_intent_def empty_effects_def storeA_def save_intent_def
        insert_intent_def reach_checkpoint_def crash_at_def invoke_and_record_def invokeA_def
        sample_runner_def receipt_for_def build_empty_receipt sample_intent_def)
qed

subsection \<open>The properties\<close>

text \<open>At most once: however many attempts at executing tool effects are made, in whatever order,
  with whatever crashes, a tool that may not be retried is invoked at most once per effect.\<close>

theorem effects_at_most_once:
  assumes "\<forall>(i, _) \<in> set as. wf_intent H i" and "resolve registry n = Inr def"
    and "\<not> td_retry_is_idempotent def"
  shows "length (filter (\<lambda>c. tc_key c = k \<and> tc_tool_name c = n)
    (tw_calls (attempts (sqlite_effects H) registry runner as (fresh_world o0)))) \<le> 1"
proof (rule ccontr)
  let ?w = "attempts (sqlite_effects H) registry runner as (fresh_world o0)"
  let ?P = "\<lambda>c. tc_key c = k \<and> tc_tool_name c = n"
  assume many: "\<not> length (filter ?P (tw_calls ?w)) \<le> 1"
  have ok: "world_ok select_intent receipt_at registry ?w"
    using attempts_facts [OF assms(1), of registry runner o0] by blast
  from many have "filter ?P (tw_calls ?w) \<noteq> []" by auto
  then obtain c where "c \<in> set (tw_calls ?w)" "tc_key c = k" "tc_tool_name c = n"
    by (auto simp: filter_empty_conv)
  with ok obtain i where "select_intent (tw_store ?w) k = Some i" "in_tool_name i = n"
    by (auto simp: world_ok_def)
  with ok assms(2,3) have "calls_for k (tw_calls ?w) \<le> 1" by (auto simp: world_ok_def)
  moreover have "length (filter ?P (tw_calls ?w)) \<le> calls_for k (tw_calls ?w)"
    unfolding calls_for_def by (rule length_filter_conj)
  ultimately show False using many by simp
qed

theorem effects_at_most_once_witness:
  "length (filter (\<lambda>c. tc_key c = effect_identity ''r'' ''c'' \<and> tc_tool_name c = ''pay'')
    (tw_calls (attempts (sqlite_effects id) sample_registry sample_runner
      [(sample_intent ''pay'', crash_at AFTER_TOOL_INVOKED), (sample_intent ''pay'', no_crash)]
      (fresh_world ())))) \<le> 1"
  by (rule effects_at_most_once [OF _ resolve_sample(1)]) simp_all

text \<open>C35: write-ahead and stable retries: after any attempts, every invocation made is the one of the
  intent stored under its idempotency key (so all invocations with a key have the same tool and
  arguments), and a stored receipt has an invocation.\<close>

theorem effects_write_ahead:
  assumes "\<forall>(i, _) \<in> set as. wf_intent H i"
    and "w = attempts (sqlite_effects H) registry runner as (fresh_world o0)"
  shows "(\<forall>c \<in> set (tw_calls w). \<exists>i. load_intent H (tw_store w) (tc_key c) = Inr (Some i) \<and>
      tc_tool_name c = in_tool_name i \<and> tc_arguments c = intent_arguments i) \<and>
    (\<forall>k r. load_receipt (tw_store w) k = Inr (Some r) \<longrightarrow> (\<exists>c \<in> set (tw_calls w). tc_key c = k))"
proof -
  have ok: "effects_ok H (tw_store w)" and w: "world_ok select_intent receipt_at registry w"
    using attempts_facts [OF assms(1), of registry runner o0] by (simp_all add: assms(2))
  have li: "load_intent H (tw_store w) k = Inr (select_intent (tw_store w) k)" for k
    using sqlite.load_intent [OF ok] by (simp add: sqlite_effects_def)
  have lr: "load_receipt (tw_store w) k = Inr (receipt_at (tw_store w) k)" for k
    using sqlite.load_receipt [OF ok] by (simp add: sqlite_effects_def)
  have "\<exists>c \<in> set (tw_calls w). tc_key c = k" if "receipt_at (tw_store w) k = Some r" for k r
  proof -
    from that w have "1 \<le> calls_for k (tw_calls w)" by (auto simp: world_ok_def)
    then have "calls_for k (tw_calls w) \<noteq> 0" by simp
    then show ?thesis by (auto simp: calls_for_zero)
  qed
  with w show ?thesis by (fastforce simp: li lr world_ok_def)
qed

theorem effects_write_ahead_witness:
  "\<exists>c i. tw_calls (crashed_world ''pay'') = [c] \<and>
     load_intent id (tw_store (crashed_world ''pay'')) (tc_key c) = Inr (Some i) \<and>
     tc_arguments c = intent_arguments i"
proof -
  have "tw_calls (crashed_world ''pay'') = [call_of (sample_intent ''pay'')]"
    by (simp add: crashed_world_eq)
  moreover have "\<forall>(i, _) \<in> set [(sample_intent ''pay'', crash_at AFTER_TOOL_INVOKED)]. wf_intent id i"
    by simp
  note effects_write_ahead [OF this crashed_world_def]
  ultimately show ?thesis by auto
qed

text \<open>A receipt is final: once an execution has returned a receipt, every later attempt at the same
  intent, after any other attempts and in any process, returns that receipt and invokes nothing.\<close>

theorem effects_receipt_final:
  assumes "\<forall>(j, _) \<in> set (as @ bs). wf_intent H j" and "wf_intent H i"
    and "execute (sqlite_effects H) registry runner injector i
      (attempts (sqlite_effects H) registry runner as (fresh_world o0)) = (Inr r, w)"
  shows "execute (sqlite_effects H) registry runner injector' i
      (attempts (sqlite_effects H) registry runner bs w) =
    (Inr r, attempts (sqlite_effects H) registry runner bs w)"
proof -
  have "\<forall>(j, _) \<in> set as. wf_intent H j" "\<forall>(j, _) \<in> set bs. wf_intent H j" using assms(1) by auto
  then show ?thesis
    using attempts_facts [of as H registry runner o0]
      sqlite.receipt_forever [OF _ _ assms(2) _ assms(3)] by blast
qed

theorem effects_receipt_final_witness:
  "\<exists>r w. execute (sqlite_effects id) sample_registry sample_runner no_crash (sample_intent ''pay'')
       (fresh_world ()) = (Inr r, w) \<and>
     execute (sqlite_effects id) sample_registry sample_runner no_crash (sample_intent ''pay'') w =
       (Inr r, w)"
proof -
  let ?ex = "execute (sqlite_effects id) sample_registry sample_runner no_crash (sample_intent ''pay'')"
  obtain r w where run: "?ex (fresh_world ()) = (Inr r, w)"
    by (auto simp: fresh_world_def execute_def bindA_def sqlite_effects_def
        load_intent_def select_intent_def empty_effects_def storeA_def save_intent_def
        insert_intent_def reach_checkpoint_def no_crash_def invoke_and_record_def invokeA_def
        sample_runner_def receipt_for_def build_empty_receipt sample_intent_def save_receipt_def
        select_receipt_def insert_receipt_def row_of_receipt_def ensure_def)
  then show ?thesis
    using effects_receipt_final [of "[]" "[]" id "sample_intent ''pay''"] by fastforce
qed

text \<open>Fail closed: an effect whose intent is stored without a receipt is never retried when its tool
  is not idempotent, whatever happened: the attempt raises and neither invokes nor stores
  anything.\<close>

theorem unsafe_retry_refused:
  assumes "\<forall>(j, _) \<in> set as. wf_intent H j" and "wf_intent H i"
    and "w = attempts (sqlite_effects H) registry runner as (fresh_world o0)"
    and "load_intent H (tw_store w) (in_effect_id i) = Inr (Some i)"
    and "load_receipt (tw_store w) (in_effect_id i) = Inr None"
    and "resolve registry (in_tool_name i) = Inr def" and "\<not> td_retry_is_idempotent def"
  shows "execute (sqlite_effects H) registry runner injector i w = (Inl UnsafeToolRetryError, w)"
proof -
  have ok: "effects_ok H (tw_store w)" using attempts_facts [OF assms(1), of registry runner o0] by (simp add: assms(3))
  have "select_intent (tw_store w) (in_effect_id i) = Some i" "receipt_at (tw_store w) (in_effect_id i) = None"
    using sqlite.load_intent [OF ok] sqlite.load_receipt [OF ok] assms(4,5)
    by (simp_all add: sqlite_effects_def)
  from sqlite.execute_pending [OF assms(6) ok assms(2) this] assms(7) show ?thesis by simp
qed

theorem unsafe_retry_refused_witness:
  "execute (sqlite_effects id) sample_registry sample_runner no_crash (sample_intent ''pay'')
     (crashed_world ''pay'') = (Inl UnsafeToolRetryError, crashed_world ''pay'')"
  by (rule unsafe_retry_refused [OF _ _ crashed_world_def _ _ resolve_sample_pay])
     (simp_all add: crashed_world_eq load_intent_def select_intent_def load_receipt_def
       select_receipt_def empty_effects_def sample_tool)


text \<open>An execution completes: when the tool is registered, no checkpoint crashes, the tool returns a
  JSON object, and the effect is new or may be retried, the execution returns a stored
  success receipt with this output, whatever attempts were made before.\<close>

theorem execution_completes:
  assumes "\<forall>(j, _) \<in> set as. wf_intent H j" and "wf_intent H i"
    and "w = attempts (sqlite_effects H) registry runner as (fresh_world o0)"
    and "resolve registry (in_tool_name i) = Inr def"
    and "load_intent H (tw_store w) (in_effect_id i) = Inr None \<or>
      (load_intent H (tw_store w) (in_effect_id i) = Inr (Some i) \<and>
       load_receipt (tw_store w) (in_effect_id i) = Inr None \<and> td_retry_is_idempotent def)"
    and "runner (in_tool_name i) (intent_arguments i) (in_effect_id i) (tw_outside w) = (Returned out, o1)"
    and "canon (JObj out)"
  shows "\<exists>r w'. execute (sqlite_effects H) registry runner no_crash i w = (Inr r, w') \<and>
    rc_outcome r = TOOL_SUCCEEDED_OUTCOME \<and> receipt_output r = out \<and>
    load_receipt (tw_store w') (in_effect_id i) = Inr (Some r) \<and>
    tw_calls w' = tw_calls w @ [call_of i]"
proof -
  have ok: "effects_ok H (tw_store w)"
    using attempts_facts [OF assms(1), of registry runner o0] by (simp add: assms(3))
  have id: "in_effect_id i \<noteq> []"
    using assms(2) by (auto simp: wf_intent_def intent_post_init_def result_simps)
  have l: "loads (render (JObj out)) = Some (JObj out)" by (rule loads_render [OF assms(7)])
  let ?r = "\<lparr>rc_effect_id = in_effect_id i, rc_outcome = TOOL_SUCCEEDED_OUTCOME,
    rc_output_json = render (JObj out)\<rparr>"
  have rec: "receipt_for i (Returned out) = Inr ?r"
    using assms(7) l id
    by (simp add: receipt_for_def build_receipt_def canonical_json_canon receipt_post_init_def
        canonical_object_def)
  have out: "receipt_output ?r = out" by (simp add: receipt_output_def decoded_def l)
  have run: "\<exists>w'. invoke_and_record (sqlite_effects H) runner no_crash i v = (Inr ?r, w') \<and>
      load_receipt (tw_store w') (in_effect_id i) = Inr (Some ?r) \<and> tw_calls w' = tw_calls v @ [call_of i]"
    if v: "effects_ok H (tw_store v)" "select_intent (tw_store v) (in_effect_id i) = Some i"
      "receipt_at (tw_store v) (in_effect_id i) = None" "tw_outside v = tw_outside w" for v
  proof -
    have "wf_receipt ?r" using receipt_for_wf [OF rec] by simp
    with sqlite.save_receipt_new [OF v(1) this] v obtain d where
      d: "save_receipt (tw_store v) ?r = Inr d" "effects_ok H d"
        "receipt_at d = (receipt_at (tw_store v))(in_effect_id i \<mapsto> ?r)"
      by (auto simp: sqlite_effects_def)
    have "load_receipt d (in_effect_id i) = Inr (Some ?r)"
      using sqlite.load_receipt [OF d(2)] d(3) by (simp add: sqlite_effects_def)
    with d(1) show ?thesis
      by (simp add: invoke_and_record_def bindA_def invokeA_def v(4) assms(6) idempotency_key_def rec
          reach_checkpoint_def no_crash_def storeA_def sqlite_effects_def)
  qed
  have li: "load_intent H (tw_store w) k = Inr (select_intent (tw_store w) k)" for k
    using sqlite.load_intent [OF ok] by (simp add: sqlite_effects_def)
  have lr: "load_receipt (tw_store w) k = Inr (receipt_at (tw_store w) k)" for k
    using sqlite.load_receipt [OF ok] by (simp add: sqlite_effects_def)
  from assms(5) show ?thesis
  proof
    assume "load_intent H (tw_store w) (in_effect_id i) = Inr None"
    then have none: "select_intent (tw_store w) (in_effect_id i) = None" by (simp add: li)
    then have rn: "receipt_at (tw_store w) (in_effect_id i) = None"
      using sqlite.receipt_key [OF ok] by (cases "receipt_at (tw_store w) (in_effect_id i)") auto
    obtain d where d: "effects_ok H d" "select_intent d = (select_intent (tw_store w))(in_effect_id i \<mapsto> i)"
        "receipt_at d = receipt_at (tw_store w)"
        "execute (sqlite_effects H) registry runner no_crash i w =
          invoke_and_record (sqlite_effects H) runner no_crash i (w\<lparr>tw_store := d\<rparr>)"
      using sqlite.execute_new [OF assms(4) ok assms(2) none, where injector = no_crash and runner = runner]
      by (auto simp: no_crash_def)
    with run [of "w\<lparr>tw_store := d\<rparr>"] rn out show ?thesis by auto
  next
    assume "load_intent H (tw_store w) (in_effect_id i) = Inr (Some i) \<and>
       load_receipt (tw_store w) (in_effect_id i) = Inr None \<and> td_retry_is_idempotent def"
    then have s: "select_intent (tw_store w) (in_effect_id i) = Some i"
        "receipt_at (tw_store w) (in_effect_id i) = None" "td_retry_is_idempotent def"
      by (simp_all add: li lr)
    from sqlite.execute_pending [OF assms(4) ok assms(2) s(1,2), of runner no_crash] run [OF ok s(1,2)] s(3) out
    show ?thesis by auto
  qed
qed

theorem execution_completes_witness:
  "\<exists>r w'. execute (sqlite_effects id) sample_registry sample_runner no_crash (sample_intent ''put'')
      (crashed_world ''put'') = (Inr r, w') \<and> rc_outcome r = TOOL_SUCCEEDED_OUTCOME \<and>
    length (tw_calls w') = 2"
proof -
  let ?w = "crashed_world ''put''" and ?i = "sample_intent ''put''"
  have as: "\<forall>(j, _) \<in> set [(?i, crash_at AFTER_TOOL_INVOKED)]. wf_intent id j" by simp
  have wf: "wf_intent id ?i" by simp
  have res: "resolve sample_registry (in_tool_name ?i) =
     Inr \<lparr>td_tool_name = ''put'', td_retry_is_idempotent = True, td_path_argument_names = []\<rparr>"
    by (simp add: sample_tool)
  have pend: "load_intent id (tw_store ?w) (in_effect_id ?i) = Inr None \<or>
      (load_intent id (tw_store ?w) (in_effect_id ?i) = Inr (Some ?i) \<and>
       load_receipt (tw_store ?w) (in_effect_id ?i) = Inr None \<and> True)"
    by (simp add: crashed_world_eq load_intent_def select_intent_def load_receipt_def
       select_receipt_def empty_effects_def)
  have run: "sample_runner (in_tool_name ?i) (intent_arguments ?i) (in_effect_id ?i) (tw_outside ?w) =
      (Returned [], ())"
    by (simp add: sample_runner_def)
  have c: "canon (JObj [])" by (simp add: canon_obj)
  show ?thesis
    using execution_completes [OF as wf crashed_world_def res _ run c] pend
    by (auto simp: crashed_world_eq)
qed

text \<open>The recovery inspection tells what an execution would do with a stored intent: completed means
  it returns the stored receipt, unknown means it refuses, safe retry means it invokes the tool
  again; without an intent the inspection raises.\<close>

theorem recovery_inspection_predicts:
  assumes "effects_ok H (tw_store w)" and "wf_intent H i"
    and "load_intent H (tw_store w) (in_effect_id i) = Inr (Some i)"
    and "resolve registry (in_tool_name i) = Inr def"
  shows "case inspect_recovery (sqlite_effects H) (tw_store w) (in_effect_id i) (td_retry_is_idempotent def) of
      Inl e \<Rightarrow> False
    | Inr RECOVERY_COMPLETED \<Rightarrow> (\<exists>r. load_receipt (tw_store w) (in_effect_id i) = Inr (Some r) \<and>
        execute (sqlite_effects H) registry runner injector i w = (Inr r, w))
    | Inr UNKNOWN \<Rightarrow> execute (sqlite_effects H) registry runner injector i w = (Inl UnsafeToolRetryError, w)
    | Inr SAFE_RETRY \<Rightarrow> execute (sqlite_effects H) registry runner injector i w =
        invoke_and_record (sqlite_effects H) runner injector i w"
proof -
  have li: "st_load_intent (sqlite_effects H) (tw_store w) k = Inr (select_intent (tw_store w) k)" for k
    by (rule sqlite.load_intent [OF assms(1)])
  have lr: "st_load_receipt (sqlite_effects H) (tw_store w) k = Inr (receipt_at (tw_store w) k)" for k
    by (rule sqlite.load_receipt [OF assms(1)])
  have s: "select_intent (tw_store w) (in_effect_id i) = Some i"
    using assms(3) li by (simp add: sqlite_effects_def)
  show ?thesis
  proof (cases "receipt_at (tw_store w) (in_effect_id i)")
    case None
    with sqlite.execute_pending [OF assms(4,1,2) s None, of runner injector] show ?thesis
      by (simp add: inspect_recovery_def li lr s decide_recovery_def)
  next
    case (Some r)
    then have "rc_effect_id r = in_effect_id i" using sqlite.receipt_key [OF assms(1)] by blast
    moreover have "load_receipt (tw_store w) (in_effect_id i) = Inr (Some r)"
      using lr [of "in_effect_id i"] Some by (simp add: sqlite_effects_def)
    ultimately show ?thesis
      using Some sqlite.execute_done [OF assms(4,1,2) s Some, of runner injector]
      by (simp add: inspect_recovery_def li lr s decide_recovery_def)
  qed
qed

theorem recovery_inspection_predicts_witness:
  "inspect_recovery (sqlite_effects id) (tw_store (crashed_world ''pay''))
     (in_effect_id (sample_intent ''pay'')) False = Inr UNKNOWN \<and>
   execute (sqlite_effects id) sample_registry sample_runner no_crash (sample_intent ''pay'')
     (crashed_world ''pay'') = (Inl UnsafeToolRetryError, crashed_world ''pay'')"
proof -
  let ?w = "crashed_world ''pay''" and ?i = "sample_intent ''pay''"
  have ok: "effects_ok id (tw_store ?w)" by (simp add: crashed_world_eq effects_ok_def empty_effects_def)
  have li: "load_intent id (tw_store ?w) (in_effect_id ?i) = Inr (Some ?i)"
    by (simp add: crashed_world_eq load_intent_def select_intent_def)
  have u: "inspect_recovery (sqlite_effects id) (tw_store ?w) (in_effect_id ?i) False = Inr UNKNOWN"
    by (simp add: crashed_world_eq inspect_recovery_def sqlite_effects_def load_intent_def
        select_intent_def load_receipt_def select_receipt_def empty_effects_def decide_recovery_def)
  then show ?thesis
    using recovery_inspection_predicts [OF ok _ li resolve_sample_pay, of sample_runner no_crash] by simp
qed

text \<open>The effect identity is the logical call: two constructed intents with the same effect id have
  the same run and tool call, unless their identity texts collide under the hash.\<close>

theorem effect_identity_unique:
  assumes "wf_intent H i" and "wf_intent H j" and "in_effect_id i = in_effect_id j"
  shows "(in_run_id i = in_run_id j \<and> in_tool_call_id i = in_tool_call_id j) \<or>
    (effect_identity (in_run_id i) (in_tool_call_id i) \<noteq> effect_identity (in_run_id j) (in_tool_call_id j) \<and>
     H (effect_identity (in_run_id i) (in_tool_call_id i)) =
       H (effect_identity (in_run_id j) (in_tool_call_id j)))"
  using assms wf_intent_effect_id by auto

theorem effect_identity_unique_witness:
  "in_run_id (sample_intent ''pay'') = in_run_id (sample_intent ''put'')"
  using effect_identity_unique [of id "sample_intent ''pay''" "sample_intent ''put''"]
  by (simp add: sample_intent_def wf_sample_intent [unfolded sample_intent_def])

text \<open>The SQLite store keeps facts: a saved intent is loaded back as it was, redelivering it changes
  nothing, a different intent under its id is refused, and every other fact is untouched.\<close>

theorem save_intent_keeps_facts:
  assumes "effects_ok H db" and "wf_intent H i" and "save_intent H db i = Inr db'"
  shows "effects_ok H db' \<and> load_intent H db' (in_effect_id i) = Inr (Some i) \<and>
    save_intent H db' i = Inr db' \<and>
    (\<forall>j. wf_intent H j \<and> in_effect_id j = in_effect_id i \<and> j \<noteq> i \<longrightarrow>
       save_intent H db' j = Inl DuplicateToolEffectConflictError) \<and>
    (\<forall>k. k \<noteq> in_effect_id i \<longrightarrow> load_intent H db' k = load_intent H db k) \<and>
    (\<forall>k. load_receipt db' k = load_receipt db k)"
proof -
  have "effects_ok H db' \<and> select_intent db' = (select_intent db)(in_effect_id i \<mapsto> i) \<and>
      receipt_at db' = receipt_at db"
  proof (cases "select_intent db (in_effect_id i)")
    case None
    from sqlite.save_intent_new [OF assms(1,2) None] assms(3) show ?thesis
      by (auto simp: sqlite_effects_def)
  next
    case (Some j)
    from sqlite.save_intent_old [OF assms(1,2) Some] assms(1,3) Some show ?thesis
      by (auto simp: sqlite_effects_def split: if_splits)
  qed
  then have db': "effects_ok H db'" "select_intent db' = (select_intent db)(in_effect_id i \<mapsto> i)"
    "receipt_at db' = receipt_at db" by simp_all
  have li: "load_intent H db' k = Inr (select_intent db' k)" "load_intent H db k = Inr (select_intent db k)" for k
    using sqlite.load_intent [OF db'(1)] sqlite.load_intent [OF assms(1)] by (simp_all add: sqlite_effects_def)
  have lr: "load_receipt db' k = Inr (receipt_at db' k)" "load_receipt db k = Inr (receipt_at db k)" for k
    using sqlite.load_receipt [OF db'(1)] sqlite.load_receipt [OF assms(1)] by (simp_all add: sqlite_effects_def)
  have again: "save_intent H db' j =
      (if j = i then Inr db' else Inl DuplicateToolEffectConflictError)"
    if "wf_intent H j" "in_effect_id j = in_effect_id i" for j
    using sqlite.save_intent_old [OF db'(1) that(1)] that(2) db'(2) by (auto simp: sqlite_effects_def)
  show ?thesis using db' assms(2) again by (simp add: li lr)
qed

theorem save_intent_keeps_facts_witness:
  "\<exists>db. save_intent id empty_effects (sample_intent ''pay'') = Inr db \<and>
     load_intent id db (in_effect_id (sample_intent ''pay'')) = Inr (Some (sample_intent ''pay''))"
proof -
  have ok: "effects_ok id empty_effects" by (simp add: effects_ok_def empty_effects_def)
  obtain db where db: "save_intent id empty_effects (sample_intent ''pay'') = Inr db"
    by (simp add: save_intent_def select_intent_def empty_effects_def insert_intent_def)
  with save_intent_keeps_facts [OF ok _ db] show ?thesis by simp
qed

end
