(* ===== verification/Snapshots.thy ===== *)
theory Snapshots
  imports Json RunStates Machines
begin

section \<open>Snapshots of run states (persistence/snapshots.py)\<close>

text \<open>
  The canonical JSON text of a run state and its decoder. The record is typed, the decoder's
  input is not: a JSON value of another type in a field the code does not check gives
  \<open>IllTypedValue\<close>, which stands for a state outside the model and not for an exception.
\<close>

definition SNAPSHOT_SCHEMA_VERSION :: int where
  "SNAPSHOT_SCHEMA_VERSION = 2"

definition json_text :: "string option \<Rightarrow> json" where
  "json_text v = (case v of None \<Rightarrow> JNull | Some t \<Rightarrow> JStr t)"

definition json_int :: "int option \<Rightarrow> json" where
  "json_int v = (case v of None \<Rightarrow> JNull | Some i \<Rightarrow> JInt i)"

definition state_json :: "RunState \<Rightarrow> payload" where
  "state_json s =
     [(''active_gate_attempts'', JInt (active_gate_attempts s)),
      (''active_gate_max_attempts'', json_int (active_gate_max_attempts s)),
      (''active_gate_mode'', json_text (active_gate_mode s)),
      (''active_gate_proposal_digest'', json_text (active_gate_proposal_digest s)),
      (''active_gate_revision'', json_int (active_gate_revision s)),
      (''active_model_action_event_id'', json_text (active_model_action_event_id s)),
      (''active_model_invocation_id'', json_text (active_model_invocation_id s)),
      (''active_step_id'', json_text (active_step_id s)),
      (''active_tool_call_id'', json_text (active_tool_call_id s)),
      (''applied_event_fingerprints'',
         JArr (map (\<lambda>(i, f). JArr [JStr i, JStr f]) (applied_event_fingerprints s))),
      (''failure_reason'', json_text (failure_reason s)),
      (''max_steps'', json_int (max_steps s)),
      (''next_sequence'', JInt (next_sequence s)),
      (''run_id'', JStr (state_run_id s)),
      (''status'', JStr (status_value (status s))),
      (''turn_index'', JInt (turn_index s))]"

definition encode_state :: "RunState \<Rightarrow> string" where
  "encode_state s = render (norm_json (JObj (state_json s)))"

definition expected_fields :: "string list" where
  "expected_fields =
     [''active_gate_attempts'', ''active_gate_max_attempts'', ''active_gate_mode'',
      ''active_gate_proposal_digest'', ''active_gate_revision'', ''active_model_action_event_id'',
      ''active_model_invocation_id'', ''active_step_id'', ''active_tool_call_id'',
      ''applied_event_fingerprints'', ''failure_reason'', ''max_steps'', ''next_sequence'',
      ''run_id'', ''status'', ''turn_index'']"

fun text_field :: "json \<Rightarrow> string result" where
  "text_field (JStr t) = Inr t"
| "text_field _ = Inl IllTypedValue"

fun int_field :: "json \<Rightarrow> int result" where
  "int_field (JInt i) = Inr i"
| "int_field _ = Inl IllTypedValue"

definition opt_field :: "(json \<Rightarrow> 'a result) \<Rightarrow> json \<Rightarrow> 'a option result" where
  "opt_field f j = (if j = JNull then Inr None else map_sum id Some (f j))"

fun fingerprint_item :: "json \<Rightarrow> (string \<times> string) result" where
  "fingerprint_item (JArr [JStr i, JStr f]) = Inr (i, f)"
| "fingerprint_item _ = Inl PyValueError"

definition fingerprints_field :: "json \<Rightarrow> (string \<times> string) list result" where
  "fingerprints_field j =
     (case j of JArr items \<Rightarrow> mapR fingerprint_item items | _ \<Rightarrow> Inl PyValueError)"

text \<open>\<open>RunStatus(value)\<close> raises \<open>ValueError\<close> for a text that is no status, and for any other value.\<close>

definition status_field :: "json \<Rightarrow> RunStatus result" where
  "status_field j =
     (case j of
        JStr t \<Rightarrow> (case parse_status t of Some s \<Rightarrow> Inr s | None \<Rightarrow> Inl PyValueError)
      | _ \<Rightarrow> Inl PyValueError)"

text \<open>\<open>max_steps\<close> is checked by the constructor of the state.\<close>

definition max_steps_field :: "json \<Rightarrow> int option result" where
  "max_steps_field j =
     (case j of JNull \<Rightarrow> Inr None | JInt i \<Rightarrow> Inr (Some i) | _ \<Rightarrow> Inl EventValidationError)"

definition decode_state :: "string \<Rightarrow> RunState result" where
  "decode_state t =
     (case loads t of
        Some (JObj d) \<Rightarrow>
          ensure (map fst d = expected_fields) PyValueError
          (bindR (fingerprints_field (get d ''applied_event_fingerprints'')) (\<lambda>fingerprints.
           bindR (status_field (get d ''status'')) (\<lambda>st.
           bindR (text_field (get d ''run_id'')) (\<lambda>run_id.
           bindR (int_field (get d ''next_sequence'')) (\<lambda>next.
           bindR (int_field (get d ''turn_index'')) (\<lambda>turn.
           bindR (max_steps_field (get d ''max_steps'')) (\<lambda>limit.
           bindR (opt_field text_field (get d ''active_step_id'')) (\<lambda>step.
           bindR (opt_field text_field (get d ''active_model_invocation_id'')) (\<lambda>invocation.
           bindR (opt_field text_field (get d ''active_model_action_event_id'')) (\<lambda>action.
           bindR (opt_field text_field (get d ''active_tool_call_id'')) (\<lambda>call.
           bindR (opt_field text_field (get d ''active_gate_proposal_digest'')) (\<lambda>digest.
           bindR (opt_field int_field (get d ''active_gate_revision'')) (\<lambda>revision.
           bindR (opt_field text_field (get d ''active_gate_mode'')) (\<lambda>mode.
           bindR (int_field (get d ''active_gate_attempts'')) (\<lambda>attempts.
           bindR (opt_field int_field (get d ''active_gate_max_attempts'')) (\<lambda>max_attempts.
           bindR (opt_field text_field (get d ''failure_reason'')) (\<lambda>failure.
           state_post_init
             \<lparr>state_run_id = run_id, status = st, next_sequence = next, turn_index = turn,
              max_steps = limit, active_step_id = step, active_model_invocation_id = invocation,
              active_model_action_event_id = action, active_tool_call_id = call,
              active_gate_proposal_digest = digest, active_gate_revision = revision,
              active_gate_mode = mode, active_gate_attempts = attempts,
              active_gate_max_attempts = max_attempts, failure_reason = failure,
              applied_event_fingerprints = fingerprints\<rparr>))))))))))))))))
           )
      | _ \<Rightarrow> Inl PyValueError)"

definition digest_state :: "hash \<Rightarrow> string \<Rightarrow> string" where
  "digest_state H t = H t"

subsection \<open>Reading back\<close>

lemma canon_json_text [simp]: "canon (json_text v)" by (cases v) (simp_all add: json_text_def)

lemma canon_json_int [simp]: "canon (json_int v)" by (cases v) (simp_all add: json_int_def)

lemma opt_text [simp]: "opt_field text_field (json_text v) = Inr v"
  by (cases v) (simp_all add: opt_field_def json_text_def)

lemma opt_int [simp]: "opt_field int_field (json_int v) = Inr v"
  by (cases v) (simp_all add: opt_field_def json_int_def)

lemma max_steps_field_int [simp]: "max_steps_field (json_int v) = Inr v"
  by (cases v) (simp_all add: max_steps_field_def json_int_def)

lemma fingerprints_field_json [simp]:
  "fingerprints_field (JArr (map (\<lambda>(i, f). JArr [JStr i, JStr f]) fs)) = Inr fs"
  by (induction fs) (auto simp: fingerprints_field_def)

lemma canon_state_json: "canon (JObj (state_json s))"
  by (simp add: canon_obj state_json_def case_prod_beta)

lemma decode_encode: "valid_state s \<Longrightarrow> decode_state (encode_state s) = Inr s"
proof -
  assume v: "valid_state s"
  have l: "loads (encode_state s) = Some (JObj (state_json s))"
    using canon_state_json by (simp add: encode_state_def canon_norm loads_render)
  have keys: "map fst (state_json s) = expected_fields"
    by (simp add: state_json_def expected_fields_def)
  have "status_field (JStr (status_value (status s))) = Inr (status s)"
    by (simp add: status_field_def)
  then show ?thesis
    using state_post_init_valid [OF v] by (simp add: decode_state_def l keys)
      (cases s, simp add: state_json_def get_def get_default_def)
qed

end
