(* ===== verification/EventStore.thy ===== *)
theory EventStore
  imports Snapshots Histories
begin

section \<open>The event store (persistence/sqlite_store.py)\<close>

text \<open>
  The append-only table of events with its chain of digests, and the table of snapshots. A row
  holds the texts SQLite stores; reading a row goes through the constructors. A rolled back
  transaction leaves the tables as they were.
\<close>

subsection \<open>Tables\<close>

record event_row =
  er_event_id :: string
  er_run_id :: string
  er_sequence :: int
  er_event_type :: string
  er_occurred_at :: string
  er_payload_json :: string
  er_fingerprint :: string
  er_chain_digest :: string

record snapshot_row =
  sr_run_id :: string
  sr_schema_version :: int
  sr_next_sequence :: int
  sr_prefix_chain_digest :: string
  sr_state_json :: string
  sr_state_digest :: string

record EventDB =
  execution_events :: "event_row list"
  run_snapshots :: "snapshot_row list"

definition empty_events :: EventDB where
  "empty_events = \<lparr>execution_events = [], run_snapshots = []\<rparr>"

definition CHAIN_SEED :: string where
  "CHAIN_SEED = replicate 64 (CHR ''0'')"

definition next_chain_digest :: "hash \<Rightarrow> string \<Rightarrow> string \<Rightarrow> string" where
  "next_chain_digest H previous event_fingerprint = H (previous @ '':'' @ event_fingerprint)"

text \<open>\<open>SELECT ... WHERE run_id = ? ORDER BY sequence ASC\<close>\<close>

definition run_rows :: "EventDB \<Rightarrow> string \<Rightarrow> event_row list" where
  "run_rows db run_id = sort_key er_sequence (filter (\<lambda>r. er_run_id r = run_id) (execution_events db))"

subsection \<open>append\<close>

definition row_of_event :: "hash \<Rightarrow> ExecutionEvent \<Rightarrow> string \<Rightarrow> event_row" where
  "row_of_event H e chain_digest =
     \<lparr>er_event_id = ev_event_id e, er_run_id = ev_run_id e, er_sequence = ev_sequence e,
      er_event_type = type_value (ev_event_type e), er_occurred_at = isoformat (ev_occurred_at e),
      er_payload_json = ev_payload_json e, er_fingerprint = fingerprint H e,
      er_chain_digest = chain_digest\<rparr>"

text \<open>The constraints of the table, checked by the insert.\<close>

definition insert_event :: "EventDB \<Rightarrow> event_row \<Rightarrow> EventDB result" where
  "insert_event db row =
     ensure (0 \<le> er_sequence row \<and>
       (\<forall>r \<in> set (execution_events db). er_event_id r \<noteq> er_event_id row \<and>
          (er_run_id r \<noteq> er_run_id row \<or> er_sequence r \<noteq> er_sequence row))) IntegrityError
     (Inr (db\<lparr>execution_events := execution_events db @ [row]\<rparr>))"

definition append :: "hash \<Rightarrow> EventDB \<Rightarrow> ExecutionEvent \<Rightarrow> EventDB result" where
  "append H db e =
     (case find (\<lambda>r. er_event_id r = ev_event_id e) (execution_events db) of
        Some existing \<Rightarrow>
          ensure (er_fingerprint existing = fingerprint H e) DuplicateEventConflictError (Inr db)
      | None \<Rightarrow>
          let rows = run_rows db (ev_run_id e);
              expected_sequence = (if rows = [] then 0 else er_sequence (last rows) + 1);
              previous_digest = (if rows = [] then CHAIN_SEED else er_chain_digest (last rows))
          in ensure (ev_sequence e = expected_sequence) SequenceError
             (insert_event db
               (row_of_event H e (next_chain_digest H previous_digest (fingerprint H e)))))"

subsection \<open>load, load_tail, count\<close>

definition event_from_row :: "event_row \<Rightarrow> ExecutionEvent result" where
  "event_from_row r =
     (case parse_type (er_event_type r) of
        None \<Rightarrow> Inl PyValueError
      | Some k \<Rightarrow>
          (case fromisoformat (er_occurred_at r) of
             None \<Rightarrow> Inl PyValueError
           | Some t \<Rightarrow> event_post_init
               \<lparr>ev_event_id = er_event_id r, ev_run_id = er_run_id r, ev_sequence = er_sequence r,
                ev_event_type = k, ev_occurred_at = t, ev_payload_json = er_payload_json r\<rparr>))"

definition load_tail :: "EventDB \<Rightarrow> string \<Rightarrow> int \<Rightarrow> ExecutionEvent list result" where
  "load_tail db run_id start_sequence =
     ensure (0 \<le> start_sequence) PyValueError
     (mapR event_from_row (filter (\<lambda>r. start_sequence \<le> er_sequence r) (run_rows db run_id)))"

definition load_events :: "EventDB \<Rightarrow> string \<Rightarrow> ExecutionEvent list result" where
  "load_events db run_id = load_tail db run_id 0"

definition event_count :: "EventDB \<Rightarrow> string \<Rightarrow> nat" where
  "event_count db run_id = length (filter (\<lambda>r. er_run_id r = run_id) (execution_events db))"

subsection \<open>Snapshots\<close>

definition prefix_chain_digest :: "EventDB \<Rightarrow> string \<Rightarrow> int \<Rightarrow> string option" where
  "prefix_chain_digest db run_id next =
     (if next < 0 then None
      else if next = 0 then Some CHAIN_SEED
      else map_option er_chain_digest
        (find (\<lambda>r. er_run_id r = run_id \<and> er_sequence r = next - 1) (execution_events db)))"

definition save_snapshot :: "hash \<Rightarrow> EventDB \<Rightarrow> RunState \<Rightarrow> EventDB result" where
  "save_snapshot H db s =
     (case prefix_chain_digest db (state_run_id s) (next_sequence s) of
        None \<Rightarrow> Inl PyValueError
      | Some prefix_digest \<Rightarrow>
          ensure (int (length (applied_event_fingerprints s)) = next_sequence s) PyValueError
          (bindR (load_tail db (state_run_id s) 0) (\<lambda>events.
           bindR (replay H (state_run_id s) (take (nat (next_sequence s)) events)) (\<lambda>prefix_state.
           ensure (prefix_state = s) PyValueError
           (let text = encode_state s in
            Inr (db\<lparr>run_snapshots :=
              filter (\<lambda>r. sr_run_id r \<noteq> state_run_id s) (run_snapshots db) @
              [\<lparr>sr_run_id = state_run_id s, sr_schema_version = SNAPSHOT_SCHEMA_VERSION,
                sr_next_sequence = next_sequence s, sr_prefix_chain_digest = prefix_digest,
                sr_state_json = text, sr_state_digest = digest_state H text\<rparr>]\<rparr>))))))"

definition load_snapshot :: "hash \<Rightarrow> EventDB \<Rightarrow> string \<Rightarrow> RunState option result" where
  "load_snapshot H db run_id =
     (case find (\<lambda>r. sr_run_id r = run_id) (run_snapshots db) of
        None \<Rightarrow> Inr None
      | Some row \<Rightarrow>
          if sr_schema_version row \<noteq> SNAPSHOT_SCHEMA_VERSION then Inr None
          else if digest_state H (sr_state_json row) \<noteq> sr_state_digest row then Inr None
          else (case decode_state (sr_state_json row) of
              Inl IllTypedValue \<Rightarrow> Inl IllTypedValue
            | Inl _ \<Rightarrow> Inr None
            | Inr s \<Rightarrow>
                if state_run_id s \<noteq> run_id \<or> next_sequence s \<noteq> sr_next_sequence row then Inr None
                else if int (length (applied_event_fingerprints s)) \<noteq> next_sequence s then Inr None
                else if prefix_chain_digest db run_id (next_sequence s) \<noteq>
                  Some (sr_prefix_chain_digest row) then Inr None
                else Inr (Some s)))"

subsection \<open>The tables of a run\<close>

text \<open>The rows of a history: what appending its events in order leaves.\<close>

fun chain_rows :: "hash \<Rightarrow> string \<Rightarrow> ExecutionEvent list \<Rightarrow> event_row list" where
  "chain_rows H d [] = []"
| "chain_rows H d (e # es) =
     (let c = next_chain_digest H d (fingerprint H e) in row_of_event H e c # chain_rows H c es)"

fun chain :: "hash \<Rightarrow> string \<Rightarrow> string list \<Rightarrow> string" where
  "chain H d [] = d"
| "chain H d (f # fs) = chain H (next_chain_digest H d f) fs"

definition stored_history :: "hash \<Rightarrow> EventDB \<Rightarrow> string \<Rightarrow> ExecutionEvent list \<Rightarrow> bool" where
  "stored_history H db run_id es \<longleftrightarrow>
     filter (\<lambda>r. er_run_id r = run_id) (execution_events db) = chain_rows H CHAIN_SEED es \<and>
     map ev_sequence es = map int [0..<length es] \<and>
     (\<forall>e \<in> set es. wf_event e \<and> ev_run_id e = run_id)"

lemma chain_rows_append:
  "chain_rows H d (es @ fs) =
     chain_rows H d es @ chain_rows H (chain H d (map (fingerprint H) es)) fs"
  by (induction es arbitrary: d) (simp_all add: Let_def)

lemma chain_append: "chain H d (fs @ gs) = chain H (chain H d fs) gs"
  by (induction fs arbitrary: d) simp_all

lemma chain_rows_last:
  "es \<noteq> [] \<Longrightarrow> er_chain_digest (last (chain_rows H d es)) = chain H d (map (fingerprint H) es)"
proof (induction es arbitrary: d)
  case (Cons e es)
  then show ?case by (cases es) (simp_all add: Let_def row_of_event_def)
qed simp

lemma chain_rows_map:
  "map er_event_id (chain_rows H d es) = map ev_event_id es"
  "map er_sequence (chain_rows H d es) = map ev_sequence es"
  "map er_run_id (chain_rows H d es) = map ev_run_id es"
  "map er_fingerprint (chain_rows H d es) = map (fingerprint H) es"
  "length (chain_rows H d es) = length es"
  by (induction es arbitrary: d) (simp_all add: Let_def row_of_event_def)

lemma event_from_row_of_event: "wf_event e \<Longrightarrow> event_from_row (row_of_event H e c) = Inr e"
  by (cases e) (simp add: event_from_row_def row_of_event_def wf_event_def fromisoformat_isoformat)

lemma load_chain_rows:
  "\<forall>e \<in> set es. wf_event e \<Longrightarrow> mapR event_from_row (chain_rows H d es) = Inr es"
  by (induction es arbitrary: d) (simp_all add: Let_def event_from_row_of_event)

lemma sequences_sorted:
  assumes "map ev_sequence es = map int [0..<length es]"
  shows "sorted (map er_sequence (chain_rows H d es))"
  by (simp add: chain_rows_map assms sorted_iff_nth_mono)

lemma run_rows_history:
  "stored_history H db run_id es \<Longrightarrow> run_rows db run_id = chain_rows H CHAIN_SEED es"
  by (simp add: run_rows_def stored_history_def sequences_sorted sort_key_id_if_sorted)

lemma chain_rows_nth:
  "j < length es \<Longrightarrow> er_chain_digest (chain_rows H d es ! j) = chain H d (map (fingerprint H) (take (Suc j) es))"
proof (induction es arbitrary: d j)
  case (Cons e es)
  then show ?case by (cases j) (simp_all add: Let_def row_of_event_def)
qed simp

lemma upt_from: "[k..<k + Suc n] = k # [Suc k..<Suc k + n]"
  by (simp add: upt_conv_Cons del: upt_Suc)

lemma filter_from_index:
  "map f xs = map int [k..<k + length xs] \<Longrightarrow> k \<le> n \<Longrightarrow> filter (\<lambda>x. int n \<le> f x) xs = drop (n - k) xs"
proof (induction xs arbitrary: k)
  case (Cons x xs)
  from Cons.prems(1) have x: "f x = int k" and xs: "map f xs = map int [Suc k..<Suc k + length xs]"
    by (simp_all only: length_Cons upt_from list.map list.inject)
  show ?case
  proof (cases "n = k")
    case True
    have "filter (\<lambda>x. int k \<le> f x) xs = xs"
    proof (rule filter_True, rule ballI)
      fix y assume "y \<in> set xs"
      then have "f y \<in> set (map f xs)" by simp
      then show "int k \<le> f y" unfolding xs by auto
    qed
    with True x show ?thesis by simp
  next
    case False
    with Cons.IH [OF xs] Cons.prems(2) x show ?thesis by (simp add: drop_Cons' Suc_diff_Suc)
  qed
qed simp

lemma find_index:
  "map f xs = map int [k..<k + length xs] \<Longrightarrow> k \<le> n \<Longrightarrow>
     find (\<lambda>x. f x = int n) xs = (if n < k + length xs then Some (xs ! (n - k)) else None)"
proof (induction xs arbitrary: k)
  case (Cons x xs)
  from Cons.prems(1) have x: "f x = int k" and xs: "map f xs = map int [Suc k..<Suc k + length xs]"
    by (simp_all only: length_Cons upt_from list.map list.inject)
  from Cons.IH [OF xs] Cons.prems(2) x show ?case by (auto simp: nth_Cons')
qed simp

lemma chain_rows_drop:
  "drop n (chain_rows H d es) = chain_rows H (chain H d (map (fingerprint H) (take n es))) (drop n es)"
  using chain_rows_append [of H d "take n es" "drop n es"]
  by (simp add: drop_append chain_rows_map(5))
     (cases "n \<le> length es", simp_all add: chain_rows_map(5))

lemma history_rows:
  assumes "stored_history H db run_id es"
  shows "map er_sequence (chain_rows H CHAIN_SEED es) = map int [0..<0 + length (chain_rows H CHAIN_SEED es)]"
  using assms by (simp add: stored_history_def chain_rows_map)

lemma load_tail_history:
  assumes "stored_history H db run_id es"
  shows "load_tail db run_id (int n) = Inr (drop n es)"
proof -
  have "filter (\<lambda>r. int n \<le> er_sequence r) (run_rows db run_id) =
      chain_rows H (chain H CHAIN_SEED (map (fingerprint H) (take n es))) (drop n es)"
    using filter_from_index [OF history_rows [OF assms], of n]
    by (simp add: run_rows_history [OF assms] chain_rows_drop)
  moreover have "\<forall>e \<in> set (drop n es). wf_event e"
    using assms by (auto simp: stored_history_def dest: in_set_dropD)
  ultimately show ?thesis by (simp add: load_tail_def load_chain_rows)
qed

lemma load_history: "stored_history H db run_id es \<Longrightarrow> load_events db run_id = Inr es"
  using load_tail_history [of H db run_id es 0] by (simp add: load_events_def)

lemma stored_history_unique:
  "stored_history H db run_id es \<Longrightarrow> stored_history H db run_id fs \<Longrightarrow> es = fs"
  by (metis load_history sum.inject(2))

lemma prefix_digest_history:
  assumes "stored_history H db run_id es"
  shows "prefix_chain_digest db run_id (int k) =
    (if k \<le> length es then Some (chain H CHAIN_SEED (map (fingerprint H) (take k es))) else None)"
proof (cases k)
  case (Suc j)
  have "find (\<lambda>r. er_run_id r = run_id \<and> er_sequence r = int j) (execution_events db) =
      (if j < length es then Some (chain_rows H CHAIN_SEED es ! j) else None)"
    using find_index [OF history_rows [OF assms], of j] assms
    by (simp add: find_filter stored_history_def chain_rows_map)
  then show ?thesis by (simp add: Suc prefix_chain_digest_def chain_rows_nth Suc_le_eq)
qed (simp add: prefix_chain_digest_def)

text \<open>The snapshot the store keeps for a run is the encoded state of a prefix of its history.\<close>

definition snapshot_row_of :: "hash \<Rightarrow> RunState \<Rightarrow> string \<Rightarrow> snapshot_row" where
  "snapshot_row_of H s prefix_digest =
     \<lparr>sr_run_id = state_run_id s, sr_schema_version = SNAPSHOT_SCHEMA_VERSION,
      sr_next_sequence = next_sequence s, sr_prefix_chain_digest = prefix_digest,
      sr_state_json = encode_state s, sr_state_digest = digest_state H (encode_state s)\<rparr>"

definition prefix_snapshot :: "hash \<Rightarrow> EventDB \<Rightarrow> snapshot_row \<Rightarrow> bool" where
  "prefix_snapshot H db r \<longleftrightarrow>
     (\<exists>es k s. stored_history H db (sr_run_id r) es \<and> k \<le> length es \<and>
        replay H (sr_run_id r) (take k es) = Inr s \<and>
        r = snapshot_row_of H s (chain H CHAIN_SEED (map (fingerprint H) (take k es))))"

definition events_ok :: "hash \<Rightarrow> EventDB \<Rightarrow> bool" where
  "events_ok H db \<longleftrightarrow>
     distinct (map er_event_id (execution_events db)) \<and>
     (\<forall>run_id. \<exists>es. stored_history H db run_id es) \<and>
     (\<forall>r \<in> set (run_snapshots db). prefix_snapshot H db r)"

lemma empty_events_ok [simp]: "events_ok H empty_events"
  unfolding events_ok_def empty_events_def stored_history_def
  by (intro conjI allI exI [of _ "[]"]) simp_all

lemma distinct_history_ids:
  assumes "events_ok H db" and "stored_history H db run_id es"
  shows "distinct (map ev_event_id es)"
proof -
  have "distinct (map er_event_id (filter (\<lambda>r. er_run_id r = run_id) (execution_events db)))"
    using assms(1) by (simp add: events_ok_def distinct_map_filter)
  then show ?thesis using assms(2) by (simp add: stored_history_def chain_rows_map)
qed

lemma append_new:
  assumes ok: "events_ok H db" and wf: "wf_event e"
    and new: "ev_event_id e \<notin> er_event_id ` set (execution_events db)"
    and es: "stored_history H db (ev_run_id e) es"
  shows "append H db e =
    (if ev_sequence e = int (length es)
     then Inr (db\<lparr>execution_events := execution_events db @
       [row_of_event H e (chain H CHAIN_SEED (map (fingerprint H) (es @ [e])))]\<rparr>)
     else Inl SequenceError)"
proof -
  have none: "find (\<lambda>r. er_event_id r = ev_event_id e) (execution_events db) = None"
    using new by (auto simp: find_None_iff image_iff)
  have empty: "chain_rows H CHAIN_SEED es = [] \<longleftrightarrow> es = []"
    by (metis chain_rows_map(5) length_0_conv)
  have last: "er_sequence (last (chain_rows H CHAIN_SEED es)) = int (length es) - 1" if "es \<noteq> []"
  proof -
    have "last (map er_sequence (chain_rows H CHAIN_SEED es)) = int (length es) - 1"
      using es that by (simp add: chain_rows_map stored_history_def last_map of_nat_diff Suc_le_eq)
    then show ?thesis using that empty by (simp add: last_map)
  qed
  have seq: "(if run_rows db (ev_run_id e) = [] then 0 else er_sequence (last (run_rows db (ev_run_id e))) + 1) =
      int (length es)"
    using last by (simp add: run_rows_history [OF es] empty)
  have dig: "(if run_rows db (ev_run_id e) = [] then CHAIN_SEED
        else er_chain_digest (last (run_rows db (ev_run_id e)))) =
      chain H CHAIN_SEED (map (fingerprint H) es)"
    by (simp add: run_rows_history [OF es] empty chain_rows_last)
  have free: "\<forall>r \<in> set (execution_events db). er_run_id r \<noteq> ev_run_id e \<or> er_sequence r \<noteq> int (length es)"
  proof (intro ballI)
    fix r assume r: "r \<in> set (execution_events db)"
    show "er_run_id r \<noteq> ev_run_id e \<or> er_sequence r \<noteq> int (length es)"
    proof (rule ccontr)
      assume "\<not> ?thesis"
      with r have "r \<in> set (filter (\<lambda>r. er_run_id r = ev_run_id e) (execution_events db))"
          "er_sequence r = int (length es)" by auto
      then have "r \<in> set (chain_rows H CHAIN_SEED es)" "er_sequence r = int (length es)"
        using es by (simp_all only: stored_history_def)
      then have "int (length es) \<in> set (map er_sequence (chain_rows H CHAIN_SEED es))" by force
      then have "int (length es) \<in> set (map int [0..<length es])"
        using es by (simp only: chain_rows_map stored_history_def)
      then show False by auto
    qed
  qed
  show ?thesis
    using new free
    by (simp add: append_def none Let_def seq dig insert_event_def ensure_def row_of_event_def
        chain_append image_iff) fastforce
qed


lemma stored_history_other:
  "er_run_id row \<noteq> run_id \<Longrightarrow>
     stored_history H (db\<lparr>execution_events := execution_events db @ [row]\<rparr>) run_id es =
     stored_history H db run_id es"
  by (simp add: stored_history_def)

lemma stored_history_extended:
  assumes "stored_history H db (ev_run_id e) es" and "wf_event e" and "ev_sequence e = int (length es)"
  shows "stored_history H (db\<lparr>execution_events := execution_events db @
     [row_of_event H e (chain H CHAIN_SEED (map (fingerprint H) (es @ [e])))]\<rparr>) (ev_run_id e) (es @ [e])"
  using assms
  by (simp add: stored_history_def chain_rows_append chain_append row_of_event_def Let_def)

lemma prefix_snapshot_extended:
  assumes "prefix_snapshot H db r" and "wf_event e" and "stored_history H db (ev_run_id e) es"
    and "ev_sequence e = int (length es)"
  shows "prefix_snapshot H (db\<lparr>execution_events := execution_events db @
     [row_of_event H e (chain H CHAIN_SEED (map (fingerprint H) (es @ [e])))]\<rparr>) r"
proof -
  from assms(1) obtain fs k s where fs: "stored_history H db (sr_run_id r) fs" "k \<le> length fs"
      "replay H (sr_run_id r) (take k fs) = Inr s"
      "r = snapshot_row_of H s (chain H CHAIN_SEED (map (fingerprint H) (take k fs)))"
    by (auto simp: prefix_snapshot_def)
  show ?thesis
  proof (cases "sr_run_id r = ev_run_id e")
    case True
    with fs(1) assms(3) have "fs = es" by (simp add: stored_history_unique)
    with fs stored_history_extended [OF assms(3,2,4)] True show ?thesis
      unfolding prefix_snapshot_def by (intro exI [of _ "es @ [e]"] exI [of _ k] exI [of _ s]) simp
  next
    case False
    then have "er_run_id (row_of_event H e c) \<noteq> sr_run_id r" for c by (simp add: row_of_event_def)
    with fs show ?thesis unfolding prefix_snapshot_def
      by (intro exI [of _ fs] exI [of _ k] exI [of _ s]) (simp add: stored_history_other)
  qed
qed

lemma append_new_ok:
  assumes ok: "events_ok H db" and wf: "wf_event e"
    and new: "ev_event_id e \<notin> er_event_id ` set (execution_events db)"
    and es: "stored_history H db (ev_run_id e) es" and seq: "ev_sequence e = int (length es)"
  shows "events_ok H (db\<lparr>execution_events := execution_events db @
     [row_of_event H e (chain H CHAIN_SEED (map (fingerprint H) (es @ [e])))]\<rparr>)"
    (is "events_ok H ?db")
  unfolding events_ok_def
proof (intro conjI allI ballI)
  show "distinct (map er_event_id (execution_events ?db))"
    using ok new by (auto simp: events_ok_def row_of_event_def)
  fix run_id
  from ok obtain fs where "stored_history H db run_id fs" by (auto simp: events_ok_def)
  then show "\<exists>fs. stored_history H ?db run_id fs"
    using stored_history_extended [OF es wf seq]
    by (cases "run_id = ev_run_id e") (auto simp: stored_history_other row_of_event_def)
next
  fix r assume "r \<in> set (run_snapshots ?db)"
  then show "prefix_snapshot H ?db r"
    using ok by (intro prefix_snapshot_extended [OF _ wf es seq]) (auto simp: events_ok_def)
qed

lemma chain_rows_member: "r \<in> set (chain_rows H d es) \<Longrightarrow> \<exists>e \<in> set es. \<exists>c. r = row_of_event H e c"
  by (induction es arbitrary: d) (auto simp: Let_def)

lemma stored_id_history:
  assumes "events_ok H db" and "r \<in> set (execution_events db)"
  obtains e es where "stored_history H db (er_run_id r) es" and "e \<in> set es"
    and "ev_event_id e = er_event_id r" and "er_fingerprint r = fingerprint H e"
    and "ev_run_id e = er_run_id r"
proof -
  from assms(1) obtain es where es: "stored_history H db (er_run_id r) es" by (auto simp: events_ok_def)
  have "r \<in> set (filter (\<lambda>q. er_run_id q = er_run_id r) (execution_events db))" using assms(2) by simp
  then have "r \<in> set (chain_rows H CHAIN_SEED es)" using es by (simp only: stored_history_def)
  then obtain e c where "e \<in> set es" "r = row_of_event H e c" using chain_rows_member by blast
  with es that show thesis by (simp add: row_of_event_def)
qed

subsection \<open>The interface of an event log\<close>

record 'd event_log =
  el_append :: "'d \<Rightarrow> ExecutionEvent \<Rightarrow> 'd result"
  el_load :: "'d \<Rightarrow> string \<Rightarrow> ExecutionEvent list result"
  el_load_tail :: "'d \<Rightarrow> string \<Rightarrow> int \<Rightarrow> ExecutionEvent list result"
  el_save_snapshot :: "'d \<Rightarrow> RunState \<Rightarrow> 'd result"
  el_load_snapshot :: "'d \<Rightarrow> string \<Rightarrow> RunState option result"

text \<open>
  The contract: a log per run, to which the next event can be appended; redelivery and conflict;
  snapshots that are the replay of a prefix of the log.
\<close>

locale run_log =
  fixes H :: hash
    and L :: "'d event_log"
    and ok :: "'d \<Rightarrow> bool"
    and log :: "'d \<Rightarrow> string \<Rightarrow> ExecutionEvent list"
  assumes load: "ok d \<Longrightarrow> el_load L d run = Inr (log d run)"
    and load_tail: "ok d \<Longrightarrow> el_load_tail L d run (int n) = Inr (drop n (log d run))"
    and log_events: "ok d \<Longrightarrow> e \<in> set (log d run) \<Longrightarrow> wf_event e \<and> ev_run_id e = run"
    and log_order: "ok d \<Longrightarrow> map ev_sequence (log d run) = map int [0..<length (log d run)] \<and>
      distinct (map ev_event_id (log d run))"
    and append_next: "ok d \<Longrightarrow> wf_event e \<Longrightarrow> (\<And>run. ev_event_id e \<notin> ev_event_id ` set (log d run)) \<Longrightarrow>
      ev_sequence e = int (length (log d (ev_run_id e))) \<Longrightarrow>
      \<exists>d'. el_append L d e = Inr d' \<and> ok d' \<and>
        log d' = (log d)(ev_run_id e := log d (ev_run_id e) @ [e])"
    and append_gap: "ok d \<Longrightarrow> wf_event e \<Longrightarrow> (\<And>run. ev_event_id e \<notin> ev_event_id ` set (log d run)) \<Longrightarrow>
      ev_sequence e \<noteq> int (length (log d (ev_run_id e))) \<Longrightarrow> el_append L d e = Inl SequenceError"
    and append_known: "ok d \<Longrightarrow> c \<in> set (log d run) \<Longrightarrow> ev_event_id e = ev_event_id c \<Longrightarrow>
      el_append L d e =
        (if fingerprint H c = fingerprint H e then Inr d else Inl DuplicateEventConflictError)"
    and save_prefix: "ok d \<Longrightarrow> k \<le> length (log d run) \<Longrightarrow> replay H run (take k (log d run)) = Inr s \<Longrightarrow>
      \<exists>d'. el_save_snapshot L d s = Inr d' \<and> ok d' \<and> log d' = log d"
    and save_sound: "ok d \<Longrightarrow> el_save_snapshot L d s = Inr d' \<Longrightarrow> ok d' \<and> log d' = log d \<and>
      (\<exists>k \<le> length (log d (state_run_id s)).
        replay H (state_run_id s) (take k (log d (state_run_id s))) = Inr s)"
    and snapshot_prefix: "ok d \<Longrightarrow>
      el_load_snapshot L d run = Inr None \<or>
      (\<exists>s k. el_load_snapshot L d run = Inr (Some s) \<and> k \<le> length (log d run) \<and>
         replay H run (take k (log d run)) = Inr s)"
begin

text \<open>Replaying the tail after a snapshot gives the replay of the whole log.\<close>

lemma snapshot_transparent:
  assumes "ok d" and "el_load_snapshot L d run = Inr (Some s)"
  shows "bindR (el_load_tail L d run (next_sequence s)) (replay_tail H s) = replay H run (log d run)"
proof -
  from snapshot_prefix [OF assms(1), of run] assms(2) obtain k where
    k: "k \<le> length (log d run)" "replay H run (take k (log d run)) = Inr s" by auto
  have "distinct (map ev_event_id (take k (log d run)))"
    using log_order [OF assms(1), of run] by (simp flip: take_map)
  from replay_bookkeeping [OF k(2) this] k(1) have "next_sequence s = int k" by simp
  moreover have "replay H run (log d run) = bindR (replay H run (take k (log d run)))
      (\<lambda>s. replay_tail H s (drop k (log d run)))"
    by (simp flip: replay_append)
  ultimately show ?thesis using load_tail [OF assms(1)] k(2) by simp
qed

end

definition history :: "EventDB \<Rightarrow> string \<Rightarrow> ExecutionEvent list" where
  "history db run_id = (case load_events db run_id of Inr es \<Rightarrow> es | Inl _ \<Rightarrow> [])"

definition sqlite_events :: "hash \<Rightarrow> EventDB event_log" where
  "sqlite_events H = \<lparr>el_append = append H, el_load = load_events, el_load_tail = load_tail,
     el_save_snapshot = save_snapshot H, el_load_snapshot = load_snapshot H\<rparr>"

lemma stored_history_eq: "stored_history H db run es \<Longrightarrow> history db run = es"
  by (simp add: history_def load_history)

lemma stored_history_log: "events_ok H db \<Longrightarrow> stored_history H db run (history db run)"
  unfolding events_ok_def by (metis stored_history_eq)

lemma append_known_row:
  assumes "events_ok H db" and "c \<in> set (history db run)" and "ev_event_id e = ev_event_id c"
  shows "append H db e =
    (if fingerprint H c = fingerprint H e then Inr db else Inl DuplicateEventConflictError)"
proof -
  let ?rows = "execution_events db"
  note h = stored_history_log [OF assms(1), of run]
  have "\<exists>r \<in> set (chain_rows H d es). er_event_id r = ev_event_id c \<and> er_fingerprint r = fingerprint H c"
    if "c \<in> set es" for d es
    using that by (induction es arbitrary: d) (auto simp: Let_def row_of_event_def)
  from this [OF assms(2)] obtain r where "r \<in> set (chain_rows H CHAIN_SEED (history db run))"
      and r: "er_event_id r = ev_event_id c" "er_fingerprint r = fingerprint H c" by blast
  then have "r \<in> set (filter (\<lambda>r. er_run_id r = run) ?rows)" using h by (simp only: stored_history_def)
  then have mem: "r \<in> set ?rows" by simp
  obtain q where q: "find (\<lambda>r. er_event_id r = ev_event_id e) ?rows = Some q"
    using mem r(1) assms(3) by (cases "find (\<lambda>r. er_event_id r = ev_event_id e) ?rows") (auto simp: find_None_iff)
  then have "q \<in> set ?rows" "er_event_id q = ev_event_id e"
    by (auto dest: find_Some_in)
  with mem r(1) assms(1,3) have "q = r" by (auto simp: events_ok_def distinct_map inj_on_def)
  with q r(2) show ?thesis by (simp add: append_def ensure_def)
qed

lemma id_of_row:
  assumes "events_ok H db" and "\<And>run. ev_event_id e \<notin> ev_event_id ` set (history db run)"
  shows "ev_event_id e \<notin> er_event_id ` set (execution_events db)"
proof
  assume "ev_event_id e \<in> er_event_id ` set (execution_events db)"
  then obtain r where "r \<in> set (execution_events db)" "er_event_id r = ev_event_id e" by auto
  then show False
    using assms stored_id_history [OF assms(1)] stored_history_eq by (metis image_eqI)
qed


lemma prefix_state_facts:
  assumes "events_ok H db" and "k \<le> length (history db run)"
    and "replay H run (take k (history db run)) = Inr s"
  shows "state_run_id s = run" and "next_sequence s = int k" and "length (applied_event_fingerprints s) = k"
    and "valid_state s"
proof -
  have d: "distinct (map ev_event_id (take k (history db run)))"
    using distinct_history_ids [OF assms(1) stored_history_log [OF assms(1), of run]]
    by (simp flip: take_map)
  from replay_bookkeeping [OF assms(3) d] assms(2)
  show "next_sequence s = int k" "length (applied_event_fingerprints s) = k" by simp_all
  show "state_run_id s = run" using assms(3) by (rule replay_run_id)
  show "valid_state s" using replay_state_inv [OF assms(3)] by (simp add: state_inv_def core_inv_def)
qed

lemma save_snapshot_prefix:
  assumes ok: "events_ok H db" and k: "k \<le> length (history db run)"
    and s: "replay H run (take k (history db run)) = Inr s"
  shows "save_snapshot H db s = Inr (db\<lparr>run_snapshots :=
      filter (\<lambda>r. sr_run_id r \<noteq> run) (run_snapshots db) @
      [snapshot_row_of H s (chain H CHAIN_SEED (map (fingerprint H) (take k (history db run))))]\<rparr>)"
proof -
  note h = stored_history_log [OF ok, of run] and f = prefix_state_facts [OF ok k s]
  have "prefix_chain_digest db run (int k) =
      Some (chain H CHAIN_SEED (map (fingerprint H) (take k (history db run))))"
    using prefix_digest_history [OF h, of k] k by simp
  moreover have "load_tail db run 0 = Inr (history db run)"
    using load_tail_history [OF h, of 0] by simp
  ultimately show ?thesis
    using s by (simp add: save_snapshot_def f snapshot_row_of_def ensure_def Let_def)
qed

lemma save_snapshot_sound:
  assumes ok: "events_ok H db" and saved: "save_snapshot H db s = Inr db'"
  obtains k where "k \<le> length (history db (state_run_id s))"
    and "replay H (state_run_id s) (take k (history db (state_run_id s))) = Inr s"
proof -
  let ?run = "state_run_id s" and ?k = "nat (next_sequence s)"
  note h = stored_history_log [OF ok, of ?run]
  have "load_tail db ?run 0 = Inr (history db ?run)" using load_tail_history [OF h, of 0] by simp
  with saved have n: "0 \<le> next_sequence s"
      and r: "replay H ?run (take ?k (history db ?run)) = Inr s"
      and p: "prefix_chain_digest db ?run (next_sequence s) \<noteq> None"
    by (auto simp: save_snapshot_def result_simps Let_def prefix_chain_digest_def
        split: option.splits if_splits)
  have "?k \<le> length (history db ?run)"
    using p n prefix_digest_history [OF h, of ?k] by (auto split: if_splits)
  with r that show thesis by blast
qed

lemma prefix_snapshot_same_events:
  "prefix_snapshot H (db\<lparr>run_snapshots := rs\<rparr>) r = prefix_snapshot H db r"
  by (simp add: prefix_snapshot_def stored_history_def)

lemma save_snapshot_ok:
  assumes ok: "events_ok H db" and k: "k \<le> length (history db run)"
    and s: "replay H run (take k (history db run)) = Inr s"
  shows "events_ok H (db\<lparr>run_snapshots :=
      filter (\<lambda>r. sr_run_id r \<noteq> run) (run_snapshots db) @
      [snapshot_row_of H s (chain H CHAIN_SEED (map (fingerprint H) (take k (history db run))))]\<rparr>)"
    (is "events_ok H ?db")
proof -
  let ?row = "snapshot_row_of H s (chain H CHAIN_SEED (map (fingerprint H) (take k (history db run))))"
  have run: "sr_run_id ?row = run" using prefix_state_facts(1) [OF ok k s] by (simp add: snapshot_row_of_def)
  have "prefix_snapshot H db ?row"
    unfolding prefix_snapshot_def run using stored_history_log [OF ok, of run] k s by blast
  moreover have "stored_history H ?db r es = stored_history H db r es" for r es
    by (simp add: stored_history_def)
  ultimately show ?thesis using ok by (auto simp: events_ok_def prefix_snapshot_same_events)
qed

lemma load_snapshot_prefix:
  assumes ok: "events_ok H db"
  shows "load_snapshot H db run = Inr None \<or>
    (\<exists>s k. load_snapshot H db run = Inr (Some s) \<and> k \<le> length (history db run) \<and>
       replay H run (take k (history db run)) = Inr s)"
proof (cases "find (\<lambda>r. sr_run_id r = run) (run_snapshots db)")
  case None
  then show ?thesis by (simp add: load_snapshot_def)
next
  case (Some row)
  then have row: "row \<in> set (run_snapshots db)" "sr_run_id row = run" by (auto dest: find_Some_in)
  with ok obtain es k s where s: "stored_history H db run es" "k \<le> length es"
      "replay H run (take k es) = Inr s"
      "row = snapshot_row_of H s (chain H CHAIN_SEED (map (fingerprint H) (take k es)))"
    by (auto simp: events_ok_def prefix_snapshot_def)
  then have es: "es = history db run" by (simp add: stored_history_eq)
  note f = prefix_state_facts [OF ok s(2,3) [unfolded es]]
  have "load_snapshot H db run = Inr (Some s)"
    using Some decode_encode [OF f(4)] prefix_digest_history [OF s(1), of k] s(2)
    by (simp add: load_snapshot_def s(4) snapshot_row_of_def f)
  with s es show ?thesis by blast
qed

lemma history_snapshot_update [simp]: "history (db\<lparr>run_snapshots := rs\<rparr>) = history db"
  by (simp add: history_def load_events_def load_tail_def run_rows_def fun_eq_iff)

interpretation sqlite_log: run_log H "sqlite_events H" "events_ok H" history for H
proof unfold_locales
  fix d :: EventDB and run n e c k s d'
  assume ok: "events_ok H d"
  note h = stored_history_log [OF ok]
  show "el_load (sqlite_events H) d run = Inr (history d run)"
    by (simp add: sqlite_events_def load_history [OF h])
  show "el_load_tail (sqlite_events H) d run (int n) = Inr (drop n (history d run))"
    by (simp add: sqlite_events_def load_tail_history [OF h])
  show "wf_event e \<and> ev_run_id e = run" if "e \<in> set (history d run)"
    using h [of run] that by (simp add: stored_history_def)
  show "map ev_sequence (history d run) = map int [0..<length (history d run)] \<and>
      distinct (map ev_event_id (history d run))"
    using h [of run] distinct_history_ids [OF ok h] by (simp add: stored_history_def)
  show "el_append (sqlite_events H) d e =
      (if fingerprint H c = fingerprint H e then Inr d else Inl DuplicateEventConflictError)"
    if "c \<in> set (history d run)" "ev_event_id e = ev_event_id c"
    using append_known_row [OF ok that] by (simp add: sqlite_events_def)
  show "\<exists>d'. el_save_snapshot (sqlite_events H) d s = Inr d' \<and> events_ok H d' \<and> history d' = history d"
    if "k \<le> length (history d run)" "replay H run (take k (history d run)) = Inr s"
    using save_snapshot_prefix [OF ok that] save_snapshot_ok [OF ok that] by (simp add: sqlite_events_def)
  show "events_ok H d' \<and> history d' = history d \<and> (\<exists>k \<le> length (history d (state_run_id s)).
        replay H (state_run_id s) (take k (history d (state_run_id s))) = Inr s)"
    if "el_save_snapshot (sqlite_events H) d s = Inr d'"
  proof -
    from that have saved: "save_snapshot H d s = Inr d'" by (simp add: sqlite_events_def)
    from ok saved obtain k where k: "k \<le> length (history d (state_run_id s))"
      "replay H (state_run_id s) (take k (history d (state_run_id s))) = Inr s" by (rule save_snapshot_sound)
    with save_snapshot_prefix [OF ok k] save_snapshot_ok [OF ok k] saved show ?thesis by auto
  qed
  show "el_load_snapshot (sqlite_events H) d run = Inr None \<or>
      (\<exists>s k. el_load_snapshot (sqlite_events H) d run = Inr (Some s) \<and> k \<le> length (history d run) \<and>
         replay H run (take k (history d run)) = Inr s)"
    using load_snapshot_prefix [OF ok] by (simp add: sqlite_events_def)
next
  fix d :: EventDB and e
  assume ok: "events_ok H d" and wf: "wf_event e"
    and new: "\<And>run. ev_event_id e \<notin> ev_event_id ` set (history d run)"
  note h = stored_history_log [OF ok, of "ev_run_id e"]
  note new' = id_of_row [OF ok new]
  note app = append_new [OF ok wf new' h]
  show "\<exists>d'. el_append (sqlite_events H) d e = Inr d' \<and> events_ok H d' \<and>
      history d' = (history d)(ev_run_id e := history d (ev_run_id e) @ [e])"
    if seq: "ev_sequence e = int (length (history d (ev_run_id e)))"
  proof (intro exI conjI)
    let ?d = "d\<lparr>execution_events := execution_events d @
       [row_of_event H e (chain H CHAIN_SEED (map (fingerprint H) (history d (ev_run_id e) @ [e])))]\<rparr>"
    show "el_append (sqlite_events H) d e = Inr ?d" using app seq by (simp add: sqlite_events_def)
    show "events_ok H ?d" by (rule append_new_ok [OF ok wf new' h seq])
    show "history ?d = (history d)(ev_run_id e := history d (ev_run_id e) @ [e])"
    proof
      fix run
      show "history ?d run = ((history d)(ev_run_id e := history d (ev_run_id e) @ [e])) run"
      proof (cases "run = ev_run_id e")
        case True
        with stored_history_eq [OF stored_history_extended [OF h wf seq]] show ?thesis by simp
      next
        case False
        then have "stored_history H ?d run (history d run)"
          using stored_history_log [OF ok, of run] by (simp add: stored_history_other row_of_event_def)
        with False show ?thesis by (simp add: stored_history_eq)
      qed
    qed
  qed
  show "el_append (sqlite_events H) d e = Inl SequenceError"
    if "ev_sequence e \<noteq> int (length (history d (ev_run_id e)))"
    using app that by (simp add: sqlite_events_def)
qed

end
