(* ===== verification/StoreProperties.thy ===== *)
theory StoreProperties
  imports EventStore
begin

section \<open>Properties of the event store\<close>

text \<open>
  The store as an append-only log with conflict detection, the tamper evidence of the digest
  chain, and snapshots: their round trip, and that a recovery through a snapshot gives what the
  full replay gives.
\<close>

subsection \<open>Stores that the operations reach\<close>

datatype store_op = Append ExecutionEvent | Snapshot RunState

fun store_step :: "hash \<Rightarrow> EventDB \<Rightarrow> store_op \<Rightarrow> EventDB" where
  "store_step H db (Append e) = (case append H db e of Inr db' \<Rightarrow> db' | Inl _ \<Rightarrow> db)"
| "store_step H db (Snapshot s) = (case save_snapshot H db s of Inr db' \<Rightarrow> db' | Inl _ \<Rightarrow> db)"

definition store_after :: "hash \<Rightarrow> store_op list \<Rightarrow> EventDB" where
  "store_after H ops = foldl (store_step H) empty_events ops"

definition wf_op :: "store_op \<Rightarrow> bool" where
  "wf_op p \<longleftrightarrow> (case p of Append e \<Rightarrow> wf_event e | Snapshot s \<Rightarrow> True)"

lemma append_outcome:
  assumes ok: "events_ok H db" and wf: "wf_event e"
  shows "case append H db e of
      Inl x \<Rightarrow> x = DuplicateEventConflictError \<or> x = SequenceError
    | Inr db' \<Rightarrow> events_ok H db' \<and> (db' = db \<or>
        history db' = (history db)(ev_run_id e := history db (ev_run_id e) @ [e]) \<and>
        ev_sequence e = int (length (history db (ev_run_id e))))"
proof (cases "\<exists>run. ev_event_id e \<in> ev_event_id ` set (history db run)")
  case True
  then obtain run c where "c \<in> set (history db run)" "ev_event_id e = ev_event_id c" by auto
  with append_known_row [OF ok this] ok show ?thesis by simp
next
  case False
  then have new: "\<And>run. ev_event_id e \<notin> ev_event_id ` set (history db run)" by blast
  show ?thesis
  proof (cases "ev_sequence e = int (length (history db (ev_run_id e)))")
    case True
    with sqlite_log.append_next [OF ok wf new True] show ?thesis by (auto simp: sqlite_events_def)
  next
    case False
    with sqlite_log.append_gap [OF ok wf new False] show ?thesis by (simp add: sqlite_events_def)
  qed
qed

lemma store_step_ok: "events_ok H db \<Longrightarrow> wf_op p \<Longrightarrow> events_ok H (store_step H db p)"
proof (cases p)
  case (Append e)
  assume "events_ok H db" and "wf_op p"
  then show ?thesis
    using append_outcome [of H db e] by (auto simp: Append wf_op_def split: sum.splits)
next
  case (Snapshot s)
  assume "events_ok H db"
  then show ?thesis
    using sqlite_log.save_sound [of H db s] by (auto simp: Snapshot sqlite_events_def split: sum.splits)
qed

lemma store_after_ok: "\<forall>p \<in> set ops. wf_op p \<Longrightarrow> events_ok H (store_after H ops)"
  unfolding store_after_def
  by (induction ops rule: rev_induct) (simp_all add: store_step_ok)

definition sample_ops :: "store_op list" where
  "sample_ops = map Append started_events @ [Snapshot ready_state]"

lemma wf_sample_ops: "p \<in> set sample_ops \<Longrightarrow> wf_op p"
  by (auto simp: sample_ops_def started_events_def wf_op_def wf_sample_event canon_obj)

subsection \<open>What the digest chain hashes\<close>

fun chain_inputs :: "hash \<Rightarrow> string \<Rightarrow> string list \<Rightarrow> string list" where
  "chain_inputs H d [] = []"
| "chain_inputs H d (f # fs) = (d @ '':'' @ f) # chain_inputs H (next_chain_digest H d f) fs"

text \<open>Every text hashed for a history: the canonical events and the links of the chain.\<close>

definition hashed_texts :: "hash \<Rightarrow> ExecutionEvent list \<Rightarrow> string set" where
  "hashed_texts H es = event_text ` set es \<union> set (chain_inputs H CHAIN_SEED (map (fingerprint H) es))"

lemma chain_inputs_append:
  "chain_inputs H d (fs @ [f]) = chain_inputs H d fs @ [chain H d fs @ '':'' @ f]"
  by (induction fs arbitrary: d) simp_all

lemma chain_length:
  "\<forall>x. length (H x) = 64 \<Longrightarrow> length d = 64 \<Longrightarrow> length (chain H d fs) = 64"
  by (induction fs arbitrary: d) (simp_all add: next_chain_digest_def)

lemma chain_binds:
  assumes "\<forall>x. length (H x) = 64" and "length d = 64" and "length fs = length gs"
    and "chain H d fs = chain H d gs"
  shows "fs = gs \<or> (\<exists>x \<in> set (chain_inputs H d fs). \<exists>y \<in> set (chain_inputs H d gs). x \<noteq> y \<and> H x = H y)"
  using assms(3,4)
proof (induction fs arbitrary: gs rule: rev_induct)
  case (snoc f fs)
  then obtain g gs' where gs: "gs = gs' @ [g]" by (cases gs rule: rev_cases) auto
  let ?x = "chain H d fs @ '':'' @ f" and ?y = "chain H d gs' @ '':'' @ g"
  have eq: "H ?x = H ?y" using snoc.prems(2) by (simp add: gs chain_append next_chain_digest_def)
  show ?case
  proof (cases "?x = ?y")
    case True
    then have "chain H d fs = chain H d gs'" "f = g"
      using chain_length [OF assms(1,2)] by (simp_all add: append_eq_append_conv)
    with snoc.IH [of gs'] snoc.prems(1) gs show ?thesis by (auto simp: chain_inputs_append)
  next
    case False
    with eq show ?thesis by (auto simp: gs chain_inputs_append)
  qed
qed simp

subsection \<open>The properties\<close>

text \<open>C15: the store is an append-only log: an append either raises a conflict or sequence error and
  stores nothing, or finds the event stored and changes nothing, or adds the event at the end of
  its run's log; every other log, and the order of the events, stay.\<close>

theorem append_only_log:
  assumes "\<forall>p \<in> set ops. wf_op p" and "wf_event e" and "db = store_after H ops"
  shows "case append H db e of
      Inl x \<Rightarrow> x = DuplicateEventConflictError \<or> x = SequenceError
    | Inr db' \<Rightarrow> db' = db \<or>
        (\<exists>es. load_events db (ev_run_id e) = Inr es \<and> ev_sequence e = int (length es) \<and>
           load_events db' (ev_run_id e) = Inr (es @ [e]) \<and>
           (\<forall>run. run \<noteq> ev_run_id e \<longrightarrow> load_events db' run = load_events db run) \<and>
           append H db' e = Inr db')"
proof -
  have ok: "events_ok H db" using store_after_ok [OF assms(1)] assms(3) by simp
  have ld: "load_events d run = Inr (history d run)" if "events_ok H d" for d run
    using sqlite_log.load [OF that] by (simp add: sqlite_events_def)
  show ?thesis
  proof (cases "append H db e")
    case (Inl x)
    with append_outcome [OF ok assms(2)] show ?thesis by simp
  next
    case (Inr db')
    with append_outcome [OF ok assms(2)] have ok': "events_ok H db'"
      and "db' = db \<or> history db' = (history db)(ev_run_id e := history db (ev_run_id e) @ [e]) \<and>
        ev_sequence e = int (length (history db (ev_run_id e)))" by auto
    then show ?thesis
    proof (elim disjE conjE)
      assume h: "history db' = (history db)(ev_run_id e := history db (ev_run_id e) @ [e])"
        and s: "ev_sequence e = int (length (history db (ev_run_id e)))"
      have "append H db' e = Inr db'"
        using append_known_row [OF ok', of e "ev_run_id e" e] h by simp
      with h s show ?thesis by (simp add: Inr ld [OF ok] ld [OF ok'])
    qed (simp add: Inr)
  qed
qed

theorem append_only_log_witness:
  "\<exists>e. wf_event e \<and> (case append flat_hash (store_after flat_hash sample_ops) e of
      Inl x \<Rightarrow> x = DuplicateEventConflictError \<or> x = SequenceError
    | Inr db' \<Rightarrow> db' = store_after flat_hash sample_ops \<or>
        (\<exists>es. load_events (store_after flat_hash sample_ops) ''r'' = Inr es \<and>
           load_events db' ''r'' = Inr (es @ [e])))"
proof -
  let ?e = "sample_event ''c'' 2 RUN_PAUSED []" and ?db = "store_after flat_hash sample_ops"
  have wf: "wf_event ?e" by (simp add: wf_sample_event canon_obj)
  have ops: "\<forall>p \<in> set sample_ops. wf_op p" using wf_sample_ops by blast
  from append_only_log [OF ops wf refl, of flat_hash] wf show ?thesis
    by (intro exI [of _ ?e]) (auto split: sum.splits)
qed

text \<open>C36: tamper evidence: two stores whose chain digests agree at a sequence number hold the same
  events of the run up to there, unless two of the texts hashed for them collide.\<close>

theorem chain_digest_binds_prefix:
  assumes "\<forall>x. length (H x) = 64" and "\<forall>p \<in> set ops. wf_op p" and "\<forall>p \<in> set ops'. wf_op p"
    and "db = store_after H ops" and "db' = store_after H ops'"
    and "prefix_chain_digest db run (int n) = Some c" and "prefix_chain_digest db' run (int n) = Some c"
    and "load_events db run = Inr es" and "load_events db' run = Inr es'"
  shows "take n es = take n es' \<or>
    (\<exists>x \<in> hashed_texts H (take n es). \<exists>y \<in> hashed_texts H (take n es'). x \<noteq> y \<and> H x = H y)"
proof -
  let ?a = "take n es" and ?b = "take n es'"
  have ok: "events_ok H db" "events_ok H db'" using store_after_ok assms(2-5) by simp_all
  have h: "stored_history H db run es" "stored_history H db' run es'"
    using stored_history_log [OF ok(1), of run] stored_history_log [OF ok(2), of run] assms(8,9)
    by (simp_all add: history_def)
  have n: "n \<le> length es" "n \<le> length es'"
    and c: "chain H CHAIN_SEED (map (fingerprint H) ?a) = chain H CHAIN_SEED (map (fingerprint H) ?b)"
    using assms(6,7) prefix_digest_history [OF h(1), of n] prefix_digest_history [OF h(2), of n]
    by (auto split: if_splits)
  have wf: "wf_event e" if "e \<in> set ?a \<or> e \<in> set ?b" for e
    using that h by (auto simp: stored_history_def dest: in_set_takeD)
  have "length (map (fingerprint H) ?a) = length (map (fingerprint H) ?b)" using n by simp
  from chain_binds [OF assms(1) _ this c]
  consider (same) "map (fingerprint H) ?a = map (fingerprint H) ?b"
    | (link) x y where "x \<in> hashed_texts H ?a" "y \<in> hashed_texts H ?b" "x \<noteq> y" "H x = H y"
    by (auto simp: CHAIN_SEED_def hashed_texts_def)
  then show ?thesis
  proof cases
    case same
    have "event_text ` set ?a \<subseteq> hashed_texts H ?a" "event_text ` set ?b \<subseteq> hashed_texts H ?b"
      unfolding hashed_texts_def by blast+
    with fingerprints_bind [OF _ _ same] wf show ?thesis by blast
  next
    case link
    then show ?thesis by blast
  qed
qed

definition wide_hash :: hash where
  "wide_hash x = replicate 64 (CHR ''h'')"

lemma wide_appended:
  assumes "es = started_events \<or> es = take 1 started_events"
  shows "stored_history wide_hash (store_after wide_hash (map Append es)) ''r'' es"
proof -
  have "store_after wide_hash (map Append es) =
      \<lparr>execution_events = chain_rows wide_hash CHAIN_SEED es, run_snapshots = []\<rparr>"
    using assms
    by (auto simp: store_after_def started_events_def empty_events_def append_def run_rows_def Let_def
        insert_event_def row_of_event_def ensure_def fingerprint_def wide_hash_def)
  then show ?thesis using assms unfolding stored_history_def
    by (auto simp: started_events_def Let_def row_of_event_def wf_sample_event canon_obj)
qed

theorem chain_digest_binds_prefix_witness:
  "\<exists>es es' c. load_events (store_after wide_hash (map Append started_events)) ''r'' = Inr es \<and>
     load_events (store_after wide_hash (map Append (take 1 started_events))) ''r'' = Inr es' \<and>
     prefix_chain_digest (store_after wide_hash (map Append started_events)) ''r'' (int 1) = Some c \<and>
     (take 1 es = take 1 es' \<or>
      (\<exists>x \<in> hashed_texts wide_hash (take 1 es). \<exists>y \<in> hashed_texts wide_hash (take 1 es').
         x \<noteq> y \<and> wide_hash x = wide_hash y))"
proof -
  let ?es = "started_events" and ?es' = "take 1 started_events"
  let ?db = "store_after wide_hash (map Append ?es)" and ?db' = "store_after wide_hash (map Append ?es')"
  have ops: "\<forall>p \<in> set (map Append ?es). wf_op p" "\<forall>p \<in> set (map Append ?es'). wf_op p"
    using wf_sample_ops by (auto simp: sample_ops_def dest: in_set_takeD)
  have h: "stored_history wide_hash ?db ''r'' ?es" "stored_history wide_hash ?db' ''r'' ?es'"
    by (rule wide_appended, simp)+
  note ld = load_history [OF h(1)] load_history [OF h(2)]
  let ?c = "chain wide_hash CHAIN_SEED (map (fingerprint wide_hash) (take 1 ?es))"
  have "1 \<le> length ?es" by (simp add: started_events_def)
  then have pd: "prefix_chain_digest ?db ''r'' (int 1) = Some ?c" "prefix_chain_digest ?db' ''r'' (int 1) = Some ?c"
    using prefix_digest_history [OF h(1), of 1] prefix_digest_history [OF h(2), of 1] by simp_all
  have l: "\<forall>x. length (wide_hash x) = 64" by (simp add: wide_hash_def)
  from chain_digest_binds_prefix [OF l ops refl refl pd ld] ld pd show ?thesis by blast
qed

lemma prefix_chain_digest_snapshots [simp]:
  "prefix_chain_digest (db\<lparr>run_snapshots := rs\<rparr>) = prefix_chain_digest db"
  by (simp add: prefix_chain_digest_def fun_eq_iff)

lemma find_after_filter: "find P (filter (\<lambda>x. \<not> P x) xs @ ys) = find P ys"
  by (induction xs) auto

lemma load_saved_snapshot:
  assumes ok: "events_ok H db" and saved: "save_snapshot H db s = Inr db'"
  shows "load_snapshot H db' (state_run_id s) = Inr (Some s) \<and> execution_events db' = execution_events db"
proof -
  from assms obtain k where k: "k \<le> length (history db (state_run_id s))"
    "replay H (state_run_id s) (take k (history db (state_run_id s))) = Inr s" by (rule save_snapshot_sound)
  note f = prefix_state_facts [OF ok k]
  let ?c = "chain H CHAIN_SEED (map (fingerprint H) (take k (history db (state_run_id s))))"
  have db': "db' = db\<lparr>run_snapshots := filter (\<lambda>r. \<not> sr_run_id r = state_run_id s) (run_snapshots db) @
      [snapshot_row_of H s ?c]\<rparr>"
    using save_snapshot_prefix [OF ok k] saved by simp
  have pd: "prefix_chain_digest db (state_run_id s) (int k) = Some ?c"
    using prefix_digest_history [OF stored_history_log [OF ok], of "state_run_id s" k] k(1) by simp
  have row: "find (\<lambda>r. sr_run_id r = state_run_id s) (run_snapshots db') = Some (snapshot_row_of H s ?c)"
    unfolding db' by (simp add: find_after_filter) (simp add: snapshot_row_of_def)
  have pd': "prefix_chain_digest db' (state_run_id s) (next_sequence s) = Some ?c"
    unfolding db' using pd f(2) by simp
  have "load_snapshot H db' (state_run_id s) = Inr (Some s)"
    unfolding load_snapshot_def row using decode_encode [OF f(4)] pd' f(2,3)
    by (simp add: snapshot_row_of_def)
  then show ?thesis unfolding db' by simp
qed

text \<open>C14: a recovery through a snapshot is transparent: whatever was appended and saved, a snapshot the
  store returns, completed by the replay of the tail after it, gives the outcome of replaying
  the whole log.\<close>

theorem snapshot_recovery_transparent:
  assumes "\<forall>p \<in> set ops. wf_op p" and "db = store_after H ops"
    and "load_snapshot H db run = Inr (Some s)"
  shows "bindR (load_tail db run (next_sequence s)) (replay_tail H s) =
    bindR (load_events db run) (replay H run)"
proof -
  have ok: "events_ok H db" using store_after_ok [OF assms(1)] assms(2) by simp
  have ld: "load_events db run = Inr (history db run)"
    using sqlite_log.load [OF ok] by (simp add: sqlite_events_def)
  from sqlite_log.snapshot_transparent [OF ok, of run s] assms(3) ld show ?thesis
    by (simp add: sqlite_events_def)
qed

lemma sample_appended:
  "store_after flat_hash (map Append started_events) =
     \<lparr>execution_events = chain_rows flat_hash CHAIN_SEED started_events, run_snapshots = []\<rparr>"
  by (simp add: store_after_def started_events_def empty_events_def append_def run_rows_def Let_def
      insert_event_def row_of_event_def ensure_def fingerprint_def flat_hash_def)

lemma sample_appended_history:
  "stored_history flat_hash (store_after flat_hash (map Append started_events)) ''r'' started_events"
  unfolding stored_history_def sample_appended
  by (simp add: started_events_def Let_def row_of_event_def wf_sample_event canon_obj)

lemma sample_saved:
  obtains db where "save_snapshot flat_hash (store_after flat_hash (map Append started_events)) ready_state = Inr db"
    and "store_after flat_hash sample_ops = db"
proof -
  let ?db = "store_after flat_hash (map Append started_events)"
  have ops: "\<forall>p \<in> set (map Append started_events). wf_op p"
    using wf_sample_ops by (auto simp: sample_ops_def)
  have ok: "events_ok flat_hash ?db" by (rule store_after_ok [OF ops])
  have h: "history ?db ''r'' = started_events" by (rule stored_history_eq [OF sample_appended_history])
  have "length started_events = 2" by (simp add: started_events_def)
  then have k: "2 \<le> length (history ?db ''r'')" and r: "replay flat_hash ''r'' (take 2 (history ?db ''r'')) = Inr ready_state"
    by (simp_all add: h replay_started)
  from save_snapshot_prefix [OF ok k r] that show thesis
    by (simp add: store_after_def sample_ops_def)
qed

theorem snapshot_recovery_transparent_witness:
  "load_snapshot flat_hash (store_after flat_hash sample_ops) ''r'' = Inr (Some ready_state) \<and>
   bindR (load_tail (store_after flat_hash sample_ops) ''r'' (next_sequence ready_state))
     (replay_tail flat_hash ready_state) =
   bindR (load_events (store_after flat_hash sample_ops) ''r'') (replay flat_hash ''r'')"
proof -
  let ?db = "store_after flat_hash (map Append started_events)"
  have ops: "\<forall>p \<in> set sample_ops. wf_op p" using wf_sample_ops by blast
  have "\<forall>p \<in> set (map Append started_events). wf_op p"
    using wf_sample_ops by (auto simp: sample_ops_def)
  then have ok: "events_ok flat_hash ?db" by (rule store_after_ok)
  obtain db where db: "save_snapshot flat_hash ?db ready_state = Inr db"
      "store_after flat_hash sample_ops = db" by (rule sample_saved)
  have "load_snapshot flat_hash (store_after flat_hash sample_ops) ''r'' = Inr (Some ready_state)"
    using load_saved_snapshot [OF ok db(1)] db(2) by (simp add: ready_state_def empty_state_def)
  with snapshot_recovery_transparent [OF ops refl this] show ?thesis by simp
qed

text \<open>The store saves exactly the states derived from a stored prefix: a saved snapshot is the replay of
  the first \<open>next_sequence\<close> events of its run, it is returned by the next load, and saving
  it changes no event; a state that is the replay of a prefix is accepted.\<close>

theorem snapshot_saved_is_prefix_state:
  assumes "\<forall>p \<in> set ops. wf_op p" and "db = store_after H ops"
    and "load_events db (state_run_id s) = Inr es"
  shows "((\<exists>db'. save_snapshot H db s = Inr db') \<longleftrightarrow>
      (\<exists>k \<le> length es. replay H (state_run_id s) (take k es) = Inr s)) \<and>
    (\<forall>db'. save_snapshot H db s = Inr db' \<longrightarrow>
      load_snapshot H db' (state_run_id s) = Inr (Some s) \<and> execution_events db' = execution_events db)"
proof (intro conjI allI impI)
  have ok: "events_ok H db" using store_after_ok [OF assms(1)] assms(2) by simp
  have es: "es = history db (state_run_id s)" using assms(3) by (simp add: history_def)
  show "(\<exists>db'. save_snapshot H db s = Inr db') \<longleftrightarrow>
      (\<exists>k \<le> length es. replay H (state_run_id s) (take k es) = Inr s)"
    unfolding es using save_snapshot_sound [OF ok] save_snapshot_prefix [OF ok] by metis
  fix db' assume saved: "save_snapshot H db s = Inr db'"
  show "load_snapshot H db' (state_run_id s) = Inr (Some s)" "execution_events db' = execution_events db"
    using load_saved_snapshot [OF ok saved] by simp_all
qed

theorem snapshot_saved_is_prefix_state_witness:
  "\<exists>db'. save_snapshot flat_hash (store_after flat_hash (map Append started_events)) ready_state = Inr db' \<and>
     load_snapshot flat_hash db' ''r'' = Inr (Some ready_state)"
proof -
  have ops: "\<forall>p \<in> set (map Append started_events). wf_op p"
    using wf_sample_ops by (auto simp: sample_ops_def)
  have run: "state_run_id ready_state = ''r''" by (simp add: ready_state_def empty_state_def)
  obtain db' where s: "save_snapshot flat_hash (store_after flat_hash (map Append started_events)) ready_state = Inr db'"
    by (rule sample_saved)
  have "load_events (store_after flat_hash (map Append started_events)) (state_run_id ready_state) =
      Inr started_events"
    unfolding run by (rule load_history [OF sample_appended_history])
  from snapshot_saved_is_prefix_state [OF ops refl this] s run show ?thesis by auto
qed

end
