(* ===== verification/StoreMigration.thy ===== *)
theory StoreMigration
  imports EventStore EffectStore Actions
begin

section \<open>Opening the stores (the schemas of both SQLite stores and their upgrades)\<close>

text \<open>
  \<open>SQLiteEventStore._initialize_schema\<close> and \<open>_backfill_chain_digests\<close>, and
  \<open>SQLiteToolEffectStore._initialize_schema\<close> and \<open>_migrate_receipt_outcomes\<close>: what the
  constructor of a store does to the file it opens. A file written before a column or a value
  existed is brought to the schema on which the operations of the store run. An action leaves the
  file as it is on disk, so that an upgrade that stops half-way can be opened again.
\<close>

definition scriptA :: "('f \<Rightarrow> 'f) \<Rightarrow> ('f, unit) action" where
  "scriptA statement f = (Inr (), statement f)"

text \<open>A statement that raises inside a transaction leaves the file of its start.\<close>

definition transactionA :: "('f, 'a) action \<Rightarrow> ('f, 'a) action" where
  "transactionA m f = (case m f of (Inl e, _) \<Rightarrow> (Inl e, f) | (Inr x, g) \<Rightarrow> (Inr x, g))"

text \<open>
  The opening of a file with the files its commits leave on disk, one after the other: a process
  that stops leaves the last of them. A transaction is one commit; a statement of an
  \<open>executescript\<close> commits on its own.
\<close>

type_synonym 'f on_disk = "'f \<times> 'f list"

definition commitA :: "('f, 'a) action \<Rightarrow> ('f on_disk, 'a) action" where
  "commitA m s =
     (case transactionA m (fst s) of
        (Inl e, g) \<Rightarrow> (Inl e, (g, snd s))
      | (Inr x, g) \<Rightarrow> (Inr x, (g, snd s @ [g])))"

definition statementA :: "('f \<Rightarrow> 'f) \<Rightarrow> ('f on_disk, unit) action" where
  "statementA statement = commitA (scriptA statement)"

definition queryA :: "('f \<Rightarrow> 'a) \<Rightarrow> ('f on_disk, 'a) action" where
  "queryA q = askA (\<lambda>s. Inr (q (fst s)))"

definition opened :: "('f on_disk, unit) action \<Rightarrow> ('f, unit) action" where
  "opened m f = apsnd fst (m (f, []))"

definition commits :: "('f on_disk, unit) action \<Rightarrow> 'f \<Rightarrow> 'f list" where
  "commits m f = snd (snd (m (f, [])))"

lemma opening_simps [simp]:
  "statementA st (f, cs) = (Inr (), (st f, cs @ [st f]))"
  "queryA q (f, cs) = (Inr (q f), (f, cs))"
  by (simp_all add: statementA_def commitA_def transactionA_def scriptA_def queryA_def askA_def)

subsection \<open>The file of events\<close>

text \<open>
  A row of \<open>execution_events\<close> as the file has it: \<open>NULL\<close> is \<open>None\<close>. A column that the
  table lacks holds no values.
\<close>

record file_row =
  fr_event_id :: string
  fr_run_id :: string
  fr_sequence :: int
  fr_event_type :: string
  fr_occurred_at :: string
  fr_payload_json :: string
  fr_fingerprint :: string
  fr_chain_digest :: "string option"

text \<open>
  The tables of events differ from version to version in two constraints: the column of digests is
  missing, or it may hold \<open>NULL\<close> (as \<open>ALTER TABLE\<close> adds it), or it is declared
  \<open>NOT NULL\<close> (as a new table has it), and the sequence is checked not to be negative or not. All
  of them have the primary key and the unique pair of run and sequence, and no \<open>NULL\<close> elsewhere.
\<close>

datatype digest_column = NoColumn | Nullable | NotNull

record event_file =
  ef_events :: "file_row list option"
  ef_column :: digest_column
  ef_check :: bool
  ef_index :: bool
  ef_snapshots :: "snapshot_row list option"
  ef_no_update :: bool
  ef_no_delete :: bool

definition blank_event_file :: event_file where
  "blank_event_file = \<lparr>ef_events = None, ef_column = NoColumn, ef_check = False, ef_index = False,
     ef_snapshots = None, ef_no_update = False, ef_no_delete = False\<rparr>"

fun rows_of :: "'a list option \<Rightarrow> 'a list" where
  "rows_of None = []"
| "rows_of (Some rows) = rows"

text \<open>\<open>CREATE TABLE IF NOT EXISTS\<close> and \<open>CREATE INDEX IF NOT EXISTS\<close>\<close>

definition create_event_table :: "event_file \<Rightarrow> event_file" where
  "create_event_table f = (case ef_events f of
       None \<Rightarrow> f\<lparr>ef_events := Some [], ef_column := NotNull, ef_check := True\<rparr>
     | Some _ \<Rightarrow> f)"

definition create_event_index :: "event_file \<Rightarrow> event_file" where
  "create_event_index f = f\<lparr>ef_index := True\<rparr>"

definition create_snapshot_table :: "event_file \<Rightarrow> event_file" where
  "create_snapshot_table f = f\<lparr>ef_snapshots := Some (rows_of (ef_snapshots f))\<rparr>"

text \<open>\<open>ALTER TABLE ... ADD COLUMN\<close>, which is not part of a transaction\<close>

definition add_chain_column :: "event_file \<Rightarrow> event_file" where
  "add_chain_column f = f\<lparr>ef_events := map_option (map (fr_chain_digest_update (\<lambda>_. None))) (ef_events f),
     ef_column := Nullable\<rparr>"

definition missing_digest :: "event_file \<Rightarrow> bool" where
  "missing_digest f \<longleftrightarrow> (\<exists>r \<in> set (rows_of (ef_events f)). fr_chain_digest r = None)"

definition create_no_update :: "event_file \<Rightarrow> event_file" where
  "create_no_update f = f\<lparr>ef_no_update := True\<rparr>"

definition create_no_delete :: "event_file \<Rightarrow> event_file" where
  "create_no_delete f = f\<lparr>ef_no_delete := True\<rparr>"

text \<open>
  \<open>UPDATE execution_events SET chain_digest = ? WHERE event_id = ?\<close>; the trigger fires for
  every row the statement is about to change.
\<close>

definition set_digest :: "string \<Rightarrow> string \<Rightarrow> file_row list \<Rightarrow> file_row list" where
  "set_digest event_id digest =
     map (\<lambda>r. if fr_event_id r = event_id then r\<lparr>fr_chain_digest := Some digest\<rparr> else r)"

definition update_digest :: "string \<Rightarrow> string \<Rightarrow> (event_file, unit) action" where
  "update_digest event_id digest f =
     (if ef_no_update f \<and> (\<exists>r \<in> set (rows_of (ef_events f)). fr_event_id r = event_id)
      then (Inl IntegrityError, f)
      else (Inr (), f\<lparr>ef_events := map_option (set_digest event_id digest) (ef_events f)\<rparr>))"

fun backfill_from ::
  "hash \<Rightarrow> string option \<Rightarrow> string \<Rightarrow> file_row list \<Rightarrow> (event_file, unit) action" where
  "backfill_from H previous_run_id previous_digest [] = returnA ()"
| "backfill_from H previous_run_id previous_digest (r # rows) =
     (let start = (if Some (fr_run_id r) \<noteq> previous_run_id then CHAIN_SEED else previous_digest);
          digest = next_chain_digest H start (fr_fingerprint r)
      in bindA (update_digest (fr_event_id r) digest) (\<lambda>_.
         backfill_from H (Some (fr_run_id r)) digest rows))"

text \<open>\<open>SELECT ... ORDER BY run_id ASC, sequence ASC\<close>\<close>

definition rows_in_order :: "event_file \<Rightarrow> file_row list" where
  "rows_in_order f = sort_key fr_run_id (sort_key fr_sequence (rows_of (ef_events f)))"

definition backfill_chain_digests :: "hash \<Rightarrow> (event_file, unit) action" where
  "backfill_chain_digests H =
     bindA (askA (\<lambda>f. Inr (rows_in_order f))) (backfill_from H None CHAIN_SEED)"

text \<open>The statements in their order; the second script first commits the backfill.\<close>

definition opening_steps :: "hash \<Rightarrow> (event_file on_disk, unit) action" where
  "opening_steps H =
     bindA (statementA create_event_table) (\<lambda>_.
     bindA (statementA create_event_index) (\<lambda>_.
     bindA (statementA create_snapshot_table) (\<lambda>_.
     bindA (queryA (\<lambda>f. ef_column f = NoColumn)) (\<lambda>added_chain_digest.
     bindA (if added_chain_digest then statementA add_chain_column else returnA ()) (\<lambda>_.
     bindA (queryA missing_digest) (\<lambda>missing.
     bindA (if added_chain_digest \<or> missing then commitA (backfill_chain_digests H) else returnA ()) (\<lambda>_.
     bindA (statementA create_no_update) (\<lambda>_.
     statementA create_no_delete))))))))"

definition initialize_schema :: "hash \<Rightarrow> (event_file, unit) action" where
  "initialize_schema H = opened (opening_steps H)"

text \<open>
  \<open>append\<close> on the file: what the operation does with a digest that may be missing and under the
  constraints of the table at hand. (\<open>append\<close> on an \<open>EventDB\<close> is the case of a new file.)
\<close>

definition file_insert :: "event_file \<Rightarrow> file_row \<Rightarrow> event_file result" where
  "file_insert f row =
     ensure ((ef_check f \<longrightarrow> 0 \<le> fr_sequence row) \<and> (ef_column f = NotNull \<longrightarrow> fr_chain_digest row \<noteq> None) \<and>
       (\<forall>r \<in> set (rows_of (ef_events f)). fr_event_id r \<noteq> fr_event_id row \<and>
          (fr_run_id r \<noteq> fr_run_id row \<or> fr_sequence r \<noteq> fr_sequence row))) IntegrityError
     (Inr (f\<lparr>ef_events := Some (rows_of (ef_events f) @ [row])\<rparr>))"

definition file_append :: "hash \<Rightarrow> event_file \<Rightarrow> ExecutionEvent \<Rightarrow> event_file result" where
  "file_append H f e =
     (case find (\<lambda>r. fr_event_id r = ev_event_id e) (rows_of (ef_events f)) of
        Some existing \<Rightarrow>
          ensure (fr_fingerprint existing = fingerprint H e) DuplicateEventConflictError (Inr f)
      | None \<Rightarrow>
          let rows = sort_key fr_sequence (filter (\<lambda>r. fr_run_id r = ev_run_id e) (rows_of (ef_events f)));
              expected_sequence = (if rows = [] then 0 else fr_sequence (last rows) + 1);
              previous_digest = (if rows = [] then Some CHAIN_SEED else fr_chain_digest (last rows))
          in ensure (ev_sequence e = expected_sequence) SequenceError
             (case previous_digest of
                None \<Rightarrow> Inl PyRuntimeError
              | Some d \<Rightarrow> file_insert f
                  \<lparr>fr_event_id = ev_event_id e, fr_run_id = ev_run_id e, fr_sequence = ev_sequence e,
                    fr_event_type = type_value (ev_event_type e), fr_occurred_at = isoformat (ev_occurred_at e),
                    fr_payload_json = ev_payload_json e, fr_fingerprint = fingerprint H e,
                    fr_chain_digest = Some (next_chain_digest H d (fingerprint H e))\<rparr>))"

subsection \<open>The file of effects\<close>

text \<open>
  \<open>xf_outcomes\<close>: the values the \<open>CHECK\<close> of \<open>tool_receipts\<close> admits, none when there is no
  such table; \<open>xf_legacy\<close>: the table \<open>tool_receipts_legacy\<close>.
\<close>

record effect_file =
  xf_outcomes :: "string list option"
  xf_tables :: EffectDB
  xf_legacy :: "receipt_row list option"

definition OUTCOMES :: "string list" where
  "OUTCOMES = [''succeeded'', ''failed'', ''timed_out'']"

definition blank_effect_file :: effect_file where
  "blank_effect_file = \<lparr>xf_outcomes = None, xf_tables = empty_effects, xf_legacy = None\<rparr>"

definition create_effect_tables :: "effect_file \<Rightarrow> effect_file" where
  "create_effect_tables f = (case xf_outcomes f of
       None \<Rightarrow> f\<lparr>xf_outcomes := Some OUTCOMES\<rparr> | Some _ \<Rightarrow> f)"

definition rename_receipts :: "(effect_file, unit) action" where
  "rename_receipts f = (case xf_legacy f of
       Some _ \<Rightarrow> (Inl OperationalError, f)
     | None \<Rightarrow> (Inr (), f\<lparr>xf_outcomes := None, xf_tables := (xf_tables f)\<lparr>tool_receipts := []\<rparr>,
         xf_legacy := Some (tool_receipts (xf_tables f))\<rparr>))"

definition create_receipts :: "effect_file \<Rightarrow> effect_file" where
  "create_receipts f = f\<lparr>xf_outcomes := Some OUTCOMES\<rparr>"

text \<open>An insert while foreign keys are off: the key and the \<open>CHECK\<close> still hold.\<close>

definition copy_receipt :: "receipt_row \<Rightarrow> (effect_file, unit) action" where
  "copy_receipt q f =
     (if (\<forall>r \<in> set (tool_receipts (xf_tables f)). rr_effect_id r \<noteq> rr_effect_id q) \<and>
         rr_outcome q \<in> set (rows_of (xf_outcomes f))
      then (Inr (), f\<lparr>xf_tables := (xf_tables f)\<lparr>tool_receipts := tool_receipts (xf_tables f) @ [q]\<rparr>\<rparr>)
      else (Inl IntegrityError, f))"

fun copy_receipts :: "receipt_row list \<Rightarrow> (effect_file, unit) action" where
  "copy_receipts [] = returnA ()"
| "copy_receipts (q # qs) = bindA (copy_receipt q) (\<lambda>_. copy_receipts qs)"

definition drop_legacy :: "effect_file \<Rightarrow> effect_file" where
  "drop_legacy f = f\<lparr>xf_legacy := None\<rparr>"

definition migrate_receipt_outcomes :: "(effect_file, unit) action" where
  "migrate_receipt_outcomes =
     bindA (askA (\<lambda>f. Inr (xf_outcomes f))) (\<lambda>outcomes.
     if outcomes = None \<or> ''timed_out'' \<in> set (rows_of outcomes) then returnA ()
     else transactionA
       (bindA rename_receipts (\<lambda>_.
        bindA (scriptA create_receipts) (\<lambda>_.
        bindA (askA (\<lambda>f. Inr (rows_of (xf_legacy f)))) (\<lambda>rows.
        bindA (copy_receipts rows) (\<lambda>_.
        scriptA drop_legacy))))))"

definition initialize_effect_schema :: "(effect_file, unit) action" where
  "initialize_effect_schema =
     bindA (scriptA create_effect_tables) (\<lambda>_. migrate_receipt_outcomes)"


subsection \<open>What the backfill writes\<close>

text \<open>The digests in order, before they reach the table.\<close>

fun backfill_digests :: "hash \<Rightarrow> string option \<Rightarrow> string \<Rightarrow> file_row list \<Rightarrow> (string \<times> string) list" where
  "backfill_digests H p d [] = []"
| "backfill_digests H p d (r # rows) =
     (let c = next_chain_digest H (if Some (fr_run_id r) \<noteq> p then CHAIN_SEED else d) (fr_fingerprint r)
      in (fr_event_id r, c) # backfill_digests H (Some (fr_run_id r)) c rows)"

definition with_digests :: "(string \<Rightarrow> string option) \<Rightarrow> file_row list \<Rightarrow> file_row list" where
  "with_digests m = map (\<lambda>r. case m (fr_event_id r) of
     None \<Rightarrow> r | Some c \<Rightarrow> r\<lparr>fr_chain_digest := Some c\<rparr>)"

lemma set_digest_ids [simp]: "map fr_event_id (set_digest i c rows) = map fr_event_id rows"
  by (simp add: set_digest_def)

lemma with_digests_after:
  "with_digests m (set_digest i c rows) = with_digests (\<lambda>k. case m k of None \<Rightarrow> if k = i then Some c else None | Some x \<Rightarrow> Some x) rows"
  by (auto simp: with_digests_def set_digest_def split: option.split)

lemma backfill_digests_ids: "map fst (backfill_digests H p d rows) = map fr_event_id rows"
  by (induction rows arbitrary: p d) (simp_all add: Let_def)

lemma with_digests_empty [simp]: "with_digests (\<lambda>_. None) rows = rows"
  by (simp add: with_digests_def)

lemma map_of_none: "i \<notin> set (map fst xs) \<Longrightarrow> map_of xs i = None"
  by (simp add: map_of_eq_None_iff)

lemma backfill_from_eval:
  assumes "\<not> ef_no_update f" and "distinct (map fr_event_id rows)"
  shows "backfill_from H p d rows f =
    (Inr (), f\<lparr>ef_events := map_option (with_digests (map_of (backfill_digests H p d rows))) (ef_events f)\<rparr>)"
  using assms
proof (induction rows arbitrary: p d f)
  case Nil
  show ?case by (cases f) (simp add: option.map_ident_strong)
next
  case (Cons r rows)
  define c where "c = next_chain_digest H (if Some (fr_run_id r) \<noteq> p then CHAIN_SEED else d) (fr_fingerprint r)"
  let ?b = "backfill_digests H (Some (fr_run_id r)) c rows"
  let ?g = "f\<lparr>ef_events := map_option (set_digest (fr_event_id r) c) (ef_events f)\<rparr>"
  have new: "map_of ?b (fr_event_id r) = None"
    using Cons.prems(2) by (intro map_of_none) (simp add: backfill_digests_ids)
  have m: "(\<lambda>k. case map_of ?b k of None \<Rightarrow> if k = fr_event_id r then Some c else None | Some x \<Rightarrow> Some x)
      = map_of ((fr_event_id r, c) # ?b)"
    using new by (auto simp: fun_eq_iff split: option.split)
  have b: "backfill_digests H p d (r # rows) = (fr_event_id r, c) # ?b" by (simp add: c_def Let_def)
  have "backfill_from H p d (r # rows) f = backfill_from H (Some (fr_run_id r)) c rows ?g"
    using Cons.prems(1) by (simp add: Let_def c_def bindA_def update_digest_def)
  also have "\<dots> = (Inr (), f\<lparr>ef_events :=
      map_option (with_digests (map_of ((fr_event_id r, c) # ?b))) (ef_events f)\<rparr>)"
    using Cons.IH [of ?g "Some (fr_run_id r)" c] Cons.prems
    by (simp add: option.map_comp comp_def with_digests_after m del: map_of.simps)
  finally show ?case unfolding b .
qed

lemma set_rows_in_order [simp]: "set (rows_in_order f) = set (rows_of (ef_events f))"
  by (simp add: rows_in_order_def)

lemma distinct_in_order:
  "distinct (map fr_event_id (rows_in_order f)) \<longleftrightarrow> distinct (map fr_event_id (rows_of (ef_events f)))"
  by (simp add: distinct_map rows_in_order_def)

text \<open>\<open>PRIMARY KEY\<close>\<close>

definition keyed :: "event_file \<Rightarrow> bool" where
  "keyed f \<longleftrightarrow> distinct (map fr_event_id (rows_of (ef_events f)))"

definition backfilled :: "hash \<Rightarrow> event_file \<Rightarrow> event_file" where
  "backfilled H f = f\<lparr>ef_events := map_option (with_digests
     (map_of (backfill_digests H None CHAIN_SEED (rows_in_order f)))) (ef_events f)\<rparr>"

lemma backfill_eval:
  "keyed f \<Longrightarrow> \<not> ef_no_update f \<Longrightarrow> backfill_chain_digests H f = (Inr (), backfilled H f)"
  using backfill_from_eval [of f "rows_in_order f" H None CHAIN_SEED]
  by (simp add: backfill_chain_digests_def backfilled_def keyed_def distinct_in_order bindA_ask)

lemma backfilled_not_missing: "\<not> missing_digest (backfilled H f)"
proof
  assume "missing_digest (backfilled H f)"
  let ?m = "map_of (backfill_digests H None CHAIN_SEED (rows_in_order f))"
  obtain rows r where rows: "ef_events f = Some rows" and r: "r \<in> set rows"
    and none: "?m (fr_event_id r) = None"
    using \<open>missing_digest (backfilled H f)\<close>
    by (cases "ef_events f") (auto simp: missing_digest_def backfilled_def with_digests_def split: option.splits)
  with r have "fr_event_id r \<in> set (map fst (backfill_digests H None CHAIN_SEED (rows_in_order f)))"
    by (simp add: backfill_digests_ids rows)
  with none show False by (simp add: map_of_eq_None_iff)
qed


subsection \<open>The whole upgrade\<close>

definition created :: "event_file \<Rightarrow> event_file" where
  "created f = create_snapshot_table (create_event_index (create_event_table f))"

definition prepared :: "event_file \<Rightarrow> event_file" where
  "prepared f = (if ef_column (created f) = NoColumn then add_chain_column (created f) else created f)"

definition create_triggers :: "event_file \<Rightarrow> event_file" where
  "create_triggers f = create_no_delete (create_no_update f)"

lemmas stage_defs = created_def create_event_table_def create_event_index_def create_snapshot_table_def
  prepared_def add_chain_column_def create_triggers_def create_no_update_def create_no_delete_def

lemma keyed_prepared [simp]: "keyed (prepared f) = keyed f"
  by (cases "ef_events f") (simp_all add: keyed_def stage_defs comp_def)

lemma prepared_no_update [simp]: "ef_no_update (prepared f) = ef_no_update f"
  by (cases "ef_events f") (simp_all add: stage_defs)

lemma no_missing_no_rows:
  "\<not> missing_digest (add_chain_column g) \<Longrightarrow> rows_of (ef_events (add_chain_column g)) = []"
  by (cases "ef_events g"; cases "rows_of (ef_events g)") (auto simp: missing_digest_def add_chain_column_def)

lemma backfill_no_rows: "rows_of (ef_events f) = [] \<Longrightarrow> backfill_chain_digests H f = (Inr (), f)"
  by (simp add: backfill_chain_digests_def bindA_ask rows_in_order_def)

lemma backfill_refused:
  assumes "missing_digest f" and "ef_no_update f"
  shows "backfill_chain_digests H f = (Inl IntegrityError, f)"
proof -
  from assms(1) have "rows_of (ef_events f) \<noteq> []" by (auto simp: missing_digest_def)
  then obtain r rows where r: "rows_in_order f = r # rows"
    by (metis set_rows_in_order list.exhaust set_empty)
  then have "r \<in> set (rows_of (ef_events f))" by (metis set_rows_in_order list.set_intros(1))
  with assms(2) have "update_digest (fr_event_id r) c f = (Inl IntegrityError, f)" for c
    by (auto simp: update_digest_def)
  then show ?thesis by (simp add: backfill_chain_digests_def bindA_ask r Let_def bindA_def)
qed

text \<open>The result of the opening, and the files its commits leave.\<close>

definition commits_before :: "event_file \<Rightarrow> event_file list" where
  "commits_before f =
     [create_event_table f, create_event_index (create_event_table f), created f] @
     (if ef_column (created f) = NoColumn then [prepared f] else [])"

definition commits_after :: "event_file \<Rightarrow> event_file list" where
  "commits_after f = [create_no_update f, create_triggers f]"

lemma opening_steps_eval:
  assumes "keyed f"
  shows "opening_steps H (f, []) =
    (if \<not> missing_digest (prepared f)
     then (Inr (), (create_triggers (prepared f), commits_before f @
       (if ef_column (created f) = NoColumn then [prepared f] else []) @ commits_after (prepared f)))
     else if ef_no_update f then (Inl IntegrityError, (prepared f, commits_before f))
     else (Inr (), (create_triggers (backfilled H (prepared f)),
       commits_before f @ [backfilled H (prepared f)] @ commits_after (backfilled H (prepared f)))))"
proof -
  let ?g = "created f"
  have "opening_steps H (f, []) =
      bindA (if ef_column ?g = NoColumn \<or> missing_digest (prepared f)
        then commitA (backfill_chain_digests H) else returnA ())
        (\<lambda>_. bindA (statementA create_no_update) (\<lambda>_. statementA create_no_delete)) (prepared f, commits_before f)"
    by (simp add: opening_steps_def bindA_def prepared_def commits_before_def created_def returnA_def)
  moreover have "backfill_chain_digests H (prepared f) = (Inr (), prepared f)"
    if "ef_column ?g = NoColumn" "\<not> missing_digest (prepared f)"
    using that no_missing_no_rows [of ?g] by (intro backfill_no_rows) (simp add: prepared_def)
  moreover note backfill_refused [of "prepared f" H] backfill_eval [of "prepared f" H]
  ultimately show ?thesis using assms
    by (auto simp: bindA_def commitA_def transactionA_def returnA_def commits_after_def create_triggers_def)
qed

lemma initialize_schema_eval:
  assumes "keyed f"
  shows "initialize_schema H f =
    (if \<not> missing_digest (prepared f) then (Inr (), create_triggers (prepared f))
     else if ef_no_update f then (Inl IntegrityError, prepared f)
     else (Inr (), create_triggers (backfilled H (prepared f))))"
  using opening_steps_eval [OF assms, of H] by (simp add: initialize_schema_def opened_def)

subsection \<open>The file of a store\<close>

definition file_row_of :: "event_row \<Rightarrow> file_row" where
  "file_row_of r = \<lparr>fr_event_id = er_event_id r, fr_run_id = er_run_id r,
     fr_sequence = er_sequence r, fr_event_type = er_event_type r, fr_occurred_at = er_occurred_at r,
     fr_payload_json = er_payload_json r, fr_fingerprint = er_fingerprint r,
     fr_chain_digest = Some (er_chain_digest r)\<rparr>"

definition event_file_of :: "EventDB \<Rightarrow> event_file" where
  "event_file_of db = \<lparr>ef_events = Some (map file_row_of (execution_events db)),
     ef_column = NotNull, ef_check = True, ef_index = True,
     ef_snapshots = Some (run_snapshots db), ef_no_update = True, ef_no_delete = True\<rparr>"

text \<open>A row without its digest: what the versions before the column stored.\<close>

definition undigested :: "file_row \<Rightarrow> file_row" where
  "undigested r = r\<lparr>fr_chain_digest := None\<rparr>"

lemma file_row_of_sel [simp]:
  "fr_event_id (file_row_of r) = er_event_id r" "fr_run_id (file_row_of r) = er_run_id r"
  "fr_sequence (file_row_of r) = er_sequence r" "fr_fingerprint (file_row_of r) = er_fingerprint r"
  "fr_chain_digest (file_row_of r) = Some (er_chain_digest r)"
  by (simp_all add: file_row_of_def)

lemma undigested_sel [simp]:
  "fr_event_id (undigested r) = fr_event_id r" "fr_run_id (undigested r) = fr_run_id r"
  "fr_sequence (undigested r) = fr_sequence r" "fr_fingerprint (undigested r) = fr_fingerprint r"
  by (simp_all add: undigested_def)

lemma backfill_digests_cong:
  "map undigested xs = map undigested ys \<Longrightarrow> backfill_digests H p d xs = backfill_digests H p d ys"
proof (induction xs arbitrary: ys p d)
  case (Cons x xs)
  then obtain y ys' where y: "ys = y # ys'" "undigested x = undigested y" "map undigested xs = map undigested ys'"
    by (cases ys) auto
  from y(2) have "fr_event_id x = fr_event_id y" "fr_run_id x = fr_run_id y"
      "fr_fingerprint x = fr_fingerprint y" by (metis undigested_sel)+
  with Cons.IH [OF y(3)] y(1) show ?case by (simp add: Let_def)
qed simp

lemma insort_key_map: "insort_key k (g x) (map g xs) = map g (insort_key (\<lambda>x. k (g x)) x xs)"
  by (induction xs) simp_all

lemma sort_key_map: "sort_key k (map g xs) = map g (sort_key (k \<circ> g) xs)"
  by (induction xs) (simp_all add: insort_key_map comp_def)

lemma backfill_digests_chain:
  assumes "sorted (map er_run_id ys)"
    and "\<And>run. filter (\<lambda>r. er_run_id r = run) ys = chain_rows H (if p = Some run then d else CHAIN_SEED) (es run)"
    and "\<And>run. p = Some run \<Longrightarrow> \<forall>r \<in> set ys. run \<le> er_run_id r"
  shows "backfill_digests H p d (map file_row_of ys) = map (\<lambda>r. (er_event_id r, er_chain_digest r)) ys"
  using assms
proof (induction ys arbitrary: p d es)
  case (Cons r ys)
  let ?run = "er_run_id r"
  let ?d = "if p = Some ?run then d else CHAIN_SEED"
  from Cons.prems(2) [of ?run] obtain e es' where e: "es ?run = e # es'"
    and r: "r = row_of_event H e (next_chain_digest H ?d (fingerprint H e))"
    and rs: "filter (\<lambda>q. er_run_id q = ?run) ys =
      chain_rows H (next_chain_digest H ?d (fingerprint H e)) es'"
    by (cases "es ?run") (auto simp: Let_def)
  define c where "c = next_chain_digest H ?d (fingerprint H e)"
  have fp: "er_fingerprint r = fingerprint H e" and cd: "er_chain_digest r = c"
    by (subst r, simp add: row_of_event_def c_def)+
  have "backfill_digests H (Some ?run) c (map file_row_of ys) =
      map (\<lambda>r. (er_event_id r, er_chain_digest r)) ys"
  proof (rule Cons.IH)
    show "sorted (map er_run_id ys)" using Cons.prems(1) by simp
    show "\<forall>q \<in> set ys. run \<le> er_run_id q" if "Some ?run = Some run" for run
      using that Cons.prems(1) by auto
    show "filter (\<lambda>q. er_run_id q = run) ys =
      chain_rows H (if Some ?run = Some run then c else CHAIN_SEED) ((es(?run := es')) run)" for run
    proof (cases "run = ?run")
      case True
      with rs show ?thesis by (simp add: c_def)
    next
      case False
      have "filter (\<lambda>q. er_run_id q = run) ys = []" if "p = Some run"
        using Cons.prems(1) Cons.prems(3) [OF that] False by (fastforce simp: filter_empty_conv)
      with False Cons.prems(2) [of run] show ?thesis
        by (cases "es run") (auto simp: Let_def split: if_splits)
    qed
  qed
  moreover have "next_chain_digest H (if Some ?run \<noteq> p then CHAIN_SEED else d) (fingerprint H e) = c"
    by (simp add: c_def)
  ultimately show ?case by (simp add: Let_def fp cd)
qed simp

lemma store_rows_in_order:
  assumes ok: "events_ok H db" and rows: "map undigested (rows_of (ef_events f)) =
    map undigested (map file_row_of (execution_events db))"
  shows "set (backfill_digests H None CHAIN_SEED (rows_in_order f)) =
    (\<lambda>r. (er_event_id r, er_chain_digest r)) ` set (execution_events db)"
proof -
  let ?ys = "sort_key er_run_id (sort_key er_sequence (execution_events db))"
  have k: "fr_run_id \<circ> undigested = fr_run_id" "fr_sequence \<circ> undigested = fr_sequence"
    "fr_run_id \<circ> file_row_of = er_run_id" "fr_sequence \<circ> file_row_of = er_sequence" by (auto simp: fun_eq_iff)
  have "map undigested (rows_in_order f) = map undigested (map file_row_of ?ys)"
    using rows sort_key_map [of fr_sequence undigested] sort_key_map [of fr_run_id undigested]
      sort_key_map [of fr_sequence file_row_of] sort_key_map [of fr_run_id file_row_of]
    unfolding rows_in_order_def k by metis
  moreover have "filter (\<lambda>r. er_run_id r = run) ?ys =
      chain_rows H (if None = Some run then d else CHAIN_SEED) (history db run)" for run d
    using run_rows_history [OF stored_history_log [OF ok, of run]]
    by (simp add: run_rows_def sort_key_stable filter_sort)
  ultimately show ?thesis
    using backfill_digests_cong [of "rows_in_order f" "map file_row_of ?ys" H None CHAIN_SEED]
      backfill_digests_chain [of ?ys H None CHAIN_SEED "history db"] by simp
qed

lemma with_digests_store:
  assumes "map undigested rows = map undigested (map file_row_of ers)"
    and "\<forall>r \<in> set ers. m (er_event_id r) = Some (er_chain_digest r)"
  shows "with_digests m rows = map file_row_of ers"
  using assms
proof (induction ers arbitrary: rows)
  case (Cons r ers)
  then obtain q rows' where q: "rows = q # rows'" "undigested q = undigested (file_row_of r)"
    "map undigested rows' = map undigested (map file_row_of ers)" by (cases rows) auto
  from q(2) have "q\<lparr>fr_chain_digest := Some (er_chain_digest r)\<rparr> = file_row_of r"
    by (cases q) (simp add: undigested_def file_row_of_def)
  moreover from q(2) have "fr_event_id q = er_event_id r"
    by (metis undigested_sel(1) file_row_of_sel(1))
  ultimately show ?case using Cons.IH [OF q(3)] Cons.prems(2) q(1) by (simp add: with_digests_def)
qed (simp add: with_digests_def)

lemma undigested_prepared:
  "map undigested (rows_of (ef_events (prepared f))) = map undigested (rows_of (ef_events f))"
  by (cases "ef_events f")
     (simp_all add: stage_defs undigested_def)

lemma store_ids:
  assumes "events_ok H db" and "map undigested (rows_of (ef_events f)) =
    map undigested (map file_row_of (execution_events db))"
  shows "keyed f"
proof -
  have "map fr_event_id (map undigested (rows_of (ef_events f))) = map er_event_id (execution_events db)"
    by (subst assms(2)) simp
  then show ?thesis using assms(1) by (simp add: keyed_def events_ok_def comp_def)
qed

lemma backfilled_store:
  assumes ok: "events_ok H db" and some: "ef_events f = Some rs"
    and rows: "map undigested rs = map undigested (map file_row_of (execution_events db))"
  shows "create_triggers (backfilled H (prepared f)) =
    (event_file_of db)\<lparr>ef_snapshots := Some (rows_of (ef_snapshots f)), ef_check := ef_check f,
      ef_column := (if ef_column f = NoColumn then Nullable else ef_column f)\<rparr>"
proof -
  let ?g = "prepared f"
  let ?b = "backfill_digests H None CHAIN_SEED (rows_in_order ?g)"
  have r: "map undigested (rows_of (ef_events f)) = map undigested (map file_row_of (execution_events db))"
    using some rows by simp
  note rows' = trans [OF undigested_prepared r]
  have g: "ef_events ?g \<noteq> None" "ef_column ?g = (if ef_column f = NoColumn then Nullable else ef_column f)"
    "ef_snapshots ?g = Some (rows_of (ef_snapshots f))" "ef_check ?g = ef_check f" "ef_index ?g"
    using some by (simp_all add: stage_defs)
  have "distinct (map fst ?b)"
    using store_ids [OF ok rows'] by (simp add: backfill_digests_ids distinct_in_order keyed_def)
  then have "map_of ?b (er_event_id r) = Some (er_chain_digest r)" if "r \<in> set (execution_events db)" for r
    using that store_rows_in_order [OF ok rows'] by (auto intro: map_of_is_SomeI)
  with with_digests_store [OF rows'] have "with_digests (map_of ?b) (rows_of (ef_events ?g)) =
      map file_row_of (execution_events db)" by blast
  with g show ?thesis
    by (cases "ef_events ?g") (auto simp: create_triggers_def create_no_update_def create_no_delete_def
        backfilled_def event_file_of_def)
qed

subsection \<open>Appending to the file of a store\<close>

lemma find_map: "find P (map g xs) = map_option g (find (\<lambda>x. P (g x)) xs)"
  by (induction xs) simp_all

text \<open>Under the constraints of any version the operation is the one on the tables.\<close>

lemma file_append_store:
  assumes ok: "events_ok H db" and f: "ef_events f = Some (map file_row_of (execution_events db))"
  shows "file_append H f e =
    map_sum id (\<lambda>db'. f\<lparr>ef_events := Some (map file_row_of (execution_events db'))\<rparr>) (append H db e)"
proof -
  obtain es where es: "stored_history H db (ev_run_id e) es" using ok by (auto simp: events_ok_def)
  have k: "fr_sequence \<circ> file_row_of = er_sequence" by (simp add: fun_eq_iff)
  have rows: "sort_key fr_sequence (filter (\<lambda>r. fr_run_id r = ev_run_id e) (rows_of (ef_events f))) =
      map file_row_of (run_rows db (ev_run_id e))"
    by (simp add: f filter_map comp_def sort_key_map k [unfolded comp_def] run_rows_def)
  have "0 \<le> er_sequence r" if "r \<in> set (run_rows db (ev_run_id e))" for r
  proof -
    have "er_sequence r \<in> set (map er_sequence (chain_rows H CHAIN_SEED es))"
      using that run_rows_history [OF es] by simp
    then show ?thesis unfolding history_rows [OF es] by auto
  qed
  then have "run_rows db (ev_run_id e) = [] \<or> 0 \<le> er_sequence (last (run_rows db (ev_run_id e)))"
    using last_in_set by blast
  then have nonneg: "0 \<le> n" if "n = (if run_rows db (ev_run_id e) = [] then 0 else er_sequence (last (run_rows db (ev_run_id e))) + 1)" for n
    using that by auto
  have insert: "file_insert f (file_row_of row) =
      map_sum id (\<lambda>db'. f\<lparr>ef_events := Some (map file_row_of (execution_events db'))\<rparr>) (insert_event db row)"
    if "0 \<le> er_sequence row" for row
    using that by (simp add: file_insert_def insert_event_def f ensure_def)
  show ?thesis
  proof (cases "find (\<lambda>r. er_event_id r = ev_event_id e) (execution_events db)")
    case (Some r)
    then show ?thesis using f by (cases f) (simp add: file_append_def append_def find_map ensure_def)
  next
    case None
    let ?rows = "run_rows db (ev_run_id e)"
    let ?d = "if ?rows = [] then CHAIN_SEED else er_chain_digest (last ?rows)"
    let ?n = "if ?rows = [] then 0 else er_sequence (last ?rows) + 1"
    have "(if map file_row_of ?rows = [] then 0 else fr_sequence (last (map file_row_of ?rows)) + 1) = ?n"
      "(if map file_row_of ?rows = [] then Some CHAIN_SEED else fr_chain_digest (last (map file_row_of ?rows))) = Some ?d"
      by (simp_all add: last_map)
    then have "file_append H f e = ensure (ev_sequence e = ?n) SequenceError
        (file_insert f (file_row_of (row_of_event H e (next_chain_digest H ?d (fingerprint H e)))))"
      using None unfolding file_append_def rows Let_def
      by (simp only: f find_map rows_of.simps) (simp add: row_of_event_def file_row_of_def)
    moreover have "append H db e = ensure (ev_sequence e = ?n) SequenceError
        (insert_event db (row_of_event H e (next_chain_digest H ?d (fingerprint H e))))"
      using None by (simp add: append_def Let_def)
    moreover have "er_sequence (row_of_event H e c) = ev_sequence e" for c by (simp add: row_of_event_def)
    ultimately show ?thesis using insert nonneg [of "ev_sequence e"] by (auto simp: ensure_def)
  qed
qed

end
