(* ===== verification/UpgradeProperties.thy ===== *)
theory UpgradeProperties
  imports StoreMigration StoreProperties EffectProperties
begin

section \<open>Properties of the upgrade of a store\<close>

text \<open>
  Opening a store brings its file to the schema the operations run on: what an older version
  wrote becomes what the current version would have written, no fact is lost, and an upgrade that
  was interrupted is taken up again.
\<close>

subsection \<open>Stages of the upgrade\<close>

lemma prepared_stages [simp]:
  "prepared (create_event_table f) = prepared f"
  "prepared (create_event_index (create_event_table f)) = prepared f"
  "prepared (created f) = prepared f"
  "prepared (prepared f) = prepared f"
  "prepared (create_no_update (prepared f)) = create_no_update (prepared f)"
  "prepared (create_triggers (prepared f)) = create_triggers (prepared f)"
  by (cases f; cases "ef_events f"; simp add: stage_defs)+

lemma prepared_backfilled [simp]:
  "prepared (backfilled H (prepared f)) = backfilled H (prepared f)"
  "prepared (create_no_update (backfilled H (prepared f))) = create_no_update (backfilled H (prepared f))"
  "prepared (create_triggers (backfilled H (prepared f))) = create_triggers (backfilled H (prepared f))"
  by (cases f; cases "ef_events f"; simp add: stage_defs backfilled_def)+

lemma create_triggers_again [simp]:
  "create_triggers (create_triggers f) = create_triggers f"
  "create_triggers (create_no_update f) = create_triggers f"
  by (simp_all add: stage_defs)

lemma stage_flags [simp]:
  "missing_digest (create_triggers f) = missing_digest f" "missing_digest (create_no_update f) = missing_digest f"
  "ef_no_update (create_event_table f) = ef_no_update f"
  "ef_no_update (create_event_index (create_event_table f)) = ef_no_update f"
  "ef_no_update (created f) = ef_no_update f" "ef_no_update (backfilled H f) = ef_no_update f"
  by (cases "ef_events f"; simp add: missing_digest_def stage_defs backfilled_def)+

lemma keyed_stages [simp]:
  "keyed (create_event_table f) = keyed f"
  "keyed (create_event_index (create_event_table f)) = keyed f"
  "keyed (created f) = keyed f"
  "keyed (create_no_update f) = keyed f"
  "keyed (create_triggers f) = keyed f"
  "keyed (backfilled H f) = keyed f"
proof -
  show "keyed (create_event_table f) = keyed f" "keyed (create_event_index (create_event_table f)) = keyed f"
    "keyed (created f) = keyed f" "keyed (create_no_update f) = keyed f" "keyed (create_triggers f) = keyed f"
    by (cases "ef_events f"; simp add: keyed_def stage_defs)+
  have "map fr_event_id (with_digests m rows) = map fr_event_id rows" for m rows
    by (simp add: with_digests_def split: option.split)
  then show "keyed (backfilled H f) = keyed f"
    by (cases "ef_events f") (simp_all add: keyed_def backfilled_def)
qed

lemma new_file_opens_empty:
  "initialize_schema H blank_event_file = (Inr (), event_file_of empty_events)"
  "initialize_effect_schema blank_effect_file =
    (Inr (), \<lparr>xf_outcomes = Some OUTCOMES, xf_tables = empty_effects, xf_legacy = None\<rparr>)"
  by (simp_all add: initialize_schema_eval keyed_def missing_digest_def stage_defs
      blank_event_file_def event_file_of_def empty_events_def blank_effect_file_def
      initialize_effect_schema_def migrate_receipt_outcomes_def create_effect_tables_def OUTCOMES_def
      bindA_def scriptA_def)

text \<open>
  What an older version wrote for a store: its events in a table without the column of digests or
  with rows whose digest is missing, perhaps without the check of the sequence, and no trigger yet.
\<close>

definition legacy_of :: "EventDB \<Rightarrow> event_file \<Rightarrow> bool" where
  "legacy_of db f \<longleftrightarrow>
     (\<exists>rows. ef_events f = Some rows \<and> map undigested rows = map undigested (map file_row_of (execution_events db)) \<and>
        (ef_column f = NoColumn \<or> ef_column f = Nullable \<and> (\<exists>r \<in> set rows. fr_chain_digest r = None))) \<and>
     rows_of (ef_snapshots f) = run_snapshots db \<and> \<not> ef_no_update f"

text \<open>C16: Opening a file of events that an older version wrote gives the file that the current version
  would have written for that store in all but two constraints: the same events in the same order,
  the chain of digests of every run from its first event, the snapshots, the index and the triggers
  that make the log immutable. The constraints are those of the older table: its column of digests
  may hold \<open>NULL\<close>, and the sequence is checked only if it was before. They make no difference:
  every append to the upgraded file does what it does to a file of the current version.\<close>

theorem legacy_file_opens_as_store:
  assumes "events_ok H db" and "legacy_of db f"
  shows "initialize_schema H f = (Inr (), (event_file_of db)\<lparr>ef_column := Nullable, ef_check := ef_check f\<rparr>) \<and>
    (\<forall>e. file_append H ((event_file_of db)\<lparr>ef_column := Nullable, ef_check := ef_check f\<rparr>) e =
      map_sum id (\<lambda>db'. (event_file_of db')\<lparr>ef_column := Nullable, ef_check := ef_check f\<rparr>) (append H db e)) \<and>
    (\<forall>e. file_append H (event_file_of db) e = map_sum id event_file_of (append H db e))"
proof (intro conjI allI)
  from assms(2) obtain rows where f: "ef_events f = Some rows"
      "map undigested rows = map undigested (map file_row_of (execution_events db))"
      "ef_column f = NoColumn \<or> ef_column f = Nullable \<and> (\<exists>r \<in> set rows. fr_chain_digest r = None)"
      "rows_of (ef_snapshots f) = run_snapshots db" "\<not> ef_no_update f"
    by (auto simp: legacy_of_def)
  have b: "create_triggers (backfilled H (prepared f)) = (event_file_of db)\<lparr>ef_column := Nullable, ef_check := ef_check f\<rparr>"
    using backfilled_store [OF assms(1) f(1,2)] f(3,4) by (auto simp: event_file_of_def)
  have "backfilled H (prepared f) = prepared f" if "\<not> missing_digest (prepared f)"
  proof -
    have "rows_of (ef_events (prepared f)) = []"
      using that f(1,3) no_missing_no_rows [of "created f"] by (auto simp: stage_defs missing_digest_def split: if_splits)
    then show ?thesis by (cases "ef_events (prepared f)") (simp_all add: backfilled_def with_digests_def)
  qed
  moreover have "keyed f" using f(1,2) by (intro store_ids [OF assms(1)]) simp
  ultimately show "initialize_schema H f = (Inr (), (event_file_of db)\<lparr>ef_column := Nullable, ef_check := ef_check f\<rparr>)"
    using initialize_schema_eval [of f H] b f(5) by auto
  fix e
  have snapshots: "run_snapshots db' = run_snapshots db" if "append H db e = Inr db'" for db'
    using that by (auto simp: append_def insert_event_def Let_def result_simps split: option.splits)
  show "file_append H ((event_file_of db)\<lparr>ef_column := Nullable, ef_check := ef_check f\<rparr>) e =
      map_sum id (\<lambda>db'. (event_file_of db')\<lparr>ef_column := Nullable, ef_check := ef_check f\<rparr>) (append H db e)"
    "file_append H (event_file_of db) e = map_sum id event_file_of (append H db e)"
  proof (atomize (full), cases "append H db e")
    case (Inr db')
    note s = snapshots [OF Inr]
    show "file_append H ((event_file_of db)\<lparr>ef_column := Nullable, ef_check := ef_check f\<rparr>) e =
        map_sum id (\<lambda>db'. (event_file_of db')\<lparr>ef_column := Nullable, ef_check := ef_check f\<rparr>) (append H db e) \<and>
      file_append H (event_file_of db) e = map_sum id event_file_of (append H db e)"
      using file_append_store [OF assms(1), of "(event_file_of db)\<lparr>ef_column := Nullable, ef_check := ef_check f\<rparr>" e]
        file_append_store [OF assms(1), of "event_file_of db" e]
      by (simp add: event_file_of_def Inr s)
  qed (use file_append_store [OF assms(1), of "(event_file_of db)\<lparr>ef_column := Nullable, ef_check := ef_check f\<rparr>" e]
        file_append_store [OF assms(1), of "event_file_of db" e] in \<open>simp add: event_file_of_def\<close>)
qed

text \<open>C29: The upgrade of a file of events can stop after any of its commits, every one of the
  statements of its scripts among them, and be started again, with the result of an upgrade that was
  not interrupted; a file that was opened lacks no digest and is opened again unchanged. An upgrade
  raises only when a row lacks its digest and the trigger that forbids updates is already there;
  then every event is still in the file as it was, and no later attempt gets past the trigger.\<close>

theorem interrupted_upgrade_resumes:
  assumes "keyed f"
  shows "(\<forall>g \<in> set (commits (opening_steps H) f). initialize_schema H g = initialize_schema H f) \<and>
    (\<forall>g. initialize_schema H f = (Inr (), g) \<longrightarrow>
      initialize_schema H g = (Inr (), g) \<and> \<not> missing_digest g \<and> g = last (commits (opening_steps H) f)) \<and>
    (\<forall>e g. initialize_schema H f = (Inl e, g) \<longrightarrow> e = IntegrityError \<and> ef_no_update f \<and>
      map undigested (rows_of (ef_events g)) = map undigested (rows_of (ef_events f)) \<and>
      initialize_schema H g = (Inl IntegrityError, g))"
proof (intro conjI)
  let ?init = "initialize_schema H"
  have resumed: "?init g = ?init f" if "keyed g" "prepared g = prepared f" "ef_no_update g = ef_no_update f" for g
    using that assms by (simp add: initialize_schema_eval)
  have before: "?init g = ?init f" if "g \<in> set (commits_before f) \<union> {prepared f}" for g
    using that assms by (intro resumed) (auto simp: commits_before_def split: if_splits)
  have after: "?init g = (Inr (), create_triggers h)"
    if "g \<in> {h} \<union> set (commits_after h)" "h \<in> {prepared f, backfilled H (prepared f)}" "\<not> missing_digest h" for g h
    using that assms by (auto simp: commits_after_def initialize_schema_eval)
  show "\<forall>g \<in> set (commits (opening_steps H) f). ?init g = ?init f"
    using opening_steps_eval [OF assms, of H] initialize_schema_eval [OF assms, of H] before
      after [of _ "prepared f"] after [of _ "backfilled H (prepared f)"] backfilled_not_missing [of H "prepared f"]
    by (auto simp: commits_def split: if_splits)
  show "\<forall>g. ?init f = (Inr (), g) \<longrightarrow>
      ?init g = (Inr (), g) \<and> \<not> missing_digest g \<and> g = last (commits (opening_steps H) f)"
    using opening_steps_eval [OF assms, of H] initialize_schema_eval [OF assms, of H] backfilled_not_missing [of H "prepared f"]
      after [of "create_triggers (prepared f)" "prepared f"]
      after [of "create_triggers (backfilled H (prepared f))" "backfilled H (prepared f)"]
    by (auto simp: commits_def commits_after_def split: if_splits)
  show "\<forall>e g. ?init f = (Inl e, g) \<longrightarrow> e = IntegrityError \<and> ef_no_update f \<and>
      map undigested (rows_of (ef_events g)) = map undigested (rows_of (ef_events f)) \<and> ?init g = (Inl IntegrityError, g)"
    using assms undigested_prepared [of f] by (auto simp: initialize_schema_eval split: if_splits)
qed

subsection \<open>Receipts\<close>

lemma copy_receipts_eval:
  assumes "distinct (map rr_effect_id (tool_receipts (xf_tables f) @ qs))"
    and "\<forall>q \<in> set qs. rr_outcome q \<in> set (rows_of (xf_outcomes f))"
  shows "copy_receipts qs f =
    (Inr (), f\<lparr>xf_tables := (xf_tables f)\<lparr>tool_receipts := tool_receipts (xf_tables f) @ qs\<rparr>\<rparr>)"
  using assms
proof (induction qs arbitrary: f)
  case (Cons q qs)
  let ?g = "f\<lparr>xf_tables := (xf_tables f)\<lparr>tool_receipts := tool_receipts (xf_tables f) @ [q]\<rparr>\<rparr>"
  from Cons.prems(1) have "rr_effect_id q \<notin> rr_effect_id ` set (tool_receipts (xf_tables f))" by simp
  then have fresh: "\<forall>r \<in> set (tool_receipts (xf_tables f)). rr_effect_id r \<noteq> rr_effect_id q"
    by (metis imageI)
  then have "copy_receipt q f = (Inr (), ?g)"
    using fresh Cons.prems(2) by (simp add: copy_receipt_def)
  moreover have "copy_receipts qs ?g = (Inr (), ?g\<lparr>xf_tables :=
      (xf_tables ?g)\<lparr>tool_receipts := tool_receipts (xf_tables ?g) @ qs\<rparr>\<rparr>)"
    by (rule Cons.IH) (use Cons.prems in simp_all)
  ultimately show ?case by (simp add: bindA_def)
qed simp

text \<open>C30: Opening a store of effects whose receipts admit only success and failure lets it record
  timeouts without losing a fact: the same intents, the same receipts in their order, and the
  constraint of a new store. Opening it again changes nothing.\<close>

theorem receipt_upgrade_keeps_evidence:
  assumes "effects_ok H (xf_tables f)" and "distinct (map rr_effect_id (tool_receipts (xf_tables f)))"
    and "xf_outcomes f \<in> {None, Some [''succeeded'', ''failed''], Some OUTCOMES}" and "xf_legacy f = None"
  shows "initialize_effect_schema f = (Inr (), f\<lparr>xf_outcomes := Some OUTCOMES\<rparr>) \<and>
    initialize_effect_schema (f\<lparr>xf_outcomes := Some OUTCOMES\<rparr>) = (Inr (), f\<lparr>xf_outcomes := Some OUTCOMES\<rparr>)"
proof -
  have new: "initialize_effect_schema g = (Inr (), g)" if "xf_outcomes g = Some OUTCOMES" for g
    using that by (simp add: initialize_effect_schema_def migrate_receipt_outcomes_def bindA_def scriptA_def
        create_effect_tables_def OUTCOMES_def)
  consider "xf_outcomes f = None" | "xf_outcomes f = Some [''succeeded'', ''failed'']" | "xf_outcomes f = Some OUTCOMES"
    using assms(3) by auto
  then have "initialize_effect_schema f = (Inr (), f\<lparr>xf_outcomes := Some OUTCOMES\<rparr>)"
  proof cases
    case 1
    then show ?thesis by (simp add: initialize_effect_schema_def migrate_receipt_outcomes_def bindA_def scriptA_def
        create_effect_tables_def OUTCOMES_def)
  next
    case 2
    have oc: "\<forall>q \<in> set (tool_receipts (xf_tables f)). rr_outcome q \<in> set OUTCOMES"
    proof
      fix q assume "q \<in> set (tool_receipts (xf_tables f))"
      with assms(1) obtain r where "q = row_of_receipt r" by (auto simp: effects_ok_def)
      then show "rr_outcome q \<in> set OUTCOMES"
        using outcome_value_allowed [of "rc_outcome r"] by (simp only: OUTCOMES_def row_of_receipt_sel) simp
    qed
    let ?g = "f\<lparr>xf_tables := (xf_tables f)\<lparr>tool_receipts := []\<rparr>,
      xf_legacy := Some (tool_receipts (xf_tables f)), xf_outcomes := Some OUTCOMES\<rparr>"
    have "copy_receipts (tool_receipts (xf_tables f)) ?g = (Inr (), ?g\<lparr>xf_tables := xf_tables f\<rparr>)"
      using copy_receipts_eval [of ?g "tool_receipts (xf_tables f)"] assms(2) oc by simp
    then show ?thesis using 2 assms(4)
      by (simp add: initialize_effect_schema_def migrate_receipt_outcomes_def bindA_def scriptA_def
          create_effect_tables_def transactionA_def rename_receipts_def create_receipts_def drop_legacy_def)
  next
    case 3
    then show ?thesis using new [of f] by simp
  qed
  with new show ?thesis by simp
qed

subsection \<open>Files of the older versions\<close>

text \<open>The file an older version would have of the store of the concrete history.\<close>

definition sample_store :: EventDB where
  "sample_store = store_after flat_hash (map Append started_events)"

definition legacy_file :: event_file where
  "legacy_file = \<lparr>ef_events = Some (map undigested (map file_row_of (execution_events sample_store))),
     ef_column = NoColumn, ef_check = False, ef_index = False, ef_snapshots = None, ef_no_update = False,
     ef_no_delete = False\<rparr>"

lemma sample_store_rows [simp]:
  "execution_events sample_store = chain_rows flat_hash CHAIN_SEED started_events"
  "run_snapshots sample_store = []"
  unfolding sample_store_def sample_appended by simp_all

lemma sample_store_ok: "events_ok flat_hash sample_store"
  unfolding sample_store_def using wf_sample_ops
  by (intro store_after_ok) (auto simp: sample_ops_def)

lemma undigested_again: "map undigested (map undigested rows) = map undigested rows"
  by (simp add: undigested_def)

theorem legacy_file_opens_as_store_witness:
  "length (execution_events sample_store) = 2 \<and>
   initialize_schema flat_hash legacy_file =
     (Inr (), (event_file_of sample_store)\<lparr>ef_column := Nullable, ef_check := False\<rparr>)"
proof
  show "length (execution_events sample_store) = 2"
    by (simp add: started_events_def Let_def)
  have "legacy_of sample_store legacy_file"
    by (simp add: legacy_of_def legacy_file_def undigested_again del: map_map)
  from legacy_file_opens_as_store [OF sample_store_ok this]
  show "initialize_schema flat_hash legacy_file =
      (Inr (), (event_file_of sample_store)\<lparr>ef_column := Nullable, ef_check := False\<rparr>)"
    by (simp add: legacy_file_def)
qed

lemma legacy_file_keyed: "keyed legacy_file"
  by (rule store_ids [OF sample_store_ok]) (simp add: legacy_file_def undigested_again del: map_map)

theorem interrupted_upgrade_resumes_witness:
  "missing_digest (prepared legacy_file) \<and> length (commits (opening_steps flat_hash) legacy_file) = 7 \<and>
   initialize_schema flat_hash (commits (opening_steps flat_hash) legacy_file ! 5) =
     initialize_schema flat_hash legacy_file \<and>
   initialize_schema flat_hash (create_triggers (prepared legacy_file)) =
     (Inl IntegrityError, create_triggers (prepared legacy_file))"
proof -
  have m: "missing_digest (prepared legacy_file)" "\<not> ef_no_update legacy_file" "ef_column (created legacy_file) = NoColumn"
    by (auto simp: missing_digest_def stage_defs legacy_file_def started_events_def Let_def)
  have l: "length (commits (opening_steps flat_hash) legacy_file) = 7"
    using m by (simp add: commits_def opening_steps_eval [OF legacy_file_keyed] commits_before_def commits_after_def)
  then have "commits (opening_steps flat_hash) legacy_file ! 5 \<in> set (commits (opening_steps flat_hash) legacy_file)"
    by (intro nth_mem) simp
  moreover
  let ?t = "create_triggers (prepared legacy_file)"
  have "keyed ?t" using legacy_file_keyed by simp
  moreover from this have "initialize_schema flat_hash ?t = (Inl IntegrityError, ?t)"
    using m by (simp add: initialize_schema_eval) (simp add: create_triggers_def create_no_update_def create_no_delete_def)
  ultimately show ?thesis
    using m l interrupted_upgrade_resumes [OF legacy_file_keyed, of flat_hash]
      interrupted_upgrade_resumes [of ?t flat_hash] by blast
qed

definition receipt_file :: effect_file where
  "receipt_file = \<lparr>xf_outcomes = Some [''succeeded'', ''failed''],
     xf_tables = \<lparr>tool_intents = [sample_intent ''pay''],
       tool_receipts = [\<lparr>rr_effect_id = effect_identity ''r'' ''c'', rr_outcome = ''succeeded'',
         rr_output_json = render (JObj [])\<rparr>]\<rparr>, xf_legacy = None\<rparr>"

lemma receipt_file_ok: "effects_ok id (xf_tables receipt_file)"
proof -
  let ?r = "\<lparr>rc_effect_id = effect_identity ''r'' ''c'', rc_outcome = TOOL_SUCCEEDED_OUTCOME, rc_output_json = render (JObj [])\<rparr>"
  have "wf_receipt ?r" by (simp add: wf_receipt_def receipt_post_init_def)
  moreover have "rr_effect_id (hd (tool_receipts (xf_tables receipt_file))) = in_effect_id (sample_intent ''pay'')"
    by (simp add: receipt_file_def sample_intent_def)
  ultimately show ?thesis
    by (auto simp: effects_ok_def receipt_file_def row_of_receipt_def intro!: exI [of _ ?r])
qed

theorem receipt_upgrade_keeps_evidence_witness:
  "initialize_effect_schema receipt_file = (Inr (), receipt_file\<lparr>xf_outcomes := Some OUTCOMES\<rparr>)"
  using receipt_upgrade_keeps_evidence [OF receipt_file_ok] by (simp add: receipt_file_def)

end
