(* ===== verification/Ownership.thy ===== *)
theory Ownership
  imports Prelude
begin

section \<open>Risks and ownership (domain/plan.py, ownership/risk\_evaluator.py, ownership/policy.py)\<close>

text \<open>
  The plan step a request is classified as, the rules that derive risk tags from its paths and
  tools (with the shell patterns of \<open>fnmatch.fnmatchcase\<close>), and the policy that maps risks to
  the ownership mode. Frozen sets are sets.
\<close>

subsection \<open>Plan steps\<close>

record PlanStep =
  ps_step_id :: string
  ps_title :: string
  ps_description :: string
  ps_affected_paths :: "string list"
  ps_proposed_tools :: "string list"
  ps_depends_on :: "string list"
  ps_risk_tags :: "string set"

definition is_alnum :: "char \<Rightarrow> bool" where
  "is_alnum c \<longleftrightarrow> is_digit c \<or>
     (65 \<le> (of_char c :: nat) \<and> (of_char c :: nat) \<le> 90) \<or>
     (97 \<le> (of_char c :: nat) \<and> (of_char c :: nat) \<le> 122)"

text \<open>The pattern \<open>^[a-zA-Z0-9][a-zA-Z0-9._-]*$\<close>.\<close>

definition step_id_pattern :: "string \<Rightarrow> bool" where
  "step_id_pattern t \<longleftrightarrow>
     (case t of [] \<Rightarrow> False
      | c # r \<Rightarrow> is_alnum c \<and> list_all (\<lambda>d. is_alnum d \<or> d \<in> {CHR ''.'', CHR ''_'', CHR ''-''}) r)"

definition make_plan_step :: "PlanStep \<Rightarrow> PlanStep result" where
  "make_plan_step p =
     ensure (step_id_pattern (ps_step_id p)) PyValueError
     (ensure (ps_title p \<noteq> []) PyValueError
     (ensure (ps_description p \<noteq> []) PyValueError
     (ensure (ps_step_id p \<notin> set (ps_depends_on p)) PyValueError
     (Inr p))))"

subsection \<open>Shell patterns\<close>

text \<open>
  A bracket expression: \<open>split_class\<close> of the text after the bracket is whether it is negated,
  its body, and the rest of the pattern; without a closing bracket the bracket is literal. In
  the body, \<open>x-y\<close> is a range, empty when reversed.
\<close>

fun class_match :: "string \<Rightarrow> char \<Rightarrow> bool" where
  "class_match [] x = False"
| "class_match [c] x = (x = c)"
| "class_match [c, d] x = (x = c \<or> x = d)"
| "class_match (c # d # e # r) x =
     (if d = CHR ''-'' then c \<le> x \<and> x \<le> e \<or> class_match r x
      else x = c \<or> class_match (d # e # r) x)"

definition split_class :: "string \<Rightarrow> (bool \<times> string \<times> string) option" where
  "split_class p =
     (let (negated, r) = (case p of [] \<Rightarrow> (False, p)
            | c # t \<Rightarrow> if c = CHR ''!'' then (True, t) else (False, p));
          (first, s) = (case r of [] \<Rightarrow> ([], r)
            | c # t \<Rightarrow> if c = CHR '']'' then ([c], t) else ([], r));
          body = takeWhile (\<lambda>c. c \<noteq> CHR '']'') s;
          rest = dropWhile (\<lambda>c. c \<noteq> CHR '']'') s
      in (case rest of [] \<Rightarrow> None | _ # after \<Rightarrow> Some (negated, first @ body, after)))"

lemma split_class_shorter: "split_class p = Some (n, b, q) \<Longrightarrow> length q < length p"
proof -
  have d: "dropWhile P s = c # q \<Longrightarrow> length q < length s" for P :: "char \<Rightarrow> bool" and s c
    using length_dropWhile_le [of P s] by simp
  assume "split_class p = Some (n, b, q)"
  then show ?thesis
    by (auto simp: split_class_def Let_def split: list.splits if_splits prod.splits dest!: d)
qed

function fnmatch :: "string \<Rightarrow> string \<Rightarrow> bool" where
  "fnmatch [] s = (s = [])"
| "fnmatch (c # p) s =
     (if c = CHR ''*'' then
        (case s of [] \<Rightarrow> fnmatch p [] | _ # t \<Rightarrow> fnmatch p s \<or> fnmatch (c # p) t)
      else case s of
        [] \<Rightarrow> False
      | x # t \<Rightarrow>
          if c = CHR ''?'' then fnmatch p t
          else if c = CHR ''['' then
            (case split_class p of
               None \<Rightarrow> x = c \<and> fnmatch p t
             | Some (negated, body, q) \<Rightarrow> class_match body x \<noteq> negated \<and> fnmatch q t)
          else x = c \<and> fnmatch p t)"
  by pat_completeness auto

termination
  by (relation "measure (\<lambda>(p, s). length p + length s)") (auto dest: split_class_shorter)

definition fnmatchcase :: "string \<Rightarrow> string \<Rightarrow> bool" where
  "fnmatchcase name pattern = fnmatch pattern name"

subsection \<open>Risk evaluation\<close>

definition portable :: "string \<Rightarrow> string" where
  "portable t = map (\<lambda>c. if c = CHR 0x5C then CHR ''/'' else c) t"

fun drop_dot_slash :: "string \<Rightarrow> string" where
  "drop_dot_slash (c # d # r) =
     (if c = CHR ''.'' \<and> d = CHR ''/'' then drop_dot_slash r else c # d # r)"
| "drop_dot_slash t = t"

definition normalize_path :: "string \<Rightarrow> string" where
  "normalize_path path = drop_dot_slash (portable path)"

record RiskRule =
  rk_tag :: string
  rk_path_patterns :: "string list"
  rk_tool_names :: "string set"

record RiskAssessment =
  claimed_tags :: "string set"
  derived_tags :: "string set"
  effective_tags :: "string set"

definition rule_matches :: "RiskRule \<Rightarrow> PlanStep \<Rightarrow> bool" where
  "rule_matches rule step \<longleftrightarrow>
     (\<exists>path \<in> set (map normalize_path (ps_affected_paths step)).
        \<exists>pattern \<in> set (rk_path_patterns rule). fnmatchcase path pattern) \<or>
     set (ps_proposed_tools step) \<inter> rk_tool_names rule \<noteq> {}"

definition evaluate_risks :: "RiskRule list \<Rightarrow> PlanStep \<Rightarrow> RiskAssessment" where
  "evaluate_risks rules step =
     (let derived = rk_tag ` set (filter (\<lambda>rule. rule_matches rule step) rules)
      in \<lparr>claimed_tags = ps_risk_tags step, derived_tags = derived,
          effective_tags = ps_risk_tags step \<union> derived\<rparr>)"

subsection \<open>Ownership modes\<close>

datatype OwnershipMode = AUTO | PAIR | USER_GATE

fun mode_value :: "OwnershipMode \<Rightarrow> string" where
  "mode_value AUTO = ''auto''"
| "mode_value PAIR = ''pair''"
| "mode_value USER_GATE = ''user_gate''"

fun mode_order :: "OwnershipMode \<Rightarrow> nat" where
  "mode_order AUTO = 0"
| "mode_order PAIR = 1"
| "mode_order USER_GATE = 2"

lemma mode_order_inj [simp]: "mode_order a = mode_order b \<longleftrightarrow> a = b"
  by (cases a; cases b) simp_all

instantiation OwnershipMode :: linorder
begin

definition less_eq_OwnershipMode :: "OwnershipMode \<Rightarrow> OwnershipMode \<Rightarrow> bool" where
  "a \<le> b \<longleftrightarrow> mode_order a \<le> mode_order b"

definition less_OwnershipMode :: "OwnershipMode \<Rightarrow> OwnershipMode \<Rightarrow> bool" where
  "a < b \<longleftrightarrow> mode_order a < mode_order b"

instance
  by standard (auto simp: less_eq_OwnershipMode_def less_OwnershipMode_def)

end

lemma AUTO_least [simp]: "AUTO \<le> m" "m \<le> AUTO \<longleftrightarrow> m = AUTO"
  by (cases m; simp add: less_eq_OwnershipMode_def)+

definition more_restrictive :: "OwnershipMode \<Rightarrow> OwnershipMode \<Rightarrow> OwnershipMode" where
  "more_restrictive left right = (if mode_order right \<le> mode_order left then left else right)"

lemma more_restrictive_max: "more_restrictive a b = max a b"
  by (cases a; cases b) (simp_all add: more_restrictive_def max_def less_eq_OwnershipMode_def)

subsection \<open>Policy\<close>

record OwnershipRule =
  or_risk_tags :: "string set"
  or_minimum_mode :: OwnershipMode
  or_reason :: string

record OwnershipPolicy =
  op_default_mode :: OwnershipMode
  op_rules :: "OwnershipRule list"

definition matching_rules :: "OwnershipPolicy \<Rightarrow> string set \<Rightarrow> OwnershipRule list" where
  "matching_rules policy effective = filter (\<lambda>rule. or_risk_tags rule \<inter> effective \<noteq> {}) (op_rules policy)"

definition minimum_mode_for :: "OwnershipPolicy \<Rightarrow> string set \<Rightarrow> OwnershipMode" where
  "minimum_mode_for policy effective =
     foldl (\<lambda>mode rule. more_restrictive mode (or_minimum_mode rule)) (op_default_mode policy)
       (matching_rules policy effective)"

definition reasons_for :: "OwnershipPolicy \<Rightarrow> string set \<Rightarrow> string list" where
  "reasons_for policy effective =
     (let matched = matching_rules policy effective
      in if matched = [] then [''no risk rule matched; using default '' @ mode_value (op_default_mode policy)]
         else map or_reason matched)"

record OwnershipContext =
  oc_risk_rules :: "RiskRule list"
  oc_policy :: OwnershipPolicy
  oc_minimum_mode :: OwnershipMode

record OwnershipDecision =
  od_step_id :: string
  od_mode :: OwnershipMode
  od_policy_minimum_mode :: OwnershipMode
  od_context_minimum_mode :: OwnershipMode
  od_risk_assessment :: RiskAssessment
  od_reasons :: "string list"

definition classify_step :: "PlanStep \<Rightarrow> OwnershipContext \<Rightarrow> OwnershipDecision" where
  "classify_step step context =
     (let assessment = evaluate_risks (oc_risk_rules context) step;
          policy_mode = minimum_mode_for (oc_policy context) (effective_tags assessment);
          final_mode = more_restrictive policy_mode (oc_minimum_mode context);
          reasons = reasons_for (oc_policy context) (effective_tags assessment) @
            (if oc_minimum_mode context \<noteq> AUTO
             then [''global minimum mode requires '' @ mode_value (oc_minimum_mode context)] else [])
      in \<lparr>od_step_id = ps_step_id step, od_mode = final_mode, od_policy_minimum_mode = policy_mode,
          od_context_minimum_mode = oc_minimum_mode context, od_risk_assessment = assessment,
          od_reasons = reasons\<rparr>)"

subsection \<open>The classification is the strictest requirement\<close>

lemma fold_restrictive:
  "foldl (\<lambda>mode rule. more_restrictive mode (or_minimum_mode rule)) m rules =
     Max (insert m (or_minimum_mode ` set rules))"
proof (induction rules arbitrary: m)
  case (Cons r rules)
  have "Max (insert (max m (or_minimum_mode r)) (or_minimum_mode ` set rules)) =
      Max (insert m (insert (or_minimum_mode r) (or_minimum_mode ` set rules)))"
    by (cases "rules = []") (simp_all add: Max.insert_not_elem max.assoc)
  with Cons show ?case by (simp add: more_restrictive_max)
qed simp

lemma minimum_mode_max:
  "minimum_mode_for policy effective =
     Max (insert (op_default_mode policy) (or_minimum_mode ` set (matching_rules policy effective)))"
  by (simp add: minimum_mode_for_def fold_restrictive)

lemma minimum_mode_mono: "E \<subseteq> F \<Longrightarrow> minimum_mode_for policy E \<le> minimum_mode_for policy F"
  unfolding minimum_mode_max by (rule Max_mono) (auto simp: matching_rules_def)

end
