(* ===== verification/Authorization.thy ===== *)
theory Authorization
  imports Ownership ToolEffects
begin

section \<open>Authorization of tool requests (ownership/authorization.py)\<close>

text \<open>
  A concrete request, the workspace its path arguments must stay in, and the decision to allow,
  deny or escalate it. Resolving a path in the file system (\<open>Path.resolve\<close>, which follows
  symbolic links) is a parameter: it maps the components of an absolute path to those of the
  resolved one, or raises: a \<open>ValueError\<close> comes with its text, which the decision quotes, and any
  other exception (the \<open>RuntimeError\<close> of a symlink loop, before Python 3.13) is passed on.
\<close>

subsection \<open>repr of a text\<close>

definition printable :: "char \<Rightarrow> bool" where
  "printable c \<longleftrightarrow>
     (let n = (of_char c :: nat) in 32 \<le> n \<and> n \<le> 126 \<or> 161 \<le> n \<and> n \<noteq> 173)"

definition repr_char :: "char \<Rightarrow> char \<Rightarrow> string" where
  "repr_char q c =
     (if c = q \<or> c = CHR 0x5C then [CHR 0x5C, c]
      else if c = CHR 0x0A then [CHR 0x5C, CHR ''n'']
      else if c = CHR 0x0D then [CHR 0x5C, CHR ''r'']
      else if c = CHR 0x09 then [CHR 0x5C, CHR ''t'']
      else if printable c then [c]
      else [CHR 0x5C, CHR ''x'', hex_char (of_char c div 16), hex_char (of_char c mod 16)])"

definition py_repr :: "string \<Rightarrow> string" where
  "py_repr t =
     (let q = (if CHR 0x27 \<in> set t \<and> CHR 0x22 \<notin> set t then CHR 0x22 else CHR 0x27)
      in [q] @ concat (map (repr_char q) t) @ [q])"

subsection \<open>Requests\<close>

record ToolRequest =
  tr_run_id :: string
  tr_step_id :: string
  tr_tool_call_id :: string
  tr_tool_name :: string
  tr_arguments_json :: string
  tr_model_action_event_id :: "string option"

definition request_post_init :: "ToolRequest \<Rightarrow> ToolRequest result" where
  "request_post_init r =
     ensure (tr_run_id r \<noteq> []) EventValidationError
     (ensure (tr_step_id r \<noteq> []) EventValidationError
     (ensure (tr_tool_call_id r \<noteq> []) EventValidationError
     (ensure (tr_tool_name r \<noteq> []) EventValidationError
     (ensure (tr_model_action_event_id r \<noteq> Some []) EventValidationError
     (bindR (canonical_object (tr_arguments_json r)) (\<lambda>t.
      Inr (r\<lparr>tr_arguments_json := t\<rparr>)))))))"

definition build_request ::
  "string \<Rightarrow> string \<Rightarrow> string \<Rightarrow> string \<Rightarrow> payload \<Rightarrow> string option \<Rightarrow> ToolRequest result" where
  "build_request run_id step_id tool_call_id tool_name arguments model_action_event_id =
     bindR (canonical_json arguments) (\<lambda>t.
     request_post_init \<lparr>tr_run_id = run_id, tr_step_id = step_id, tr_tool_call_id = tool_call_id,
       tr_tool_name = tool_name, tr_arguments_json = t,
       tr_model_action_event_id = model_action_event_id\<rparr>)"

definition request_arguments :: "ToolRequest \<Rightarrow> payload" where
  "request_arguments r = decoded (tr_arguments_json r)"

definition wf_request :: "ToolRequest \<Rightarrow> bool" where
  "wf_request r \<longleftrightarrow> request_post_init r = Inr r"

subsection \<open>The workspace boundary\<close>

datatype path_failure = BadPath string | PathRaises error

type_synonym resolver = "string list \<Rightarrow> path_failure + string list"

text \<open>The components of a joined relative path: empty ones and \<open>.\<close> are dropped.\<close>

fun split_slash :: "string \<Rightarrow> string list" where
  "split_slash [] = [[]]"
| "split_slash (c # t) =
     (if c = CHR ''/'' then [] # split_slash t
      else case split_slash t of [] \<Rightarrow> [[c]] | w # ws \<Rightarrow> (c # w) # ws)"

definition path_parts :: "string \<Rightarrow> string list" where
  "path_parts t = filter (\<lambda>w. w \<noteq> [] \<and> w \<noteq> ''.'') (split_slash t)"

fun join_with :: "string \<Rightarrow> string list \<Rightarrow> string" where
  "join_with s [] = []"
| "join_with s [w] = w"
| "join_with s (w # ws) = w @ s @ join_with s ws"

definition windows_drive :: "string \<Rightarrow> bool" where
  "windows_drive t \<longleftrightarrow> (case t of _ # d # _ \<Rightarrow> d = CHR '':'' | _ \<Rightarrow> False)"

definition starts_with :: "string \<Rightarrow> string \<Rightarrow> bool" where
  "starts_with t p \<longleftrightarrow> take (length p) t = p"

text \<open>
  \<open>WorkspaceBoundary.normalize\<close>: the relative path, or what is raised. A
  path with a Windows share begins with a separator and is rejected before its drive is read.
\<close>

definition boundary_normalize :: "resolver \<Rightarrow> string list \<Rightarrow> string \<Rightarrow> path_failure + string" where
  "boundary_normalize resolve_path root target =
     (if target = [] then Inl (BadPath ''workspace path must not be empty'')
      else let portable_target = portable target in
        if starts_with portable_target ''/'' \<or> windows_drive target
        then Inl (BadPath ''workspace path must be relative'')
        else case resolve_path (root @ path_parts portable_target) of
            Inl failure \<Rightarrow> Inl failure
          | Inr resolved_target \<Rightarrow>
              if take (length root) resolved_target \<noteq> root
              then Inl (BadPath ''workspace path escapes the configured root'')
              else let rel = drop (length root) resolved_target
                in Inr (if rel = [] then ''.'' else join_with ''/'' rel))"

subsection \<open>Decisions\<close>

datatype AuthorizationOutcome = ALLOW | DENY | ESCALATE

record AuthorizationDecision =
  ad_run_id :: string
  ad_step_id :: string
  ad_tool_call_id :: string
  ad_tool_name :: string
  ad_outcome :: AuthorizationOutcome
  ad_normalized_paths :: "string list"
  ad_ownership_decision :: "OwnershipDecision option"
  ad_reasons :: "string list"

record AuthorizationContext =
  ac_registry :: ToolRegistry
  ac_resolver :: resolver
  ac_root :: "string list"
  ac_risk_rules :: "RiskRule list"
  ac_policy :: OwnershipPolicy
  ac_minimum_mode :: OwnershipMode

definition make_decision ::
  "ToolRequest \<Rightarrow> AuthorizationOutcome \<Rightarrow> string list \<Rightarrow> string list \<Rightarrow> OwnershipDecision option \<Rightarrow>
   AuthorizationDecision" where
  "make_decision request oc reasons normalized_paths decision =
     \<lparr>ad_run_id = tr_run_id request, ad_step_id = tr_step_id request,
      ad_tool_call_id = tr_tool_call_id request, ad_tool_name = tr_tool_name request,
      ad_outcome = oc, ad_normalized_paths = normalized_paths,
      ad_ownership_decision = decision, ad_reasons = reasons\<rparr>"

text \<open>The loop over the path arguments: the normalized paths, or the reason of the denial, or the
  exception that ends the authorization.\<close>

fun normalize_arguments ::
  "AuthorizationContext \<Rightarrow> payload \<Rightarrow> string list \<Rightarrow> path_failure + string list" where
  "normalize_arguments context arguments [] = Inr []"
| "normalize_arguments context arguments (name # names) =
     (case get arguments name of
        JStr target \<Rightarrow>
          if target = [] then Inl (BadPath (''path argument '' @ py_repr name @ '' must be a non-empty string''))
          else (case boundary_normalize (ac_resolver context) (ac_root context) target of
              Inl (BadPath message) \<Rightarrow> Inl (BadPath (''invalid path argument '' @ py_repr name @ '': '' @ message))
            | Inl (PathRaises e) \<Rightarrow> Inl (PathRaises e)
            | Inr path \<Rightarrow> map_sum id (Cons path) (normalize_arguments context arguments names))
      | _ \<Rightarrow> Inl (BadPath (''path argument '' @ py_repr name @ '' must be a non-empty string'')))"

definition execution_step :: "ToolRequest \<Rightarrow> string list \<Rightarrow> PlanStep" where
  "execution_step request paths =
     \<lparr>ps_step_id = tr_step_id request, ps_title = ''Execute '' @ tr_tool_name request,
      ps_description = ''Concrete tool request evaluated at execution time.'',
      ps_affected_paths = paths, ps_proposed_tools = [tr_tool_name request], ps_depends_on = [],
      ps_risk_tags = {}\<rparr>"

definition ownership_context :: "AuthorizationContext \<Rightarrow> OwnershipContext" where
  "ownership_context context =
     \<lparr>oc_risk_rules = ac_risk_rules context, oc_policy = ac_policy context,
      oc_minimum_mode = ac_minimum_mode context\<rparr>"

definition authorize :: "ToolRequest \<Rightarrow> AuthorizationContext \<Rightarrow> AuthorizationDecision result" where
  "authorize request context =
     (case resolve (ac_registry context) (tr_tool_name request) of
        Inl _ \<Rightarrow> Inr (make_decision request DENY
          [''tool '' @ py_repr (tr_tool_name request) @ '' is not registered''] [] None)
      | Inr d \<Rightarrow>
          (case normalize_arguments context (request_arguments request) (td_path_argument_names d) of
             Inl (BadPath reason) \<Rightarrow> Inr (make_decision request DENY [reason] [] None)
           | Inl (PathRaises e) \<Rightarrow> Inl e
           | Inr paths \<Rightarrow>
               bindR (make_plan_step (execution_step request paths)) (\<lambda>step.
               let decision = classify_step step (ownership_context context) in
               if od_mode decision \<noteq> AUTO
               then Inr (make_decision request ESCALATE
                 ((''request requires '' @ mode_value (od_mode decision) @ '' ownership'') #
                    od_reasons decision)
                 paths (Some decision))
               else Inr (make_decision request ALLOW
                 [''registered request is inside the workspace and requires auto mode'']
                 paths (Some decision)))))"

subsection \<open>What the decisions mean\<close>

definition path_inside :: "AuthorizationContext \<Rightarrow> string \<Rightarrow> string \<Rightarrow> bool" where
  "path_inside context target path \<longleftrightarrow>
     (\<exists>rel. ac_resolver context (ac_root context @ path_parts (portable target)) = Inr (ac_root context @ rel) \<and>
        path = (if rel = [] then ''.'' else join_with ''/'' rel))"

lemma boundary_inside:
  assumes "boundary_normalize (ac_resolver context) (ac_root context) target = Inr path"
  shows "path_inside context target path"
proof -
  from assms obtain res where res:
    "ac_resolver context (ac_root context @ path_parts (portable target)) = Inr res"
    "take (length (ac_root context)) res = ac_root context"
    "path = (if drop (length (ac_root context)) res = [] then ''.''
       else join_with ''/'' (drop (length (ac_root context)) res))"
    by (auto simp: boundary_normalize_def Let_def split: if_splits sum.splits)
  then have "res = ac_root context @ drop (length (ac_root context)) res"
    by (metis append_take_drop_id)
  with res show ?thesis unfolding path_inside_def by metis
qed

lemma normalize_arguments_inside:
  "normalize_arguments context arguments names = Inr paths \<Longrightarrow>
     list_all2 (\<lambda>name path. \<exists>target. get arguments name = JStr target \<and>
       path_inside context target path) names paths"
proof (induction names arbitrary: paths)
  case (Cons name names)
  show ?case
  proof (cases "get arguments name")
    case (JStr target)
    with Cons.prems obtain path where
      p: "boundary_normalize (ac_resolver context) (ac_root context) target = Inr path"
      by (cases "boundary_normalize (ac_resolver context) (ac_root context) target")
         (auto split: if_splits path_failure.splits)
    with JStr Cons.prems obtain rest where
      "normalize_arguments context arguments names = Inr rest" "paths = path # rest"
      by (cases "normalize_arguments context arguments names") (auto split: if_splits)
    with Cons.IH p JStr show ?thesis by (auto dest: boundary_inside)
  qed (use Cons.prems in simp_all)
qed simp

lemma boundary_raises:
  "boundary_normalize resolve_path root target = Inl (PathRaises e) \<Longrightarrow> \<exists>p. resolve_path p = Inl (PathRaises e)"
  by (auto simp: boundary_normalize_def Let_def split: if_splits sum.splits)

lemma normalize_arguments_raises:
  "normalize_arguments context arguments names = Inl (PathRaises e) \<Longrightarrow>
     \<exists>p. ac_resolver context p = Inl (PathRaises e)"
  by (induction names)
     (auto simp: map_sum_def dest: boundary_raises split: json.splits if_splits sum.splits path_failure.splits)

end
