(* ===== verification/Gates.thy ===== *)
theory Gates
  imports Authorization
begin

section \<open>Gates (ownership/gates.py)\<close>

text \<open>
  The proposal bound to one escalated request by a digest, the human resolutions and answers,
  and the evaluation of an answer. A failed pydantic validation is a \<open>PyValueError\<close>.
\<close>

datatype GateAction = APPROVE | REJECT

datatype GateEvaluationOutcome = GATE_PASS | GATE_RETRY | GATE_BLOCK

fun evaluation_value :: "GateEvaluationOutcome \<Rightarrow> string" where
  "evaluation_value GATE_PASS = ''pass''"
| "evaluation_value GATE_RETRY = ''retry''"
| "evaluation_value GATE_BLOCK = ''block''"

record GateReference =
  gr_run_id :: string
  gr_tool_call_id :: string
  gr_proposal_digest :: string
  gr_revision :: int

text \<open>The pattern \<open>^[0-9a-f]{64}$\<close>.\<close>

definition hex_digest :: "string \<Rightarrow> bool" where
  "hex_digest t \<longleftrightarrow> length t = 64 \<and>
     list_all (\<lambda>c. is_digit c \<or> 97 \<le> (of_char c :: nat) \<and> (of_char c :: nat) \<le> 102) t"

definition make_reference :: "string \<Rightarrow> string \<Rightarrow> string \<Rightarrow> int \<Rightarrow> GateReference result" where
  "make_reference run_id tool_call_id proposal_digest revision =
     ensure (run_id \<noteq> [] \<and> tool_call_id \<noteq> [] \<and> hex_digest proposal_digest \<and> 1 \<le> revision) PyValueError
     (Inr \<lparr>gr_run_id = run_id, gr_tool_call_id = tool_call_id,
        gr_proposal_digest = proposal_digest, gr_revision = revision\<rparr>)"

record GateProposal =
  gp_reference :: GateReference
  gp_step_id :: string
  gp_tool_name :: string
  gp_arguments_json :: string
  gp_ownership_mode :: OwnershipMode
  gp_reasons :: "string list"

definition proposal_json :: "ToolRequest \<Rightarrow> AuthorizationDecision \<Rightarrow> OwnershipMode \<Rightarrow> int \<Rightarrow> json" where
  "proposal_json request decision mode revision = JObj
     [(''arguments'', JObj (request_arguments request)),
      (''normalized_paths'', JArr (map JStr (ad_normalized_paths decision))),
      (''ownership_mode'', JStr (mode_value mode)),
      (''revision'', JInt revision),
      (''run_id'', JStr (tr_run_id request)),
      (''step_id'', JStr (tr_step_id request)),
      (''tool_call_id'', JStr (tr_tool_call_id request)),
      (''tool_name'', JStr (tr_tool_name request))]"

definition build_proposal ::
  "hash \<Rightarrow> ToolRequest \<Rightarrow> AuthorizationDecision \<Rightarrow> int \<Rightarrow> GateProposal result" where
  "build_proposal H request decision revision =
     ensure (ad_outcome decision = ESCALATE) EventValidationError
     (case ad_ownership_decision decision of
        None \<Rightarrow> Inl EventValidationError
      | Some ownership \<Rightarrow>
          ensure (od_mode ownership \<noteq> AUTO) EventValidationError
          (ensure (ad_run_id decision = tr_run_id request \<and> ad_step_id decision = tr_step_id request \<and>
             ad_tool_call_id decision = tr_tool_call_id request \<and>
             ad_tool_name decision = tr_tool_name request) EventValidationError
          (ensure (1 \<le> revision) EventValidationError
          (let mode = od_mode ownership in
           case dumps (proposal_json request decision mode revision) of
             None \<Rightarrow> Inl PyValueError
           | Some digest_payload \<Rightarrow>
               bindR (make_reference (tr_run_id request) (tr_tool_call_id request) (H digest_payload) revision)
                 (\<lambda>reference.
               ensure (tr_step_id request \<noteq> [] \<and> tr_tool_name request \<noteq> []) PyValueError
               (Inr \<lparr>gp_reference = reference, gp_step_id = tr_step_id request,
                  gp_tool_name = tr_tool_name request, gp_arguments_json = tr_arguments_json request,
                  gp_ownership_mode = mode, gp_reasons = ad_reasons decision\<rparr>))))))"

record GateResolution =
  gs_reference :: GateReference
  gs_action :: GateAction
  gs_actor :: string
  gs_reason :: string

definition make_resolution :: "GateReference \<Rightarrow> GateAction \<Rightarrow> string \<Rightarrow> string \<Rightarrow> GateResolution result" where
  "make_resolution reference action actor reason =
     ensure (actor \<noteq> [] \<and> reason \<noteq> []) PyValueError
     (Inr \<lparr>gs_reference = reference, gs_action = action, gs_actor = actor, gs_reason = reason\<rparr>)"

definition approve :: "GateReference \<Rightarrow> string \<Rightarrow> string \<Rightarrow> GateResolution result" where
  "approve reference actor reason = make_resolution reference APPROVE actor reason"

definition reject :: "GateReference \<Rightarrow> string \<Rightarrow> string \<Rightarrow> GateResolution result" where
  "reject reference actor reason = make_resolution reference REJECT actor reason"

record GateAnswerSubmission =
  ga_reference :: GateReference
  ga_actor :: string
  ga_answer_json :: string

definition validate_answer_json :: "string \<Rightarrow> string result" where
  "validate_answer_json value =
     (case loads value of
        Some (JObj d) \<Rightarrow> (case dumps (JObj d) of Some t \<Rightarrow> Inr t | None \<Rightarrow> Inl PyValueError)
      | _ \<Rightarrow> Inl PyValueError)"

definition build_answer :: "GateReference \<Rightarrow> string \<Rightarrow> payload \<Rightarrow> GateAnswerSubmission result" where
  "build_answer reference actor answer =
     (case dumps (JObj answer) of
        None \<Rightarrow> Inl EventValidationError
      | Some t \<Rightarrow>
          ensure (actor \<noteq> []) PyValueError
          (bindR (validate_answer_json t) (\<lambda>u.
           Inr \<lparr>ga_reference = reference, ga_actor = actor, ga_answer_json = u\<rparr>)))"

definition submitted_answer :: "GateAnswerSubmission \<Rightarrow> payload" where
  "submitted_answer a = decoded (ga_answer_json a)"

subsection \<open>Evaluating an answer\<close>

record GateEvaluation =
  ge_outcome :: GateEvaluationOutcome
  ge_reason :: string

definition is_space :: "char \<Rightarrow> bool" where
  "is_space c \<longleftrightarrow>
     (let n = (of_char c :: nat) in 9 \<le> n \<and> n \<le> 13 \<or> 28 \<le> n \<and> n \<le> 32 \<or> n = 133 \<or> n = 160)"

text \<open>\<open>len("".join(text.split()))\<close>\<close>

definition explanation_length :: "string \<Rightarrow> nat" where
  "explanation_length t = length (filter (\<lambda>c. \<not> is_space c) t)"

fun nonempty_text :: "json \<Rightarrow> bool" where
  "nonempty_text (JStr t) = (t \<noteq> [])"
| "nonempty_text _ = False"

definition retry :: "string \<Rightarrow> GateEvaluation result" where
  "retry reason = Inr \<lparr>ge_outcome = GATE_RETRY, ge_reason = reason\<rparr>"

definition block :: "string \<Rightarrow> GateEvaluation result" where
  "block reason = Inr \<lparr>ge_outcome = GATE_BLOCK, ge_reason = reason\<rparr>"

definition required_fields :: "string list" where
  "required_fields = [''tool_name'', ''path'', ''risk_explanation'', ''refuse'']"

definition text_fields :: "string list" where
  "text_fields = [''tool_name'', ''path'', ''risk_explanation'']"

fun text_of :: "json \<Rightarrow> string" where
  "text_of (JStr t) = t"
| "text_of _ = []"

fun is_bool :: "json \<Rightarrow> bool" where
  "is_bool (JBool b) = True"
| "is_bool _ = False"

fun is_text :: "json \<Rightarrow> bool" where
  "is_text (JStr t) = True"
| "is_text _ = False"

text \<open>
  The arguments of a proposal that is not built by \<open>build_proposal\<close> may decode to another value
  than an object: reading its path then raises an \<open>AttributeError\<close>, here a \<open>PyTypeError\<close>.
\<close>

definition evaluate_gate :: "GateProposal \<Rightarrow> payload \<Rightarrow> GateEvaluation result" where
  "evaluate_gate gate answer =
     (if get answer ''refuse'' = JBool True then block ''user explicitly refused the proposed tool request''
      else let missing_fields = filter (\<lambda>f. \<not> has_key answer f) required_fields in
      if missing_fields \<noteq> [] then retry (''missing required fields: '' @ join_with '', '' missing_fields)
      else if \<not> is_bool (get answer ''refuse'') then retry ''refuse must be a boolean''
      else let invalid_text_fields = filter (\<lambda>f. \<not> nonempty_text (get answer f)) text_fields in
      if invalid_text_fields \<noteq> []
      then retry (''fields must be non-empty strings: '' @ join_with '', '' invalid_text_fields)
      else if get answer ''tool_name'' \<noteq> JStr (gp_tool_name gate)
      then retry ''tool_name does not match the gated proposal''
      else case loads (gp_arguments_json gate) of
        None \<Rightarrow> block ''gated proposal contains invalid arguments JSON''
      | Some (JObj proposed_arguments) \<Rightarrow>
          if \<not> is_text (get proposed_arguments ''path'')
          then block ''gated proposal does not contain a string path''
          else if get answer ''path'' \<noteq> get proposed_arguments ''path''
          then retry ''path does not match the gated proposal''
          else if explanation_length (text_of (get answer ''risk_explanation'')) < 20
          then retry ''risk_explanation must contain at least 20 non-whitespace characters''
          else Inr \<lparr>ge_outcome = GATE_PASS,
            ge_reason = ''tool, path, and risk explanation match the gated proposal''\<rparr>
      | Some _ \<Rightarrow> Inl PyTypeError)"

subsection \<open>When an evaluation passes\<close>

definition answer_matches :: "GateProposal \<Rightarrow> payload \<Rightarrow> bool" where
  "answer_matches gate answer \<longleftrightarrow>
     get answer ''refuse'' = JBool False \<and>
     get answer ''tool_name'' = JStr (gp_tool_name gate) \<and> gp_tool_name gate \<noteq> [] \<and>
     (\<exists>arguments path. loads (gp_arguments_json gate) = Some (JObj arguments) \<and>
        get arguments ''path'' = JStr path \<and> path \<noteq> [] \<and> get answer ''path'' = JStr path) \<and>
     (\<exists>explanation. get answer ''risk_explanation'' = JStr explanation \<and>
        20 \<le> explanation_length explanation)"

lemma retry_block_outcome [simp]:
  "retry r = Inr e \<longleftrightarrow> e = \<lparr>ge_outcome = GATE_RETRY, ge_reason = r\<rparr>"
  "block r = Inr e \<longleftrightarrow> e = \<lparr>ge_outcome = GATE_BLOCK, ge_reason = r\<rparr>"
  by (auto simp: retry_def block_def)

lemma get_has_key: "get d k \<noteq> JNull \<Longrightarrow> has_key d k"
  by (auto simp: get_def get_default_def has_key_def split: option.splits)

lemma nonempty_text_iff: "nonempty_text j \<longleftrightarrow> (\<exists>t. j = JStr t \<and> t \<noteq> [])"
  by (cases j) auto

lemma is_bool_iff: "is_bool j \<longleftrightarrow> (\<exists>b. j = JBool b)"
  by (cases j) auto

lemma is_text_iff: "is_text j \<longleftrightarrow> (\<exists>t. j = JStr t)"
  by (cases j) auto

lemma evaluate_gate_passes:
  "(\<exists>e. evaluate_gate gate answer = Inr e \<and> ge_outcome e = GATE_PASS) \<longleftrightarrow> answer_matches gate answer"
proof
  assume "answer_matches gate answer"
  then obtain a p x where m: "get answer ''refuse'' = JBool False"
      "get answer ''tool_name'' = JStr (gp_tool_name gate)" "gp_tool_name gate \<noteq> []"
      "loads (gp_arguments_json gate) = Some (JObj a)" "get a ''path'' = JStr p" "p \<noteq> []"
      "get answer ''path'' = JStr p" "get answer ''risk_explanation'' = JStr x"
      "20 \<le> explanation_length x"
    by (auto simp: answer_matches_def)
  have k: "has_key answer ''refuse''" "has_key answer ''tool_name''" "has_key answer ''path''"
      "has_key answer ''risk_explanation''"
    using m by (auto intro!: get_has_key)
  have "x \<noteq> []" using m(9) by (auto simp: explanation_length_def)
  then have "evaluate_gate gate answer = Inr \<lparr>ge_outcome = GATE_PASS,
      ge_reason = ''tool, path, and risk explanation match the gated proposal''\<rparr>"
    using m k unfolding evaluate_gate_def required_fields_def text_fields_def by simp
  then show "\<exists>e. evaluate_gate gate answer = Inr e \<and> ge_outcome e = GATE_PASS" by simp
next
  assume "\<exists>e. evaluate_gate gate answer = Inr e \<and> ge_outcome e = GATE_PASS"
  then obtain e where e: "evaluate_gate gate answer = Inr e" "ge_outcome e = GATE_PASS" by blast
  have t: "is_bool (get answer ''refuse'')" "get answer ''refuse'' \<noteq> JBool True"
      "nonempty_text (get answer ''tool_name'')" "nonempty_text (get answer ''path'')"
      "nonempty_text (get answer ''risk_explanation'')"
      "get answer ''tool_name'' = JStr (gp_tool_name gate)"
    using e unfolding evaluate_gate_def required_fields_def text_fields_def
    by (auto simp: Let_def split: if_splits)
  obtain j where j: "loads (gp_arguments_json gate) = Some j"
    using e t unfolding evaluate_gate_def by (auto simp: Let_def split: if_splits option.splits)
  obtain a where a: "j = JObj a"
    using e t j unfolding evaluate_gate_def by (cases j) (auto simp: Let_def split: if_splits)
  have "is_text (get a ''path'')" "get answer ''path'' = get a ''path''"
      "20 \<le> explanation_length (text_of (get answer ''risk_explanation''))"
    using e t j a unfolding evaluate_gate_def by (auto simp: Let_def split: if_splits)
  with t j a show "answer_matches gate answer"
    by (auto simp: answer_matches_def nonempty_text_iff is_bool_iff is_text_iff)
qed

end
