(* ===== verification/OwnershipProperties.thy ===== *)
theory OwnershipProperties
  imports Gates
begin

section \<open>Properties of risks, ownership, authorization and gates\<close>

text \<open>
  The classification as the strictest requirement, what untrusted claims can and cannot do, what
  an allowed request satisfies, which requests are decided at all, and what gates bind and
  accept.
\<close>

subsection \<open>Samples\<close>

definition sample_policy :: OwnershipPolicy where
  "sample_policy = \<lparr>op_default_mode = AUTO, op_rules =
     [\<lparr>or_risk_tags = {''secret''}, or_minimum_mode = USER_GATE, or_reason = ''secrets''\<rparr>]\<rparr>"

definition sample_risks :: "RiskRule list" where
  "sample_risks = [\<lparr>rk_tag = ''secret'', rk_path_patterns = [''s*''], rk_tool_names = {}\<rparr>]"

definition sample_context :: AuthorizationContext where
  "sample_context = \<lparr>ac_registry =
      [(''read'', \<lparr>td_tool_name = ''read'', td_retry_is_idempotent = True, td_path_argument_names = [''path'']\<rparr>)],
     ac_resolver = Inr, ac_root = [''w''], ac_risk_rules = sample_risks, ac_policy = sample_policy,
     ac_minimum_mode = AUTO\<rparr>"

definition read_request :: "string \<Rightarrow> ToolRequest" where
  "read_request p = \<lparr>tr_run_id = ''r'', tr_step_id = ''step-1'', tr_tool_call_id = ''c'',
     tr_tool_name = ''read'', tr_arguments_json = render (JObj [(''path'', JStr p)]),
     tr_model_action_event_id = None\<rparr>"

lemma read_arguments [simp]: "request_arguments (read_request p) = [(''path'', JStr p)]"
  by (simp add: request_arguments_def read_request_def decoded_def loads_render canon_obj)

lemma wf_read_request [simp]: "wf_request (read_request p)"
proof -
  have "canonical_object (render (JObj [(''path'', JStr p)])) = Inr (render (JObj [(''path'', JStr p)]))"
    unfolding canonical_object_Inr_iff by (rule exI [of _ "[(''path'', JStr p)]"]) (simp add: loads_render canon_obj)
  then show ?thesis by (simp add: wf_request_def request_post_init_def read_request_def)
qed

subsection \<open>Classification\<close>

text \<open>C37: the mode a step is classified with is the strictest of the policy's default, the context's
  minimum, and the minimum of every policy rule whose tags meet the effective risks, which are
  the claimed tags and the tag of every risk rule the step matches.\<close>

theorem classification_is_strictest:
  "od_mode (classify_step step context) =
     Max ({op_default_mode (oc_policy context), oc_minimum_mode context} \<union>
       {or_minimum_mode rule | rule. rule \<in> set (op_rules (oc_policy context)) \<and>
          or_risk_tags rule \<inter> (ps_risk_tags step \<union>
            {rk_tag risk | risk. risk \<in> set (oc_risk_rules context) \<and> rule_matches risk step}) \<noteq> {}})"
proof -
  let ?E = "ps_risk_tags step \<union>
    {rk_tag risk | risk. risk \<in> set (oc_risk_rules context) \<and> rule_matches risk step}"
  let ?R = "or_minimum_mode ` set (matching_rules (oc_policy context) ?E)"
  have E: "effective_tags (evaluate_risks (oc_risk_rules context) step) = ?E"
    by (auto simp: evaluate_risks_def Let_def)
  have R: "{or_minimum_mode rule | rule. rule \<in> set (op_rules (oc_policy context)) \<and>
      or_risk_tags rule \<inter> ?E \<noteq> {}} = ?R"
    by (auto simp: matching_rules_def)
  have "od_mode (classify_step step context) =
      max (Max (insert (op_default_mode (oc_policy context)) ?R)) (oc_minimum_mode context)"
    by (simp add: classify_step_def Let_def more_restrictive_max minimum_mode_max E)
  also have "\<dots> = Max (insert (oc_minimum_mode context) (insert (op_default_mode (oc_policy context)) ?R))"
    by (subst (2) Max_insert) (simp_all add: max.commute)
  finally show ?thesis unfolding R by (simp add: insert_commute)
qed

text \<open>Untrusted claims can only raise ownership: claiming more risk tags never lowers the mode of a
  step, and the derived tags do not depend on the claims.\<close>

theorem claims_only_raise:
  assumes "T \<subseteq> T'"
  shows "od_mode (classify_step (step\<lparr>ps_risk_tags := T\<rparr>) context) \<le>
      od_mode (classify_step (step\<lparr>ps_risk_tags := T'\<rparr>) context) \<and>
    derived_tags (evaluate_risks rules (step\<lparr>ps_risk_tags := T\<rparr>)) =
      derived_tags (evaluate_risks rules (step\<lparr>ps_risk_tags := T'\<rparr>))"
proof -
  have m: "rule_matches r (step\<lparr>ps_risk_tags := U\<rparr>) = rule_matches r step" for r U
    by (simp add: rule_matches_def)
  have "effective_tags (evaluate_risks (oc_risk_rules context) (step\<lparr>ps_risk_tags := T\<rparr>)) \<subseteq>
      effective_tags (evaluate_risks (oc_risk_rules context) (step\<lparr>ps_risk_tags := T'\<rparr>))"
    using assms by (auto simp: evaluate_risks_def Let_def m)
  from minimum_mode_mono [OF this, of "oc_policy context"]
  have "od_mode (classify_step (step\<lparr>ps_risk_tags := T\<rparr>) context) \<le>
      od_mode (classify_step (step\<lparr>ps_risk_tags := T'\<rparr>) context)"
    unfolding classify_step_def Let_def
    by (simp add: more_restrictive_max max.coboundedI1 max.mono del: max.bounded_iff)
  then show ?thesis by (simp add: evaluate_risks_def Let_def m)
qed

theorem claims_only_raise_witness:
  "od_mode (classify_step ((execution_step (read_request ''a'') [''a''])\<lparr>ps_risk_tags := {}\<rparr>)
      (ownership_context sample_context)) \<le>
   od_mode (classify_step ((execution_step (read_request ''a'') [''a''])\<lparr>ps_risk_tags := {''secret''}\<rparr>)
      (ownership_context sample_context))"
  using claims_only_raise [of "{}" "{''secret''}"] by simp

definition literal :: "string \<Rightarrow> bool" where
  "literal p \<longleftrightarrow> (\<forall>c \<in> set p. c \<noteq> CHR ''*'' \<and> c \<noteq> CHR ''?'' \<and> c \<noteq> CHR ''['')"

lemma fnmatch_star [simp]: "fnmatch ''*'' s"
  by (induction s) simp_all

lemma fnmatch_literal_prefix: "literal p \<Longrightarrow> fnmatch (p @ ''*'') s \<longleftrightarrow> starts_with s p"
proof (induction p arbitrary: s)
  case (Cons c p)
  then show ?case by (cases s) (auto simp: literal_def starts_with_def)
qed (simp only: append_Nil fnmatch_star starts_with_def list.size take_0 simp_thms)

text \<open>Backslashes and leading dot components do not hide a path from a risk rule: a rule whose pattern is a literal prefix followed
  by a star matches every step with an affected path that, with separators unified and leading
  dot components dropped, starts with the prefix.\<close>

theorem prefix_rule_covers_spellings:
  assumes "literal p" and "p @ ''*'' \<in> set (rk_path_patterns rule)" and "path \<in> set (ps_affected_paths step)"
    and "starts_with (drop_dot_slash (portable path)) p" and "rule \<in> set rules"
  shows "rk_tag rule \<in> effective_tags (evaluate_risks rules step)"
proof -
  have "fnmatchcase (normalize_path path) (p @ ''*'')"
    using assms(1,4) by (simp add: fnmatchcase_def fnmatch_literal_prefix normalize_path_def)
  then have "rule_matches rule step" using assms(2,3) by (auto simp: rule_matches_def)
  with assms(5) show ?thesis by (auto simp: evaluate_risks_def Let_def)
qed

theorem prefix_rule_covers_spellings_witness:
  "''secret'' \<in> effective_tags (evaluate_risks sample_risks (execution_step (read_request ''a'') [''././s/key'']))"
  using prefix_rule_covers_spellings [of "''s''" "hd sample_risks" "''././s/key''"
    "execution_step (read_request ''a'') [''././s/key'']" sample_risks]
  by (simp add: sample_risks_def literal_def execution_step_def portable_def starts_with_def)

subsection \<open>Authorization\<close>

text \<open>C38: an allowed request is safe to run without a human: its tool is registered, every path argument
  is a text that the file system resolves inside the workspace (and the decision records the
  relative path), and neither the policy's default, the context, nor any policy rule that meets
  the derived risks asks for more than automatic ownership.\<close>

theorem allowed_requests_are_safe:
  assumes "authorize request context = Inr d" and "ad_outcome d = ALLOW"
  shows "\<exists>def. resolve (ac_registry context) (tr_tool_name request) = Inr def \<and>
    list_all2 (\<lambda>name path. \<exists>target. get (request_arguments request) name = JStr target \<and>
        path_inside context target path) (td_path_argument_names def) (ad_normalized_paths d) \<and>
    op_default_mode (ac_policy context) = AUTO \<and> ac_minimum_mode context = AUTO \<and>
    (\<forall>risk \<in> set (ac_risk_rules context). \<forall>rule \<in> set (op_rules (ac_policy context)).
       rule_matches risk (execution_step request (ad_normalized_paths d)) \<and> rk_tag risk \<in> or_risk_tags rule \<longrightarrow>
       or_minimum_mode rule = AUTO)"
proof -
  from assms obtain def where def: "resolve (ac_registry context) (tr_tool_name request) = Inr def"
    by (auto simp: authorize_def make_decision_def split: sum.splits path_failure.splits)
  from assms def obtain paths where
    paths: "normalize_arguments context (request_arguments request) (td_path_argument_names def) = Inr paths"
    by (auto simp: authorize_def make_decision_def split: sum.splits path_failure.splits)
  let ?step = "execution_step request paths" and ?c = "ownership_context context"
  from assms def paths have auto_: "od_mode (classify_step ?step ?c) = AUTO" and d: "ad_normalized_paths d = paths"
    by (auto simp: authorize_def make_decision_def make_plan_step_def result_simps Let_def split: if_splits path_failure.splits)
  let ?E = "effective_tags (evaluate_risks (ac_risk_rules context) ?step)"
  have "max (minimum_mode_for (ac_policy context) ?E) (ac_minimum_mode context) = AUTO"
    using auto_ by (simp add: classify_step_def Let_def more_restrictive_max ownership_context_def)
  then have m: "minimum_mode_for (ac_policy context) ?E \<le> AUTO" "ac_minimum_mode context = AUTO"
    by (metis max.cobounded1, metis AUTO_least(2) max.cobounded2)
  have all: "x \<le> AUTO"
    if "x \<in> insert (op_default_mode (ac_policy context))
      (or_minimum_mode ` set (matching_rules (ac_policy context) ?E))" for x
    using m(1) that unfolding minimum_mode_max by (simp add: Max_le_iff del: AUTO_least) blast
  have "or_minimum_mode rule = AUTO"
    if "risk \<in> set (ac_risk_rules context)" "rule \<in> set (op_rules (ac_policy context))"
      "rule_matches risk ?step" "rk_tag risk \<in> or_risk_tags rule" for risk rule
  proof -
    have "rule \<in> set (matching_rules (ac_policy context) ?E)"
      using that by (auto simp: matching_rules_def evaluate_risks_def Let_def)
    then show ?thesis using all [of "or_minimum_mode rule"] by simp
  qed
  moreover have "op_default_mode (ac_policy context) = AUTO"
    using all [of "op_default_mode (ac_policy context)"] by simp
  ultimately show ?thesis
    using def normalize_arguments_inside [OF paths] m(2) d by auto
qed

lemma make_decision_simps:
  "ad_outcome (make_decision r oc rs ps d) = oc"
  "ad_normalized_paths (make_decision r oc rs ps d) = ps"
  by (simp_all add: make_decision_def)

lemma sample_authorize:
  "authorize (read_request ''a'') sample_context =
     Inr (make_decision (read_request ''a'') ALLOW
       [''registered request is inside the workspace and requires auto mode''] [''a'']
       (Some (classify_step (execution_step (read_request ''a'') [''a'']) (ownership_context sample_context))))"
proof -
  have "resolve (ac_registry sample_context) (tr_tool_name (read_request ''a'')) =
      Inr \<lparr>td_tool_name = ''read'', td_retry_is_idempotent = True, td_path_argument_names = [''path'']\<rparr>"
    by (simp add: resolve_def sample_context_def read_request_def)
  moreover have "normalize_arguments sample_context [(''path'', JStr ''a'')] [''path''] = Inr [''a'']"
    by (simp add: get_def get_default_def boundary_normalize_def sample_context_def portable_def
        starts_with_def windows_drive_def path_parts_def Let_def)
  moreover have "make_plan_step (execution_step (read_request ''a'') [''a'']) =
      Inr (execution_step (read_request ''a'') [''a''])"
    by (simp add: make_plan_step_def execution_step_def read_request_def step_id_pattern_def
        is_alnum_def is_digit_def)
  moreover have "od_mode (classify_step (execution_step (read_request ''a'') [''a'']) (ownership_context sample_context)) = AUTO"
    by (simp add: classify_step_def Let_def ownership_context_def sample_context_def evaluate_risks_def
        sample_risks_def rule_matches_def execution_step_def normalize_path_def portable_def
        fnmatchcase_def minimum_mode_for_def matching_rules_def sample_policy_def more_restrictive_def)
  ultimately show ?thesis by (simp add: authorize_def Let_def)
qed

theorem allowed_requests_are_safe_witness:
  "\<exists>target. get (request_arguments (read_request ''a'')) ''path'' = JStr target \<and>
     path_inside sample_context target ''a''"
proof -
  let ?d = "make_decision (read_request ''a'') ALLOW
    [''registered request is inside the workspace and requires auto mode''] [''a'']
    (Some (classify_step (execution_step (read_request ''a'') [''a'']) (ownership_context sample_context)))"
  have "ad_outcome ?d = ALLOW" by (simp only: make_decision_simps)
  from allowed_requests_are_safe [OF sample_authorize this] obtain def where
    def: "resolve (ac_registry sample_context) (tr_tool_name (read_request ''a'')) = Inr def" and
    all: "list_all2 (\<lambda>name path. \<exists>target. get (request_arguments (read_request ''a'')) name = JStr target \<and>
        path_inside sample_context target path) (td_path_argument_names def) [''a'']"
    unfolding make_decision_simps by blast
  have "td_path_argument_names def = [''path'']"
    using def by (auto simp: resolve_def sample_context_def read_request_def)
  with all show ?thesis by simp
qed

text \<open>A request whose step id has the form of a plan step is always decided, unless resolving a path
  raises something else than a \<open>ValueError\<close>; the decision is about the request, and it escalates exactly with the ownership decision of a stricter mode.\<close>

theorem wellformed_steps_are_decided:
  assumes "step_id_pattern (tr_step_id request)" and "\<And>p e. ac_resolver context p \<noteq> Inl (PathRaises e)"
  shows "\<exists>d. authorize request context = Inr d \<and> ad_run_id d = tr_run_id request \<and>
    ad_step_id d = tr_step_id request \<and> ad_tool_call_id d = tr_tool_call_id request \<and>
    ad_tool_name d = tr_tool_name request \<and>
    (ad_outcome d = ESCALATE \<longleftrightarrow>
       (\<exists>w. ad_ownership_decision d = Some w \<and> od_mode w \<noteq> AUTO))"
proof (cases "resolve (ac_registry context) (tr_tool_name request)")
  case (Inl e)
  then show ?thesis by (simp add: authorize_def make_decision_def)
next
  case (Inr def)
  show ?thesis
  proof (cases "normalize_arguments context (request_arguments request) (td_path_argument_names def)")
    case (Inl failure)
    with normalize_arguments_raises assms(2) obtain reason where "failure = BadPath reason"
      by (cases failure) blast+
    with Inl Inr show ?thesis by (simp add: authorize_def make_decision_def)
  next
    case (Inr paths)
    have "make_plan_step (execution_step request paths) = Inr (execution_step request paths)"
      using assms by (simp add: make_plan_step_def execution_step_def)
    with Inr \<open>resolve _ _ = _\<close> show ?thesis by (simp add: authorize_def make_decision_def Let_def)
  qed
qed

theorem wellformed_steps_are_decided_witness:
  "\<exists>d. authorize (read_request ''x'') sample_context = Inr d \<and> ad_tool_name d = ''read''"
  using wellformed_steps_are_decided [of "read_request ''x''" sample_context]
  by (auto simp: read_request_def step_id_pattern_def is_alnum_def is_digit_def sample_context_def)

text \<open>A request the constructor accepts can have a step id that authorization cannot handle: for a
  registered tool without path arguments, authorization then raises instead of deciding.\<close>

theorem accepted_step_id_breaks_authorization:
  "\<exists>request context. wf_request request \<and> authorize request context = Inl PyValueError"
proof (intro exI conjI)
  let ?r = "(read_request ''a'')\<lparr>tr_step_id := ''step 1''\<rparr>"
  have "request_post_init ?r = Inr ?r"
    using wf_read_request [of "''a''"]
    by (auto simp: wf_request_def request_post_init_def read_request_def result_simps)
  then show "wf_request ?r" by (simp add: wf_request_def)
  show "authorize ?r (sample_context\<lparr>ac_registry :=
      [(''read'', \<lparr>td_tool_name = ''read'', td_retry_is_idempotent = True, td_path_argument_names = []\<rparr>)]\<rparr>) =
      Inl PyValueError"
    by (simp add: authorize_def resolve_def read_request_def make_plan_step_def execution_step_def
        step_id_pattern_def is_alnum_def is_digit_def)
qed

subsection \<open>Gates\<close>

text \<open>C39: an answer passes a gate exactly when it does not refuse, names the gated tool and its path, and
  explains the risk in at least twenty characters that are not white space.\<close>

theorem gate_pass_iff_answer_matches:
  "(\<exists>e. evaluate_gate gate answer = Inr e \<and> ge_outcome e = GATE_PASS) \<longleftrightarrow>
     get answer ''refuse'' = JBool False \<and>
     get answer ''tool_name'' = JStr (gp_tool_name gate) \<and> gp_tool_name gate \<noteq> [] \<and>
     (\<exists>arguments path. loads (gp_arguments_json gate) = Some (JObj arguments) \<and>
        get arguments ''path'' = JStr path \<and> path \<noteq> [] \<and> get answer ''path'' = JStr path) \<and>
     (\<exists>explanation. get answer ''risk_explanation'' = JStr explanation \<and>
        20 \<le> explanation_length explanation)"
  by (simp add: evaluate_gate_passes answer_matches_def)

definition gated_decision :: "ToolRequest \<Rightarrow> AuthorizationDecision" where
  "gated_decision r = make_decision r ESCALATE [] []
     (Some \<lparr>od_step_id = tr_step_id r, od_mode = USER_GATE, od_policy_minimum_mode = USER_GATE,
        od_context_minimum_mode = AUTO, od_risk_assessment = evaluate_risks [] (execution_step r []),
        od_reasons = []\<rparr>)"

definition zero_hash :: hash where
  "zero_hash t = replicate 64 (CHR ''0'')"

lemma zero_hash_hex [simp]: "hex_digest (zero_hash t)"
  by (simp add: hex_digest_def zero_hash_def is_digit_def list_all_iff)

lemma canon_proposal:
  assumes "wf_request r" shows "canon (proposal_json r d m n)"
proof -
  from assms obtain a where "loads (tr_arguments_json r) = Some (JObj a)" "canon (JObj a)"
    by (auto simp: wf_request_def request_post_init_def result_simps canonical_object_Inr_iff)
  then show ?thesis
    by (simp add: proposal_json_def canon_obj request_arguments_def decoded_def)
qed

lemma gated_proposal:
  assumes "wf_request r" and "\<And>t. hex_digest (H t)"
  obtains g where "build_proposal H r (gated_decision r) 1 = Inr g"
proof -
  have "tr_run_id r \<noteq> []" "tr_tool_call_id r \<noteq> []" "tr_step_id r \<noteq> []" "tr_tool_name r \<noteq> []"
    using assms(1) by (auto simp: wf_request_def request_post_init_def result_simps)
  with that show thesis
    by (simp add: build_proposal_def gated_decision_def make_decision_def
        dumps_canon [OF canon_proposal [OF assms(1)]] make_reference_def assms(2) Let_def)
qed

text \<open>A gate on a request without a text argument named \<open>path\<close> never opens: no answer to it passes,
  even when the tool's registered path arguments have other names.\<close>

theorem gate_without_path_never_passes:
  assumes "build_proposal H request decision revision = Inr gate"
    and "\<forall>p. get (request_arguments request) ''path'' \<noteq> JStr p"
  shows "\<not> (evaluate_gate gate answer = Inr e \<and> ge_outcome e = GATE_PASS)"
proof
  assume "evaluate_gate gate answer = Inr e \<and> ge_outcome e = GATE_PASS"
  then have "answer_matches gate answer" using evaluate_gate_passes by blast
  then obtain a p where a: "loads (gp_arguments_json gate) = Some (JObj a)" "get a ''path'' = JStr p"
    by (auto simp: answer_matches_def)
  have "gp_arguments_json gate = tr_arguments_json request"
    using assms(1) by (auto simp: build_proposal_def result_simps Let_def split: option.splits)
  with a assms(2) show False by (auto simp: request_arguments_def decoded_def)
qed

theorem gate_without_path_never_passes_witness:
  "\<exists>gate. build_proposal zero_hash ((read_request ''a'')\<lparr>tr_arguments_json := render (JObj [])\<rparr>)
       (gated_decision ((read_request ''a'')\<lparr>tr_arguments_json := render (JObj [])\<rparr>)) 1 = Inr gate \<and>
     (\<forall>answer e. \<not> (evaluate_gate gate answer = Inr e \<and> ge_outcome e = GATE_PASS))"
proof -
  let ?r = "(read_request ''a'')\<lparr>tr_arguments_json := render (JObj [])\<rparr>"
  have "canonical_object (render (JObj [])) = Inr (render (JObj []))"
    unfolding canonical_object_Inr_iff by (rule exI [of _ "[]"]) (simp add: loads_render canon_obj)
  then have "wf_request ?r" by (simp add: wf_request_def request_post_init_def read_request_def)
  then obtain gate where g: "build_proposal zero_hash ?r (gated_decision ?r) 1 = Inr gate"
    by (rule gated_proposal [of ?r zero_hash]) simp_all
  have "request_arguments ?r = []"
    by (simp add: request_arguments_def decoded_def loads_render canon_obj)
  with gate_without_path_never_passes [OF g] g show ?thesis by (auto simp: get_def get_default_def)
qed

text \<open>The digest of a proposal binds everything that was authorized: two proposals with the same digest
  have the same run, step, call, tool, arguments, normalized paths, mode and revision, unless
  the two digested texts collide under the hash.\<close>

theorem proposal_digest_binds:
  assumes "wf_request r" and "wf_request r'"
    and "build_proposal H r d n = Inr g" and "build_proposal H r' d' n' = Inr g'"
    and "gr_proposal_digest (gp_reference g) = gr_proposal_digest (gp_reference g')"
  shows "(tr_run_id r = tr_run_id r' \<and> tr_step_id r = tr_step_id r' \<and> tr_tool_call_id r = tr_tool_call_id r' \<and>
      tr_tool_name r = tr_tool_name r' \<and> request_arguments r = request_arguments r' \<and>
      ad_normalized_paths d = ad_normalized_paths d' \<and> gp_ownership_mode g = gp_ownership_mode g' \<and>
      n = n') \<or>
    (let t = render (proposal_json r d (gp_ownership_mode g) n);
         t' = render (proposal_json r' d' (gp_ownership_mode g') n')
     in t \<noteq> t' \<and> H t = H t')"
proof -
  have digest: "gr_proposal_digest (gp_reference x) = H (render (proposal_json q e (gp_ownership_mode x) k))"
    if "wf_request q" "build_proposal H q e k = Inr x" for q e k x
    using that(2) by (auto simp: build_proposal_def result_simps Let_def make_reference_def
        dumps_canon [OF canon_proposal [OF that(1)]] split: option.splits)
  let ?t = "render (proposal_json r d (gp_ownership_mode g) n)"
    and ?t' = "render (proposal_json r' d' (gp_ownership_mode g') n')"
  have eq: "H ?t = H ?t'" using assms(5) digest [OF assms(1,3)] digest [OF assms(2,4)] by simp
  show ?thesis
  proof (cases "?t = ?t'")
    case False
    with eq show ?thesis by (simp add: Let_def)
  next
    case True
    then have "loads ?t = loads ?t'" by simp
    then have "proposal_json r d (gp_ownership_mode g) n = proposal_json r' d' (gp_ownership_mode g') n'"
      by (simp add: loads_render [OF canon_proposal [OF assms(1)]] loads_render [OF canon_proposal [OF assms(2)]])
    moreover have "mode_value m = mode_value m' \<longleftrightarrow> m = m'" for m m' by (cases m; cases m') simp_all
    moreover have "map JStr xs = map JStr ys \<longleftrightarrow> xs = ys" for xs ys
      by (rule inj_map_eq_map) (simp add: inj_def)
    ultimately show ?thesis by (simp add: proposal_json_def)
  qed
qed

theorem proposal_digest_binds_witness:
  "\<exists>g. build_proposal zero_hash (read_request ''a'') (gated_decision (read_request ''a'')) 1 = Inr g \<and>
     (\<forall>d g'. build_proposal zero_hash (read_request ''b'') d 1 = Inr g' \<longrightarrow>
        gr_proposal_digest (gp_reference g) = gr_proposal_digest (gp_reference g') \<longrightarrow>
        (\<exists>t t'. t \<noteq> t' \<and> zero_hash t = zero_hash t'))"
proof -
  obtain g where g: "build_proposal zero_hash (read_request ''a'') (gated_decision (read_request ''a'')) 1 = Inr g"
    by (rule gated_proposal [of "read_request ''a''" zero_hash]) simp_all
  have "\<exists>t t'. t \<noteq> t' \<and> zero_hash t = zero_hash t'"
    if "build_proposal zero_hash (read_request ''b'') d 1 = Inr g'"
      "gr_proposal_digest (gp_reference g) = gr_proposal_digest (gp_reference g')" for d g'
    using proposal_digest_binds [OF wf_read_request wf_read_request g that] unfolding Let_def
    by (auto simp del: proposal_json_def)
  with g show ?thesis by blast
qed

end
