(* ===== verification/JsonLimits.thy ===== *)
theory JsonLimits
  imports Json
begin

section \<open>The interpreter's limits on JSON\<close>

text \<open>
  What \<open>json.loads\<close> and \<open>json.dumps\<close> raise on texts and values that Python itself refuses: an
  integer literal of more than 4300 digits is a plain \<open>ValueError\<close>, and arrays and objects that
  are nested deeper than the interpreter's stack allows are a \<open>RecursionError\<close>. How deep that is
  depends on the interpreter and on the stack at the call, so it is a parameter. \<open>loads\<close> and
  \<open>dumps\<close> have no limits; here is the error that stops a scan before they would end.
\<close>

subsection \<open>json.loads\<close>

definition MAX_STR_DIGITS :: nat where
  "MAX_STR_DIGITS = 4300"

text \<open>A number is converted by \<open>int\<close> when it has neither a fraction nor an exponent.\<close>

definition number_error :: "string \<Rightarrow> error option" where
  "number_error s =
     (case int_part (if take 1 s = ''-'' then tl s else s) of
        None \<Rightarrow> None
      | Some (ip, r) \<Rightarrow>
          if fst (frac_part r) = [] \<and> fst (exp_part (snd (frac_part r))) = [] \<and> MAX_STR_DIGITS < length ip
          then Some PyValueError else None)"

text \<open>
  The scan goes from left to right with the parser; \<open>d\<close> is the number of arrays and objects that
  may still be entered. A syntax error ends it without a limit being hit. The fuel \<open>n\<close> of twice the
  length of the text is enough: two calls enter an array, and its bracket is consumed.
\<close>

fun value_error :: "nat \<Rightarrow> nat \<Rightarrow> string \<Rightarrow> error option"
  and elems_error :: "nat \<Rightarrow> nat \<Rightarrow> string \<Rightarrow> error option"
  and members_error :: "nat \<Rightarrow> nat \<Rightarrow> string \<Rightarrow> error option" where
  "value_error 0 d s = None"
| "value_error (Suc n) d s =
     (case s of
        [] \<Rightarrow> None
      | c # r \<Rightarrow>
          if c = CHR 0x22 then None
          else if c = CHR ''{'' then
            (if d = 0 then Some PyRecursionError
             else if take 1 (skip_ws r) = ''}'' then None
             else members_error n (d - 1) (skip_ws r))
          else if c = CHR ''['' then
            (if d = 0 then Some PyRecursionError
             else if take 1 (skip_ws r) = '']'' then None
             else elems_error n (d - 1) (skip_ws r))
          else (case parse_keyword json_words s of Some _ \<Rightarrow> None | None \<Rightarrow> number_error s))"
| "elems_error 0 d s = None"
| "elems_error (Suc n) d s =
     (case value_error n d s of
        Some e \<Rightarrow> Some e
      | None \<Rightarrow>
          (case parse_val n s of
             None \<Rightarrow> None
           | Some (_, r) \<Rightarrow>
               (case skip_ws r of
                  [] \<Rightarrow> None
                | c # r' \<Rightarrow> if c = CHR '','' then elems_error n d (skip_ws r') else None)))"
| "members_error 0 d s = None"
| "members_error (Suc n) d s =
     (if take 1 s \<noteq> [CHR 0x22] then None
      else case parse_str (tl s) of
        None \<Rightarrow> None
      | Some (_, r) \<Rightarrow>
          if take 1 (skip_ws r) \<noteq> '':'' then None
          else let v = skip_ws (tl (skip_ws r)) in
            (case value_error n d v of
               Some e \<Rightarrow> Some e
             | None \<Rightarrow>
                 (case parse_val n v of
                    None \<Rightarrow> None
                  | Some (_, r1) \<Rightarrow>
                      (case skip_ws r1 of
                         [] \<Rightarrow> None
                       | c # r' \<Rightarrow> if c = CHR '','' then members_error n d (skip_ws r') else None))))"

definition load_error :: "nat \<Rightarrow> string \<Rightarrow> error option" where
  "load_error d s = value_error (Suc (2 * length s)) d (skip_ws s)"

lemma number_error_cases: "number_error s = Some e \<Longrightarrow> e = PyValueError"
  by (auto simp: number_error_def split: option.splits if_splits)

lemma value_error_cases:
  "value_error n d s = Some e \<Longrightarrow> e = PyValueError \<or> e = PyRecursionError"
  "elems_error n d s = Some e \<Longrightarrow> e = PyValueError \<or> e = PyRecursionError"
  "members_error n d s = Some e \<Longrightarrow> e = PyValueError \<or> e = PyRecursionError"
  by (induction n d s and n d s and n d s arbitrary: e and e and e rule: value_error_elems_error_members_error.induct)
     (auto simp: Let_def dest: number_error_cases split: list.splits option.splits if_splits, blast+)

lemma load_error_cases: "load_error d s = Some e \<Longrightarrow> e = PyValueError \<or> e = PyRecursionError"
  unfolding load_error_def by (rule value_error_cases(1))

subsection \<open>json.dumps\<close>

text \<open>The first error of the traversal, in key order: a value without JSON text, or too deep a nesting.\<close>

fun first_error :: "error option list \<Rightarrow> error option" where
  "first_error [] = None"
| "first_error (None # es) = first_error es"
| "first_error (Some e # es) = Some e"

fun dump_error :: "nat \<Rightarrow> json \<Rightarrow> error option" where
  "dump_error d JUnserializable = Some PyValueError"
| "dump_error d (JArr vs) =
     (if d = 0 then Some PyRecursionError else first_error (map (dump_error (d - 1)) vs))"
| "dump_error d (JObj kvs) =
     (if d = 0 then Some PyRecursionError else first_error (map (\<lambda>kv. dump_error (d - 1) (snd kv)) kvs))"
| "dump_error d v = None"

text \<open>The limits at the calls that read what a provider sent.\<close>

record json_limits =
  jl_body :: nat
  jl_arguments :: nat
  jl_dump :: nat

subsection \<open>Texts beyond the limits\<close>

text \<open>The shape of the texts by which the limits are hit: one number, or nothing but brackets.\<close>

lemma digits_error:
  assumes "\<forall>c \<in> set ds. is_digit c" and "hd ds \<noteq> CHR ''0''" and "4300 < length ds"
    and "r = [] \<or> hd r = CHR ''}''"
  shows "value_error (Suc n) d (ds @ r) = Some PyValueError"
proof -
  obtain c cs where c: "ds = c # cs" using assms(3) by (cases ds) auto
  have dig: "is_digit c" "\<forall>c \<in> set cs. is_digit c" "c \<noteq> CHR ''0''" using assms(1,2) c by auto
  then have ns: "c \<notin> {CHR 0x22, CHR ''{'', CHR ''['', CHR ''-'', CHR ''n'', CHR ''t'', CHR ''f'', CHR ''N'', CHR ''I''}"
    by (auto simp: is_digit_def)
  have r: "takeWhile is_digit r = []" "dropWhile is_digit r = r" "frac_part r = ([], r)" "exp_part r = ([], r)"
    using assms(4) by (cases r; auto simp: is_digit_def frac_part_def exp_part_def)+
  have "takeWhile is_digit (cs @ r) = cs" "dropWhile is_digit (cs @ r) = r"
    using dig(2) r(1,2) by simp_all
  then have "int_part (c # cs @ r) = Some (ds, r)" using dig c by (simp add: int_part_def)
  moreover have "parse_keyword json_words (c # cs @ r) = None"
    using ns by (simp add: json_words_def strip_def)
  ultimately show ?thesis
    using ns assms(3) by (simp add: c number_error_def MAX_STR_DIGITS_def r)
qed

lemma brackets_error: "value_error (Suc (n + d)) d (replicate (Suc d) (CHR ''['') @ r) = Some PyRecursionError" if "d \<le> n"
  using that
proof (induction d arbitrary: n)
  case 0
  then show ?case by simp
next
  case (Suc d)
  then obtain m where m: "n = Suc m" by (cases n) auto
  have "skip_ws (replicate (Suc d) (CHR ''['') @ r) = replicate (Suc d) (CHR ''['') @ r"
    by (simp add: skip_ws_def is_ws_def)
  moreover have "elems_error (Suc (Suc (m + d))) d (replicate (Suc d) (CHR ''['') @ r) = Some PyRecursionError"
    using Suc.IH [of m] Suc.prems m by (simp del: value_error.simps)
  ultimately show ?case by (simp add: m)
qed

end
