(* ===== verification/ModelActions.thy ===== *)
theory ModelActions
  imports Authorization RunStates JsonLimits
begin

section \<open>Model inputs and actions (model_adapter.py)\<close>

text \<open>
  The context the runtime shows a model, the two actions a model may propose, their
  constructors, and the compilation of a tool proposal to a request under the runtime's own
  identity.
\<close>

subsection \<open>Constructors\<close>

definition canonical_object_json :: "payload \<Rightarrow> string result" where
  "canonical_object_json value =
     (case dumps (JObj value) of None \<Rightarrow> Inl ModelActionValidationError | Some t \<Rightarrow> Inr t)"

text \<open>
  The check of a text that encodes an object: only a \<open>TypeError\<close> and a \<open>JSONDecodeError\<close> of
  \<open>json.loads\<close>, a \<open>TypeError\<close> and a \<open>ValueError\<close> of \<open>json.dumps\<close> are caught, so that the other
  errors at the interpreter's limits are passed on. \<open>validate_object_text\<close> is the check of a text
  within the limits, such as those that the runtime itself dumped.
\<close>

definition validate_object_text :: "string \<Rightarrow> string result" where
  "validate_object_text value =
     (case loads value of
        Some (JObj d) \<Rightarrow> canonical_object_json d
      | _ \<Rightarrow> Inl ModelActionValidationError)"

definition limit_error :: "json_limits \<Rightarrow> string \<Rightarrow> error option" where
  "limit_error L value =
     (case load_error (jl_arguments L) value of
        Some e \<Rightarrow> Some e
      | None \<Rightarrow>
          (case loads value of
             Some (JObj d) \<Rightarrow>
               if dump_error (jl_dump L) (JObj d) = Some PyRecursionError then Some PyRecursionError else None
           | _ \<Rightarrow> None))"

definition validate_object_json :: "json_limits \<Rightarrow> string \<Rightarrow> string result" where
  "validate_object_json L value =
     (case limit_error L value of Some e \<Rightarrow> Inl e | None \<Rightarrow> validate_object_text value)"

record ModelInput =
  mi_run_id :: string
  mi_step_id :: string
  mi_turn_index :: int
  mi_state_status :: RunStatus
  mi_observation_json :: string

definition input_post_init :: "ModelInput \<Rightarrow> ModelInput result" where
  "input_post_init c =
     ensure (mi_run_id c \<noteq> []) ModelActionValidationError
     (ensure (mi_step_id c \<noteq> []) ModelActionValidationError
     (ensure (0 \<le> mi_turn_index c) ModelActionValidationError
     (bindR (validate_object_text (mi_observation_json c)) (\<lambda>t.
      Inr (c\<lparr>mi_observation_json := t\<rparr>)))))"

definition build_input :: "string \<Rightarrow> string \<Rightarrow> int \<Rightarrow> RunStatus \<Rightarrow> payload \<Rightarrow> ModelInput result" where
  "build_input run_id step_id turn st observation =
     bindR (canonical_object_json observation) (\<lambda>t.
     input_post_init \<lparr>mi_run_id = run_id, mi_step_id = step_id, mi_turn_index = turn,
       mi_state_status = st, mi_observation_json = t\<rparr>)"

definition input_observation :: "ModelInput \<Rightarrow> payload" where
  "input_observation c = decoded (mi_observation_json c)"

record ToolCallAction =
  tca_tool_call_id :: string
  tca_tool_name :: string
  tca_arguments_json :: string

definition tool_call_post_init :: "ToolCallAction \<Rightarrow> ToolCallAction result" where
  "tool_call_post_init a =
     ensure (tca_tool_call_id a \<noteq> []) ModelActionValidationError
     (ensure (tca_tool_name a \<noteq> []) ModelActionValidationError
     (bindR (validate_object_text (tca_arguments_json a)) (\<lambda>t.
      Inr (a\<lparr>tca_arguments_json := t\<rparr>))))"

definition build_tool_call :: "string \<Rightarrow> string \<Rightarrow> payload \<Rightarrow> ToolCallAction result" where
  "build_tool_call tool_call_id tool_name arguments =
     bindR (canonical_object_json arguments) (\<lambda>t.
     tool_call_post_init \<lparr>tca_tool_call_id = tool_call_id, tca_tool_name = tool_name,
       tca_arguments_json = t\<rparr>)"

definition tool_call_arguments :: "ToolCallAction \<Rightarrow> payload" where
  "tool_call_arguments a = decoded (tca_arguments_json a)"

text \<open>The constructor on a text that comes from outside.\<close>

definition untrusted_tool_call :: "json_limits \<Rightarrow> string \<Rightarrow> string \<Rightarrow> string \<Rightarrow> ToolCallAction result" where
  "untrusted_tool_call L tool_call_id tool_name arguments_json =
     ensure (tool_call_id \<noteq> []) ModelActionValidationError
     (ensure (tool_name \<noteq> []) ModelActionValidationError
     (bindR (validate_object_json L arguments_json) (\<lambda>t.
      Inr \<lparr>tca_tool_call_id = tool_call_id, tca_tool_name = tool_name, tca_arguments_json = t\<rparr>)))"

datatype ModelAction = ToolCall ToolCallAction | FinalAnswer string

text \<open>\<open>FinalAnswerAction(answer)\<close> and the check of either action by its constructor.\<close>

definition final_answer_post_init :: "string \<Rightarrow> string result" where
  "final_answer_post_init answer = ensure (answer \<noteq> []) ModelActionValidationError (Inr answer)"

definition action_post_init :: "ModelAction \<Rightarrow> ModelAction result" where
  "action_post_init action =
     (case action of
        ToolCall a \<Rightarrow> map_sum id ToolCall (tool_call_post_init a)
      | FinalAnswer answer \<Rightarrow> map_sum id FinalAnswer (final_answer_post_init answer))"

definition wf_input :: "ModelInput \<Rightarrow> bool" where
  "wf_input c \<longleftrightarrow> input_post_init c = Inr c"

definition wf_action :: "ModelAction \<Rightarrow> bool" where
  "wf_action action \<longleftrightarrow> action_post_init action = Inr action"

subsection \<open>Adapters\<close>

text \<open>
  An adapter is a parameter: it returns a constructed action, or another object (\<open>None\<close>), or
  raises.
\<close>

type_synonym 'a adapter = "ModelInput \<Rightarrow> 'a \<Rightarrow> ModelAction option result \<times> 'a"

definition request_model_action :: "ModelAction option result \<Rightarrow> ModelAction result" where
  "request_model_action proposed =
     bindR proposed (\<lambda>action. case action of
        None \<Rightarrow> Inl ModelActionValidationError
      | Some a \<Rightarrow> Inr a)"

text \<open>A negative turn would index from the end; a constructed input has none.\<close>

definition static_next_action :: "ModelAction list \<Rightarrow> ModelInput \<Rightarrow> ModelAction option result" where
  "static_next_action actions c =
     (let n = mi_turn_index c; k = (if n < 0 then n + int (length actions) else n)
      in ensure (0 \<le> k \<and> k < int (length actions)) ModelAdapterExhaustedError
         (Inr (Some (actions ! nat k))))"

definition tool_request_from_action ::
  "ModelInput \<Rightarrow> ModelAction \<Rightarrow> string option \<Rightarrow> ToolRequest result" where
  "tool_request_from_action c action model_action_event_id =
     ensure (mi_state_status c = READY) InvalidTransitionError
     (case action of
        FinalAnswer _ \<Rightarrow> Inl ModelActionValidationError
      | ToolCall a \<Rightarrow> request_post_init
          \<lparr>tr_run_id = mi_run_id c, tr_step_id = mi_step_id c,
           tr_tool_call_id = tca_tool_call_id a, tr_tool_name = tca_tool_name a,
           tr_arguments_json = tca_arguments_json a,
           tr_model_action_event_id = model_action_event_id\<rparr>)"

subsection \<open>Constructed values\<close>

lemma canonical_object_json_canon:
  "canon (JObj p) \<Longrightarrow> canonical_object_json p = Inr (render (JObj p))"
  by (simp add: canonical_object_json_def dumps_canon)

lemma validate_object_text_Inr_iff [result_simps]:
  "validate_object_text t = Inr u \<longleftrightarrow> (\<exists>d. loads t = Some (JObj d) \<and> canon (JObj d) \<and> u = render (JObj d))"
proof -
  have "canonical_object_json d = Inr u \<longleftrightarrow> canonical_json d = Inr u" for d
    by (auto simp: canonical_object_json_def canonical_json_def split: option.splits)
  then have "validate_object_text t = Inr u \<longleftrightarrow> canonical_object t = Inr u"
    by (auto simp: validate_object_text_def canonical_object_def split: option.splits json.splits)
  then show ?thesis by (simp add: canonical_object_Inr_iff)
qed

lemma input_post_init_Inr_iff [result_simps]:
  "input_post_init c = Inr c' \<longleftrightarrow> mi_run_id c \<noteq> [] \<and> mi_step_id c \<noteq> [] \<and> 0 \<le> mi_turn_index c \<and>
     (\<exists>d. loads (mi_observation_json c) = Some (JObj d) \<and> canon (JObj d) \<and>
        c' = c\<lparr>mi_observation_json := render (JObj d)\<rparr>)"
  by (auto simp: input_post_init_def result_simps)

lemma tool_call_post_init_Inr_iff [result_simps]:
  "tool_call_post_init a = Inr a' \<longleftrightarrow> tca_tool_call_id a \<noteq> [] \<and> tca_tool_name a \<noteq> [] \<and>
     (\<exists>d. loads (tca_arguments_json a) = Some (JObj d) \<and> canon (JObj d) \<and>
        a' = a\<lparr>tca_arguments_json := render (JObj d)\<rparr>)"
  by (auto simp: tool_call_post_init_def result_simps)

lemma limit_error_cases: "limit_error L t = Some e \<Longrightarrow> e = PyValueError \<or> e = PyRecursionError"
  by (auto simp: limit_error_def dest: load_error_cases split: option.splits json.splits if_splits)

lemma untrusted_within_limits:
  "limit_error L t = None \<Longrightarrow> untrusted_tool_call L i n t =
     tool_call_post_init \<lparr>tca_tool_call_id = i, tca_tool_name = n, tca_arguments_json = t\<rparr>"
  by (simp add: untrusted_tool_call_def validate_object_json_def tool_call_post_init_def)

lemma untrusted_beyond_limits:
  "limit_error L t = Some e \<Longrightarrow> i \<noteq> [] \<Longrightarrow> n \<noteq> [] \<Longrightarrow> untrusted_tool_call L i n t = Inl e"
  by (simp add: untrusted_tool_call_def validate_object_json_def)

lemma built_input:
  assumes "canon (JObj p)" and "run_id \<noteq> []" and "step_id \<noteq> []" and "0 \<le> n"
  shows "build_input run_id step_id n s p =
    Inr \<lparr>mi_run_id = run_id, mi_step_id = step_id, mi_turn_index = n, mi_state_status = s,
      mi_observation_json = render (JObj p)\<rparr>"
  using assms by (simp add: build_input_def canonical_object_json_canon result_simps loads_render)

lemma wf_tool_call:
  assumes "wf_action (ToolCall a)"
  shows "tca_tool_call_id a \<noteq> []" and "tca_tool_name a \<noteq> []" and "tca_arguments_json a \<noteq> []"
    and "\<exists>d. canon (JObj d) \<and> tca_arguments_json a = render (JObj d)"
proof -
  have "tool_call_post_init a = Inr a"
    using assms by (cases "tool_call_post_init a") (auto simp: wf_action_def action_post_init_def)
  then obtain d where d: "tca_tool_call_id a \<noteq> []" "tca_tool_name a \<noteq> []"
      "loads (tca_arguments_json a) = Some (JObj d)" "canon (JObj d)"
      "a = a\<lparr>tca_arguments_json := render (JObj d)\<rparr>"
    by (auto simp: result_simps)
  then have r: "tca_arguments_json a = render (JObj d)"
    by (metis ToolCallAction.select_convs(3) ToolCallAction.surjective ToolCallAction.update_convs(3))
  show "tca_tool_call_id a \<noteq> []" "tca_tool_name a \<noteq> []" by fact+
  show "tca_arguments_json a \<noteq> []" using r by (simp add: render.simps(7))
  show "\<exists>d. canon (JObj d) \<and> tca_arguments_json a = render (JObj d)" using r d by blast
qed

end
