(* ===== verification/Verification.thy ===== *)
theory Verification
  imports ModelActions
begin

section \<open>Verification and completion (verification.py, completion.py)\<close>

text \<open>
  The deterministic checks of a tool receipt against trusted expectations, and of a proposed
  final answer against the application's conditions.
\<close>

subsection \<open>Receipts\<close>

datatype VerificationOutcome = PASSED | VERIFICATION_OUTCOME_FAILED

record VerificationExpectation =
  ve_path :: string
  ve_sha256 :: string

definition make_expectation :: "string \<Rightarrow> string \<Rightarrow> VerificationExpectation result" where
  "make_expectation path sha256 =
     ensure (path \<noteq> []) PyValueError
     (ensure (sha256 \<noteq> []) PyValueError
     (Inr \<lparr>ve_path = path, ve_sha256 = sha256\<rparr>))"

record Check =
  ck_name :: string
  ck_passed :: bool
  ck_message :: string

record VerificationResult =
  vr_outcome :: VerificationOutcome
  vr_checks :: "Check list"
  vr_summary :: string

definition verification_passed :: "VerificationResult \<Rightarrow> bool" where
  "verification_passed r \<longleftrightarrow> vr_outcome r = PASSED"

text \<open>\<open>value == text\<close>: only the string itself is equal to a string.\<close>

definition receipt_checks :: "ToolReceipt \<Rightarrow> VerificationExpectation \<Rightarrow> Check list" where
  "receipt_checks receipt expectation =
     (let output = receipt_output receipt;
          succeeded = (rc_outcome receipt = TOOL_SUCCEEDED_OUTCOME);
          path_ok = (get output ''path'' = JStr (ve_path expectation));
          sha_ok = (get output ''sha256'' = JStr (ve_sha256 expectation))
      in [\<lparr>ck_name = ''receipt_succeeded'', ck_passed = succeeded,
           ck_message = (if succeeded then ''receipt outcome is succeeded''
             else ''receipt outcome is not succeeded'')\<rparr>,
          \<lparr>ck_name = ''path_matches'', ck_passed = path_ok,
           ck_message = (if path_ok then ''receipt output path matches expectation''
             else ''receipt output path does not match expectation'')\<rparr>,
          \<lparr>ck_name = ''sha256_matches'', ck_passed = sha_ok,
           ck_message = (if sha_ok then ''receipt output sha256 matches expectation''
             else ''receipt output sha256 does not match expectation'')\<rparr>])"

definition verify_receipt :: "ToolReceipt \<Rightarrow> VerificationExpectation \<Rightarrow> VerificationResult" where
  "verify_receipt receipt expectation =
     (let checks = receipt_checks receipt expectation;
          failed_count = length (filter (\<lambda>c. \<not> ck_passed c) checks)
      in if failed_count = 0
         then \<lparr>vr_outcome = PASSED, vr_checks = checks,
           vr_summary = ''all verification checks passed''\<rparr>
         else \<lparr>vr_outcome = VERIFICATION_OUTCOME_FAILED, vr_checks = checks,
           vr_summary = show_nat failed_count @ '' verification checks failed''\<rparr>)"

subsection \<open>Completion\<close>

datatype CompletionOutcome = ACCEPTED | REJECTED

text \<open>\<open>CompletionCheck.__post_init__\<close>\<close>

definition check_post_init :: "Check \<Rightarrow> Check result" where
  "check_post_init c =
     ensure (ck_name c \<noteq> []) PyValueError (ensure (ck_message c \<noteq> []) PyValueError (Inr c))"

record CompletionExpectation =
  ce_expected_answer :: string
  ce_require_verified_observation :: bool

definition expectation_post_init :: "CompletionExpectation \<Rightarrow> CompletionExpectation result" where
  "expectation_post_init x = ensure (ce_expected_answer x \<noteq> []) PyValueError (Inr x)"

record CompletionResult =
  cr_outcome :: CompletionOutcome
  cr_answer_sha256 :: string
  cr_checks :: "Check list"
  cr_summary :: string

definition lower_hex :: "char \<Rightarrow> bool" where
  "lower_hex c \<longleftrightarrow> c \<in> set ''0123456789abcdef''"

definition completion_post_init :: "CompletionResult \<Rightarrow> CompletionResult result" where
  "completion_post_init r =
     ensure (length (cr_answer_sha256 r) = 64 \<and> list_all lower_hex (cr_answer_sha256 r)) PyValueError
     (ensure (cr_checks r \<noteq> []) PyValueError
     (ensure (cr_summary r \<noteq> []) PyValueError
     (ensure (list_all ck_passed (cr_checks r) \<longleftrightarrow> cr_outcome r = ACCEPTED) PyValueError
     (Inr r))))"

definition completion_accepted :: "CompletionResult \<Rightarrow> bool" where
  "completion_accepted r \<longleftrightarrow> cr_outcome r = ACCEPTED"

fun is_object :: "json \<Rightarrow> bool" where
  "is_object (JObj d) = True"
| "is_object _ = False"

fun members :: "json \<Rightarrow> payload" where
  "members (JObj d) = d"
| "members _ = []"

fun is_string :: "json \<Rightarrow> bool" where
  "is_string (JStr t) = True"
| "is_string _ = False"

fun is_array :: "json \<Rightarrow> bool" where
  "is_array (JArr vs) = True"
| "is_array _ = False"

definition has_verified_observation :: "ModelInput \<Rightarrow> bool" where
  "has_verified_observation c \<longleftrightarrow>
     (let verification = get (input_observation c) ''verification''
      in is_object verification \<and> is_string (get (members verification) ''summary'') \<and>
         is_array (get (members verification) ''checks''))"

definition completion_checks :: "string \<Rightarrow> ModelInput \<Rightarrow> CompletionExpectation \<Rightarrow> Check list" where
  "completion_checks answer c expectation =
     [\<lparr>ck_name = ''answer_matches'', ck_passed = (answer = ce_expected_answer expectation),
       ck_message = (if answer = ce_expected_answer expectation
         then ''answer matched the trusted expectation''
         else ''answer did not match the trusted expectation'')\<rparr>,
      \<lparr>ck_name = ''verified_observation'',
       ck_passed = (\<not> ce_require_verified_observation expectation \<or> has_verified_observation c),
       ck_message = (if has_verified_observation c then ''verified observation was present''
         else ''verified observation was absent'')\<rparr>]"

definition verify_completion ::
  "hash \<Rightarrow> string \<Rightarrow> ModelInput \<Rightarrow> CompletionExpectation \<Rightarrow> CompletionResult result" where
  "verify_completion H answer c expectation =
     (let checks = completion_checks answer c expectation;
          accepted = list_all ck_passed checks
      in bindR (mapR check_post_init checks) (\<lambda>cs.
         completion_post_init
           \<lparr>cr_outcome = (if accepted then ACCEPTED else REJECTED), cr_answer_sha256 = H answer,
            cr_checks = cs,
            cr_summary = (if accepted then ''completion proposal accepted''
              else ''completion proposal rejected'')\<rparr>))"

text \<open>\<open>{"name": ..., "passed": ..., "message": ...}\<close>, as the runtime stores a check.\<close>

definition check_json :: "Check \<Rightarrow> json" where
  "check_json c = JObj [(''message'', JStr (ck_message c)), (''name'', JStr (ck_name c)),
     (''passed'', JBool (ck_passed c))]"

subsection \<open>When the checks pass\<close>

lemma verify_receipt_passed:
  "vr_outcome (verify_receipt receipt x) = PASSED \<longleftrightarrow>
     rc_outcome receipt = TOOL_SUCCEEDED_OUTCOME \<and>
     get (receipt_output receipt) ''path'' = JStr (ve_path x) \<and>
     get (receipt_output receipt) ''sha256'' = JStr (ve_sha256 x)"
  by (simp add: verify_receipt_def receipt_checks_def Let_def)

lemma verify_receipt_summary [simp]: "vr_summary (verify_receipt receipt x) \<noteq> []"
  by (simp add: verify_receipt_def Let_def)

lemma canon_check [simp]: "canon (check_json c)"
  by (simp add: check_json_def canon_obj)

lemma completion_checks_pass:
  "list_all ck_passed (completion_checks answer c x) \<longleftrightarrow>
     answer = ce_expected_answer x \<and>
     (ce_require_verified_observation x \<longrightarrow> has_verified_observation c)"
  by (auto simp: completion_checks_def)

lemma verify_completion_Inr:
  assumes "verify_completion H answer c x = Inr r"
  shows "cr_answer_sha256 r = H answer" and "cr_summary r \<noteq> []" and "cr_answer_sha256 r \<noteq> []"
    and "cr_outcome r = ACCEPTED \<longleftrightarrow> answer = ce_expected_answer x \<and>
      (ce_require_verified_observation x \<longrightarrow> has_verified_observation c)"
  using assms unfolding completion_checks_pass [symmetric]
  by (auto simp: verify_completion_def completion_post_init_def Let_def result_simps split: if_splits)

end
