(* ===== verification/Runtime.thy ===== *)
theory Runtime
  imports Executor EventStore Gates Verification
begin

section \<open>The authorized tool runtime (authorized_tool_runtime.py)\<close>

text \<open>
  The operations of \<open>AuthorizedToolRuntime\<close> over an event log, an effect store and the world
  outside. Every operation is an action: what it persisted before it raised stays persisted. The
  clock is the sequence of its readings, the gate evaluator and the crash injectors are
  parameters, and the run state is never stored: every operation derives it from the log.
\<close>

subsection \<open>Results\<close>

datatype SnapshotCheckpoint = AFTER_SNAPSHOT_PERSISTED | BEFORE_TAIL_REPLAY | BEFORE_FULL_REPLAY

datatype RuntimeToolOutcome =
  EXECUTED | DENIED | RESULT_AWAITING_GATE | RESULT_GATE_RETRY | BLOCKED | RESULT_REJECTED

record RuntimeToolResult =
  rt_outcome :: RuntimeToolOutcome
  rt_state :: RunState
  rt_authorization :: "AuthorizationDecision option"
  rt_gate_proposal :: "GateProposal option"
  rt_gate_evaluation :: "GateEvaluation option"
  rt_gate_attempt :: "int option"
  rt_receipt :: "ToolReceipt option"

definition tool_result :: "RuntimeToolOutcome \<Rightarrow> RunState \<Rightarrow> RuntimeToolResult" where
  "tool_result oc s = \<lparr>rt_outcome = oc, rt_state = s, rt_authorization = None,
     rt_gate_proposal = None, rt_gate_evaluation = None, rt_gate_attempt = None, rt_receipt = None\<rparr>"

record ModelToolRecovery =
  mr_context :: ModelInput
  mr_action :: ToolCallAction
  mr_receipt :: ToolReceipt

record DurableModelAction =
  da_event_id :: string
  da_invocation_id :: string
  da_context :: ModelInput
  da_action :: ModelAction

subsection \<open>The runtime and its world\<close>

record ('d, 'e, 'w) runtime =
  ru_hash :: hash
  ru_log :: "'d event_log"
  ru_effects :: "'e effect_store"
  ru_registry :: ToolRegistry
  ru_runner :: "'w runner"
  ru_injector :: injector
  ru_context :: AuthorizationContext
  ru_snapshots :: bool
  ru_snapshot_injector :: "(SnapshotCheckpoint \<Rightarrow> error option) option"
  ru_gate_evaluator :: "GateProposal \<Rightarrow> payload \<Rightarrow> GateEvaluation option result"
  ru_max_attempts :: int
  ru_clock :: "nat \<Rightarrow> datetime"

definition runtime_init :: "('d, 'e, 'w) runtime \<Rightarrow> ('d, 'e, 'w) runtime result" where
  "runtime_init R =
     ensure (1 \<le> ru_max_attempts R) PyValueError
     (ensure (ru_snapshots R \<or> Option.is_none (ru_snapshot_injector R)) PyValueError
     (Inr R))"

record ('d, 'e, 'w) runtime_world =
  rw_events :: 'd
  rw_ticks :: nat
  rw_tools :: "('e, 'w) tool_world"

type_synonym ('d, 'e, 'w, 'a) operation = "(('d, 'e, 'w) runtime_world, 'a) action"

definition reach_snapshot_checkpoint ::
  "('d, 'e, 'w) runtime \<Rightarrow> SnapshotCheckpoint \<Rightarrow> ('d, 'e, 'w, unit) operation" where
  "reach_snapshot_checkpoint R c =
     (case ru_snapshot_injector R of
        None \<Rightarrow> returnA ()
      | Some injector \<Rightarrow> (case injector c of None \<Rightarrow> returnA () | Some e \<Rightarrow> raiseA e))"

definition eventsA :: "('d, 'e, 'w) runtime \<Rightarrow> string \<Rightarrow> ('d, 'e, 'w, ExecutionEvent list) operation" where
  "eventsA R run_id = askA (\<lambda>w. el_load (ru_log R) (rw_events w) run_id)"

definition full_replay :: "('d, 'e, 'w) runtime \<Rightarrow> string \<Rightarrow> ('d, 'e, 'w, RunState) operation" where
  "full_replay R run_id =
     askA (\<lambda>w. bindR (el_load (ru_log R) (rw_events w) run_id) (replay (ru_hash R) run_id))"

definition load_state :: "('d, 'e, 'w) runtime \<Rightarrow> string \<Rightarrow> ('d, 'e, 'w, RunState) operation" where
  "load_state R run_id =
     (if ru_snapshots R then
        bindA (askA (\<lambda>w. el_load_snapshot (ru_log R) (rw_events w) run_id)) (\<lambda>snapshot.
        case snapshot of
          Some s \<Rightarrow>
            bindA (reach_snapshot_checkpoint R BEFORE_TAIL_REPLAY) (\<lambda>_.
            askA (\<lambda>w. bindR (el_load_tail (ru_log R) (rw_events w) run_id (next_sequence s))
              (replay_tail (ru_hash R) s)))
        | None \<Rightarrow>
            bindA (reach_snapshot_checkpoint R BEFORE_FULL_REPLAY) (\<lambda>_. full_replay R run_id))
      else full_replay R run_id)"

definition save_snapshotA :: "('d, 'e, 'w) runtime \<Rightarrow> RunState \<Rightarrow> ('d, 'e, 'w, unit) operation" where
  "save_snapshotA R s w =
     (case el_save_snapshot (ru_log R) (rw_events w) s of
        Inl e \<Rightarrow> (Inl e, w)
      | Inr d \<Rightarrow> (Inr (), w\<lparr>rw_events := d\<rparr>))"

definition create_snapshot :: "('d, 'e, 'w) runtime \<Rightarrow> string \<Rightarrow> ('d, 'e, 'w, RunState) operation" where
  "create_snapshot R run_id =
     checkA (ru_snapshots R) PyRuntimeError
     (bindA (full_replay R run_id) (\<lambda>s.
      bindA (save_snapshotA R s) (\<lambda>_.
      bindA (reach_snapshot_checkpoint R AFTER_SNAPSHOT_PERSISTED) (\<lambda>_.
      returnA s))))"

subsection \<open>Appending an event\<close>

text \<open>\<open>f"{run_id}:{sequence}:{event_type.value}"\<close>\<close>

definition runtime_event_id :: "string \<Rightarrow> int \<Rightarrow> EventType \<Rightarrow> string" where
  "runtime_event_id run_id sequence k = run_id @ '':'' @ show_int sequence @ '':'' @ type_value k"

definition clockA :: "('d, 'e, 'w) runtime \<Rightarrow> ('d, 'e, 'w, datetime) operation" where
  "clockA R w = (Inr (ru_clock R (rw_ticks w)), w\<lparr>rw_ticks := rw_ticks w + 1\<rparr>)"

definition storeEventA :: "('d, 'e, 'w) runtime \<Rightarrow> ExecutionEvent \<Rightarrow> ('d, 'e, 'w, unit) operation" where
  "storeEventA R e w =
     (case el_append (ru_log R) (rw_events w) e of
        Inl err \<Rightarrow> (Inl err, w)
      | Inr d \<Rightarrow> (Inr (), w\<lparr>rw_events := d\<rparr>))"

definition append_event ::
  "('d, 'e, 'w) runtime \<Rightarrow> string \<Rightarrow> EventType \<Rightarrow> payload \<Rightarrow> ('d, 'e, 'w, RunState) operation" where
  "append_event R run_id k p =
     bindA (load_state R run_id) (\<lambda>s.
     bindA (clockA R) (\<lambda>now.
     bindA (liftA (build_event (runtime_event_id run_id (next_sequence s) k) run_id
       (next_sequence s) k now p)) (\<lambda>e.
     bindA (storeEventA R e) (\<lambda>_.
     full_replay R run_id))))"

subsection \<open>Reading the log back\<close>

definition payload_text :: "payload \<Rightarrow> string \<Rightarrow> string result" where
  "payload_text p field =
     (case get p field of
        JStr v \<Rightarrow> ensure (v \<noteq> []) GateReferenceMismatchError (Inr v)
      | _ \<Rightarrow> Inl GateReferenceMismatchError)"

definition optional_text :: "json \<Rightarrow> string option result" where
  "optional_text j =
     (case j of JNull \<Rightarrow> Inr None | JStr t \<Rightarrow> Inr (Some t) | _ \<Rightarrow> Inl EventValidationError)"

definition request_from :: "string \<Rightarrow> string \<Rightarrow> payload \<Rightarrow> ToolRequest result" where
  "request_from run_id tool_call_id p =
     bindR (payload_text p ''step_id'') (\<lambda>step_id.
     bindR (payload_text p ''tool_name'') (\<lambda>tool_name.
     bindR (payload_text p ''arguments_json'') (\<lambda>arguments_json.
     bindR (optional_text (get p ''model_action_event_id'')) (\<lambda>model_action_event_id.
     request_post_init \<lparr>tr_run_id = run_id, tr_step_id = step_id, tr_tool_call_id = tool_call_id,
       tr_tool_name = tool_name, tr_arguments_json = arguments_json,
       tr_model_action_event_id = model_action_event_id\<rparr>))))"

definition request_event :: "string \<Rightarrow> ExecutionEvent \<Rightarrow> bool" where
  "request_event tool_call_id e \<longleftrightarrow>
     ev_event_type e = TOOL_REQUESTED \<and> get (payload e) ''tool_call_id'' = JStr tool_call_id"

definition load_active_request ::
  "('d, 'e, 'w) runtime \<Rightarrow> string \<Rightarrow> string \<Rightarrow> ('d, 'e, 'w, ToolRequest) operation" where
  "load_active_request R run_id tool_call_id =
     bindA (eventsA R run_id) (\<lambda>es.
     liftA (case find (request_event tool_call_id) (rev es) of
        None \<Rightarrow> Inl GateReferenceMismatchError
      | Some e \<Rightarrow> request_from run_id tool_call_id (payload e)))"

definition observation_event :: "ExecutionEvent \<Rightarrow> bool" where
  "observation_event e \<longleftrightarrow>
     ev_event_type e = VERIFICATION_SUCCEEDED \<and> get (payload e) ''scope'' = JStr ''step''"

definition step_observation :: "ExecutionEvent list \<Rightarrow> payload" where
  "step_observation es =
     (case find observation_event (rev es) of
        None \<Rightarrow> []
      | Some e \<Rightarrow> [(''verification'', JObj
          [(''checks'', get_default (payload e) ''checks'' (JArr [])),
           (''summary'', get_default (payload e) ''summary'' (JStr []))])])"

definition load_step_observation :: "('d, 'e, 'w) runtime \<Rightarrow> string \<Rightarrow> ('d, 'e, 'w, payload) operation" where
  "load_step_observation R run_id = bindA (eventsA R run_id) (\<lambda>es. returnA (step_observation es))"

definition parse_mode :: "string \<Rightarrow> OwnershipMode result" where
  "parse_mode t =
     (case map_of (map (\<lambda>m. (mode_value m, m)) [AUTO, PAIR, USER_GATE]) t of
        None \<Rightarrow> Inl PyValueError
      | Some m \<Rightarrow> Inr m)"

fun reasons_of :: "json \<Rightarrow> string list result" where
  "reasons_of (JArr vs) = ensure (list_all nonempty_text vs) GateReferenceMismatchError (Inr (map text_of vs))"
| "reasons_of _ = Inl GateReferenceMismatchError"

definition proposal_event :: "string \<Rightarrow> GateReference \<Rightarrow> ExecutionEvent \<Rightarrow> bool" where
  "proposal_event tool_call_id reference e \<longleftrightarrow>
     (ev_event_type e = TOOL_ESCALATED \<or> ev_event_type e = GATE_REVISED) \<and>
     get (payload e) ''tool_call_id'' = JStr tool_call_id \<and>
     get (payload e) ''proposal_digest'' = JStr (gr_proposal_digest reference) \<and>
     eq_int (get (payload e) ''revision'') (gr_revision reference)"

definition proposal_from :: "ToolRequest \<Rightarrow> GateReference \<Rightarrow> payload \<Rightarrow> GateProposal result" where
  "proposal_from request reference p =
     bindR (reasons_of (get p ''reasons'')) (\<lambda>reasons.
     bindR (payload_text p ''ownership_mode'') (\<lambda>mode_text.
     bindR (parse_mode mode_text) (\<lambda>mode.
     ensure (tr_step_id request \<noteq> [] \<and> tr_tool_name request \<noteq> []) PyValueError
     (Inr \<lparr>gp_reference = reference, gp_step_id = tr_step_id request,
        gp_tool_name = tr_tool_name request, gp_arguments_json = tr_arguments_json request,
        gp_ownership_mode = mode, gp_reasons = reasons\<rparr>))))"

definition load_active_proposal ::
  "('d, 'e, 'w) runtime \<Rightarrow> ToolRequest \<Rightarrow> GateReference \<Rightarrow> ('d, 'e, 'w, GateProposal) operation" where
  "load_active_proposal R request reference =
     bindA (eventsA R (tr_run_id request)) (\<lambda>es.
     liftA (case find (proposal_event (tr_tool_call_id request) reference) (rev es) of
        None \<Rightarrow> Inl GateReferenceMismatchError
      | Some e \<Rightarrow> proposal_from request reference (payload e)))"

definition validate_reference :: "RunState \<Rightarrow> GateReference \<Rightarrow> unit result" where
  "validate_reference s reference =
     ensure (status s = AWAITING_GATE) GateReferenceMismatchError
     (ensure (active_tool_call_id s = Some (gr_tool_call_id reference)) GateReferenceMismatchError
     (ensure (active_gate_proposal_digest s = Some (gr_proposal_digest reference)) GateReferenceMismatchError
     (ensure (active_gate_revision s = Some (gr_revision reference)) GateReferenceMismatchError
     (Inr ()))))"

subsection \<open>Executing a granted request\<close>

fun authorization_value :: "AuthorizationOutcome \<Rightarrow> string" where
  "authorization_value ALLOW = ''allow''"
| "authorization_value DENY = ''deny''"
| "authorization_value ESCALATE = ''escalate''"

definition authorization_payload :: "ToolRequest \<Rightarrow> AuthorizationDecision \<Rightarrow> payload" where
  "authorization_payload request decision =
     [(''normalized_paths'', JArr (map JStr (ad_normalized_paths decision))),
      (''outcome'', JStr (authorization_value (ad_outcome decision))),
      (''ownership_mode'', (case ad_ownership_decision decision of
         None \<Rightarrow> JNull | Some w \<Rightarrow> JStr (mode_value (od_mode w)))),
      (''reasons'', JArr (map JStr (ad_reasons decision))),
      (''tool_call_id'', JStr (tr_tool_call_id request))]"

definition executeA :: "('d, 'e, 'w) runtime \<Rightarrow> ToolIntent \<Rightarrow> ('d, 'e, 'w, ToolReceipt) operation" where
  "executeA R i w =
     (case execute (ru_effects R) (ru_registry R) (ru_runner R) (ru_injector R) i (rw_tools w) of
        (r, t) \<Rightarrow> (r, w\<lparr>rw_tools := t\<rparr>))"

definition message_or :: "string \<Rightarrow> payload \<Rightarrow> string" where
  "message_or fallback output =
     (case get output ''message'' of JStr t \<Rightarrow> if t = [] then fallback else t | _ \<Rightarrow> fallback)"

definition outcome_event :: "ToolRequest \<Rightarrow> ToolReceipt \<Rightarrow> EventType \<times> payload" where
  "outcome_event request receipt =
     (let output = receipt_output receipt in
      case rc_outcome receipt of
        TOOL_TIMED_OUT_OUTCOME \<Rightarrow> (TOOL_TIMED_OUT,
          [(''reason'', JStr (message_or ''tool execution timed out'' output)),
           (''timeout_seconds'', get output ''timeout_seconds''),
           (''tool_call_id'', JStr (tr_tool_call_id request))])
      | TOOL_FAILED_OUTCOME \<Rightarrow> (TOOL_FAILED,
          [(''reason'', JStr (message_or ''tool execution failed'' output)),
           (''tool_call_id'', JStr (tr_tool_call_id request))])
      | TOOL_SUCCEEDED_OUTCOME \<Rightarrow> (TOOL_SUCCEEDED,
          [(''effect_id'', JStr (rc_effect_id receipt)),
           (''tool_call_id'', JStr (tr_tool_call_id request))]))"

definition run_effect ::
  "('d, 'e, 'w) runtime \<Rightarrow> ToolRequest \<Rightarrow> AuthorizationDecision option \<Rightarrow> GateEvaluation option \<Rightarrow>
   int option \<Rightarrow> ('d, 'e, 'w, RuntimeToolResult) operation" where
  "run_effect R request decision evaluation attempt =
     bindA (liftA (build_intent (ru_hash R) (tr_run_id request) (tr_tool_call_id request)
       (tr_tool_name request) (request_arguments request))) (\<lambda>intent.
     bindA (executeA R intent) (\<lambda>receipt.
     bindA (append_event R (tr_run_id request) (fst (outcome_event request receipt))
       (snd (outcome_event request receipt))) (\<lambda>s.
     returnA ((tool_result EXECUTED s)\<lparr>rt_authorization := decision,
       rt_gate_evaluation := evaluation, rt_gate_attempt := attempt,
       rt_receipt := Some receipt\<rparr>))))"

definition execute_request ::
  "('d, 'e, 'w) runtime \<Rightarrow> ToolRequest \<Rightarrow> AuthorizationDecision option \<Rightarrow> GateEvaluation option \<Rightarrow>
   int option \<Rightarrow> bool \<Rightarrow> ('d, 'e, 'w, RuntimeToolResult) operation" where
  "execute_request R request decision evaluation attempt append_started =
     (if append_started
      then bindA (append_event R (tr_run_id request) TOOL_STARTED
             [(''tool_call_id'', JStr (tr_tool_call_id request))])
             (\<lambda>_. run_effect R request decision evaluation attempt)
      else run_effect R request decision evaluation attempt)"

subsection \<open>Submitting a request\<close>

definition request_payload :: "ToolRequest \<Rightarrow> payload" where
  "request_payload request =
     (''arguments_json'', JStr (tr_arguments_json request)) #
     (case tr_model_action_event_id request of None \<Rightarrow> []
      | Some i \<Rightarrow> [(''model_action_event_id'', JStr i)]) @
     [(''step_id'', JStr (tr_step_id request)),
      (''tool_call_id'', JStr (tr_tool_call_id request)),
      (''tool_name'', JStr (tr_tool_name request))]"

definition attempts_entry :: "('d, 'e, 'w) runtime \<Rightarrow> GateProposal \<Rightarrow> payload" where
  "attempts_entry R proposal =
     (if gp_ownership_mode proposal = USER_GATE
      then [(''max_attempts'', JInt (ru_max_attempts R))] else [])"

definition escalation_payload :: "('d, 'e, 'w) runtime \<Rightarrow> GateProposal \<Rightarrow> string \<Rightarrow> payload" where
  "escalation_payload R proposal tool_call_id =
     attempts_entry R proposal @
     [(''ownership_mode'', JStr (mode_value (gp_ownership_mode proposal))),
      (''proposal_digest'', JStr (gr_proposal_digest (gp_reference proposal))),
      (''reasons'', JArr (map JStr (gp_reasons proposal))),
      (''revision'', JInt (gr_revision (gp_reference proposal))),
      (''tool_call_id'', JStr tool_call_id)]"

definition submit :: "('d, 'e, 'w) runtime \<Rightarrow> ToolRequest \<Rightarrow> ('d, 'e, 'w, RuntimeToolResult) operation" where
  "submit R request =
     bindA (append_event R (tr_run_id request) TOOL_REQUESTED (request_payload request)) (\<lambda>_.
     bindA (liftA (authorize request (ru_context R))) (\<lambda>decision.
     case ad_outcome decision of
       DENY \<Rightarrow>
         bindA (append_event R (tr_run_id request) TOOL_DENIED
           [(''reason'', JStr (join_with ''; '' (ad_reasons decision))),
            (''tool_call_id'', JStr (tr_tool_call_id request))]) (\<lambda>s.
         returnA ((tool_result DENIED s)\<lparr>rt_authorization := Some decision\<rparr>))
     | ESCALATE \<Rightarrow>
         bindA (liftA (build_proposal (ru_hash R) request decision 1)) (\<lambda>proposal.
         bindA (append_event R (tr_run_id request) TOOL_ESCALATED
           (escalation_payload R proposal (tr_tool_call_id request))) (\<lambda>s.
         returnA ((tool_result RESULT_AWAITING_GATE s)\<lparr>rt_authorization := Some decision,
           rt_gate_proposal := Some proposal\<rparr>)))
     | ALLOW \<Rightarrow>
         bindA (append_event R (tr_run_id request) TOOL_AUTHORIZED
           (authorization_payload request decision)) (\<lambda>_.
         execute_request R request (Some decision) None None True)))"

subsection \<open>Resolving, answering and revising a gate\<close>

text \<open>The request of the active gate must not be denied by the current policy, and when it still
  escalates it must give the same reference.\<close>

definition recheck ::
  "('d, 'e, 'w) runtime \<Rightarrow> ToolRequest \<Rightarrow> GateReference \<Rightarrow> AuthorizationDecision result" where
  "recheck R request reference =
     bindR (authorize request (ru_context R)) (\<lambda>current_decision.
     ensure (ad_outcome current_decision \<noteq> DENY) GateReferenceMismatchError
     (if ad_outcome current_decision = ESCALATE
      then bindR (build_proposal (ru_hash R) request current_decision (gr_revision reference))
        (\<lambda>current_proposal.
         ensure (gp_reference current_proposal = reference) GateReferenceMismatchError
         (Inr current_decision))
      else Inr current_decision))"

definition resolution_payload :: "GateResolution \<Rightarrow> payload" where
  "resolution_payload r =
     [(''actor'', JStr (gs_actor r)),
      (''proposal_digest'', JStr (gr_proposal_digest (gs_reference r))),
      (''reason'', JStr (gs_reason r)),
      (''revision'', JInt (gr_revision (gs_reference r))),
      (''tool_call_id'', JStr (gr_tool_call_id (gs_reference r)))]"

definition resolve_gate ::
  "('d, 'e, 'w) runtime \<Rightarrow> GateResolution \<Rightarrow> ('d, 'e, 'w, RuntimeToolResult) operation" where
  "resolve_gate R resolution =
     (let reference = gs_reference resolution; run_id = gr_run_id reference in
      bindA (load_state R run_id) (\<lambda>s.
      bindA (liftA (validate_reference s reference)) (\<lambda>_.
      checkA (\<not> (gs_action resolution = APPROVE \<and> active_gate_mode s = Some (mode_value USER_GATE)))
        InvalidTransitionError
      (bindA (load_active_request R run_id (gr_tool_call_id reference)) (\<lambda>request.
       if gs_action resolution = REJECT
       then bindA (append_event R run_id GATE_REJECTED (resolution_payload resolution)) (\<lambda>s.
            returnA (tool_result RESULT_REJECTED s))
       else bindA (liftA (recheck R request reference)) (\<lambda>current_decision.
            bindA (append_event R run_id GATE_APPROVED (resolution_payload resolution)) (\<lambda>_.
            execute_request R request (Some current_decision) None None True)))))))"

definition evaluation_payload :: "GateAnswerSubmission \<Rightarrow> GateEvaluation \<Rightarrow> int \<Rightarrow> int \<Rightarrow> payload" where
  "evaluation_payload submission evaluation attempt max_attempts =
     (let reference = ga_reference submission in
      [(''actor'', JStr (ga_actor submission)),
       (''answer_json'', JStr (ga_answer_json submission)),
       (''attempt'', JInt attempt),
       (''max_attempts'', JInt max_attempts),
       (''outcome'', JStr (evaluation_value (ge_outcome evaluation))),
       (''proposal_digest'', JStr (gr_proposal_digest reference)),
       (''reason'', JStr (ge_reason evaluation)),
       (''revision'', JInt (gr_revision reference)),
       (''tool_call_id'', JStr (gr_tool_call_id reference))])"

definition evaluate_answer ::
  "('d, 'e, 'w) runtime \<Rightarrow> GateProposal \<Rightarrow> payload \<Rightarrow> GateEvaluation result" where
  "evaluate_answer R proposal answer =
     bindR (ru_gate_evaluator R proposal answer) (\<lambda>evaluation.
     case evaluation of None \<Rightarrow> Inl PyTypeError | Some e \<Rightarrow> Inr e)"

text \<open>A retry at the last attempt becomes a block.\<close>

definition exhaust :: "GateEvaluation \<Rightarrow> int \<Rightarrow> int \<Rightarrow> GateEvaluation" where
  "exhaust evaluation attempt max_attempts =
     (if ge_outcome evaluation = GATE_RETRY \<and> max_attempts \<le> attempt
      then \<lparr>ge_outcome = GATE_BLOCK,
        ge_reason = ''attempt limit exhausted: '' @ ge_reason evaluation\<rparr>
      else evaluation)"

definition gate_result ::
  "RuntimeToolOutcome \<Rightarrow> RunState \<Rightarrow> AuthorizationDecision \<Rightarrow> GateProposal \<Rightarrow> GateEvaluation \<Rightarrow> int \<Rightarrow>
   RuntimeToolResult" where
  "gate_result oc s decision proposal evaluation attempt =
     (tool_result oc s)\<lparr>rt_authorization := Some decision, rt_gate_proposal := Some proposal,
       rt_gate_evaluation := Some evaluation, rt_gate_attempt := Some attempt\<rparr>"

definition submit_gate_answer ::
  "('d, 'e, 'w) runtime \<Rightarrow> GateAnswerSubmission \<Rightarrow> ('d, 'e, 'w, RuntimeToolResult) operation" where
  "submit_gate_answer R submission =
     (let reference = ga_reference submission; run_id = gr_run_id reference in
      bindA (load_state R run_id) (\<lambda>s.
      bindA (liftA (validate_reference s reference)) (\<lambda>_.
      checkA (active_gate_mode s = Some (mode_value USER_GATE)) InvalidTransitionError
      (case active_gate_max_attempts s of
         None \<Rightarrow> raiseA InvalidTransitionError
       | Some max_attempts \<Rightarrow>
           bindA (load_active_request R run_id (gr_tool_call_id reference)) (\<lambda>request.
           bindA (load_active_proposal R request reference) (\<lambda>proposal.
           bindA (liftA (recheck R request reference)) (\<lambda>current_decision.
           bindA (liftA (evaluate_answer R proposal (submitted_answer submission))) (\<lambda>evaluated.
           let attempt = active_gate_attempts s + 1;
               evaluation = exhaust evaluated attempt max_attempts in
           bindA (append_event R run_id GATE_EVALUATED
             (evaluation_payload submission evaluation attempt max_attempts)) (\<lambda>evaluated_state.
           case ge_outcome evaluation of
             GATE_PASS \<Rightarrow> execute_request R request (Some current_decision) (Some evaluation) (Some attempt) True
           | GATE_RETRY \<Rightarrow> returnA (gate_result RESULT_GATE_RETRY evaluated_state current_decision proposal
               evaluation attempt)
           | GATE_BLOCK \<Rightarrow> returnA (gate_result BLOCKED evaluated_state current_decision proposal
               evaluation attempt))))))))))"

definition revision_payload ::
  "('d, 'e, 'w) runtime \<Rightarrow> GateReference \<Rightarrow> GateProposal \<Rightarrow> payload" where
  "revision_payload R reference proposal =
     attempts_entry R proposal @
     [(''ownership_mode'', JStr (mode_value (gp_ownership_mode proposal))),
      (''previous_proposal_digest'', JStr (gr_proposal_digest reference)),
      (''previous_revision'', JInt (gr_revision reference)),
      (''proposal_digest'', JStr (gr_proposal_digest (gp_reference proposal))),
      (''reasons'', JArr (map JStr (gp_reasons proposal))),
      (''revision'', JInt (gr_revision (gp_reference proposal))),
      (''tool_call_id'', JStr (gr_tool_call_id reference))]"

definition revise_gate ::
  "('d, 'e, 'w) runtime \<Rightarrow> GateReference \<Rightarrow> ('d, 'e, 'w, RuntimeToolResult) operation" where
  "revise_gate R reference =
     (let run_id = gr_run_id reference in
      bindA (load_state R run_id) (\<lambda>s.
      bindA (liftA (validate_reference s reference)) (\<lambda>_.
      bindA (load_active_request R run_id (gr_tool_call_id reference)) (\<lambda>request.
      bindA (liftA (authorize request (ru_context R))) (\<lambda>decision.
      checkA (ad_outcome decision = ESCALATE) GateReferenceMismatchError
      (bindA (liftA (build_proposal (ru_hash R) request decision (gr_revision reference + 1))) (\<lambda>proposal.
       bindA (append_event R run_id GATE_REVISED (revision_payload R reference proposal)) (\<lambda>s.
       returnA ((tool_result RESULT_AWAITING_GATE s)\<lparr>rt_authorization := Some decision,
         rt_gate_proposal := Some proposal\<rparr>)))))))))"

subsection \<open>Recovery\<close>

definition recover :: "('d, 'e, 'w) runtime \<Rightarrow> string \<Rightarrow> ('d, 'e, 'w, RuntimeToolResult) operation" where
  "recover R run_id =
     bindA (load_state R run_id) (\<lambda>s.
     checkA (status s = TOOL_READY \<or> status s = TOOL_RUNNING) InvalidTransitionError
     (case active_tool_call_id s of
        None \<Rightarrow> raiseA InvalidTransitionError
      | Some tool_call_id \<Rightarrow>
          bindA (load_active_request R run_id tool_call_id) (\<lambda>request.
          execute_request R request None None None (status s = TOOL_READY))))"

end
