(* ===== verification/ModelTurns.thy ===== *)
theory ModelTurns
  imports Runtime
begin

section \<open>Model turns of the runtime (authorized_tool_runtime.py)\<close>

text \<open>
  The operations of \<open>AuthorizedToolRuntime\<close> around the model: the input of the next turn, the
  durable invocation and action, verification and completion evidence, and the reconstruction of
  an interrupted turn from the log.
\<close>

subsection \<open>The input and the action of a turn\<close>

definition build_model_input :: "('d, 'e, 'w) runtime \<Rightarrow> string \<Rightarrow> ('d, 'e, 'w, ModelInput) operation" where
  "build_model_input R run_id =
     bindA (load_state R run_id) (\<lambda>s.
     checkA (status s = READY) InvalidTransitionError
     (case max_steps s of
        Some m \<Rightarrow>
          if m \<le> turn_index s
          then bindA (append_event R run_id RUN_STEP_BUDGET_EXHAUSTED
                 [(''completed_steps'', JInt (turn_index s)), (''max_steps'', JInt m)]) (\<lambda>exhausted.
               raiseA (StepBudgetExhaustedError (case failure_reason exhausted of
                 Some (c # t) \<Rightarrow> c # t | _ \<Rightarrow> ''step budget exhausted'')))
          else bindA (load_step_observation R run_id) (\<lambda>observation.
               liftA (build_input run_id (next_step_id s) (turn_index s) (status s) observation))
      | None \<Rightarrow> bindA (load_step_observation R run_id) (\<lambda>observation.
          liftA (build_input run_id (next_step_id s) (turn_index s) (status s) observation))))"

definition invocation_id :: "ModelInput \<Rightarrow> string" where
  "invocation_id c = mi_run_id c @ '':'' @ mi_step_id c @ '':model-invocation''"

definition begin_model_action :: "('d, 'e, 'w) runtime \<Rightarrow> ModelInput \<Rightarrow> ('d, 'e, 'w, string) operation" where
  "begin_model_action R c =
     bindA (load_state R (mi_run_id c)) (\<lambda>s.
     checkA (status s = READY \<and> mi_state_status c = READY \<and> mi_turn_index c = turn_index s \<and>
       mi_step_id c = next_step_id s) InvalidTransitionError
     (bindA (append_event R (mi_run_id c) MODEL_ACTION_REQUESTED
        [(''invocation_id'', JStr (invocation_id c)),
         (''observation_json'', JStr (mi_observation_json c)),
         (''step_id'', JStr (mi_step_id c)),
         (''turn_index'', JInt (mi_turn_index c))]) (\<lambda>_.
      returnA (invocation_id c))))"

text \<open>The stored text of a turn's integer: only an integer makes a \<open>ModelInput\<close>.\<close>

definition stored_input :: "string \<Rightarrow> payload \<Rightarrow> ModelInput result" where
  "stored_input run_id p =
     bindR (payload_text p ''step_id'') (\<lambda>step_id.
     bindR (payload_text p ''observation_json'') (\<lambda>observation_json.
     case get p ''turn_index'' of
       JInt n \<Rightarrow> input_post_init \<lparr>mi_run_id = run_id, mi_step_id = step_id, mi_turn_index = n,
         mi_state_status = READY, mi_observation_json = observation_json\<rparr>
     | _ \<Rightarrow> Inl ModelActionValidationError))"

definition stored_tool_call :: "payload \<Rightarrow> ToolCallAction result" where
  "stored_tool_call p =
     bindR (payload_text p ''tool_call_id'') (\<lambda>tool_call_id.
     bindR (payload_text p ''tool_name'') (\<lambda>tool_name.
     bindR (payload_text p ''arguments_json'') (\<lambda>arguments_json.
     tool_call_post_init \<lparr>tca_tool_call_id = tool_call_id, tca_tool_name = tool_name,
       tca_arguments_json = arguments_json\<rparr>)))"

definition stored_action :: "payload \<Rightarrow> ModelAction result" where
  "stored_action p =
     bindR (payload_text p ''action_type'') (\<lambda>action_type.
     if action_type = ''tool_call'' then map_sum id ToolCall (stored_tool_call p)
     else if action_type = ''final_answer''
     then bindR (payload_text p ''answer'') (\<lambda>answer. map_sum id FinalAnswer (final_answer_post_init answer))
     else Inl InvalidTransitionError)"

definition invocation_event :: "string \<Rightarrow> ExecutionEvent \<Rightarrow> bool" where
  "invocation_event invocation e \<longleftrightarrow>
     ev_event_type e = MODEL_ACTION_REQUESTED \<and> get (payload e) ''invocation_id'' = JStr invocation"

definition load_pending_model_action ::
  "('d, 'e, 'w) runtime \<Rightarrow> string \<Rightarrow> ('d, 'e, 'w, DurableModelAction) operation" where
  "load_pending_model_action R run_id =
     bindA (load_state R run_id) (\<lambda>s.
     case (status s, active_model_action_event_id s, active_model_invocation_id s, active_step_id s) of
       (ACTION_PENDING, Some action_event_id, Some invocation, Some _) \<Rightarrow>
         bindA (eventsA R run_id) (\<lambda>es.
         case (find (invocation_event invocation) (rev es),
               find (\<lambda>e. ev_event_id e = action_event_id) (rev es)) of
           (Some requested, Some proposed) \<Rightarrow>
             liftA (bindR (stored_input run_id (payload requested)) (\<lambda>c.
               bindR (stored_action (payload proposed)) (\<lambda>action.
               Inr \<lparr>da_event_id = ev_event_id proposed, da_invocation_id = invocation,
                 da_context = c, da_action = action\<rparr>)))
         | _ \<Rightarrow> raiseA InvalidTransitionError)
     | _ \<Rightarrow> raiseA InvalidTransitionError)"

definition action_payload :: "ModelInput \<Rightarrow> string \<Rightarrow> ModelAction \<Rightarrow> payload" where
  "action_payload c invocation action =
     (case action of
        ToolCall a \<Rightarrow>
          [(''action_type'', JStr ''tool_call''),
           (''arguments_json'', JStr (tca_arguments_json a)),
           (''invocation_id'', JStr invocation),
           (''step_id'', JStr (mi_step_id c)),
           (''tool_call_id'', JStr (tca_tool_call_id a)),
           (''tool_name'', JStr (tca_tool_name a)),
           (''turn_index'', JInt (mi_turn_index c))]
      | FinalAnswer answer \<Rightarrow>
          [(''action_type'', JStr ''final_answer''),
           (''answer'', JStr answer),
           (''invocation_id'', JStr invocation),
           (''step_id'', JStr (mi_step_id c)),
           (''turn_index'', JInt (mi_turn_index c))])"

definition persist_model_action ::
  "('d, 'e, 'w) runtime \<Rightarrow> ModelInput \<Rightarrow> string \<Rightarrow> ModelAction \<Rightarrow> ('d, 'e, 'w, DurableModelAction) operation" where
  "persist_model_action R c invocation action =
     bindA (load_state R (mi_run_id c)) (\<lambda>s.
     checkA (status s = MODEL_PENDING \<and> active_model_invocation_id s = Some invocation \<and>
       active_step_id s = Some (mi_step_id c) \<and> turn_index s = mi_turn_index c) InvalidTransitionError
     (bindA (append_event R (mi_run_id c) MODEL_ACTION_PROPOSED (action_payload c invocation action)) (\<lambda>s.
      checkA (active_model_action_event_id s \<noteq> None) InvalidTransitionError
      (load_pending_model_action R (mi_run_id c)))))"

definition record_model_action_failure ::
  "('d, 'e, 'w) runtime \<Rightarrow> string \<Rightarrow> string \<Rightarrow> ('d, 'e, 'w, RunState) operation" where
  "record_model_action_failure R run_id reason =
     checkA (reason \<noteq> []) PyValueError
     (append_event R run_id MODEL_ACTION_FAILED [(''reason'', JStr reason)])"

subsection \<open>Verification and completion evidence\<close>

definition checks_json :: "Check list \<Rightarrow> json" where
  "checks_json cs = JArr (map check_json cs)"

definition record_verification ::
  "('d, 'e, 'w) runtime \<Rightarrow> string \<Rightarrow> VerificationResult \<Rightarrow> ('d, 'e, 'w, RunState) operation" where
  "record_verification R run_id r =
     (if vr_outcome r = VERIFICATION_OUTCOME_FAILED
      then append_event R run_id VERIFICATION_FAILED
        [(''checks'', checks_json (vr_checks r)), (''reason'', JStr (vr_summary r)),
         (''summary'', JStr (vr_summary r))]
      else append_event R run_id VERIFICATION_SUCCEEDED
        [(''checks'', checks_json (vr_checks r)), (''summary'', JStr (vr_summary r))])"

definition record_step_verification ::
  "('d, 'e, 'w) runtime \<Rightarrow> string \<Rightarrow> VerificationResult \<Rightarrow> ('d, 'e, 'w, RunState) operation" where
  "record_step_verification R run_id r =
     bindA (load_state R run_id) (\<lambda>s.
     checkA (status s = VERIFYING) InvalidTransitionError
     (case active_step_id s of
        None \<Rightarrow> raiseA InvalidTransitionError
      | Some step_id \<Rightarrow>
          if vr_outcome r = VERIFICATION_OUTCOME_FAILED then record_verification R run_id r
          else append_event R run_id VERIFICATION_SUCCEEDED
            [(''checks'', checks_json (vr_checks r)), (''scope'', JStr ''step''),
             (''step_id'', JStr step_id), (''summary'', JStr (vr_summary r))]))"

definition completion_payload ::
  "ModelInput \<Rightarrow> string \<Rightarrow> string \<Rightarrow> string option \<Rightarrow> CompletionResult \<Rightarrow> payload" where
  "completion_payload c answer answer_sha256 model_action_event_id r =
     [(''answer'', JStr answer), (''answer_sha256'', JStr answer_sha256),
      (''checks'', checks_json (cr_checks r))] @
     (case model_action_event_id of None \<Rightarrow> [] | Some i \<Rightarrow> [(''model_action_event_id'', JStr i)]) @
     [(''step_id'', JStr (mi_step_id c)), (''summary'', JStr (cr_summary r))]"

definition record_completion ::
  "('d, 'e, 'w) runtime \<Rightarrow> ModelInput \<Rightarrow> string \<Rightarrow> CompletionResult \<Rightarrow> ('d, 'e, 'w, RunState) operation" where
  "record_completion R c answer r =
     bindA (load_state R (mi_run_id c)) (\<lambda>s.
     checkA (status s = READY \<or> status s = ACTION_PENDING) InvalidTransitionError
     (checkA (mi_state_status c = READY \<and> mi_turn_index c = turn_index s \<and>
        mi_step_id c = next_step_id s) InvalidTransitionError
     (checkA (cr_answer_sha256 r = ru_hash R answer) InvalidTransitionError
     (bindA (if status s = ACTION_PENDING
        then bindA (load_pending_model_action R (mi_run_id c)) (\<lambda>pending.
             checkA (da_context pending = c \<and> da_action pending = FinalAnswer answer)
               InvalidTransitionError (returnA ()))
        else returnA ()) (\<lambda>_.
      append_event R (mi_run_id c)
        (if cr_outcome r = ACCEPTED then COMPLETION_ACCEPTED else COMPLETION_REJECTED)
        (completion_payload c answer (ru_hash R answer) (active_model_action_event_id s) r))))))"

subsection \<open>Recovering a turn\<close>

definition load_verification_receipt ::
  "('d, 'e, 'w) runtime \<Rightarrow> string \<Rightarrow> ('d, 'e, 'w, ToolReceipt) operation" where
  "load_verification_receipt R run_id =
     bindA (load_state R run_id) (\<lambda>s.
     checkA (status s = VERIFYING) InvalidTransitionError
     (bindA (eventsA R run_id) (\<lambda>es.
      case find (\<lambda>e. ev_event_type e = TOOL_SUCCEEDED) (rev es) of
        None \<Rightarrow> raiseA MissingVerificationEvidenceError
      | Some e \<Rightarrow>
          (case get (payload e) ''effect_id'' of
             JStr effect_id \<Rightarrow>
               checkA (effect_id \<noteq> []) MissingVerificationEvidenceError
               (bindA (askA (\<lambda>w. st_load_receipt (ru_effects R) (tw_store (rw_tools w)) effect_id)) (\<lambda>receipt.
                case receipt of
                  None \<Rightarrow> raiseA MissingVerificationEvidenceError
                | Some q \<Rightarrow> checkA (rc_outcome q = TOOL_SUCCEEDED_OUTCOME)
                    MissingVerificationEvidenceError (returnA q)))
           | _ \<Rightarrow> raiseA MissingVerificationEvidenceError))))"

definition step_request_event :: "string \<Rightarrow> ExecutionEvent \<Rightarrow> bool" where
  "step_request_event step_id e \<longleftrightarrow>
     ev_event_type e = TOOL_REQUESTED \<and> get (payload e) ''step_id'' = JStr step_id"

definition load_model_tool_recovery ::
  "('d, 'e, 'w) runtime \<Rightarrow> string \<Rightarrow> ('d, 'e, 'w, ModelToolRecovery) operation" where
  "load_model_tool_recovery R run_id =
     bindA (load_state R run_id) (\<lambda>s.
     checkA (status s = VERIFYING) InvalidTransitionError
     (case active_step_id s of
        None \<Rightarrow> raiseA InvalidTransitionError
      | Some step_id \<Rightarrow>
          bindA (eventsA R run_id) (\<lambda>es.
          case find (step_request_event step_id) (rev es) of
            None \<Rightarrow> raiseA MissingVerificationEvidenceError
          | Some e \<Rightarrow>
              bindA (load_step_observation R run_id) (\<lambda>observation.
              bindA (liftA (build_input run_id step_id (turn_index s) READY observation)) (\<lambda>c.
              bindA (liftA (stored_tool_call (payload e))) (\<lambda>action.
              bindA (load_verification_receipt R run_id) (\<lambda>receipt.
              returnA \<lparr>mr_context = c, mr_action = action, mr_receipt = receipt\<rparr>)))))))"

end
