(* ===== verification/RuntimeLaws.thy ===== *)
theory RuntimeLaws
  imports ModelTurns
begin

section \<open>What every operation of the runtime keeps\<close>

text \<open>
  The laws of the runtime over any event log and effect store that keep their contracts, as
  triples: what loading a state and appending an event do, and the facts about the log that
  every operation keeps.
\<close>

subsection \<open>Event ids\<close>

lemma last_separator:
  "x \<notin> set b \<Longrightarrow> x \<notin> set b' \<Longrightarrow> a @ x # b = a' @ x # b' \<longleftrightarrow> a = a' \<and> b = b'"
  by (auto simp: append_eq_append_conv2 Cons_eq_append_conv append_eq_Cons_conv)

lemma type_value_no_colon: "CHR '':'' \<notin> set (type_value k)"
  by (cases k) simp_all

lemma show_int_no_colon: "CHR '':'' \<notin> set (show_int n)"
proof -
  have "\<not> is_digit (CHR '':'')" by (simp add: is_digit_def)
  then show ?thesis by (auto simp: show_int_def dest: show_nat_digits)
qed

lemma runtime_event_id_inj [simp]:
  "runtime_event_id r n k = runtime_event_id r' n' k' \<longleftrightarrow> r = r' \<and> n = n' \<and> k = k'"
proof -
  have "runtime_event_id r n k = (r @ CHR '':'' # show_int n) @ CHR '':'' # type_value k" for r n k
    by (simp add: runtime_event_id_def)
  then show ?thesis
    by (simp only: last_separator [OF type_value_no_colon type_value_no_colon]
        last_separator [OF show_int_no_colon show_int_no_colon] type_value_inj show_int_inj conj_assoc)
qed

text \<open>
  Other writers (the caller creates, starts, pauses and cancels runs) do not use the runtime's
  ids: an id of the runtime's form names the event's own run and sequence number.
\<close>

definition runtime_ids :: "(string \<Rightarrow> ExecutionEvent list) \<Rightarrow> bool" where
  "runtime_ids l \<longleftrightarrow> (\<forall>run. \<forall>c \<in> set (l run). \<forall>r n k.
     ev_event_id c = runtime_event_id r n k \<longrightarrow> r = run \<and> n = ev_sequence c)"

lemma built_event:
  assumes "canon (JObj p)" and "build_event i r n k t p = Inr e" and "valid_datetime t"
  shows "wf_event e \<and> payload e = p \<and> ev_event_id e = i \<and> ev_run_id e = r \<and>
    ev_sequence e = n \<and> ev_event_type e = k"
proof -
  from assms(1,2) have c: "i \<noteq> []" "r \<noteq> []" "0 \<le> n" "utcoffset t \<noteq> None"
    by (auto simp: build_event_def canonical_payload_canon event_post_init_iff)
  from build_event_payload [OF assms(1) c assms(3), of k] assms(2)
  show ?thesis by (metis sum.inject(2))
qed

lemma payload_text_Inr_iff [result_simps]:
  "payload_text p field = Inr v \<longleftrightarrow> get p field = JStr v \<and> v \<noteq> []"
  by (auto simp: payload_text_def result_simps split: json.splits)

lemma request_post_init_Inr_iff:
  "request_post_init q = Inr q' \<longleftrightarrow> tr_run_id q \<noteq> [] \<and> tr_step_id q \<noteq> [] \<and> tr_tool_call_id q \<noteq> [] \<and>
     tr_tool_name q \<noteq> [] \<and> tr_model_action_event_id q \<noteq> Some [] \<and>
     (\<exists>d. loads (tr_arguments_json q) = Some (JObj d) \<and> canon (JObj d) \<and>
        q' = q\<lparr>tr_arguments_json := render (JObj d)\<rparr>)"
  by (auto simp: request_post_init_def result_simps canonical_object_Inr_iff)

lemma request_post_init_wf: "request_post_init q = Inr q' \<Longrightarrow> wf_request q'"
  by (auto simp: wf_request_def request_post_init_Inr_iff loads_render)

subsection \<open>The event an operation appends\<close>

definition next_event ::
  "hash \<Rightarrow> (string \<Rightarrow> ExecutionEvent list) \<Rightarrow> string \<Rightarrow> EventType \<Rightarrow> payload \<Rightarrow> RunState \<Rightarrow> ExecutionEvent \<Rightarrow> bool" where
  "next_event H l run k p s e \<longleftrightarrow>
     replay H run (l run) = Inr s \<and> wf_event e \<and> payload e = p \<and> ev_event_type e = k \<and>
     ev_run_id e = run \<and> ev_sequence e = next_sequence s \<and>
     ev_event_id e = runtime_event_id run (next_sequence s) k \<and>
     ev_event_id e \<notin> ev_event_id ` set (l run)"

definition extended :: "(string \<Rightarrow> ExecutionEvent list) \<Rightarrow> string \<Rightarrow> ExecutionEvent \<Rightarrow> string \<Rightarrow> ExecutionEvent list" where
  "extended l run e = l(run := l run @ [e])"

lemma extended_simps [simp]:
  "extended l run e run = l run @ [e]"
  "run' \<noteq> run \<Longrightarrow> extended l run e run' = l run'"
  by (simp_all add: extended_def)

lemma next_event_replay:
  "next_event H l run k p s e \<Longrightarrow> replay H run (extended l run e run) = reduce H s e"
  by (simp add: next_event_def replay_snoc)

lemma next_event_step:
  assumes "next_event H l run k p s e" and "reduce H s e = Inr t"
  obtains u where "\<not> is_terminal s" and "transition s e = Inr u"
    and "t = u\<lparr>next_sequence := next_sequence s + 1,
           applied_event_fingerprints :=
             applied_event_fingerprints s @ [(ev_event_id e, fingerprint H e)]\<rparr>"
proof -
  have "fingerprint_for s (ev_event_id e) = None"
    using assms(1) by (auto simp: next_event_def fresh_iff)
  with assms(2) that show thesis by (auto simp: reduce_def result_simps)
qed

text \<open>A reduction accepts an event whose transition the reducer accepts.\<close>

lemma next_event_accepted:
  assumes "next_event H l run k p s e" and "\<not> is_terminal s" and "transition s e = Inr u"
  shows "reduce H s e = Inr (u\<lparr>next_sequence := next_sequence s + 1,
           applied_event_fingerprints :=
             applied_event_fingerprints s @ [(ev_event_id e, fingerprint H e)]\<rparr>)"
proof -
  have s: "state_inv s" "state_run_id s = run" "fingerprint_for s (ev_event_id e) = None"
    using assms(1) by (auto simp: next_event_def fresh_iff dest: replay_state_inv replay_run_id)
  have "valid_state u" "0 \<le> next_sequence s"
    using transition_core_inv [OF assms(3)] s(1) by (auto simp: state_inv_def core_inv_def valid_state_def)
  then show ?thesis
    using assms s by (simp add: reduce_def next_event_def result_simps valid_state_def)
qed

subsection \<open>The runtime over its stores\<close>

definition runtime_on ::
  "hash \<Rightarrow> 'd event_log \<Rightarrow> 'e effect_store \<Rightarrow> ToolRegistry \<Rightarrow> ('d, 'e, 'w) runtime \<Rightarrow> bool" where
  "runtime_on H L S registry R \<longleftrightarrow>
     ru_hash R = H \<and> ru_log R = L \<and> ru_effects R = S \<and> ru_registry R = registry \<and>
     (\<forall>n. valid_datetime (ru_clock R n))"

lemma runtime_on_hash: "runtime_on H L S registry R \<Longrightarrow> ru_hash R = H"
  by (simp add: runtime_on_def)

locale runtime_stores =
  run_log H L ok log + tool_effect_store H S effects_ok intents receipts
  for H :: hash and L :: "'d event_log" and ok log and S :: "'e effect_store"
    and effects_ok intents receipts
begin

text \<open>The world whose log is \<open>l\<close> and whose tool world is \<open>T\<close>.\<close>

definition world_at ::
  "(string \<Rightarrow> ExecutionEvent list) \<Rightarrow> ('e, 'w) tool_world \<Rightarrow> ('d, 'e, 'w) runtime_world \<Rightarrow> bool" where
  "world_at l T w \<longleftrightarrow> ok (rw_events w) \<and> log (rw_events w) = l \<and> runtime_ids l \<and>
     rw_tools w = T \<and> effects_ok (tw_store T)"

lemma world_at_ids: "world_at l T w \<Longrightarrow> distinct (map ev_event_id (l run))"
  using log_order by (auto simp: world_at_def)

lemma world_at_sequences: "world_at l T w \<Longrightarrow> map ev_sequence (l run) = map int [0..<length (l run)]"
  using log_order by (auto simp: world_at_def)

lemma events_triple:
  "runtime_on H L S registry R \<Longrightarrow>
     triple (world_at l T) (eventsA R run) (\<lambda>es w. es = l run \<and> world_at l T w) (world_at l T)"
  unfolding eventsA_def by (rule triple_ask) (auto simp: runtime_on_def world_at_def load)

lemma full_replay_triple:
  "runtime_on H L S registry R \<Longrightarrow>
     triple (world_at l T) (full_replay R run)
       (\<lambda>s w. replay H run (l run) = Inr s \<and> world_at l T w) (world_at l T)"
  unfolding full_replay_def by (rule triple_ask) (auto simp: runtime_on_def world_at_def load)

lemma full_replay_eq:
  assumes "runtime_on H L S registry R" and "world_at l T w"
  shows "full_replay R run w = (replay H run (l run), w)"
  using assms by (auto simp: full_replay_def askA_def runtime_on_def world_at_def load)

lemma reach_snapshot_triple:
  "triple P (reach_snapshot_checkpoint R c) (\<lambda>_. P) P"
  unfolding reach_snapshot_checkpoint_def
  by (auto intro!: triple_return triple_raise split: option.splits)

lemma load_state_triple:
  assumes "runtime_on H L S registry R"
  shows "triple (world_at l T) (load_state R run)
    (\<lambda>s w. replay H run (l run) = Inr s \<and> world_at l T w) (world_at l T)"
  unfolding load_state_def
proof (rule triple_if)
  let ?Q = "\<lambda>snapshot w. el_load_snapshot L (rw_events w) run = Inr snapshot \<and> world_at l T w"
  show "triple (world_at l T) (bindA (askA (\<lambda>w. el_load_snapshot (ru_log R) (rw_events w) run)) (\<lambda>snapshot.
        case snapshot of
          Some s \<Rightarrow> bindA (reach_snapshot_checkpoint R BEFORE_TAIL_REPLAY) (\<lambda>_.
            askA (\<lambda>w. bindR (el_load_tail (ru_log R) (rw_events w) run (next_sequence s))
              (replay_tail (ru_hash R) s)))
        | None \<Rightarrow> bindA (reach_snapshot_checkpoint R BEFORE_FULL_REPLAY) (\<lambda>_. full_replay R run)))
    (\<lambda>s w. replay H run (l run) = Inr s \<and> world_at l T w) (world_at l T)"
  proof (rule triple_bind [where Q = ?Q])
    show "triple (world_at l T) (askA (\<lambda>w. el_load_snapshot (ru_log R) (rw_events w) run)) ?Q (world_at l T)"
      using assms by (auto intro!: triple_ask simp: runtime_on_def)
    fix snapshot
    show "triple (?Q snapshot) (case snapshot of
          Some s \<Rightarrow> bindA (reach_snapshot_checkpoint R BEFORE_TAIL_REPLAY) (\<lambda>_.
            askA (\<lambda>w. bindR (el_load_tail (ru_log R) (rw_events w) run (next_sequence s))
              (replay_tail (ru_hash R) s)))
        | None \<Rightarrow> bindA (reach_snapshot_checkpoint R BEFORE_FULL_REPLAY) (\<lambda>_. full_replay R run))
      (\<lambda>s w. replay H run (l run) = Inr s \<and> world_at l T w) (world_at l T)"
    proof (cases snapshot)
      case None
      have "triple (world_at l T) (bindA (reach_snapshot_checkpoint R BEFORE_FULL_REPLAY) (\<lambda>_. full_replay R run))
          (\<lambda>s w. replay H run (l run) = Inr s \<and> world_at l T w) (world_at l T)"
        by (rule triple_bind [OF reach_snapshot_triple full_replay_triple [OF assms]])
      with None show ?thesis by (auto elim: triple_pre)
    next
      case (Some s)
      let ?tail = "askA (\<lambda>w. bindR (el_load_tail (ru_log R) (rw_events w) run (next_sequence s))
        (replay_tail (ru_hash R) s)) :: ('d, 'e, 'a, RunState) operation"
      have eq: "bindR (el_load_tail L (rw_events w) run (next_sequence s)) (replay_tail H s) = replay H run (l run)"
        if "?Q (Some s) w" for w
        using that snapshot_transparent [of "rw_events w" run s] by (simp add: world_at_def)
      have "triple (?Q (Some s)) ?tail (\<lambda>s w. replay H run (l run) = Inr s \<and> world_at l T w) (world_at l T)"
      proof (rule triple_ask)
        fix x w assume "bindR (el_load_tail (ru_log R) (rw_events w) run (next_sequence s))
          (replay_tail (ru_hash R) s) = Inr x" and w: "?Q (Some s) w"
        with assms eq [OF w] show "replay H run (l run) = Inr x \<and> world_at l T w" by (simp add: runtime_on_def)
      qed simp
      moreover have "triple (?Q (Some s)) (reach_snapshot_checkpoint R BEFORE_TAIL_REPLAY)
          (\<lambda>_. ?Q (Some s)) (world_at l T)"
        by (rule triple_conseq [OF reach_snapshot_triple [where P = "?Q (Some s)"]]) simp_all
      ultimately show ?thesis unfolding Some option.case by (intro triple_bind)
    qed
  qed
next
  show "triple (world_at l T) (full_replay R run)
    (\<lambda>s w. replay H run (l run) = Inr s \<and> world_at l T w) (world_at l T)"
    by (rule full_replay_triple [OF assms])
qed

text \<open>
  Appending: nothing is stored, or the next event of the run is stored and only then reduced.
\<close>

lemma store_event:
  assumes "runtime_on H L S registry R" and "world_at l T w" and "replay H run (l run) = Inr s"
    and "wf_event e" and "ev_run_id e = run" and "ev_sequence e = next_sequence s"
    and "ev_event_id e = runtime_event_id run (next_sequence s) k"
  shows "ev_event_id e \<notin> ev_event_id ` set (l run) \<and>
    (\<exists>d. storeEventA R e w = (Inr (), w\<lparr>rw_events := d\<rparr>) \<and>
      world_at (extended l run e) T (w\<lparr>rw_events := d\<rparr>))"
proof -
  have w: "ok (rw_events w)" "log (rw_events w) = l" "runtime_ids l" "effects_ok (tw_store T)" "rw_tools w = T"
    using assms(2) by (simp_all add: world_at_def)
  have n: "next_sequence s = int (length (l run))"
    using replay_bookkeeping [OF assms(3) world_at_ids [OF assms(2)]] by simp
  have fresh: "ev_event_id e \<notin> ev_event_id ` set (l run')" for run'
  proof
    assume "ev_event_id e \<in> ev_event_id ` set (l run')"
    then obtain c where c: "c \<in> set (l run')" "ev_event_id c = ev_event_id e" by auto
    with w(3) assms(7) have "run' = run" "ev_sequence c = int (length (l run))"
      unfolding runtime_ids_def n by metis+
    moreover from c(1) have "ev_sequence c \<in> set (map ev_sequence (l run'))" by simp
    ultimately show False unfolding world_at_sequences [OF assms(2)] by auto
  qed
  then obtain d where d: "el_append L (rw_events w) e = Inr d" "ok d"
      "log d = (log (rw_events w))(run := l run @ [e])"
    using append_next [OF w(1) assms(4)] assms(5,6) n w(2) by auto
  have "runtime_ids (extended l run e)"
    using w(3) assms(6,7) by (auto simp: runtime_ids_def extended_def)
  then have "world_at (extended l run e) T (w\<lparr>rw_events := d\<rparr>)"
    using w d by (simp add: world_at_def extended_def)
  moreover have "storeEventA R e w = (Inr (), w\<lparr>rw_events := d\<rparr>)"
    using assms(1) d(1) by (simp add: storeEventA_def runtime_on_def)
  ultimately show ?thesis using fresh by blast
qed

lemma append_triple:
  assumes R: "runtime_on H L S registry R" and p: "canon (JObj p)"
  shows "triple (world_at l T) (append_event R run k p)
    (\<lambda>t w. \<exists>s e. next_event H l run k p s e \<and> reduce H s e = Inr t \<and> world_at (extended l run e) T w)
    (\<lambda>w. world_at l T w \<or> (\<exists>s e x. next_event H l run k p s e \<and> reduce H s e = Inl x \<and>
       world_at (extended l run e) T w))"
    (is "triple _ _ ?Q ?E")
  unfolding append_event_def
proof (rule triple_bind [where Q = "\<lambda>s w. replay H run (l run) = Inr s \<and> world_at l T w"])
  show "triple (world_at l T) (load_state R run)
      (\<lambda>s w. replay H run (l run) = Inr s \<and> world_at l T w) ?E"
    by (rule triple_conseq [OF load_state_triple [OF R]]) blast+
  fix s
  let ?s = "\<lambda>w. replay H run (l run) = Inr s \<and> world_at l T w"
  let ?e = "\<lambda>e w. ?s w \<and> wf_event e \<and> payload e = p \<and> ev_event_type e = k \<and> ev_run_id e = run \<and>
    ev_sequence e = next_sequence s \<and> ev_event_id e = runtime_event_id run (next_sequence s) k"
  show "triple ?s (bindA (clockA R) (\<lambda>now. bindA (liftA (build_event
      (runtime_event_id run (next_sequence s) k) run (next_sequence s) k now p)) (\<lambda>e.
      bindA (storeEventA R e) (\<lambda>_. full_replay R run)))) ?Q ?E"
  proof (rule triple_bind [where Q = "\<lambda>now w. valid_datetime now \<and> ?s w"])
    show "triple ?s (clockA R) (\<lambda>now w. valid_datetime now \<and> ?s w) ?E"
      using R by (auto simp: triple_def clockA_def runtime_on_def world_at_def)
    show "triple (\<lambda>w. valid_datetime now \<and> ?s w) (bindA (liftA (build_event
        (runtime_event_id run (next_sequence s) k) run (next_sequence s) k now p)) (\<lambda>e.
        bindA (storeEventA R e) (\<lambda>_. full_replay R run))) ?Q ?E" for now
    proof (rule triple_bind [where Q = ?e])
      show "triple (\<lambda>w. valid_datetime now \<and> ?s w) (liftA (build_event
          (runtime_event_id run (next_sequence s) k) run (next_sequence s) k now p)) ?e ?E"
        by (rule triple_lift) (auto dest: built_event [OF p])
      show "triple (?e e) (bindA (storeEventA R e) (\<lambda>_. full_replay R run)) ?Q ?E" for e
      proof (rule triple_case)
        fix w assume w: "?e e w"
        with store_event [OF R, of l T w run s e k] obtain d where d:
          "ev_event_id e \<notin> ev_event_id ` set (l run)"
          "storeEventA R e w = (Inr (), w\<lparr>rw_events := d\<rparr>)"
          "world_at (extended l run e) T (w\<lparr>rw_events := d\<rparr>)" by auto
        have n: "next_event H l run k p s e" using w d(1) by (simp add: next_event_def)
        have "bindA (storeEventA R e) (\<lambda>_. full_replay R run) w = (reduce H s e, w\<lparr>rw_events := d\<rparr>)"
          using full_replay_eq [OF R d(3), of run] next_event_replay [OF n] by (simp add: bindA_def d(2))
        with n d(3) show "triple (\<lambda>u. u = w) (bindA (storeEventA R e) (\<lambda>_. full_replay R run)) ?Q ?E"
          by (auto simp: triple_def split: sum.splits)
      qed
    qed
  qed
qed

end

end
