(* ===== verification/RuntimeSafety.thy ===== *)
theory RuntimeSafety
  imports RuntimeLaws
begin

section \<open>Every tool call is requested, granted and started\<close>

text \<open>
  The safety argument of the runtime: an invocation of a tool is always about a request the log
  records, after a grant and a start of that call in a prefix of the log that replays. It is an
  invariant of every operation, whatever raises and wherever the process stops.
\<close>

subsection \<open>The invocations of one execution\<close>

lemma store_calls_triple: "triple (\<lambda>w. P (tw_calls w)) (storeA f) (\<lambda>_ w. P (tw_calls w)) (\<lambda>w. P (tw_calls w))"
  by (auto simp: triple_def storeA_def split: sum.splits)

lemma reach_triple: "triple P (reach_checkpoint injector c i) (\<lambda>_. P) P"
  by (auto simp: reach_checkpoint_def intro!: triple_return triple_raise split: option.splits)

lemma invoke_calls_triple:
  "triple (\<lambda>w. tw_calls w = cs) (invoke_and_record S runner injector i)
     (\<lambda>_ w. tw_calls w = cs @ [call_of i]) (\<lambda>w. tw_calls w = cs @ [call_of i])"
  unfolding invoke_and_record_def
proof (rule triple_bind)
  show "triple (\<lambda>w. tw_calls w = cs) (invokeA runner i) (\<lambda>_ w. tw_calls w = cs @ [call_of i])
      (\<lambda>w. tw_calls w = cs @ [call_of i])"
    by (auto simp: triple_def invokeA_def Let_def split: prod.splits)
qed (intro triple_seq triple_keeps reach_triple store_calls_triple [where P = "\<lambda>c. c = cs @ [call_of i]"])

lemma execute_calls_triple:
  "triple (\<lambda>w. tw_calls w = cs) (execute S registry runner injector i)
     (\<lambda>_ w. tw_calls w = cs \<or> tw_calls w = cs @ [call_of i])
     (\<lambda>w. tw_calls w = cs \<or> tw_calls w = cs @ [call_of i])"
proof -
  let ?C = "\<lambda>w. tw_calls w = cs" and ?E = "\<lambda>w. tw_calls w = cs \<or> tw_calls w = cs @ [call_of i]"
  have invoke: "triple ?C (invoke_and_record S runner injector i) (\<lambda>_. ?E) ?E"
    by (rule triple_conseq [OF invoke_calls_triple [where cs = cs]]) auto
  have store: "triple ?C (storeA f) (\<lambda>_. ?C) ?E" for f :: "'a \<Rightarrow> 'a result"
    by (rule triple_conseq [OF store_calls_triple [where P = "\<lambda>c. c = cs"]]) auto
  have reach: "triple ?C (reach_checkpoint injector c i) (\<lambda>_. ?C) ?E" for c
    by (rule triple_conseq [OF reach_triple [where P = ?C]]) auto
  have ask: "triple ?C (askA f) (\<lambda>_. ?C) ?E" for f :: "('a, 'b) tool_world \<Rightarrow> 'c result"
    by (rule triple_ask) auto
  have lift: "triple ?C (liftA r) (\<lambda>_. ?C) ?E" for r :: "'c result"
    by (rule triple_lift) auto
  show ?thesis
    unfolding execute_def
    by (rule triple_bind [OF lift], rule triple_bind [OF ask])
       (auto split: option.split intro!: triple_bind [OF store] triple_bind [OF reach] triple_bind [OF ask]
         triple_bind [OF lift] invoke triple_return triple_raise)
qed

subsection \<open>What a log must show before a call\<close>

definition recorded :: "ExecutionEvent list \<Rightarrow> ToolRequest \<Rightarrow> bool" where
  "recorded es q \<longleftrightarrow> (\<exists>e \<in> set es. request_event (tr_tool_call_id q) e \<and>
     get (payload e) ''tool_name'' = JStr (tr_tool_name q) \<and>
     (\<exists>t. get (payload e) ''arguments_json'' = JStr t \<and> decoded t = request_arguments q))"

definition started_call :: "ExecutionEvent list \<Rightarrow> ToolRequest \<Rightarrow> bool" where
  "started_call es q \<longleftrightarrow> (\<exists>as g b bs. es = as @ [g, b] @ bs \<and> grants g (tr_tool_call_id q) \<and>
     about_call TOOL_STARTED b (tr_tool_call_id q) \<and> recorded as q)"

definition authorized_call :: "hash \<Rightarrow> (string \<Rightarrow> ExecutionEvent list) \<Rightarrow> tool_call \<Rightarrow> bool" where
  "authorized_call H l c \<longleftrightarrow> (\<exists>q. started_call (l (tr_run_id q)) q \<and>
     tc_tool_name c = tr_tool_name q \<and> tc_arguments c = request_arguments q \<and>
     derive_effect_id H (tr_run_id q) (tr_tool_call_id q) = Inr (tc_key c))"

lemma recorded_append: "recorded es q \<Longrightarrow> recorded (es @ fs) q"
  by (auto simp: recorded_def)

lemma started_call_append: "started_call es q \<Longrightarrow> started_call (es @ fs) q"
  unfolding started_call_def by (metis append.assoc)

lemma recorded_extended: "recorded (l run) q \<Longrightarrow> recorded (extended l run' e run) q"
  by (cases "run' = run") (simp_all add: recorded_append)

lemma started_call_extended: "started_call (l run) q \<Longrightarrow> started_call (extended l run' e run) q"
  by (cases "run' = run") (simp_all add: started_call_append)

lemma authorized_call_extended: "authorized_call H l c \<Longrightarrow> authorized_call H (extended l run e) c"
  unfolding authorized_call_def using started_call_extended by blast

text \<open>A log that replays to a running call shows its grant and its start.\<close>

lemma running_started:
  assumes "replay H run es = Inr s" and "distinct (map ev_event_id es)" and "status s = TOOL_RUNNING"
    and "active_tool_call_id s = Some (tr_tool_call_id q)" and "recorded es q"
  shows "started_call es q"
proof -
  from assms(1-3) obtain as g b c where c: "es = as @ [g, b]" "grants g c" "about_call TOOL_STARTED b c"
      "active_tool_call_id s = Some c" by (rule ends_with_started)
  have "ev_event_type g \<noteq> TOOL_REQUESTED" "ev_event_type b \<noteq> TOOL_REQUESTED"
    using c(2,3) by (auto simp: about_call_def grants_def)
  with assms(5) c(1) have "recorded as q" by (auto simp: recorded_def request_event_def)
  with c assms(4) have "es = as @ [g, b] @ [] \<and> grants g (tr_tool_call_id q) \<and>
      about_call TOOL_STARTED b (tr_tool_call_id q) \<and> recorded as q" by simp
  then show ?thesis unfolding started_call_def by blast
qed

text \<open>The request read back from a request event is recorded by it.\<close>

lemma request_from_recorded:
  assumes "request_from run c (payload e) = Inr q" and "request_event c e" and "e \<in> set es"
  shows "tr_run_id q = run \<and> tr_tool_call_id q = c \<and> wf_request q \<and> recorded es q"
proof -
  from assms(1) obtain step_id name t i where p: "get (payload e) ''tool_name'' = JStr name"
      "get (payload e) ''arguments_json'' = JStr t"
      "request_post_init \<lparr>tr_run_id = run, tr_step_id = step_id, tr_tool_call_id = c,
         tr_tool_name = name, tr_arguments_json = t, tr_model_action_event_id = i\<rparr> = Inr q"
    by (auto simp: request_from_def result_simps)
  then obtain d where q: "tr_run_id q = run" "tr_tool_call_id q = c" "tr_tool_name q = name"
      "tr_arguments_json q = render (JObj d)" "loads t = Some (JObj d)" "canon (JObj d)"
    by (auto simp: request_post_init_Inr_iff)
  then have "request_arguments q = decoded t"
    by (simp add: request_arguments_def decoded_def loads_render)
  then have "recorded es q"
    using p(1,2) q(2,3) assms(2,3) by (auto simp: recorded_def)
  with q request_post_init_wf [OF p(3)] show ?thesis by simp
qed

lemma built_intent:
  assumes "wf_request q"
    and "build_intent H (tr_run_id q) (tr_tool_call_id q) (tr_tool_name q) (request_arguments q) = Inr i"
  shows "wf_intent H i \<and> in_tool_name i = tr_tool_name q \<and> intent_arguments i = request_arguments q \<and>
    derive_effect_id H (tr_run_id q) (tr_tool_call_id q) = Inr (in_effect_id i)"
proof -
  from assms(1) obtain d where d: "canon (JObj d)" "request_arguments q = d"
    by (auto simp: wf_request_def request_post_init_Inr_iff request_arguments_def decoded_def)
  from assms(2) obtain k where k: "derive_effect_id H (tr_run_id q) (tr_tool_call_id q) = Inr k"
      "intent_post_init H \<lparr>in_effect_id = k, in_run_id = tr_run_id q, in_tool_call_id = tr_tool_call_id q,
         in_tool_name = tr_tool_name q, in_arguments_json = render (JObj d)\<rparr> = Inr i"
    by (auto simp: build_intent_def result_simps d canonical_json_canon)
  then have "in_effect_id i = k \<and> in_tool_name i = tr_tool_name q \<and> in_arguments_json i = render (JObj d)"
    by (auto simp: intent_post_init_def result_simps canonical_object_Inr_iff loads_render d)
  with k d assms(2) show ?thesis
    by (auto simp: intent_arguments_def decoded_def loads_render dest: build_intent_wf)
qed

subsection \<open>The outcome of an execution\<close>

fun after_outcome :: "ToolOutcome \<Rightarrow> RunStatus" where
  "after_outcome TOOL_SUCCEEDED_OUTCOME = VERIFYING"
| "after_outcome _ = FAILED"

definition executed_result :: "RuntimeToolResult \<Rightarrow> bool" where
  "executed_result r \<longleftrightarrow> rt_outcome r = EXECUTED \<and> (\<exists>q. rt_receipt r = Some q \<and>
     status (rt_state r) = after_outcome (rc_outcome q))"

definition tool_events :: "EventType set" where
  "tool_events = {TOOL_REQUESTED, TOOL_AUTHORIZED, TOOL_ESCALATED, TOOL_DENIED, TOOL_STARTED,
     TOOL_SUCCEEDED, TOOL_FAILED, TOOL_TIMED_OUT, GATE_APPROVED, GATE_EVALUATED, GATE_REJECTED,
     GATE_REVISED}"

text \<open>What every accepted tool or gate event of a run keeps of its log.\<close>

definition stable :: "hash \<Rightarrow> string \<Rightarrow> ((string \<Rightarrow> ExecutionEvent list) \<Rightarrow> bool) \<Rightarrow> bool" where
  "stable H run P \<longleftrightarrow> (\<forall>l k p s e t. P l \<longrightarrow> k \<in> tool_events \<longrightarrow> next_event H l run k p s e \<longrightarrow>
     reduce H s e = Inr t \<longrightarrow> P (extended l run e))"

lemma outcome_event_type [simp]: "fst (outcome_event q receipt) \<in> tool_events"
  by (simp add: outcome_event_def tool_events_def Let_def split: ToolOutcome.split)

lemma stableD:
  "stable H run P \<Longrightarrow> P l \<Longrightarrow> next_event H l run k p s e \<Longrightarrow> reduce H s e = Inr t \<Longrightarrow>
     k \<in> tool_events \<Longrightarrow> P (extended l run e)"
  by (auto simp: stable_def)

lemma stable_simps [simp]:
  "stable H run (\<lambda>_. True)"
  "stable H run (\<lambda>l. recorded (l r) q)"
  "stable H run (\<lambda>l. started_call (l r) q)"
  by (auto simp: stable_def recorded_extended started_call_extended)

lemma stable_conj [intro]: "stable H run P \<Longrightarrow> stable H run Q \<Longrightarrow> stable H run (\<lambda>l. P l \<and> Q l)"
  unfolding stable_def by blast

inductive_simps lifecycle_outcomes:
  "lifecycle a TOOL_SUCCEEDED b" "lifecycle a TOOL_FAILED b" "lifecycle a TOOL_TIMED_OUT b"

lemma outcome_event_status:
  assumes "next_event H l run (fst (outcome_event q receipt)) p s e" and "reduce H s e = Inr t"
  shows "status t = after_outcome (rc_outcome receipt)"
proof -
  from assms obtain u where u: "transition s e = Inr u" "status t = status u"
    by (auto elim: next_event_step)
  have "ev_event_type e = fst (outcome_event q receipt)" using assms(1) by (simp add: next_event_def)
  with transition_lifecycle [OF u(1)] u(2) show ?thesis
    by (cases "rc_outcome receipt") (simp_all add: outcome_event_def Let_def lifecycle_outcomes)
qed

lemma wf_receipt_output:
  assumes "wf_receipt r" shows "canon (JObj (receipt_output r))"
  using assms by (auto simp: wf_receipt_def receipt_post_init_def result_simps canonical_object_Inr_iff
      receipt_output_def decoded_def)

lemma canon_get: "canon (JObj d) \<Longrightarrow> canon (get d k)"
  by (auto simp: get_def get_default_def canon_obj dest!: map_of_SomeD split: option.split)

lemma canon_outcome_event:
  assumes "wf_receipt r" shows "canon (JObj (snd (outcome_event q r)))"
  using canon_get [OF wf_receipt_output [OF assms]]
  by (cases "rc_outcome r") (simp_all add: outcome_event_def Let_def canon_obj)

subsection \<open>The invariant\<close>

context runtime_stores
begin

text \<open>
  \<open>holding registry P\<close>: the stores keep their contracts, every call is authorized by the log, and
  the log satisfies \<open>P\<close>.
\<close>

definition holding ::
  "ToolRegistry \<Rightarrow> ((string \<Rightarrow> ExecutionEvent list) \<Rightarrow> bool) \<Rightarrow> ('d, 'e, 'w) runtime_world \<Rightarrow> bool" where
  "holding registry P w \<longleftrightarrow> (\<exists>l T. world_at l T w \<and> world_ok intents receipts registry T \<and>
     (\<forall>c \<in> set (tw_calls T). authorized_call H l c) \<and> P l)"

definition safe :: "ToolRegistry \<Rightarrow> ('d, 'e, 'w) runtime_world \<Rightarrow> bool" where
  "safe registry = holding registry (\<lambda>_. True)"

lemma holding_pure [simp]: "holding registry (\<lambda>l. b \<and> P l) w \<longleftrightarrow> b \<and> holding registry P w"
  by (auto simp: holding_def)

lemma holding_mono: "holding registry P w \<Longrightarrow> (\<And>l. P l \<Longrightarrow> Q l) \<Longrightarrow> holding registry Q w"
  by (auto simp: holding_def)

lemma holding_safe: "holding registry P w \<Longrightarrow> safe registry w"
  unfolding safe_def by (erule holding_mono) simp

lemma holding_extended:
  assumes "world_at (extended l run e) T w" and "world_ok intents receipts registry T"
    and "\<forall>c \<in> set (tw_calls T). authorized_call H l c" and "P (extended l run e)"
  shows "holding registry P w"
  using assms authorized_call_extended unfolding holding_def by blast

text \<open>A triple about the world at one log is a triple about the worlds that hold \<open>P\<close>.\<close>

lemma holding_triple:
  fixes m :: "('d, 'e, 'w, 'x) operation"
  assumes "\<And>l T. P l \<Longrightarrow> world_ok intents receipts registry T \<Longrightarrow>
      \<forall>c \<in> set (tw_calls T). authorized_call H l c \<Longrightarrow> triple (world_at l T) m Q E"
  shows "triple (holding registry P) m Q E"
proof (rule triple_case)
  fix w :: "('d, 'e, 'w) runtime_world"
  assume "holding registry P w"
  then obtain l T where "world_at l T w" "world_ok intents receipts registry T"
      "\<forall>c \<in> set (tw_calls T). authorized_call H l c" "P l" by (auto simp: holding_def)
  with assms show "triple (\<lambda>v. v = w) m Q E" by (blast intro: triple_pre)
qed

lemma load_state_holding:
  fixes R :: "('d, 'e, 'w) runtime"
  assumes "runtime_on H L S registry R"
  shows "triple (holding registry P) (load_state R run)
    (\<lambda>s. holding registry (\<lambda>l. P l \<and> replay H run (l run) = Inr s)) (holding registry P)"
proof (rule holding_triple)
  fix l and T :: "('e, 'w) tool_world"
  assume a: "P l" "world_ok intents receipts registry T" "\<forall>c \<in> set (tw_calls T). authorized_call H l c"
  show "triple (world_at l T) (load_state R run)
      (\<lambda>s. holding registry (\<lambda>l. P l \<and> replay H run (l run) = Inr s)) (holding registry P)"
    by (rule triple_conseq [OF load_state_triple [OF assms]]) (use a in \<open>auto simp: holding_def\<close>)
qed

lemma events_holding:
  fixes R :: "('d, 'e, 'w) runtime"
  assumes "runtime_on H L S registry R"
  shows "triple (holding registry P) (eventsA R run)
    (\<lambda>es. holding registry (\<lambda>l. P l \<and> es = l run)) (holding registry P)"
proof (rule holding_triple)
  fix l and T :: "('e, 'w) tool_world"
  assume a: "P l" "world_ok intents receipts registry T" "\<forall>c \<in> set (tw_calls T). authorized_call H l c"
  show "triple (world_at l T) (eventsA R run)
      (\<lambda>es. holding registry (\<lambda>l. P l \<and> es = l run)) (holding registry P)"
    by (rule triple_conseq [OF events_triple [OF assms]]) (use a in \<open>auto simp: holding_def\<close>)
qed

text \<open>
  Appending to a log with \<open>P\<close>: on success the log has the event and the state after it is its
  replay, and \<open>Q\<close> holds if it follows for every accepted event.
\<close>

lemma append_holding:
  fixes R :: "('d, 'e, 'w) runtime"
  assumes R: "runtime_on H L S registry R" and p: "canon (JObj p)"
    and Q: "\<And>l s e t. P l \<Longrightarrow> next_event H l run k p s e \<Longrightarrow> reduce H s e = Inr t \<Longrightarrow>
      distinct (map ev_event_id (extended l run e run)) \<Longrightarrow> Q t (extended l run e)"
  shows "triple (holding registry P) (append_event R run k p)
    (\<lambda>t. holding registry (\<lambda>l. Q t l \<and> replay H run (l run) = Inr t)) (safe registry)"
proof (rule holding_triple)
  fix l and T :: "('e, 'w) tool_world"
  assume a: "P l" "world_ok intents receipts registry T" "\<forall>c \<in> set (tw_calls T). authorized_call H l c"
  show "triple (world_at l T) (append_event R run k p)
      (\<lambda>t. holding registry (\<lambda>l. Q t l \<and> replay H run (l run) = Inr t)) (safe registry)"
  proof (rule triple_conseq [OF append_triple [OF R p]])
    fix t and w :: "('d, 'e, 'w) runtime_world"
    assume "\<exists>s e. next_event H l run k p s e \<and> reduce H s e = Inr t \<and> world_at (extended l run e) T w"
    then obtain s e where e: "next_event H l run k p s e" "reduce H s e = Inr t"
        "world_at (extended l run e) T w" by blast
    have "Q t (extended l run e)" by (rule Q [OF a(1) e(1,2) world_at_ids [OF e(3)]])
    moreover have "replay H run (extended l run e run) = Inr t"
      using next_event_replay [OF e(1)] e(2) by simp
    ultimately show "holding registry (\<lambda>l. Q t l \<and> replay H run (l run) = Inr t) w"
      by (intro holding_extended [OF e(3) a(2,3)] conjI)
  next
    fix w :: "('d, 'e, 'w) runtime_world"
    assume "world_at l T w \<or> (\<exists>s e x. next_event H l run k p s e \<and> reduce H s e = Inl x \<and>
       world_at (extended l run e) T w)"
    then show "safe registry w"
    proof
      assume "world_at l T w"
      with a show ?thesis by (auto simp: safe_def holding_def)
    next
      assume "\<exists>s e x. next_event H l run k p s e \<and> reduce H s e = Inl x \<and> world_at (extended l run e) T w"
      then obtain e where "world_at (extended l run e) T w" by blast
      from holding_extended [OF this a(2,3)] show ?thesis by (simp add: safe_def)
    qed
  qed
qed

lemma execute_holding:
  fixes R :: "('d, 'e, 'w) runtime"
  assumes R: "runtime_on H L S registry R" and q: "wf_request q"
    and i: "build_intent H (tr_run_id q) (tr_tool_call_id q) (tr_tool_name q) (request_arguments q) = Inr i"
    and P: "\<forall>l. P l \<longrightarrow> started_call (l (tr_run_id q)) q"
  shows "triple (holding registry P) (executeA R i)
    (\<lambda>r w. wf_receipt r \<and> rc_effect_id r = in_effect_id i \<and> holding registry P w) (holding registry P)"
proof (rule holding_triple)
  fix l and T :: "('e, 'w) tool_world"
  assume a: "P l" "world_ok intents receipts registry T" "\<forall>c \<in> set (tw_calls T). authorized_call H l c"
  note wf = built_intent [OF q i]
  have "authorized_call H l (call_of i)"
    unfolding authorized_call_def
    by (rule exI [of _ q]) (use P a(1) wf in simp)
  with a(3) have calls: "\<forall>c \<in> set (tw_calls T @ [call_of i]). authorized_call H l c" by simp
  have keep: "holding registry P (w\<lparr>rw_tools := T'\<rparr>)" and
    ret: "r = Inr x \<Longrightarrow> wf_receipt x \<and> rc_effect_id x = in_effect_id i"
    if w: "world_at l T w" and ex: "execute S registry (ru_runner R) (ru_injector R) i T = (r, T')"
    for w :: "('d, 'e, 'w) runtime_world" and r T' x
  proof -
    have ok: "effects_ok (tw_store T)" using w by (simp add: world_at_def)
    have k: "effects_ok (tw_store T') \<and> world_ok intents receipts registry T' \<and> grows intents receipts T T'"
      by (rule execute_keeps [OF ok a(2) _ ex]) (use wf in simp)
    moreover have "tw_calls T' = tw_calls T \<or> tw_calls T' = tw_calls T @ [call_of i]"
      using triple_always [OF execute_calls_triple [of "tw_calls T" S registry "ru_runner R" "ru_injector R" i], of T] ex
      by simp
    ultimately show "holding registry P (w\<lparr>rw_tools := T'\<rparr>)"
      using w a(1) calls unfolding holding_def
      by (intro exI [of _ l] exI [of _ T']) (auto simp: world_at_def)
    show "wf_receipt x \<and> rc_effect_id x = in_effect_id i" if "r = Inr x"
    proof -
      have "receipts (tw_store T') (in_effect_id i) = Some x"
        using execute_returned [OF ok _ ex [unfolded that]] wf by blast
      then show ?thesis using receipt_key k by blast
    qed
  qed
  show "triple (world_at l T) (executeA R i)
    (\<lambda>r w. wf_receipt r \<and> rc_effect_id r = in_effect_id i \<and> holding registry P w) (holding registry P)"
  proof (rule tripleI)
    fix w w' :: "('d, 'e, 'w) runtime_world" and r
    assume w: "world_at l T w" and "executeA R i w = (Inr r, w')"
    then obtain T' where "execute S registry (ru_runner R) (ru_injector R) i T = (Inr r, T')"
        "w' = w\<lparr>rw_tools := T'\<rparr>"
      using R by (auto simp: executeA_def runtime_on_def world_at_def split: prod.splits)
    with keep [OF w] ret [OF w]
    show "wf_receipt r \<and> rc_effect_id r = in_effect_id i \<and> holding registry P w'" by simp
  next
    fix w w' :: "('d, 'e, 'w) runtime_world" and e
    assume w: "world_at l T w" and "executeA R i w = (Inl e, w')"
    then obtain T' where "execute S registry (ru_runner R) (ru_injector R) i T = (Inl e, T')"
        "w' = w\<lparr>rw_tools := T'\<rparr>"
      using R by (auto simp: executeA_def runtime_on_def world_at_def split: prod.splits)
    with keep [OF w] show "holding registry P w'" by simp
  qed
qed

subsection \<open>Executing a recorded request\<close>

lemma run_effect_holding:
  fixes R :: "('d, 'e, 'w) runtime"
  assumes R: "runtime_on H L S registry R" and q: "wf_request q" and P: "stable H (tr_run_id q) P"
    and started: "\<forall>l. P l \<longrightarrow> started_call (l (tr_run_id q)) q"
  shows "triple (holding registry P) (run_effect R q decision evaluation attempt)
    (\<lambda>r w. executed_result r \<and> holding registry (\<lambda>l. P l \<and> replay H (tr_run_id q) (l (tr_run_id q)) = Inr (rt_state r)) w)
    (safe registry)"
  unfolding run_effect_def
proof (rule triple_bind [where Q = "\<lambda>i w. build_intent H (tr_run_id q) (tr_tool_call_id q) (tr_tool_name q)
    (request_arguments q) = Inr i \<and> holding registry P w"])
  show "triple (holding registry P) (liftA (build_intent (ru_hash R) (tr_run_id q) (tr_tool_call_id q)
      (tr_tool_name q) (request_arguments q))) (\<lambda>i w. build_intent H (tr_run_id q) (tr_tool_call_id q)
      (tr_tool_name q) (request_arguments q) = Inr i \<and> holding registry P w) (safe registry)"
    by (rule triple_lift) (auto intro: holding_safe simp: runtime_on_hash [OF R])
  fix i
  show "triple (\<lambda>w. build_intent H (tr_run_id q) (tr_tool_call_id q) (tr_tool_name q)
      (request_arguments q) = Inr i \<and> holding registry P w)
    (bindA (executeA R i) (\<lambda>receipt. bindA (append_event R (tr_run_id q) (fst (outcome_event q receipt))
       (snd (outcome_event q receipt))) (\<lambda>s. returnA ((tool_result EXECUTED s)\<lparr>rt_authorization := decision,
       rt_gate_evaluation := evaluation, rt_gate_attempt := attempt, rt_receipt := Some receipt\<rparr>))))
    (\<lambda>r w. executed_result r \<and> holding registry (\<lambda>l. P l \<and> replay H (tr_run_id q) (l (tr_run_id q)) = Inr (rt_state r)) w)
    (safe registry)"
  proof (rule triple_pure)
    assume i: "build_intent H (tr_run_id q) (tr_tool_call_id q) (tr_tool_name q) (request_arguments q) = Inr i"
    show "triple (holding registry P)
      (bindA (executeA R i) (\<lambda>receipt. bindA (append_event R (tr_run_id q) (fst (outcome_event q receipt))
         (snd (outcome_event q receipt))) (\<lambda>s. returnA ((tool_result EXECUTED s)\<lparr>rt_authorization := decision,
         rt_gate_evaluation := evaluation, rt_gate_attempt := attempt, rt_receipt := Some receipt\<rparr>))))
      (\<lambda>r w. executed_result r \<and> holding registry (\<lambda>l. P l \<and> replay H (tr_run_id q) (l (tr_run_id q)) = Inr (rt_state r)) w)
      (safe registry)"
    proof (rule triple_bind)
      show "triple (holding registry P) (executeA R i)
          (\<lambda>r w. wf_receipt r \<and> holding registry P w) (safe registry)"
        by (rule triple_conseq [OF execute_holding [OF R q i started]]) (auto dest: holding_safe)
      fix receipt
      show "triple (\<lambda>w. wf_receipt receipt \<and> holding registry P w)
        (bindA (append_event R (tr_run_id q) (fst (outcome_event q receipt))
         (snd (outcome_event q receipt))) (\<lambda>s. returnA ((tool_result EXECUTED s)\<lparr>rt_authorization := decision,
         rt_gate_evaluation := evaluation, rt_gate_attempt := attempt, rt_receipt := Some receipt\<rparr>)))
        (\<lambda>r w. executed_result r \<and> holding registry (\<lambda>l. P l \<and> replay H (tr_run_id q) (l (tr_run_id q)) = Inr (rt_state r)) w)
        (safe registry)"
      proof (rule triple_pure, rule triple_bind)
        assume wf: "wf_receipt receipt"
        show "triple (holding registry P) (append_event R (tr_run_id q) (fst (outcome_event q receipt))
            (snd (outcome_event q receipt)))
          (\<lambda>t. holding registry (\<lambda>l. (status t = after_outcome (rc_outcome receipt) \<and> P l) \<and>
             replay H (tr_run_id q) (l (tr_run_id q)) = Inr t)) (safe registry)"
        proof (rule append_holding [OF R canon_outcome_event [OF wf]])
          fix l s e t
          assume l: "P l" and e: "next_event H l (tr_run_id q) (fst (outcome_event q receipt))
              (snd (outcome_event q receipt)) s e" and t: "reduce H s e = Inr t"
          from stableD [OF P l e t] outcome_event_status [OF e t]
          show "status t = after_outcome (rc_outcome receipt) \<and> P (extended l (tr_run_id q) e)" by simp
        qed
      qed (auto intro!: triple_return simp: executed_result_def tool_result_def elim!: holding_mono)
    qed
  qed
qed

end

end
