(* ===== verification/RuntimeOperations.thy ===== *)
theory RuntimeOperations
  imports RuntimeSafety
begin

section \<open>Triples of the runtime's operations\<close>

text \<open>
  What each operation of the runtime returns and keeps: the result agrees with the log, and
  every operation keeps the safety invariant also when it raises.
\<close>

subsection \<open>Payloads are JSON\<close>

lemma canon_request_payload: "canon (JObj (request_payload q))"
  by (simp add: request_payload_def canon_obj split: option.split)

lemma canon_escalation: "canon (JObj (escalation_payload R proposal c))"
  by (simp add: escalation_payload_def attempts_entry_def canon_obj)

lemma canon_revision: "canon (JObj (revision_payload R reference proposal))"
  by (simp add: revision_payload_def attempts_entry_def canon_obj)

lemma canon_authorization: "canon (JObj (authorization_payload q d))"
  by (simp add: authorization_payload_def canon_obj split: option.split)

lemma canon_resolution: "canon (JObj (resolution_payload r))"
  by (simp add: resolution_payload_def canon_obj)

lemma canon_evaluation: "canon (JObj (evaluation_payload submission evaluation attempt m))"
  by (simp add: evaluation_payload_def Let_def canon_obj)

lemma canon_checks: "canon (checks_json cs)"
  by (simp add: checks_json_def)

lemma canon_action: "canon (JObj (action_payload c i a))"
  by (simp add: action_payload_def canon_obj split: ModelAction.split)

lemma canon_completion: "canon (JObj (completion_payload c answer h i r))"
  by (simp add: completion_payload_def canon_obj canon_checks split: option.split)

lemmas canon_payloads = canon_request_payload canon_escalation canon_revision canon_authorization
  canon_resolution canon_evaluation canon_action canon_completion

subsection \<open>The status after an event\<close>

lemma next_event_lifecycle:
  assumes "next_event H l run k p s e" and "reduce H s e = Inr t"
  shows "lifecycle (status s) k (status t)"
proof -
  from assms obtain u where "transition s e = Inr u" "status t = status u" by (auto elim: next_event_step)
  then show ?thesis using assms(1) transition_lifecycle by (auto simp: next_event_def)
qed

inductive_simps lifecycle_tools:
  "lifecycle a TOOL_REQUESTED b" "lifecycle a TOOL_AUTHORIZED b" "lifecycle a TOOL_ESCALATED b"
  "lifecycle a TOOL_DENIED b" "lifecycle a TOOL_STARTED b" "lifecycle a GATE_REJECTED b"
  "lifecycle a GATE_REVISED b" "lifecycle a GATE_APPROVED b"

lemma requested_recorded:
  assumes "next_event H l (tr_run_id q) TOOL_REQUESTED (request_payload q) s e"
  shows "recorded (extended l (tr_run_id q) e (tr_run_id q)) q"
proof -
  have "ev_event_type e = TOOL_REQUESTED" "payload e = request_payload q"
    using assms by (simp_all add: next_event_def)
  then have "request_event (tr_tool_call_id q) e \<and>
      get (payload e) ''tool_name'' = JStr (tr_tool_name q) \<and>
      (\<exists>t. get (payload e) ''arguments_json'' = JStr t \<and> decoded t = request_arguments q)"
    by (simp add: request_event_def request_payload_def get_def get_default_def request_arguments_def
        split: option.split)
  then show ?thesis by (auto simp: recorded_def)
qed

lemma accepted_start:
  assumes "next_event H l (tr_run_id q) TOOL_STARTED [(''tool_call_id'', JStr (tr_tool_call_id q))] s e"
    and "reduce H s e = Inr t" and "distinct (map ev_event_id (extended l (tr_run_id q) e (tr_run_id q)))"
    and "recorded (l (tr_run_id q)) q"
  shows "started_call (extended l (tr_run_id q) e (tr_run_id q)) q"
proof -
  obtain u where u: "transition s e = Inr u" "status t = status u" "active_tool_call_id t = active_tool_call_id u"
    using assms(1,2) by (auto elim: next_event_step)
  have e: "ev_event_type e = TOOL_STARTED" "get (payload e) ''tool_call_id'' = JStr (tr_tool_call_id q)"
    using assms(1) by (simp_all add: next_event_def get_def get_default_def)
  then have "active_tool_call_id t = Some (tr_tool_call_id q)"
    using u by (auto elim!: transition_started simp: about_call_def)
  moreover have "status t = TOOL_RUNNING"
    using next_event_lifecycle [OF assms(1,2)] by (simp add: lifecycle_tools)
  moreover have "replay H (tr_run_id q) (extended l (tr_run_id q) e (tr_run_id q)) = Inr t"
    using next_event_replay [OF assms(1)] assms(2) by simp
  ultimately show ?thesis
    by (intro running_started) (use assms(3,4) in \<open>simp_all add: recorded_append\<close>)
qed

definition submit_result :: "RuntimeToolResult \<Rightarrow> bool" where
  "submit_result r \<longleftrightarrow> executed_result r \<or>
     rt_outcome r = DENIED \<and> status (rt_state r) = FAILED \<or>
     rt_outcome r = RESULT_AWAITING_GATE \<and> status (rt_state r) = AWAITING_GATE"

definition gate_outcome_result :: "RuntimeToolResult \<Rightarrow> bool" where
  "gate_outcome_result r \<longleftrightarrow> executed_result r \<or>
     rt_outcome r = RESULT_REJECTED \<and> status (rt_state r) = FAILED \<or>
     rt_outcome r = RESULT_AWAITING_GATE \<and> status (rt_state r) = AWAITING_GATE \<or>
     rt_outcome r = RESULT_GATE_RETRY \<or> rt_outcome r = BLOCKED"

lemma tool_result_simps [simp]:
  "rt_outcome (tool_result oc s) = oc" "rt_state (tool_result oc s) = s"
  by (simp_all add: tool_result_def)

lemma gate_result_simps [simp]:
  "rt_outcome (gate_result oc s d g v n) = oc" "rt_state (gate_result oc s d g v n) = s"
  by (simp_all add: gate_result_def)

lemma tool_event_types [simp]:
  "TOOL_REQUESTED \<in> tool_events" "TOOL_AUTHORIZED \<in> tool_events" "TOOL_ESCALATED \<in> tool_events"
  "TOOL_DENIED \<in> tool_events" "TOOL_STARTED \<in> tool_events" "GATE_APPROVED \<in> tool_events"
  "GATE_EVALUATED \<in> tool_events" "GATE_REJECTED \<in> tool_events" "GATE_REVISED \<in> tool_events"
  by (simp_all add: tool_events_def)

lemma triple_bind_lift:
  "(\<And>x. r = Inr x \<Longrightarrow> triple P (f x) Q E) \<Longrightarrow> (\<And>s. P s \<Longrightarrow> E s) \<Longrightarrow>
     triple P (bindA (liftA r) f) Q E"
  by (cases r) (auto simp: triple_def bindA_def)

context runtime_stores
begin

subsection \<open>Reading the log\<close>

lemma load_request_holding:
  fixes R :: "('d, 'e, 'w) runtime"
  assumes R: "runtime_on H L S registry R"
  shows "triple (holding registry P) (load_active_request R run c)
    (\<lambda>q. holding registry (\<lambda>l. (wf_request q \<and> tr_run_id q = run \<and> tr_tool_call_id q = c) \<and>
       (P l \<and> recorded (l run) q))) (safe registry)"
  unfolding load_active_request_def
proof (rule triple_bind)
  show "triple (holding registry P) (eventsA R run) (\<lambda>es. holding registry (\<lambda>l. P l \<and> es = l run)) (safe registry)"
    by (rule triple_conseq [OF events_holding [OF R]]) (auto intro: holding_safe)
  fix es
  show "triple (holding registry (\<lambda>l. P l \<and> es = l run)) (liftA (case find (request_event c) (rev es) of
        None \<Rightarrow> Inl GateReferenceMismatchError | Some e \<Rightarrow> request_from run c (payload e)))
      (\<lambda>q. holding registry (\<lambda>l. (wf_request q \<and> tr_run_id q = run \<and> tr_tool_call_id q = c) \<and>
         (P l \<and> recorded (l run) q))) (safe registry)"
  proof (rule triple_lift, goal_cases)
    case (1 q w)
    note w = 1(2)
    from 1 obtain e where e: "find (request_event c) (rev es) = Some e" "request_from run c (payload e) = Inr q"
      by (auto split: option.splits)
    from find_Some_in [OF e(1)] have "request_event c e" "e \<in> set es" by simp_all
    note q = request_from_recorded [OF e(2) this]
    have "holding registry (\<lambda>l. P l \<and> recorded (l run) q) w"
      by (rule holding_mono [OF w]) (use q in auto)
    with q show ?case unfolding holding_pure by blast
  qed (auto intro: holding_safe)
qed

subsection \<open>Executing and submitting\<close>

lemma execute_request_holding:
  fixes R :: "('d, 'e, 'w) runtime"
  assumes R: "runtime_on H L S registry R" and q: "wf_request q" and P: "stable H (tr_run_id q) P"
    and rec: "\<forall>l. P l \<longrightarrow> recorded (l (tr_run_id q)) q"
    and started: "\<not> append_started \<Longrightarrow> \<forall>l. P l \<longrightarrow> started_call (l (tr_run_id q)) q"
  shows "triple (holding registry P) (execute_request R q decision evaluation attempt append_started)
    (\<lambda>r w. executed_result r \<and> holding registry (\<lambda>l. P l \<and>
       replay H (tr_run_id q) (l (tr_run_id q)) = Inr (rt_state r)) w) (safe registry)"
  unfolding execute_request_def
proof (rule triple_if)
  let ?P = "\<lambda>l. P l \<and> started_call (l (tr_run_id q)) q"
  have P': "stable H (tr_run_id q) ?P" using P by auto
  show "triple (holding registry P) (bindA (append_event R (tr_run_id q) TOOL_STARTED
      [(''tool_call_id'', JStr (tr_tool_call_id q))]) (\<lambda>_. run_effect R q decision evaluation attempt))
    (\<lambda>r w. executed_result r \<and> holding registry (\<lambda>l. P l \<and>
       replay H (tr_run_id q) (l (tr_run_id q)) = Inr (rt_state r)) w) (safe registry)"
  proof (rule triple_bind)
    show "triple (holding registry P) (append_event R (tr_run_id q) TOOL_STARTED
        [(''tool_call_id'', JStr (tr_tool_call_id q))])
      (\<lambda>t. holding registry (\<lambda>l. ?P l \<and> replay H (tr_run_id q) (l (tr_run_id q)) = Inr t)) (safe registry)"
    proof (rule append_holding [OF R])
      fix l s e t
      assume l: "P l" and e: "next_event H l (tr_run_id q) TOOL_STARTED
          [(''tool_call_id'', JStr (tr_tool_call_id q))] s e" and t: "reduce H s e = Inr t"
        and d: "distinct (map ev_event_id (extended l (tr_run_id q) e (tr_run_id q)))"
      show "?P (extended l (tr_run_id q) e)"
        using stableD [OF P l e t] accepted_start [OF e t d] rec l by (simp add: tool_events_def)
    qed (simp add: canon_obj)
    fix t
    show "triple (holding registry (\<lambda>l. ?P l \<and> replay H (tr_run_id q) (l (tr_run_id q)) = Inr t))
      (run_effect R q decision evaluation attempt)
      (\<lambda>r w. executed_result r \<and> holding registry (\<lambda>l. P l \<and>
         replay H (tr_run_id q) (l (tr_run_id q)) = Inr (rt_state r)) w) (safe registry)"
      by (rule triple_conseq [OF run_effect_holding [OF R q P']])
         (auto elim!: holding_mono)
  qed
next
  assume "\<not> append_started"
  with started show "triple (holding registry P) (run_effect R q decision evaluation attempt)
    (\<lambda>r w. executed_result r \<and> holding registry (\<lambda>l. P l \<and>
       replay H (tr_run_id q) (l (tr_run_id q)) = Inr (rt_state r)) w) (safe registry)"
    by (intro run_effect_holding [OF R q P]) blast
qed

text \<open>The result of an operation on a run, over the log it leaves.\<close>

definition resulting ::
  "ToolRegistry \<Rightarrow> ((string \<Rightarrow> ExecutionEvent list) \<Rightarrow> bool) \<Rightarrow> string \<Rightarrow> (RuntimeToolResult \<Rightarrow> bool) \<Rightarrow>
   RuntimeToolResult \<Rightarrow> ('d, 'e, 'w) runtime_world \<Rightarrow> bool" where
  "resulting registry P run C r w \<longleftrightarrow> C r \<and>
     holding registry (\<lambda>l. P l \<and> replay H run (l run) = Inr (rt_state r)) w"

lemma resulting_mono:
  assumes "resulting registry P run C r w" and "\<And>l. P l \<Longrightarrow> P' l" and "C r \<Longrightarrow> C' r"
  shows "resulting registry P' run C' r w"
  using assms holding_mono [of registry "\<lambda>l. P l \<and> replay H run (l run) = Inr (rt_state r)" w
      "\<lambda>l. P' l \<and> replay H run (l run) = Inr (rt_state r)"]
  by (auto simp: resulting_def)

lemma resulting_safe: "resulting registry P run C r w \<Longrightarrow> safe registry w"
  by (auto simp: resulting_def intro: holding_safe)

text \<open>Appending a tool or gate event and returning a result of the state after it.\<close>

lemma append_resulting:
  fixes R :: "('d, 'e, 'w) runtime"
  assumes R: "runtime_on H L S registry R" and P: "stable H run P" and k: "k \<in> tool_events"
    and p: "canon (JObj p)" and f: "\<And>t. rt_state (f t) = t"
    and C: "\<And>a t. lifecycle a k (status t) \<Longrightarrow> C (f t)"
  shows "triple (holding registry P) (bindA (append_event R run k p) (\<lambda>t. returnA (f t)))
    (resulting registry P run C) (safe registry)"
proof (rule triple_bind)
  show "triple (holding registry P) (append_event R run k p)
      (\<lambda>t. holding registry (\<lambda>l. (C (f t) \<and> P l) \<and> replay H run (l run) = Inr t)) (safe registry)"
    by (rule append_holding [OF R p]) (auto dest: next_event_lifecycle intro: C stableD [OF P _ _ _ k])
qed (auto intro!: triple_return simp: resulting_def f elim!: holding_mono)

lemma execute_resulting:
  fixes R :: "('d, 'e, 'w) runtime"
  assumes "runtime_on H L S registry R" and "wf_request q" and "stable H (tr_run_id q) P"
    and "\<forall>l. P l \<longrightarrow> recorded (l (tr_run_id q)) q"
    and "\<not> append_started \<Longrightarrow> \<forall>l. P l \<longrightarrow> started_call (l (tr_run_id q)) q"
  shows "triple (holding registry P) (execute_request R q decision evaluation attempt append_started)
    (resulting registry P (tr_run_id q) executed_result) (safe registry)"
  using execute_request_holding [OF assms] by (simp add: resulting_def [abs_def])

text \<open>An event appended before the request is executed.\<close>

lemma append_execute_resulting:
  fixes R :: "('d, 'e, 'w) runtime"
  assumes R: "runtime_on H L S registry R" and q: "wf_request q" and P: "stable H (tr_run_id q) P"
    and rec: "\<forall>l. P l \<longrightarrow> recorded (l (tr_run_id q)) q" and k: "k \<in> tool_events" and p: "canon (JObj p)"
  shows "triple (holding registry P) (bindA (append_event R (tr_run_id q) k p)
      (\<lambda>_. execute_request R q decision evaluation attempt True))
    (resulting registry P (tr_run_id q) executed_result) (safe registry)"
proof (rule triple_bind)
  show "triple (holding registry P) (append_event R (tr_run_id q) k p)
      (\<lambda>t. holding registry (\<lambda>l. P l \<and> replay H (tr_run_id q) (l (tr_run_id q)) = Inr t)) (safe registry)"
    by (rule append_holding [OF R p]) (auto intro: stableD [OF P _ _ _ k])
  show "triple (holding registry (\<lambda>l. P l \<and> replay H (tr_run_id q) (l (tr_run_id q)) = Inr t))
      (execute_request R q decision evaluation attempt True)
      (resulting registry P (tr_run_id q) executed_result) (safe registry)" for t
    by (rule triple_pre [OF execute_resulting [OF R q P rec]]) (auto elim: holding_mono)
qed

lemma submit_holding:
  fixes R :: "('d, 'e, 'w) runtime"
  assumes R: "runtime_on H L S registry R" and q: "wf_request q" and P: "stable H (tr_run_id q) P"
  shows "triple (holding registry P) (submit R q) (resulting registry P (tr_run_id q) submit_result)
    (safe registry)"
proof -
  let ?run = "tr_run_id q"
  let ?P = "\<lambda>l. P l \<and> recorded (l ?run) q"
  have P': "stable H ?run ?P" using P by auto
  note weaken = triple_conseq [where Q' = "resulting registry P ?run submit_result" and E' = "safe registry" and E = "safe registry"]
  have denied: "triple (holding registry ?P) (bindA (append_event R ?run TOOL_DENIED p) (\<lambda>s.
        returnA ((tool_result DENIED s)\<lparr>rt_authorization := Some d\<rparr>)))
      (resulting registry P ?run submit_result) (safe registry)" if "canon (JObj p)" for p d
    by (rule weaken [OF append_resulting [where C = submit_result, OF R P' _ that]])
       (auto simp: submit_result_def lifecycle_tools elim: resulting_mono)
  have escalated: "triple (holding registry ?P) (bindA (append_event R ?run TOOL_ESCALATED p) (\<lambda>s.
        returnA ((tool_result RESULT_AWAITING_GATE s)\<lparr>rt_authorization := Some d, rt_gate_proposal := Some g\<rparr>)))
      (resulting registry P ?run submit_result) (safe registry)" if "canon (JObj p)" for p d g
    by (rule weaken [OF append_resulting [where C = submit_result, OF R P' _ that]])
       (auto simp: submit_result_def lifecycle_tools elim: resulting_mono)
  have allowed: "triple (holding registry ?P) (bindA (append_event R ?run TOOL_AUTHORIZED p) (\<lambda>_.
        execute_request R q (Some d) None None True))
      (resulting registry P ?run submit_result) (safe registry)" if "canon (JObj p)" for p d
    by (rule weaken [OF append_execute_resulting [OF R q P' _ _ that]])
       (auto simp: submit_result_def elim: resulting_mono)
  show ?thesis
    unfolding submit_def
  proof (rule triple_bind [where Q = "\<lambda>_. holding registry ?P"])
    show "triple (holding registry P) (append_event R ?run TOOL_REQUESTED (request_payload q))
        (\<lambda>_. holding registry ?P) (safe registry)"
      by (rule triple_conseq [OF append_holding [where P = P and Q = "\<lambda>_. ?P", OF R canon_request_payload]])
         (auto intro: stableD [OF P] dest: requested_recorded elim: holding_mono)
    fix t
    show "triple (holding registry ?P) (bindA (liftA (authorize q (ru_context R))) (\<lambda>decision.
       case ad_outcome decision of
         DENY \<Rightarrow> bindA (append_event R ?run TOOL_DENIED
             [(''reason'', JStr (join_with ''; '' (ad_reasons decision))),
              (''tool_call_id'', JStr (tr_tool_call_id q))]) (\<lambda>s.
           returnA ((tool_result DENIED s)\<lparr>rt_authorization := Some decision\<rparr>))
       | ESCALATE \<Rightarrow> bindA (liftA (build_proposal (ru_hash R) q decision 1)) (\<lambda>proposal.
           bindA (append_event R ?run TOOL_ESCALATED (escalation_payload R proposal (tr_tool_call_id q))) (\<lambda>s.
           returnA ((tool_result RESULT_AWAITING_GATE s)\<lparr>rt_authorization := Some decision,
             rt_gate_proposal := Some proposal\<rparr>)))
       | ALLOW \<Rightarrow> bindA (append_event R ?run TOOL_AUTHORIZED (authorization_payload q decision)) (\<lambda>_.
           execute_request R q (Some decision) None None True)))
      (resulting registry P ?run submit_result) (safe registry)"
      by (auto intro!: triple_bind_lift denied escalated allowed canon_payloads holding_safe
          simp: canon_obj split: AuthorizationOutcome.split)
  qed
qed

subsection \<open>Gates and recovery\<close>

text \<open>Loading the state and the checks of a gate operation keep what the log satisfies.\<close>

lemma load_checked_holding:
  fixes R :: "('d, 'e, 'w) runtime"
  assumes R: "runtime_on H L S registry R"
    and f: "\<And>s. triple (holding registry (\<lambda>l. P l \<and> replay H run (l run) = Inr s)) (f s) Q (safe registry)"
  shows "triple (holding registry P) (bindA (load_state R run) f) Q (safe registry)"
proof (rule triple_bind)
  show "triple (holding registry P) (load_state R run)
      (\<lambda>s. holding registry (\<lambda>l. P l \<and> replay H run (l run) = Inr s)) (safe registry)"
    by (rule triple_conseq [OF load_state_holding [OF R]]) (auto intro: holding_safe)
qed (rule f)

lemma load_request_then:
  fixes R :: "('d, 'e, 'w) runtime"
  assumes R: "runtime_on H L S registry R"
    and f: "\<And>q. wf_request q \<Longrightarrow> tr_run_id q = run \<Longrightarrow> tr_tool_call_id q = c \<Longrightarrow>
      triple (holding registry (\<lambda>l. P l \<and> recorded (l run) q)) (f q) Q (safe registry)"
  shows "triple (holding registry P) (bindA (load_active_request R run c) f) Q (safe registry)"
proof (rule triple_bind [OF load_request_holding [OF R]])
  fix q
  show "triple (holding registry (\<lambda>l. (wf_request q \<and> tr_run_id q = run \<and> tr_tool_call_id q = c) \<and>
      P l \<and> recorded (l run) q)) (f q) Q (safe registry)"
    unfolding holding_pure using f by (intro triple_pure) blast
qed

lemma drop_holding:
  fixes m :: "('d, 'e, 'w, 'x) operation"
  shows "triple (holding registry P) m Q E \<Longrightarrow> triple (holding registry (\<lambda>l. P l \<and> X l)) m Q E"
  by (erule triple_pre, erule holding_mono) simp

lemma resolve_gate_holding:
  fixes R :: "('d, 'e, 'w) runtime"
  assumes R: "runtime_on H L S registry R" and P: "stable H (gr_run_id (gs_reference v)) P"
  shows "triple (holding registry P) (resolve_gate R v)
    (resulting registry P (gr_run_id (gs_reference v)) gate_outcome_result) (safe registry)"
proof -
  let ?run = "gr_run_id (gs_reference v)"
  note weaken = triple_conseq [where Q' = "resulting registry P ?run gate_outcome_result"
      and E' = "safe registry" and E = "safe registry"]
  have rejected: "triple (holding registry P') (bindA (append_event R ?run GATE_REJECTED (resolution_payload v)) (\<lambda>s.
        returnA (tool_result RESULT_REJECTED s)))
      (resulting registry P ?run gate_outcome_result) (safe registry)"
    if "stable H ?run P'" "\<And>l. P' l \<Longrightarrow> P l" for P'
    by (rule weaken [OF append_resulting [where C = gate_outcome_result, OF R that(1) _ canon_resolution]])
       (auto simp: gate_outcome_result_def lifecycle_tools intro: that(2) elim: resulting_mono)
  have approved: "triple (holding registry (\<lambda>l. P l \<and> recorded (l ?run) q))
      (bindA (append_event R ?run GATE_APPROVED (resolution_payload v))
        (\<lambda>_. execute_request R q (Some d) None None True))
      (resulting registry P ?run gate_outcome_result) (safe registry)"
    if "wf_request q" "tr_run_id q = ?run" for q d
  proof -
    have "stable H (tr_run_id q) (\<lambda>l. P l \<and> recorded (l ?run) q)" using P that by auto
    from append_execute_resulting [OF R that(1) this, unfolded that(2), OF _ _ canon_resolution]
    have "triple (holding registry (\<lambda>l. P l \<and> recorded (l ?run) q))
      (bindA (append_event R ?run GATE_APPROVED (resolution_payload v))
        (\<lambda>_. execute_request R q (Some d) None None True))
      (resulting registry (\<lambda>l. P l \<and> recorded (l ?run) q) ?run executed_result) (safe registry)" by simp
    then show ?thesis by (rule weaken) (auto simp: gate_outcome_result_def elim: resulting_mono)
  qed
  show ?thesis
    unfolding resolve_gate_def Let_def
    by (intro load_checked_holding [OF R] drop_holding triple_bind_lift triple_check
        load_request_then [OF R] triple_if rejected approved stable_conj P)
       (auto intro: holding_safe)
qed

lemma load_proposal_then:
  fixes R :: "('d, 'e, 'w) runtime"
  assumes R: "runtime_on H L S registry R"
    and f: "\<And>g. triple (holding registry P) (f g) Q (safe registry)"
  shows "triple (holding registry P) (bindA (load_active_proposal R q v) f) Q (safe registry)"
proof (rule triple_seq)
  show "triple (holding registry P) (load_active_proposal R q v) (\<lambda>_. holding registry P) (safe registry)"
    unfolding load_active_proposal_def
  proof (rule triple_bind)
    show "triple (holding registry P) (eventsA R (tr_run_id q)) (\<lambda>_. holding registry P) (safe registry)"
      by (rule triple_conseq [OF events_holding [OF R]]) (auto intro: holding_safe elim: holding_mono)
    show "triple (holding registry P) (liftA r) (\<lambda>_. holding registry P) (safe registry)" for r :: "'x result"
      by (rule triple_lift) (auto intro: holding_safe)
  qed
qed (rule f)

lemma submit_gate_answer_holding:
  fixes R :: "('d, 'e, 'w) runtime"
  assumes R: "runtime_on H L S registry R" and P: "stable H (gr_run_id (ga_reference v)) P"
  shows "triple (holding registry P) (submit_gate_answer R v)
    (resulting registry P (gr_run_id (ga_reference v)) gate_outcome_result) (safe registry)"
proof -
  let ?run = "gr_run_id (ga_reference v)"
  let ?Q = "resulting registry P ?run gate_outcome_result"
  have evaluated: "triple (holding registry (\<lambda>l. P l \<and> recorded (l ?run) q))
      (bindA (append_event R ?run GATE_EVALUATED (evaluation_payload v e n m)) (\<lambda>t.
         case ge_outcome e of
           GATE_PASS \<Rightarrow> execute_request R q (Some d) (Some e) (Some n) True
         | GATE_RETRY \<Rightarrow> returnA (gate_result RESULT_GATE_RETRY t d g e n)
         | GATE_BLOCK \<Rightarrow> returnA (gate_result BLOCKED t d g e n))) ?Q (safe registry)"
    if q: "wf_request q" "tr_run_id q = ?run" for q e n m d g
  proof (rule triple_bind)
    let ?P = "\<lambda>l. P l \<and> recorded (l ?run) q"
    have P': "stable H (tr_run_id q) ?P" using P q by auto
    show "triple (holding registry ?P) (append_event R ?run GATE_EVALUATED (evaluation_payload v e n m))
        (\<lambda>t. holding registry (\<lambda>l. ?P l \<and> replay H ?run (l ?run) = Inr t)) (safe registry)"
      using P' q by (intro append_holding [OF R canon_evaluation]) (auto dest: stableD)
    fix t
    have exec: "triple (holding registry ?P) (execute_request R q (Some d) (Some e) (Some n) True) ?Q (safe registry)"
      by (rule triple_conseq [OF execute_resulting [OF R q(1) P']])
         (auto simp: q(2) gate_outcome_result_def elim: resulting_mono)
    have ret: "triple (holding registry (\<lambda>l. ?P l \<and> replay H ?run (l ?run) = Inr t)) (returnA r) ?Q (safe registry)"
      if "rt_state r = t" "gate_outcome_result r" for r
      using that by (intro triple_return) (auto simp: resulting_def elim: holding_mono)
    show "triple (holding registry (\<lambda>l. ?P l \<and> replay H ?run (l ?run) = Inr t))
        (case ge_outcome e of
           GATE_PASS \<Rightarrow> execute_request R q (Some d) (Some e) (Some n) True
         | GATE_RETRY \<Rightarrow> returnA (gate_result RESULT_GATE_RETRY t d g e n)
         | GATE_BLOCK \<Rightarrow> returnA (gate_result BLOCKED t d g e n)) ?Q (safe registry)"
    proof (cases "ge_outcome e")
      case GATE_PASS
      show ?thesis unfolding GATE_PASS GateEvaluationOutcome.case by (rule drop_holding [OF exec])
    next
      case GATE_RETRY
      show ?thesis unfolding GATE_RETRY GateEvaluationOutcome.case
        by (rule ret) (simp_all add: gate_outcome_result_def)
    next
      case GATE_BLOCK
      show ?thesis unfolding GATE_BLOCK GateEvaluationOutcome.case
        by (rule ret) (simp_all add: gate_outcome_result_def)
    qed
  qed
  show ?thesis
    unfolding submit_gate_answer_def Let_def
  proof (intro load_checked_holding [OF R] drop_holding triple_bind_lift triple_check)
    fix s
    show "triple (holding registry P) (case active_gate_max_attempts s of
         None \<Rightarrow> raiseA InvalidTransitionError
       | Some m \<Rightarrow> bindA (load_active_request R ?run (gr_tool_call_id (ga_reference v))) (\<lambda>q.
           bindA (load_active_proposal R q (ga_reference v)) (\<lambda>g.
           bindA (liftA (recheck R q (ga_reference v))) (\<lambda>d.
           bindA (liftA (evaluate_answer R g (submitted_answer v))) (\<lambda>e.
           bindA (append_event R ?run GATE_EVALUATED (evaluation_payload v
             (exhaust e (active_gate_attempts s + 1) m) (active_gate_attempts s + 1) m)) (\<lambda>t.
           case ge_outcome (exhaust e (active_gate_attempts s + 1) m) of
             GATE_PASS \<Rightarrow> execute_request R q (Some d) (Some (exhaust e (active_gate_attempts s + 1) m))
               (Some (active_gate_attempts s + 1)) True
           | GATE_RETRY \<Rightarrow> returnA (gate_result RESULT_GATE_RETRY t d g
               (exhaust e (active_gate_attempts s + 1) m) (active_gate_attempts s + 1))
           | GATE_BLOCK \<Rightarrow> returnA (gate_result BLOCKED t d g
               (exhaust e (active_gate_attempts s + 1) m) (active_gate_attempts s + 1))))))))
      ?Q (safe registry)"
    proof (cases "active_gate_max_attempts s")
      case None
      then show ?thesis by (auto intro: triple_raise holding_safe)
    next
      case (Some m)
      show ?thesis
        unfolding Some option.case
        by (intro load_request_then [OF R] load_proposal_then [OF R] triple_bind_lift evaluated)
           (auto intro: holding_safe)
    qed
  qed (auto intro: holding_safe)
qed

lemma revise_gate_holding:
  fixes R :: "('d, 'e, 'w) runtime"
  assumes R: "runtime_on H L S registry R" and P: "stable H (gr_run_id v) P"
  shows "triple (holding registry P) (revise_gate R v)
    (resulting registry P (gr_run_id v) gate_outcome_result) (safe registry)"
proof -
  have revised: "triple (holding registry (\<lambda>l. P l \<and> recorded (l (gr_run_id v)) q))
      (bindA (append_event R (gr_run_id v) GATE_REVISED (revision_payload R v g)) (\<lambda>s.
        returnA ((tool_result RESULT_AWAITING_GATE s)\<lparr>rt_authorization := Some d, rt_gate_proposal := Some g\<rparr>)))
      (resulting registry P (gr_run_id v) gate_outcome_result) (safe registry)" for q g d
    by (rule drop_holding [OF append_resulting [where C = gate_outcome_result, OF R P _ canon_revision]])
       (auto simp: gate_outcome_result_def lifecycle_tools)
  show ?thesis
    unfolding revise_gate_def Let_def
    by (intro load_checked_holding [OF R] drop_holding triple_bind_lift triple_check
        load_request_then [OF R] revised) (auto intro: holding_safe)
qed

lemma recover_holding:
  fixes R :: "('d, 'e, 'w) runtime"
  assumes R: "runtime_on H L S registry R" and P: "stable H run P"
  shows "triple (holding registry P) (recover R run) (resulting registry P run executed_result) (safe registry)"
  unfolding recover_def
proof (intro load_checked_holding [OF R] triple_check)
  fix s
  let ?P = "\<lambda>l. P l \<and> replay H run (l run) = Inr s"
  show "triple (holding registry ?P) (case active_tool_call_id s of
        None \<Rightarrow> raiseA InvalidTransitionError
      | Some c \<Rightarrow> bindA (load_active_request R run c) (\<lambda>q.
          execute_request R q None None None (status s = TOOL_READY)))
      (resulting registry P run executed_result) (safe registry)"
    if st: "status s = TOOL_READY \<or> status s = TOOL_RUNNING"
  proof (cases "active_tool_call_id s")
    case None
    then show ?thesis by (auto intro: triple_raise holding_safe)
  next
    case (Some c)
    show ?thesis
      unfolding Some option.case
    proof (rule load_request_then [OF R])
      fix q
      assume q: "wf_request q" "tr_run_id q = run" "tr_tool_call_id q = c"
      show "triple (holding registry (\<lambda>l. ?P l \<and> recorded (l run) q))
        (execute_request R q None None None (status s = TOOL_READY))
        (resulting registry P run executed_result) (safe registry)"
      proof (cases "status s = TOOL_READY")
        case True
        let ?P' = "\<lambda>l. P l \<and> recorded (l run) q"
        have "stable H (tr_run_id q) ?P'" using P q by auto
        from execute_resulting [OF R q(1) this, of True] q(2)
        have "triple (holding registry ?P') (execute_request R q None None None (status s = TOOL_READY))
            (resulting registry ?P' run executed_result) (safe registry)" by (simp add: True)
        then show ?thesis
        proof (rule triple_conseq)
          show "holding registry ?P' w" if "holding registry (\<lambda>l. ?P l \<and> recorded (l run) q) w" for w
            by (rule holding_mono [OF that]) simp
        qed (erule resulting_mono, simp_all)
      next
        case False
        let ?P' = "\<lambda>l. P l \<and> recorded (l run) q \<and> started_call (l run) q"
        have "stable H (tr_run_id q) ?P'" using P q by (auto intro!: stable_conj)
        from execute_resulting [OF R q(1) this, of False] q(2)
        have "triple (holding registry ?P') (execute_request R q None None None (status s = TOOL_READY))
            (resulting registry ?P' run executed_result) (safe registry)" by (simp add: False)
        moreover have "holding registry ?P' w" if w: "holding registry (\<lambda>l. ?P l \<and> recorded (l run) q) w"
          for w :: "('d, 'e, 'w) runtime_world"
        proof -
          have "started_call (l run) q" if "world_at l T w" "?P l" "recorded (l run) q" for l T
            using that st False Some q(3)
            by (intro running_started [OF _ world_at_ids [OF that(1)]]) auto
          with w show ?thesis unfolding holding_def by blast
        qed
        ultimately show ?thesis
          by (rule triple_conseq) (assumption | erule resulting_mono; simp)+
      qed
    qed
  qed
qed (auto intro: holding_safe)

end

end
