(* ===== verification/FakeAgents.thy ===== *)
theory FakeAgents
  imports ModelTurns
begin

section \<open>The agents (fake_agent.py)\<close>

text \<open>
  The static agent and the model-driven agent on top of the runtime. The model adapter (with a
  state of its own), the application's tool expectations and the crash injectors are parameters.
  The loop is an iteration on the evidence gathered so far; \<open>continue_loop\<close> runs it with fuel, and
  is \<open>None\<close> only when the fuel is used up.
\<close>

subsection \<open>Results and checkpoints\<close>

record FakeAgentRunResult =
  fa_tool_result :: RuntimeToolResult
  fa_verification :: VerificationResult
  fa_state :: RunState

record FakeAgentVerificationRecoveryResult =
  fv_receipt :: ToolReceipt
  fv_verification :: VerificationResult
  fv_state :: RunState

record ModelDrivenToolTurnResult =
  mt_context :: ModelInput
  mt_action :: ToolCallAction
  mt_tool_result :: RuntimeToolResult
  mt_verification :: VerificationResult
  mt_state :: RunState

record ModelDrivenCompletionResult =
  mc_context :: ModelInput
  mc_action :: string
  mc_completion :: CompletionResult
  mc_state :: RunState

datatype ModelLoopOutcome = LOOP_COMPLETED | LOOP_FAILED | LOOP_PAUSED

record ModelLoopResult =
  ml_outcome :: ModelLoopOutcome
  ml_state :: RunState
  ml_actions :: "ModelAction list"
  ml_tool_results :: "RuntimeToolResult list"
  ml_verifications :: "VerificationResult list"
  ml_completions :: "CompletionResult list"
  ml_recovered_receipts :: "ToolReceipt list"

datatype ModelLoopCheckpoint =
  BEFORE_RECOVERED_VERIFICATION | AFTER_MODEL_ACTION_RETURNED | AFTER_MODEL_ACTION_PERSISTED

text \<open>What a resolver of expectations does: raise, return an expectation, or another object.\<close>

type_synonym resolver_of_expectations =
  "ModelInput \<Rightarrow> ToolCallAction \<Rightarrow> VerificationExpectation option result"

definition expectation_for ::
  "resolver_of_expectations \<Rightarrow> ModelInput \<Rightarrow> ToolCallAction \<Rightarrow> VerificationExpectation result" where
  "expectation_for resolver c action =
     bindR (resolver c action) (\<lambda>x. case x of None \<Rightarrow> Inl PyTypeError | Some v \<Rightarrow> Inr v)"

subsection \<open>The static agent\<close>

definition executed_receipt :: "RuntimeToolResult \<Rightarrow> ToolReceipt result" where
  "executed_receipt r =
     (case rt_receipt r of
        Some q \<Rightarrow> ensure (rt_outcome r = EXECUTED \<and> status (rt_state r) = VERIFYING)
          InvalidTransitionError (Inr q)
      | None \<Rightarrow> Inl InvalidTransitionError)"

definition run_agent ::
  "('d, 'e, 'w) runtime \<Rightarrow> error option \<Rightarrow> ToolRequest \<Rightarrow> VerificationExpectation \<Rightarrow>
   ('d, 'e, 'w, FakeAgentRunResult) operation" where
  "run_agent R after_tool_result request expectation =
     bindA (submit R request) (\<lambda>tool.
     bindA (liftA (executed_receipt tool)) (\<lambda>receipt.
     case after_tool_result of
       Some e \<Rightarrow> raiseA e
     | None \<Rightarrow>
         let verification = verify_receipt receipt expectation in
         bindA (record_verification R (tr_run_id request) verification) (\<lambda>s.
         returnA \<lparr>fa_tool_result = tool, fa_verification = verification, fa_state = s\<rparr>)))"

definition recover_verification ::
  "('d, 'e, 'w) runtime \<Rightarrow> ToolRequest \<Rightarrow> VerificationExpectation \<Rightarrow>
   ('d, 'e, 'w, FakeAgentVerificationRecoveryResult) operation" where
  "recover_verification R request expectation =
     bindA (load_verification_receipt R (tr_run_id request)) (\<lambda>receipt.
     let verification = verify_receipt receipt expectation in
     bindA (record_verification R (tr_run_id request) verification) (\<lambda>s.
     returnA \<lparr>fv_receipt = receipt, fv_verification = verification, fv_state = s\<rparr>))"

subsection \<open>The model-driven agent\<close>

record ('d, 'e, 'w, 'a) agent =
  ag_runtime :: "('d, 'e, 'w) runtime"
  ag_adapter :: "'a adapter"
  ag_run_id :: string
  ag_injector :: "(ModelLoopCheckpoint \<Rightarrow> error option) option"

record ('d, 'e, 'w, 'a) agent_world =
  aw_runtime :: "('d, 'e, 'w) runtime_world"
  aw_adapter :: 'a

type_synonym ('d, 'e, 'w, 'a, 'x) agent_operation = "(('d, 'e, 'w, 'a) agent_world, 'x) action"

definition runtimeA :: "('d, 'e, 'w, 'x) operation \<Rightarrow> ('d, 'e, 'w, 'a, 'x) agent_operation" where
  "runtimeA m w = (case m (aw_runtime w) of (r, v) \<Rightarrow> (r, w\<lparr>aw_runtime := v\<rparr>))"

text \<open>\<open>try: ... except\<close>: the exception becomes a value.\<close>

definition tryA :: "('s, 'x) action \<Rightarrow> ('s, 'x result) action" where
  "tryA m s = (case m s of (r, t) \<Rightarrow> (Inr r, t))"

definition adapterA ::
  "('d, 'e, 'w, 'a) agent \<Rightarrow> ModelInput \<Rightarrow> ('d, 'e, 'w, 'a, ModelAction) agent_operation" where
  "adapterA A c w =
     (case ag_adapter A c (aw_adapter w) of (r, a) \<Rightarrow> (request_model_action r, w\<lparr>aw_adapter := a\<rparr>))"

definition reach_loop_checkpoint ::
  "('d, 'e, 'w, 'a) agent \<Rightarrow> ModelLoopCheckpoint \<Rightarrow> ('d, 'e, 'w, 'a, unit) agent_operation" where
  "reach_loop_checkpoint A c =
     (case ag_injector A of
        None \<Rightarrow> returnA ()
      | Some injector \<Rightarrow> (case injector c of None \<Rightarrow> returnA () | Some e \<Rightarrow> raiseA e))"

definition run_tool_turn ::
  "('d, 'e, 'w, 'a) agent \<Rightarrow> VerificationExpectation \<Rightarrow>
   ('d, 'e, 'w, 'a, ModelDrivenToolTurnResult) agent_operation" where
  "run_tool_turn A expectation =
     (let R = ag_runtime A in
      bindA (runtimeA (build_model_input R (ag_run_id A))) (\<lambda>c.
      bindA (adapterA A c) (\<lambda>proposed.
      case proposed of
        FinalAnswer _ \<Rightarrow> raiseA InvalidTransitionError
      | ToolCall action \<Rightarrow>
          bindA (liftA (tool_request_from_action c proposed None)) (\<lambda>request.
          bindA (runtimeA (submit R request)) (\<lambda>tool.
          bindA (liftA (executed_receipt tool)) (\<lambda>receipt.
          let verification = verify_receipt receipt expectation in
          bindA (runtimeA (record_step_verification R (ag_run_id A) verification)) (\<lambda>s.
          returnA \<lparr>mt_context = c, mt_action = action, mt_tool_result = tool,
            mt_verification = verification, mt_state = s\<rparr>)))))))"

definition run_completion_turn ::
  "('d, 'e, 'w, 'a) agent \<Rightarrow> CompletionExpectation \<Rightarrow>
   ('d, 'e, 'w, 'a, ModelDrivenCompletionResult) agent_operation" where
  "run_completion_turn A expectation =
     (let R = ag_runtime A in
      bindA (runtimeA (build_model_input R (ag_run_id A))) (\<lambda>c.
      bindA (adapterA A c) (\<lambda>proposed.
      case proposed of
        ToolCall _ \<Rightarrow> raiseA InvalidTransitionError
      | FinalAnswer answer \<Rightarrow>
          bindA (liftA (verify_completion (ru_hash R) answer c expectation)) (\<lambda>completion.
          bindA (runtimeA (record_completion R c answer completion)) (\<lambda>s.
          returnA \<lparr>mc_context = c, mc_action = answer, mc_completion = completion, mc_state = s\<rparr>)))))"

subsection \<open>The loop\<close>

record loop_evidence =
  le_actions :: "ModelAction list"
  le_tool_results :: "RuntimeToolResult list"
  le_verifications :: "VerificationResult list"
  le_completions :: "CompletionResult list"
  le_recovered :: "ToolReceipt list"

definition no_evidence :: loop_evidence where
  "no_evidence = \<lparr>le_actions = [], le_tool_results = [], le_verifications = [],
     le_completions = [], le_recovered = []\<rparr>"

definition loop_result ::
  "('d, 'e, 'w, 'a) agent \<Rightarrow> ModelLoopOutcome \<Rightarrow> loop_evidence \<Rightarrow>
   ('d, 'e, 'w, 'a, ModelLoopResult) agent_operation" where
  "loop_result A oc ev =
     bindA (runtimeA (load_state (ag_runtime A) (ag_run_id A))) (\<lambda>s.
     returnA \<lparr>ml_outcome = oc, ml_state = s, ml_actions = le_actions ev,
       ml_tool_results = le_tool_results ev, ml_verifications = le_verifications ev,
       ml_completions = le_completions ev, ml_recovered_receipts = le_recovered ev\<rparr>)"

text \<open>An iteration ends the loop with a result (\<open>Inr\<close>) or continues it with more evidence (\<open>Inl\<close>).\<close>

definition finish ::
  "('d, 'e, 'w, 'a) agent \<Rightarrow> ModelLoopOutcome \<Rightarrow> loop_evidence \<Rightarrow>
   ('d, 'e, 'w, 'a, 'x + ModelLoopResult) agent_operation" where
  "finish A oc ev = bindA (loop_result A oc ev) (\<lambda>r. returnA (Inr r))"

definition propose_action ::
  "('d, 'e, 'w, 'a) agent \<Rightarrow> loop_evidence \<Rightarrow> ModelInput \<Rightarrow>
   ('d, 'e, 'w, 'a, (ModelInput \<times> ModelAction \<times> string) + ModelLoopResult) agent_operation" where
  "propose_action A ev c =
     (let R = ag_runtime A in
      bindA (runtimeA (begin_model_action R c)) (\<lambda>invocation.
      bindA (tryA (adapterA A c)) (\<lambda>attempt.
      case attempt of
        Inl _ \<Rightarrow>
          bindA (runtimeA (record_model_action_failure R (ag_run_id A)
            ''model adapter failed to produce a valid bounded action'')) (\<lambda>_.
          finish A LOOP_FAILED ev)
      | Inr proposed \<Rightarrow>
          bindA (reach_loop_checkpoint A AFTER_MODEL_ACTION_RETURNED) (\<lambda>_.
          bindA (runtimeA (persist_model_action R c invocation proposed)) (\<lambda>pending.
          bindA (reach_loop_checkpoint A AFTER_MODEL_ACTION_PERSISTED) (\<lambda>_.
          returnA (Inl (c, proposed, da_event_id pending))))))))"

definition next_proposal ::
  "('d, 'e, 'w, 'a) agent \<Rightarrow> loop_evidence \<Rightarrow> RunState \<Rightarrow>
   ('d, 'e, 'w, 'a, (ModelInput \<times> ModelAction \<times> string) + ModelLoopResult) agent_operation" where
  "next_proposal A ev current =
     (let R = ag_runtime A in
      if status current = ACTION_PENDING
      then bindA (runtimeA (load_pending_model_action R (ag_run_id A))) (\<lambda>pending.
           returnA (Inl (da_context pending, da_action pending, da_event_id pending)))
      else bindA (tryA (runtimeA (build_model_input R (ag_run_id A)))) (\<lambda>attempt.
           case attempt of
             Inl (StepBudgetExhaustedError _) \<Rightarrow> finish A LOOP_FAILED ev
           | Inl e \<Rightarrow> raiseA e
           | Inr c \<Rightarrow> propose_action A ev c))"

definition dispatch_answer ::
  "('d, 'e, 'w, 'a) agent \<Rightarrow> CompletionExpectation \<Rightarrow> loop_evidence \<Rightarrow> ModelInput \<Rightarrow> string \<Rightarrow>
   ('d, 'e, 'w, 'a, loop_evidence + ModelLoopResult) agent_operation" where
  "dispatch_answer A expectation ev c answer =
     (let R = ag_runtime A in
      bindA (liftA (verify_completion (ru_hash R) answer c expectation)) (\<lambda>completion.
      let ev' = ev\<lparr>le_completions := le_completions ev @ [completion]\<rparr> in
      bindA (runtimeA (record_completion R c answer completion)) (\<lambda>s.
      if status s = COMPLETED then finish A LOOP_COMPLETED ev' else returnA (Inl ev'))))"

definition verify_step ::
  "('d, 'e, 'w, 'a) agent \<Rightarrow> resolver_of_expectations \<Rightarrow> loop_evidence \<Rightarrow> ModelInput \<Rightarrow>
   ToolCallAction \<Rightarrow> ToolReceipt \<Rightarrow> ('d, 'e, 'w, 'a, loop_evidence + ModelLoopResult) agent_operation" where
  "verify_step A expectations ev c action receipt =
     bindA (liftA (expectation_for expectations c action)) (\<lambda>expectation.
     let verification = verify_receipt receipt expectation;
         ev' = ev\<lparr>le_verifications := le_verifications ev @ [verification]\<rparr> in
     bindA (runtimeA (record_step_verification (ag_runtime A) (ag_run_id A) verification)) (\<lambda>s.
     if status s = FAILED then finish A LOOP_FAILED ev' else returnA (Inl ev')))"

definition dispatch_tool ::
  "('d, 'e, 'w, 'a) agent \<Rightarrow> resolver_of_expectations \<Rightarrow> loop_evidence \<Rightarrow> ModelInput \<Rightarrow>
   ToolCallAction \<Rightarrow> string \<Rightarrow> ('d, 'e, 'w, 'a, loop_evidence + ModelLoopResult) agent_operation" where
  "dispatch_tool A expectations ev c action event_id =
     bindA (liftA (tool_request_from_action c (ToolCall action) (Some event_id))) (\<lambda>request.
     bindA (runtimeA (submit (ag_runtime A) request)) (\<lambda>tool.
     let ev' = ev\<lparr>le_tool_results := le_tool_results ev @ [tool]\<rparr> in
     if rt_outcome tool \<noteq> EXECUTED
     then finish A (if rt_outcome tool = RESULT_AWAITING_GATE then LOOP_PAUSED else LOOP_FAILED) ev'
     else case rt_receipt tool of
       None \<Rightarrow> finish A LOOP_FAILED ev'
     | Some receipt \<Rightarrow>
         if status (rt_state tool) \<noteq> VERIFYING then finish A LOOP_FAILED ev'
         else verify_step A expectations ev' c action receipt))"

definition iteration ::
  "('d, 'e, 'w, 'a) agent \<Rightarrow> resolver_of_expectations \<Rightarrow> CompletionExpectation \<Rightarrow> loop_evidence \<Rightarrow>
   ('d, 'e, 'w, 'a, loop_evidence + ModelLoopResult) agent_operation" where
  "iteration A expectations expectation ev =
     bindA (runtimeA (load_state (ag_runtime A) (ag_run_id A))) (\<lambda>current.
     if status current = MODEL_PENDING
     then bindA (runtimeA (record_model_action_failure (ag_runtime A) (ag_run_id A)
            ''model adapter outcome is unknown after interruption'')) (\<lambda>_.
          finish A LOOP_FAILED ev)
     else bindA (next_proposal A ev current) (\<lambda>proposal.
          case proposal of
            Inr r \<Rightarrow> returnA (Inr r)
          | Inl (c, proposed, event_id) \<Rightarrow>
              let ev' = ev\<lparr>le_actions := le_actions ev @ [proposed]\<rparr> in
              (case proposed of
                 FinalAnswer answer \<Rightarrow> dispatch_answer A expectation ev' c answer
               | ToolCall action \<Rightarrow> dispatch_tool A expectations ev' c action event_id)))"

fun continue_loop ::
  "nat \<Rightarrow> ('d, 'e, 'w, 'a) agent \<Rightarrow> resolver_of_expectations \<Rightarrow> CompletionExpectation \<Rightarrow> loop_evidence \<Rightarrow>
   ('d, 'e, 'w, 'a, ModelLoopResult option) agent_operation" where
  "continue_loop 0 A expectations expectation ev = returnA None"
| "continue_loop (Suc fuel) A expectations expectation ev =
     bindA (iteration A expectations expectation ev) (\<lambda>r. case r of
       Inr result \<Rightarrow> returnA (Some result)
     | Inl ev' \<Rightarrow> continue_loop fuel A expectations expectation ev')"

definition run_loop ::
  "nat \<Rightarrow> ('d, 'e, 'w, 'a) agent \<Rightarrow> resolver_of_expectations \<Rightarrow> CompletionExpectation \<Rightarrow>
   ('d, 'e, 'w, 'a, ModelLoopResult option) agent_operation" where
  "run_loop fuel A expectations expectation =
     bindA (runtimeA (load_state (ag_runtime A) (ag_run_id A))) (\<lambda>s.
     checkA (status s = READY \<or> status s = MODEL_PENDING \<or> status s = ACTION_PENDING) InvalidTransitionError
     (checkA (max_steps s \<noteq> None) InvalidTransitionError
     (continue_loop fuel A expectations expectation no_evidence)))"

definition resume_loop ::
  "nat \<Rightarrow> ('d, 'e, 'w, 'a) agent \<Rightarrow> resolver_of_expectations \<Rightarrow> CompletionExpectation \<Rightarrow>
   ('d, 'e, 'w, 'a, ModelLoopResult option) agent_operation" where
  "resume_loop fuel A expectations expectation =
     (let R = ag_runtime A in
      bindA (runtimeA (load_model_tool_recovery R (ag_run_id A))) (\<lambda>recovery.
      bindA (reach_loop_checkpoint A BEFORE_RECOVERED_VERIFICATION) (\<lambda>_.
      bindA (liftA (expectation_for expectations (mr_context recovery) (mr_action recovery))) (\<lambda>x.
      let verification = verify_receipt (mr_receipt recovery) x;
          ev = no_evidence\<lparr>le_actions := [ToolCall (mr_action recovery)],
            le_verifications := [verification], le_recovered := [mr_receipt recovery]\<rparr> in
      bindA (runtimeA (record_step_verification R (ag_run_id A) verification)) (\<lambda>s.
      if status s = FAILED then bindA (loop_result A LOOP_FAILED ev) (\<lambda>r. returnA (Some r))
      else continue_loop fuel A expectations expectation ev)))))"

end
