(* ===== verification/TurnOperations.thy ===== *)
theory TurnOperations
  imports RuntimeOperations FakeAgents
begin

section \<open>Triples of the model turns and of the agents\<close>

text \<open>
  The operations around the model keep the safety invariant, and each iteration of the agent's
  loop either ends it or consumes one step of the run's budget.
\<close>

subsection \<open>The turn of a run\<close>

definition turn_at :: "hash \<Rightarrow> string \<Rightarrow> int \<Rightarrow> int \<Rightarrow> (string \<Rightarrow> ExecutionEvent list) \<Rightarrow> bool" where
  "turn_at H run n m l \<longleftrightarrow> (\<exists>s. replay H run (l run) = Inr s \<and> status s \<noteq> NEW \<and>
     turn_index s = n \<and> max_steps s = Some m)"

lemma turn_at_budget: "turn_at H run n m l \<Longrightarrow> n \<le> m"
  using replay_state_inv by (fastforce simp: turn_at_def state_inv_def core_inv_def budget_ok_def)

lemma next_event_turn:
  assumes "turn_at H run n m l" and "next_event H l run k p s e" and "reduce H s e = Inr t"
  shows "turn_at H run (if consumes_step e then n + 1 else n) m (extended l run e)"
proof -
  obtain u where u: "transition s e = Inr u" "turn_index t = turn_index u" "max_steps t = max_steps u"
      "status t = status u"
    using assms(2,3) by (auto elim: next_event_step)
  have s: "status s \<noteq> NEW" "turn_index s = n" "max_steps s = Some m"
    using assms(1,2) by (auto simp: turn_at_def next_event_def)
  have "status t \<noteq> NEW"
    using transition_lifecycle [OF u(1)] u(4) by (auto elim: lifecycle.cases)
  moreover have "replay H run (extended l run e run) = Inr t"
    using next_event_replay [OF assms(2)] assms(3) by simp
  ultimately show ?thesis
    using transition_frame [OF u(1)] u s by (auto simp: turn_at_def frame_def)
qed

lemma tool_event_keeps_step: "ev_event_type e \<in> tool_events \<Longrightarrow> \<not> consumes_step e"
  by (auto simp: consumes_step_def tool_events_def)

lemma stable_turn [simp]: "stable H run (turn_at H run n m)"
  unfolding stable_def
proof (intro allI impI)
  fix l k p s e t
  assume l: "turn_at H run n m l" and k: "k \<in> tool_events" and e: "next_event H l run k p s e"
    and t: "reduce H s e = Inr t"
  have "\<not> consumes_step e" using k e by (intro tool_event_keeps_step) (simp add: next_event_def)
  with next_event_turn [OF l e t] show "turn_at H run n m (extended l run e)" by simp
qed

text \<open>What an accepted event with one type and payload does to a fact about the log.\<close>

definition carries ::
  "hash \<Rightarrow> string \<Rightarrow> EventType \<Rightarrow> payload \<Rightarrow> ((string \<Rightarrow> ExecutionEvent list) \<Rightarrow> bool) \<Rightarrow>
   ((string \<Rightarrow> ExecutionEvent list) \<Rightarrow> bool) \<Rightarrow> bool" where
  "carries H run k p P Q \<longleftrightarrow> (\<forall>l s e t. P l \<longrightarrow> next_event H l run k p s e \<longrightarrow> reduce H s e = Inr t \<longrightarrow>
     Q (extended l run e))"

lemma carries_True [simp]: "carries H run k p P (\<lambda>_. True)"
  by (simp add: carries_def)

lemma carries_turn:
  assumes "\<And>e. ev_event_type e = k \<Longrightarrow> payload e = p \<Longrightarrow> n' = (if consumes_step e then n + 1 else n)"
  shows "carries H run k p (turn_at H run n m) (turn_at H run n' m)"
  unfolding carries_def
proof (intro allI impI)
  fix l s e t
  assume "turn_at H run n m l" and e: "next_event H l run k p s e" and "reduce H s e = Inr t"
  from next_event_turn [OF this] assms [of e] e show "turn_at H run n' m (extended l run e)"
    by (simp add: next_event_def)
qed

lemma model_events_carry [simp]:
  "carries H run MODEL_ACTION_REQUESTED p (turn_at H run n m) (turn_at H run n m)"
  "carries H run MODEL_ACTION_PROPOSED p (turn_at H run n m) (turn_at H run n m)"
  "carries H run COMPLETION_ACCEPTED p (turn_at H run n m) (turn_at H run (n + 1) m)"
  "carries H run COMPLETION_REJECTED p (turn_at H run n m) (turn_at H run (n + 1) m)"
  by (rule carries_turn; simp add: consumes_step_def)+

lemma step_verification_carries:
  "carries H run VERIFICATION_SUCCEEDED [(''checks'', c), (''scope'', JStr ''step''), (''step_id'', i), (''summary'', v)]
     (turn_at H run n m) (turn_at H run (n + 1) m)"
  by (rule carries_turn) (simp add: consumes_step_def get_default_def)

inductive_simps lifecycle_verified: "lifecycle a VERIFICATION_FAILED b"

inductive_simps lifecycle_completed: "lifecycle a COMPLETION_REJECTED b"

subsection \<open>Observations are JSON\<close>

lemma canon_observation:
  assumes "\<forall>e \<in> set es. wf_event e"
  shows "canon (JObj (step_observation es))"
proof (cases "find observation_event (rev es)")
  case (Some e)
  then have "canon (JObj (payload e))"
    using find_Some_in [OF Some] assms by (simp add: wf_event_iff)
  then have "canon (get_default (payload e) k v)" if "canon v" for k v
    using that by (auto simp: get_default_def canon_obj dest!: map_of_SomeD split: option.split)
  then show ?thesis using Some by (simp add: step_observation_def canon_obj)
qed (simp add: step_observation_def canon_obj)

context runtime_stores
begin

subsection \<open>Operations that only read\<close>

lemma read_holding:
  "triple (holding registry P) (askA f) (\<lambda>_. holding registry P) (safe registry)"
  "triple (holding registry P) (liftA r) (\<lambda>_. holding registry P) (safe registry)"
  "triple (holding registry P) (returnA x) (\<lambda>_. holding registry P) (safe registry)"
  "triple (holding registry P) (raiseA e) (\<lambda>_. holding registry P) (safe registry)"
  by (auto simp: triple_def askA_def split: sum.splits intro: holding_safe)

lemma events_read:
  fixes R :: "('d, 'e, 'w) runtime"
  shows "triple (holding registry P) (eventsA R run) (\<lambda>_. holding registry P) (safe registry)"
  unfolding eventsA_def by (rule read_holding)

lemma state_read:
  fixes R :: "('d, 'e, 'w) runtime"
  assumes "runtime_on H L S registry R"
  shows "triple (holding registry P) (load_state R run) (\<lambda>_. holding registry P) (safe registry)"
  by (rule triple_conseq [OF load_state_holding [OF assms]]) (auto intro: holding_safe elim: holding_mono)

lemma check_holding:
  "(b \<Longrightarrow> triple (holding registry P) k Q (safe registry)) \<Longrightarrow>
     triple (holding registry P) (checkA b e k) Q (safe registry)"
  by (rule triple_check) (auto intro: holding_safe)

lemma load_pending_holding:
  fixes R :: "('d, 'e, 'w) runtime"
  assumes R: "runtime_on H L S registry R"
  shows "triple (holding registry P) (load_pending_model_action R run)
    (\<lambda>x w. mi_run_id (da_context x) = run \<and> holding registry P w) (safe registry)"
  unfolding load_pending_model_action_def
proof (rule triple_seq [OF state_read [OF R]])
  fix s
  have run: "mi_run_id c = run" if "stored_input run p = Inr c" for p c
    using that by (auto simp: stored_input_def result_simps split: json.splits)
  have "triple (holding registry P) (case (find (invocation_event i) (rev es), find (\<lambda>e. ev_event_id e = j) (rev es)) of
           (Some requested, Some proposed) \<Rightarrow>
             liftA (bindR (stored_input run (payload requested)) (\<lambda>c.
               bindR (stored_action (payload proposed)) (\<lambda>action.
               Inr \<lparr>da_event_id = ev_event_id proposed, da_invocation_id = i,
                 da_context = c, da_action = action\<rparr>)))
         | _ \<Rightarrow> raiseA InvalidTransitionError)
       (\<lambda>x w. mi_run_id (da_context x) = run \<and> holding registry P w) (safe registry)" for es i j
    by (auto intro!: triple_lift triple_raise simp: result_simps run intro: holding_safe split: option.split)
  then show "triple (holding registry P)
    (case (status s, active_model_action_event_id s, active_model_invocation_id s, active_step_id s) of
       (ACTION_PENDING, Some action_event_id, Some invocation, Some _) \<Rightarrow>
         bindA (eventsA R run) (\<lambda>es.
         case (find (invocation_event invocation) (rev es),
               find (\<lambda>e. ev_event_id e = action_event_id) (rev es)) of
           (Some requested, Some proposed) \<Rightarrow>
             liftA (bindR (stored_input run (payload requested)) (\<lambda>c.
               bindR (stored_action (payload proposed)) (\<lambda>action.
               Inr \<lparr>da_event_id = ev_event_id proposed, da_invocation_id = invocation,
                 da_context = c, da_action = action\<rparr>)))
         | _ \<Rightarrow> raiseA InvalidTransitionError)
     | _ \<Rightarrow> raiseA InvalidTransitionError)
    (\<lambda>x w. mi_run_id (da_context x) = run \<and> holding registry P w) (safe registry)"
    by (auto intro!: triple_seq [OF events_read] triple_raise intro: holding_safe
        split: RunStatus.split option.split)
qed

subsection \<open>Appending\<close>

lemma append_carry:
  fixes R :: "('d, 'e, 'w) runtime"
  assumes R: "runtime_on H L S registry R" and p: "canon (JObj p)" and Q: "carries H run k p P Q"
  shows "triple (holding registry P) (append_event R run k p)
    (\<lambda>t. holding registry (\<lambda>l. Q l \<and> replay H run (l run) = Inr t)) (safe registry)"
  by (rule append_holding [OF R p]) (use Q in \<open>auto simp: carries_def\<close>)

lemma append_safe:
  fixes R :: "('d, 'e, 'w) runtime"
  assumes "runtime_on H L S registry R" and "canon (JObj p)"
  shows "triple (holding registry P) (append_event R run k p) (\<lambda>_. safe registry) (safe registry)"
  by (rule triple_conseq [OF append_carry [OF assms carries_True]]) (auto intro: holding_safe)

lemma append_keep:
  fixes R :: "('d, 'e, 'w) runtime"
  assumes "runtime_on H L S registry R" and "canon (JObj p)" and "carries H run k p P Q"
  shows "triple (holding registry P) (append_event R run k p) (\<lambda>_. holding registry Q) (safe registry)"
  by (rule triple_conseq [OF append_carry [OF assms]]) (auto elim: holding_mono)

subsection \<open>Operations of a model turn\<close>

lemma observation_holding:
  fixes R :: "('d, 'e, 'w) runtime"
  shows "triple (holding registry P) (load_step_observation R run) (\<lambda>_. holding registry P) (safe registry)"
  unfolding load_step_observation_def by (rule triple_seq [OF events_read read_holding(3)])

lemma build_input_run: "build_input run step_id n st p = Inr c \<Longrightarrow> mi_run_id c = run"
  by (auto simp: build_input_def result_simps)

lemma build_model_input_holding:
  fixes R :: "('d, 'e, 'w) runtime"
  assumes R: "runtime_on H L S registry R"
  shows "triple (holding registry P) (build_model_input R run)
    (\<lambda>c w. mi_run_id c = run \<and> holding registry P w) (safe registry)"
proof -
  have input: "triple (holding registry P) (bindA (load_step_observation R run) (\<lambda>observation.
        liftA (build_input run i n st observation))) (\<lambda>c w. mi_run_id c = run \<and> holding registry P w)
      (safe registry)" for i n st
    by (rule triple_seq [OF observation_holding]) (auto intro!: triple_lift build_input_run intro: holding_safe)
  have exhausted: "triple (holding registry P) (bindA (append_event R run RUN_STEP_BUDGET_EXHAUSTED
        [(''completed_steps'', JInt i), (''max_steps'', JInt j)]) (\<lambda>t. raiseA (f t)))
      (\<lambda>c w. mi_run_id c = run \<and> holding registry P w) (safe registry)" for i j f
    by (rule triple_bind [OF append_safe [OF R]]) (auto simp: canon_obj intro: triple_raise)
  show ?thesis
    unfolding build_model_input_def
    by (rule triple_seq [OF state_read [OF R]], rule check_holding)
       (auto intro: input exhausted split: option.split)
qed

lemma begin_holding:
  fixes R :: "('d, 'e, 'w) runtime"
  assumes R: "runtime_on H L S registry R" and Q: "\<And>p. carries H (mi_run_id c) MODEL_ACTION_REQUESTED p P Q"
  shows "triple (holding registry P) (begin_model_action R c) (\<lambda>_. holding registry Q) (safe registry)"
  unfolding begin_model_action_def
  by (rule triple_seq [OF state_read [OF R]], rule check_holding,
      rule triple_bind [OF append_keep [OF R _ Q] read_holding(3)]) (simp add: canon_obj)

lemma persist_holding:
  fixes R :: "('d, 'e, 'w) runtime"
  assumes R: "runtime_on H L S registry R" and Q: "\<And>p. carries H (mi_run_id c) MODEL_ACTION_PROPOSED p P Q"
  shows "triple (holding registry P) (persist_model_action R c i action) (\<lambda>_. holding registry Q) (safe registry)"
  unfolding persist_model_action_def
  by (rule triple_seq [OF state_read [OF R]], rule check_holding,
      rule triple_bind [OF append_keep [OF R canon_action Q]], rule check_holding,
      rule triple_conseq [OF load_pending_holding [OF R]]) auto

lemma failure_holding:
  fixes R :: "('d, 'e, 'w) runtime"
  assumes R: "runtime_on H L S registry R"
  shows "triple (holding registry P) (record_model_action_failure R run reason) (\<lambda>_. safe registry) (safe registry)"
  unfolding record_model_action_failure_def
  by (rule check_holding, rule append_safe [OF R]) (simp add: canon_obj)

lemma verification_holding:
  fixes R :: "('d, 'e, 'w) runtime"
  assumes R: "runtime_on H L S registry R"
  shows "triple (holding registry P) (record_verification R run v) (\<lambda>t w. safe registry w \<and>
    (vr_outcome v = VERIFICATION_OUTCOME_FAILED \<longrightarrow> status t = FAILED)) (safe registry)"
proof -
  have failed: "triple (holding registry P) (append_event R run VERIFICATION_FAILED p)
      (\<lambda>t w. safe registry w \<and> (vr_outcome v = VERIFICATION_OUTCOME_FAILED \<longrightarrow> status t = FAILED))
      (safe registry)" if "canon (JObj p)" for p
    by (rule triple_conseq [OF append_holding [where Q = "\<lambda>t _. status t = FAILED", OF R that]])
       (auto dest: next_event_lifecycle simp: lifecycle_verified intro: holding_safe)
  show ?thesis
    unfolding record_verification_def
    by (rule triple_if, rule failed, simp add: canon_obj canon_checks,
        rule triple_conseq [OF append_safe [OF R]]) (auto simp: canon_obj canon_checks)
qed

lemma step_verification_holding:
  fixes R :: "('d, 'e, 'w) runtime"
  assumes R: "runtime_on H L S registry R"
  shows "triple (holding registry (turn_at H run n m)) (record_step_verification R run v)
    (\<lambda>t w. safe registry w \<and> (status t \<noteq> FAILED \<longrightarrow> holding registry (turn_at H run (n + 1) m) w))
    (safe registry)"
  unfolding record_step_verification_def
proof (rule triple_seq [OF state_read [OF R]], rule check_holding)
  fix s
  let ?Q = "\<lambda>t w. safe registry w \<and> (status t \<noteq> FAILED \<longrightarrow> holding registry (turn_at H run (n + 1) m) w)"
  have "triple (holding registry (turn_at H run n m)) (append_event R run VERIFICATION_SUCCEEDED
      [(''checks'', checks_json (vr_checks v)), (''scope'', JStr ''step''), (''step_id'', JStr i),
       (''summary'', JStr (vr_summary v))]) ?Q (safe registry)" for i
    by (rule triple_conseq [OF append_keep [OF R _ step_verification_carries]])
       (auto simp: canon_obj canon_checks intro: holding_safe)
  moreover have "triple (holding registry (turn_at H run n m)) (record_verification R run v) ?Q (safe registry)"
    if "vr_outcome v = VERIFICATION_OUTCOME_FAILED"
    by (rule triple_conseq [OF verification_holding [OF R]]) (use that in auto)
  ultimately show "triple (holding registry (turn_at H run n m)) (case active_step_id s of
        None \<Rightarrow> raiseA InvalidTransitionError
      | Some i \<Rightarrow> if vr_outcome v = VERIFICATION_OUTCOME_FAILED then record_verification R run v
          else append_event R run VERIFICATION_SUCCEEDED
            [(''checks'', checks_json (vr_checks v)), (''scope'', JStr ''step''), (''step_id'', JStr i),
             (''summary'', JStr (vr_summary v))]) ?Q (safe registry)"
    by (auto intro: triple_raise holding_safe split: option.split)
qed

lemma completion_holding:
  fixes R :: "('d, 'e, 'w) runtime"
  assumes R: "runtime_on H L S registry R"
    and Q: "\<And>p. carries H (mi_run_id c) COMPLETION_ACCEPTED p P Q" "\<And>p. carries H (mi_run_id c) COMPLETION_REJECTED p P Q"
  shows "triple (holding registry P) (record_completion R c answer v)
    (\<lambda>t w. (status t = COMPLETED \<longrightarrow> cr_outcome v = ACCEPTED) \<and> holding registry Q w) (safe registry)"
proof -
  have pending: "triple (holding registry P) (if b then bindA (load_pending_model_action R (mi_run_id c)) (\<lambda>x.
        checkA (d x) e (returnA ())) else returnA ()) (\<lambda>_. holding registry P) (safe registry)" for b d e
  proof (rule triple_if)
    show "triple (holding registry P) (bindA (load_pending_model_action R (mi_run_id c)) (\<lambda>x.
        checkA (d x) e (returnA ()))) (\<lambda>_. holding registry P) (safe registry)"
      by (rule triple_seq [OF triple_conseq [OF load_pending_holding [OF R]]])
         (auto intro!: check_holding read_holding)
  qed (rule read_holding)
  let ?k = "if cr_outcome v = ACCEPTED then COMPLETION_ACCEPTED else COMPLETION_REJECTED"
  let ?Q = "\<lambda>t l. (status t = COMPLETED \<longrightarrow> cr_outcome v = ACCEPTED) \<and> Q l"
  have "triple (holding registry P) (append_event R (mi_run_id c) ?k (completion_payload c answer h i v))
      (\<lambda>t w. (status t = COMPLETED \<longrightarrow> cr_outcome v = ACCEPTED) \<and> holding registry Q w) (safe registry)" for h i
  proof (rule triple_conseq [OF append_holding [where Q = ?Q, OF R canon_completion]])
    fix l s e t
    assume "P l" and e: "next_event H l (mi_run_id c) ?k (completion_payload c answer h i v) s e" "reduce H s e = Inr t"
    then have "Q (extended l (mi_run_id c) e)" using Q by (auto simp: carries_def split: if_splits)
    with next_event_lifecycle [OF e] show "?Q t (extended l (mi_run_id c) e)"
      by (auto simp: lifecycle_completed split: if_splits)
  qed (auto elim: holding_mono simp: conj_assoc)
  then show ?thesis
    unfolding record_completion_def
    by (intro triple_seq [OF state_read [OF R]] check_holding triple_seq [OF pending])
qed

end

end
