(* ===== verification/AgentLaws.thy ===== *)
theory AgentLaws
  imports TurnOperations
begin

section \<open>Triples of the agents\<close>

text \<open>
  Every operation of an agent keeps the safety invariant of its runtime, and an iteration of the
  loop that continues has consumed a step of the budget.
\<close>

lemma triple_runtime:
  assumes "triple P m Q E"
  shows "triple (\<lambda>w. P (aw_runtime w)) (runtimeA m) (\<lambda>x w. Q x (aw_runtime w)) (\<lambda>w. E (aw_runtime w))"
  using assms by (auto simp: triple_def runtimeA_def split: prod.splits sum.splits)

lemma triple_try:
  assumes "triple P m Q E"
  shows "triple P (tryA m) (\<lambda>r w. case r of Inl _ \<Rightarrow> E w | Inr x \<Rightarrow> Q x w) E'"
  using assms by (auto simp: triple_def tryA_def split: prod.splits sum.splits)

lemma triple_adapter:
  "triple (\<lambda>w. P (aw_runtime w)) (adapterA A c) (\<lambda>_ w. P (aw_runtime w)) (\<lambda>w. P (aw_runtime w))"
  by (auto simp: triple_def adapterA_def split: prod.splits sum.splits)

lemma triple_reach_loop: "triple P (reach_loop_checkpoint A c) (\<lambda>_. P) P"
  by (auto simp: reach_loop_checkpoint_def triple_def split: option.splits)

text \<open>A completed loop ends with the expected answer, which the completion checks accepted.\<close>

definition completes_as :: "CompletionExpectation \<Rightarrow> ModelLoopResult \<Rightarrow> bool" where
  "completes_as x r \<longleftrightarrow> (ml_outcome r = LOOP_COMPLETED \<longrightarrow>
     (\<exists>as cs k. ml_actions r = as @ [FinalAnswer (ce_expected_answer x)] \<and>
        ml_completions r = cs @ [k] \<and> cr_outcome k = ACCEPTED))"

definition loop_ended :: "CompletionExpectation \<Rightarrow> ModelLoopResult option \<Rightarrow> bool" where
  "loop_ended x r \<longleftrightarrow> (\<exists>result. r = Some result \<and> completes_as x result)"

lemma not_completed [simp]: "ml_outcome r \<noteq> LOOP_COMPLETED \<Longrightarrow> completes_as x r"
  by (simp add: completes_as_def)

context runtime_stores
begin

definition agent_holding ::
  "ToolRegistry \<Rightarrow> ((string \<Rightarrow> ExecutionEvent list) \<Rightarrow> bool) \<Rightarrow> ('d, 'e, 'w, 'a) agent_world \<Rightarrow> bool" where
  "agent_holding registry P w = holding registry P (aw_runtime w)"

definition agent_safe :: "ToolRegistry \<Rightarrow> ('d, 'e, 'w, 'a) agent_world \<Rightarrow> bool" where
  "agent_safe registry w = safe registry (aw_runtime w)"

lemma agent_holding_safe: "agent_holding registry P w \<Longrightarrow> agent_safe registry w"
  by (simp add: agent_holding_def agent_safe_def holding_safe)

lemma run_in_agent:
  fixes m :: "('d, 'e, 'w, 'x) operation"
  assumes "triple (holding registry P) m Q (safe registry)"
  shows "triple (agent_holding registry P) (runtimeA m) (\<lambda>x w. Q x (aw_runtime w)) (agent_safe registry)"
  using triple_runtime [OF assms] by (simp add: agent_holding_def [abs_def] agent_safe_def [abs_def])

lemma finish_agent:
  fixes A :: "('d, 'e, 'w, 'a) agent"
  assumes R: "runtime_on H L S registry (ag_runtime A)" and P: "\<And>w. P w \<Longrightarrow> agent_safe registry w"
    and Q: "\<And>r w. agent_safe registry w \<Longrightarrow> ml_outcome r = oc \<Longrightarrow> ml_actions r = le_actions ev \<Longrightarrow>
      ml_completions r = le_completions ev \<Longrightarrow> Q (Inr r) w"
  shows "triple P (finish A oc ev) Q (agent_safe registry)"
  unfolding finish_def loop_result_def bindA_assoc
proof (rule triple_bind)
  show "triple P (runtimeA (load_state (ag_runtime A) (ag_run_id A))) (\<lambda>_. agent_safe registry) (agent_safe registry)"
    by (rule triple_conseq [OF run_in_agent [OF state_read [OF R, where P = "\<lambda>_. True"]]])
       (auto dest: P simp: agent_safe_def agent_holding_def safe_def)
qed (auto simp: triple_def Q)

lemma agent_read:
  "triple (agent_holding registry P) (liftA r) (\<lambda>_. agent_holding registry P) (agent_safe registry)"
  "triple (agent_holding registry P) (returnA x) (\<lambda>_. agent_holding registry P) (agent_safe registry)"
  "triple (agent_holding registry P) (reach_loop_checkpoint A c) (\<lambda>_. agent_holding registry P) (agent_safe registry)"
  by (auto simp: triple_def reach_loop_checkpoint_def split: sum.splits option.splits intro: agent_holding_safe)

text \<open>A proposal: the input belongs to the run, and the run is at the turn it was.\<close>

definition proposed_at ::
  "ToolRegistry \<Rightarrow> ('d, 'e, 'w, 'a) agent \<Rightarrow> ((string \<Rightarrow> ExecutionEvent list) \<Rightarrow> bool) \<Rightarrow>
   (ModelInput \<times> ModelAction \<times> string) + ModelLoopResult \<Rightarrow> ('d, 'e, 'w, 'a) agent_world \<Rightarrow> bool" where
  "proposed_at registry A P x w \<longleftrightarrow> (case x of
     Inl (c, _) \<Rightarrow> mi_run_id c = ag_run_id A \<and> agent_holding registry P w
   | Inr r \<Rightarrow> ml_outcome r \<noteq> LOOP_COMPLETED \<and> agent_safe registry w)"

lemma propose_agent:
  fixes A :: "('d, 'e, 'w, 'a) agent"
  assumes R: "runtime_on H L S registry (ag_runtime A)" and c: "mi_run_id c = ag_run_id A"
    and P: "\<And>p. carries H (ag_run_id A) MODEL_ACTION_REQUESTED p P P"
      "\<And>p. carries H (ag_run_id A) MODEL_ACTION_PROPOSED p P P"
  shows "triple (agent_holding registry P) (propose_action A ev c) (proposed_at registry A P) (agent_safe registry)"
proof -
  have begun: "triple (agent_holding registry P) (runtimeA (begin_model_action (ag_runtime A) c))
      (\<lambda>_. agent_holding registry P) (agent_safe registry)"
    by (rule triple_conseq [OF run_in_agent [OF begin_holding [OF R, of c P P]]])
       (simp_all add: c P agent_holding_def)
  have persist: "triple (agent_holding registry P) (runtimeA (persist_model_action (ag_runtime A) c i a))
      (\<lambda>_. agent_holding registry P) (agent_safe registry)" for i a
    by (rule triple_conseq [OF run_in_agent [OF persist_holding [OF R, of c P P]]])
       (simp_all add: c P agent_holding_def)
  have adapter: "triple (agent_holding registry P) (tryA (adapterA A c)) (\<lambda>_. agent_holding registry P) (agent_safe registry)"
    by (rule triple_conseq [OF triple_try [OF triple_adapter [where P = "holding registry P"]]])
       (auto simp: agent_holding_def split: sum.splits)
  have failed: "triple (agent_holding registry P) (bindA (runtimeA (record_model_action_failure (ag_runtime A)
        (ag_run_id A) t)) (\<lambda>_. finish A LOOP_FAILED ev)) (proposed_at registry A P) (agent_safe registry)" for t
  proof (rule triple_bind [OF run_in_agent [OF failure_holding [OF R]]])
    show "triple (\<lambda>w. safe registry (aw_runtime w)) (finish A LOOP_FAILED ev) (proposed_at registry A P) (agent_safe registry)"
      by (rule finish_agent [OF R]) (simp_all add: agent_safe_def proposed_at_def)
  qed
  have accepted: "triple (agent_holding registry P)
      (bindA (reach_loop_checkpoint A AFTER_MODEL_ACTION_RETURNED) (\<lambda>_.
       bindA (runtimeA (persist_model_action (ag_runtime A) c i a)) (\<lambda>pending.
       bindA (reach_loop_checkpoint A AFTER_MODEL_ACTION_PERSISTED) (\<lambda>_.
       returnA (Inl (c, a, da_event_id pending))))))
      (proposed_at registry A P) (agent_safe registry)" for i a
    by (rule triple_seq [OF agent_read(3)], rule triple_seq [OF persist], rule triple_seq [OF agent_read(3)],
        rule triple_return) (simp add: proposed_at_def c)
  show ?thesis
    unfolding propose_action_def Let_def
    by (rule triple_seq [OF begun], rule triple_seq [OF adapter]) (auto intro: failed accepted split: sum.split)
qed

lemma next_proposal_agent:
  fixes A :: "('d, 'e, 'w, 'a) agent"
  assumes R: "runtime_on H L S registry (ag_runtime A)"
    and P: "\<And>p. carries H (ag_run_id A) MODEL_ACTION_REQUESTED p P P"
      "\<And>p. carries H (ag_run_id A) MODEL_ACTION_PROPOSED p P P"
  shows "triple (agent_holding registry P) (next_proposal A ev s) (proposed_at registry A P) (agent_safe registry)"
  unfolding next_proposal_def Let_def
proof (rule triple_if)
  show "triple (agent_holding registry P) (bindA (runtimeA (load_pending_model_action (ag_runtime A) (ag_run_id A)))
      (\<lambda>x. returnA (Inl (da_context x, da_action x, da_event_id x)))) (proposed_at registry A P) (agent_safe registry)"
    by (rule triple_bind [OF run_in_agent [OF load_pending_holding [OF R]]])
       (auto intro!: triple_return simp: proposed_at_def agent_holding_def)
  let ?Q = "\<lambda>r w. case r of Inl _ \<Rightarrow> agent_safe registry w
    | Inr c \<Rightarrow> mi_run_id c = ag_run_id A \<and> agent_holding registry P w"
  show "triple (agent_holding registry P) (bindA (tryA (runtimeA (build_model_input (ag_runtime A) (ag_run_id A))))
      (\<lambda>attempt. case attempt of
         Inl (StepBudgetExhaustedError _) \<Rightarrow> finish A LOOP_FAILED ev
       | Inl e \<Rightarrow> raiseA e
       | Inr c \<Rightarrow> propose_action A ev c)) (proposed_at registry A P) (agent_safe registry)"
  proof (rule triple_bind [where Q = ?Q])
    show "triple (agent_holding registry P) (tryA (runtimeA (build_model_input (ag_runtime A) (ag_run_id A))))
        ?Q (agent_safe registry)"
      by (rule triple_conseq [OF triple_try [OF run_in_agent [OF build_model_input_holding [OF R]]]])
         (auto simp: agent_holding_def split: sum.splits)
    fix r
    show "triple (?Q r) (case r of
         Inl (StepBudgetExhaustedError _) \<Rightarrow> finish A LOOP_FAILED ev
       | Inl e \<Rightarrow> raiseA e
       | Inr c \<Rightarrow> propose_action A ev c) (proposed_at registry A P) (agent_safe registry)"
    proof (cases r)
      case (Inl e)
      have "triple (agent_safe registry) (finish A LOOP_FAILED ev) (proposed_at registry A P) (agent_safe registry)"
        by (rule finish_agent [OF R]) (simp_all add: proposed_at_def)
      then show ?thesis unfolding Inl sum.case by (cases e) (auto intro: triple_raise)
    next
      case (Inr c)
      show ?thesis unfolding Inr sum.case by (rule triple_pure, rule propose_agent [OF R _ P])
    qed
  qed
qed

subsection \<open>One iteration\<close>

text \<open>After an iteration that continues, the run is one step further.\<close>

definition continued ::
  "ToolRegistry \<Rightarrow> string \<Rightarrow> CompletionExpectation \<Rightarrow> int \<Rightarrow> int \<Rightarrow> loop_evidence + ModelLoopResult \<Rightarrow>
   ('d, 'e, 'w, 'a) agent_world \<Rightarrow> bool" where
  "continued registry run x n m y w \<longleftrightarrow> (case y of
     Inl _ \<Rightarrow> agent_holding registry (turn_at H run (n + 1) m) w
   | Inr r \<Rightarrow> completes_as x r \<and> agent_safe registry w)"

lemma finish_continued:
  fixes A :: "('d, 'e, 'w, 'a) agent"
  assumes "runtime_on H L S registry (ag_runtime A)" and "\<And>w. P w \<Longrightarrow> agent_safe registry w"
    and "oc \<noteq> LOOP_COMPLETED"
  shows "triple P (finish A oc ev) (continued registry run x n m) (agent_safe registry)"
  by (rule finish_agent [OF assms(1,2)]) (use assms(3) in \<open>simp_all add: continued_def\<close>)

lemma dispatch_answer_agent:
  fixes A :: "('d, 'e, 'w, 'a) agent"
  assumes R: "runtime_on H L S registry (ag_runtime A)" and c: "mi_run_id c = run"
    and ev: "le_actions ev = as @ [FinalAnswer answer]"
  shows "triple (agent_holding registry (turn_at H run n m)) (dispatch_answer A x ev c answer)
    (continued registry run x n m) (agent_safe registry)"
  unfolding dispatch_answer_def Let_def
proof (rule triple_bind_lift)
  fix v assume v: "verify_completion (ru_hash (ag_runtime A)) answer c x = Inr v"
  let ?N = "\<lambda>t w. (status t = COMPLETED \<longrightarrow> cr_outcome v = ACCEPTED) \<and>
    agent_holding registry (turn_at H run (n + 1) m) w"
  let ?ev = "ev\<lparr>le_completions := le_completions ev @ [v]\<rparr>"
  have recorded: "triple (agent_holding registry (turn_at H run n m))
      (runtimeA (record_completion (ag_runtime A) c answer v)) ?N (agent_safe registry)"
    by (rule triple_conseq [OF run_in_agent [OF completion_holding [OF R]]])
       (auto simp: agent_holding_def c intro!: model_events_carry)
  have accepted: "triple (?N t) (finish A LOOP_COMPLETED ?ev) (continued registry run x n m) (agent_safe registry)"
    if "status t = COMPLETED" for t
  proof (rule triple_pure [where b = "status t = COMPLETED \<longrightarrow> cr_outcome v = ACCEPTED"])
    assume "status t = COMPLETED \<longrightarrow> cr_outcome v = ACCEPTED"
    with that have k: "cr_outcome v = ACCEPTED" "answer = ce_expected_answer x"
      using verify_completion_Inr(4) [OF v] by auto
    show "triple (agent_holding registry (turn_at H run (n + 1) m)) (finish A LOOP_COMPLETED ?ev)
        (continued registry run x n m) (agent_safe registry)"
      by (rule finish_agent [OF R]) (auto simp: continued_def completes_as_def ev k intro: agent_holding_safe)
  qed
  show "triple (agent_holding registry (turn_at H run n m))
      (bindA (runtimeA (record_completion (ag_runtime A) c answer v)) (\<lambda>s.
        if status s = COMPLETED then finish A LOOP_COMPLETED ?ev else returnA (Inl ?ev)))
      (continued registry run x n m) (agent_safe registry)"
    by (rule triple_bind [OF recorded], rule triple_if, erule accepted)
       (auto intro!: triple_return simp: continued_def)
qed (rule agent_holding_safe)

lemma verify_step_agent:
  fixes A :: "('d, 'e, 'w, 'a) agent"
  assumes R: "runtime_on H L S registry (ag_runtime A)"
  shows "triple (agent_holding registry (turn_at H (ag_run_id A) n m)) (verify_step A xs ev c action receipt)
    (continued registry (ag_run_id A) x n m) (agent_safe registry)"
proof -
  let ?T = "\<lambda>s w. agent_safe registry w \<and>
    (status s \<noteq> FAILED \<longrightarrow> agent_holding registry (turn_at H (ag_run_id A) (n + 1) m) w)"
  have verified: "triple (agent_holding registry (turn_at H (ag_run_id A) n m))
      (runtimeA (record_step_verification (ag_runtime A) (ag_run_id A) v)) ?T (agent_safe registry)" for v
    by (rule triple_conseq [OF run_in_agent [OF step_verification_holding [OF R]]])
       (auto simp: agent_holding_def agent_safe_def)
  show ?thesis
    unfolding verify_step_def Let_def
    by (rule triple_seq [OF agent_read(1)], rule triple_bind [OF verified], rule triple_if)
       (auto intro!: finish_continued [OF R] triple_return simp: continued_def)
qed

lemma tool_request_run:
  "tool_request_from_action c a i = Inr q \<Longrightarrow> wf_request q \<and> tr_run_id q = mi_run_id c"
  by (auto simp: tool_request_from_action_def result_simps request_post_init_Inr_iff wf_request_def
      loads_render split: ModelAction.splits)

lemma submit_agent:
  fixes A :: "('d, 'e, 'w, 'a) agent"
  assumes "runtime_on H L S registry (ag_runtime A)" and "wf_request q" and "stable H (tr_run_id q) P"
  shows "triple (agent_holding registry P) (runtimeA (submit (ag_runtime A) q))
    (\<lambda>r w. submit_result r \<and> agent_holding registry P w) (agent_safe registry)"
  by (rule triple_conseq [OF run_in_agent [OF submit_holding [OF assms]]])
     (auto simp: resulting_def agent_holding_def elim: holding_mono)

lemma dispatch_tool_agent:
  fixes A :: "('d, 'e, 'w, 'a) agent"
  assumes R: "runtime_on H L S registry (ag_runtime A)" and c: "mi_run_id c = ag_run_id A"
  shows "triple (agent_holding registry (turn_at H (ag_run_id A) n m)) (dispatch_tool A xs ev c action i)
    (continued registry (ag_run_id A) x n m) (agent_safe registry)"
  unfolding dispatch_tool_def
proof (rule triple_bind_lift)
  let ?P = "turn_at H (ag_run_id A) n m"
  let ?C = "continued registry (ag_run_id A) x n m"
  fix q assume "tool_request_from_action c (ToolCall action) (Some i) = Inr q"
  then have q: "wf_request q" "tr_run_id q = ag_run_id A" using tool_request_run c by auto
  have submitted: "triple (agent_holding registry ?P) (runtimeA (submit (ag_runtime A) q))
      (\<lambda>r. agent_holding registry ?P) (agent_safe registry)"
    by (rule triple_conseq [OF submit_agent [OF R q(1), of ?P]]) (simp_all add: q)
  have ended: "triple (agent_holding registry ?P) (finish A oc ev') ?C (agent_safe registry)"
    if "oc \<noteq> LOOP_COMPLETED" for oc ev'
    by (rule finish_continued [OF R agent_holding_safe that])
  show "triple (agent_holding registry ?P) (bindA (runtimeA (submit (ag_runtime A) q)) (\<lambda>tool.
      let ev' = ev\<lparr>le_tool_results := le_tool_results ev @ [tool]\<rparr> in
      if rt_outcome tool \<noteq> EXECUTED
      then finish A (if rt_outcome tool = RESULT_AWAITING_GATE then LOOP_PAUSED else LOOP_FAILED) ev'
      else case rt_receipt tool of
        None \<Rightarrow> finish A LOOP_FAILED ev'
      | Some receipt \<Rightarrow> if status (rt_state tool) \<noteq> VERIFYING then finish A LOOP_FAILED ev'
          else verify_step A xs ev' c action receipt)) ?C (agent_safe registry)"
    unfolding Let_def
    by (rule triple_seq [OF submitted])
       (auto intro!: triple_if ended verify_step_agent [OF R] split: option.split)
qed (rule agent_holding_safe)

lemma iteration_agent:
  fixes A :: "('d, 'e, 'w, 'a) agent"
  assumes R: "runtime_on H L S registry (ag_runtime A)"
  shows "triple (agent_holding registry (turn_at H (ag_run_id A) n m)) (iteration A xs x ev)
    (continued registry (ag_run_id A) x n m) (agent_safe registry)"
proof -
  let ?P = "turn_at H (ag_run_id A) n m"
  let ?C = "continued registry (ag_run_id A) x n m"
  have read: "triple (agent_holding registry ?P) (runtimeA (load_state (ag_runtime A) (ag_run_id A)))
      (\<lambda>_. agent_holding registry ?P) (agent_safe registry)"
    by (rule triple_conseq [OF run_in_agent [OF state_read [OF R]]]) (auto simp: agent_holding_def)
  have failed: "triple (agent_holding registry ?P) (bindA (runtimeA (record_model_action_failure (ag_runtime A)
        (ag_run_id A) t)) (\<lambda>_. finish A LOOP_FAILED ev')) ?C (agent_safe registry)" for t ev'
    by (rule triple_bind [OF run_in_agent [OF failure_holding [OF R]]])
       (rule finish_continued [OF R], simp_all add: agent_safe_def)
  have dispatched: "triple (proposed_at registry A ?P p) (case p of
        Inr r \<Rightarrow> returnA (Inr r)
      | Inl (c, proposed, i) \<Rightarrow>
          let ev' = ev\<lparr>le_actions := le_actions ev @ [proposed]\<rparr> in
          (case proposed of
             FinalAnswer answer \<Rightarrow> dispatch_answer A x ev' c answer
           | ToolCall action \<Rightarrow> dispatch_tool A xs ev' c action i)) ?C (agent_safe registry)" for p
  proof (cases p)
    case (Inr r)
    then show ?thesis by (auto intro!: triple_return simp: proposed_at_def continued_def)
  next
    case (Inl y)
    obtain c a i where y: "y = (c, a, i)" by (cases y) auto
    have "triple (\<lambda>w. mi_run_id c = ag_run_id A \<and> agent_holding registry ?P w)
        (let ev' = ev\<lparr>le_actions := le_actions ev @ [a]\<rparr> in
          (case a of
             FinalAnswer answer \<Rightarrow> dispatch_answer A x ev' c answer
           | ToolCall action \<Rightarrow> dispatch_tool A xs ev' c action i)) ?C (agent_safe registry)"
      by (rule triple_pure)
         (auto intro: dispatch_answer_agent [OF R] dispatch_tool_agent [OF R] simp: Let_def split: ModelAction.split)
    then show ?thesis by (simp add: Inl y proposed_at_def [abs_def])
  qed
  show ?thesis
    unfolding iteration_def
    by (rule triple_seq [OF read], rule triple_if, rule failed,
        rule triple_bind [OF next_proposal_agent [OF R] dispatched]) simp_all
qed

subsection \<open>The loop\<close>

lemma agent_turn_budget: "agent_holding registry (turn_at H run n m) w \<Longrightarrow> n \<le> m"
  by (auto simp: agent_holding_def holding_def dest: turn_at_budget)

lemma continue_loop_agent:
  fixes A :: "('d, 'e, 'w, 'a) agent"
  assumes R: "runtime_on H L S registry (ag_runtime A)" and fuel: "nat (m - n) < fuel"
  shows "triple (agent_holding registry (turn_at H (ag_run_id A) n m)) (continue_loop fuel A xs x ev)
    (\<lambda>r w. loop_ended x r \<and> agent_safe registry w) (agent_safe registry)"
  using fuel
proof (induction fuel arbitrary: n ev)
  case (Suc fuel)
  show ?case
    unfolding continue_loop.simps
  proof (rule triple_bind [OF iteration_agent [OF R]])
    fix r :: "loop_evidence + ModelLoopResult"
    show "triple (continued registry (ag_run_id A) x n m r) (case r of
        Inr result \<Rightarrow> returnA (Some result) | Inl ev' \<Rightarrow> continue_loop fuel A xs x ev')
      (\<lambda>r w. loop_ended x r \<and> agent_safe registry w) (agent_safe registry)"
    proof (cases r)
      case (Inr result)
      then show ?thesis by (auto intro!: triple_return simp: continued_def loop_ended_def)
    next
      case (Inl ev')
      have "triple (agent_holding registry (turn_at H (ag_run_id A) (n + 1) m)) (continue_loop fuel A xs x ev')
          (\<lambda>r w. loop_ended x r \<and> agent_safe registry w) (agent_safe registry)"
      proof (rule triple_case)
        fix w :: "('d, 'e, 'w, 'a) agent_world"
        assume w: "agent_holding registry (turn_at H (ag_run_id A) (n + 1) m) w"
        then have "nat (m - (n + 1)) < fuel" using agent_turn_budget [OF w] Suc.prems by linarith
        from Suc.IH [OF this] show "triple (\<lambda>v. v = w) (continue_loop fuel A xs x ev')
            (\<lambda>r w. loop_ended x r \<and> agent_safe registry w) (agent_safe registry)"
          by (rule triple_pre) (simp add: w)
      qed
      then show ?thesis by (simp add: Inl continued_def [abs_def])
    qed
  qed
qed simp

lemma run_loop_agent:
  fixes A :: "('d, 'e, 'w, 'a) agent"
  assumes R: "runtime_on H L S registry (ag_runtime A)" and fuel: "nat (m - n) < fuel"
  shows "triple (agent_holding registry (turn_at H (ag_run_id A) n m)) (run_loop fuel A xs x)
    (\<lambda>r w. loop_ended x r \<and> agent_safe registry w) (agent_safe registry)"
proof -
  have "triple (agent_holding registry (turn_at H (ag_run_id A) n m))
      (runtimeA (load_state (ag_runtime A) (ag_run_id A)))
      (\<lambda>_. agent_holding registry (turn_at H (ag_run_id A) n m)) (agent_safe registry)"
    by (rule triple_conseq [OF run_in_agent [OF state_read [OF R]]]) (auto simp: agent_holding_def)
  then show ?thesis
    unfolding run_loop_def
    by (rule triple_seq) (intro triple_check continue_loop_agent [OF R fuel]; rule agent_holding_safe; assumption)
qed

end

end
