(* ===== verification/RuntimeSystem.thy ===== *)
theory RuntimeSystem
  imports AgentLaws EffectProperties
begin

section \<open>The runtime on the SQLite stores\<close>

text \<open>
  The contracts of the runtime instantiated with the SQLite stores, and the runs of the system:
  sequences of operations in any order, each in a process with its own crash schedule, between
  events the caller appends itself.
\<close>

context runtime_stores
begin

lemma world_at_tools: "world_at l T w \<Longrightarrow> rw_tools w = T"
  by (simp add: world_at_def)

lemma create_snapshot_holding:
  fixes R :: "('d, 'e, 'w) runtime"
  assumes R: "runtime_on H L S registry R"
  shows "triple (holding registry P) (create_snapshot R run) (\<lambda>_. holding registry P) (safe registry)"
  unfolding create_snapshot_def
proof (rule check_holding, rule triple_seq)
  show "triple (holding registry P) (full_replay R run) (\<lambda>_. holding registry P) (safe registry)"
    unfolding full_replay_def by (rule read_holding)
  fix s
  have save: "triple (holding registry P) (save_snapshotA R s) (\<lambda>_. holding registry P) (safe registry)"
  proof (rule tripleI)
    fix w w' :: "('d, 'e, 'w) runtime_world" and x
    assume w: "holding registry P w" and m: "save_snapshotA R s w = (Inr x, w')"
    then obtain d where d: "el_save_snapshot L (rw_events w) s = Inr d" "w' = w\<lparr>rw_events := d\<rparr>"
      using R by (auto simp: save_snapshotA_def runtime_on_def split: sum.splits)
    from w obtain l T where l: "world_at l T w" "world_ok intents receipts registry T"
        "\<forall>c \<in> set (tw_calls T). authorized_call H l c" "P l" by (auto simp: holding_def)
    then have "world_at l T w'" using save_sound [OF _ d(1)] d(2) by (simp add: world_at_def)
    with l show "holding registry P w'" unfolding holding_def by blast
  next
    fix w w' :: "('d, 'e, 'w) runtime_world" and e
    assume "holding registry P w" and "save_snapshotA R s w = (Inl e, w')"
    then show "safe registry w'"
      by (auto simp: save_snapshotA_def split: sum.splits intro: holding_safe)
  qed
  have reach: "triple (holding registry P) (reach_snapshot_checkpoint R c) (\<lambda>_. holding registry P) (safe registry)" for c
    by (rule triple_conseq [OF reach_snapshot_triple [where P = "holding registry P"]]) (auto intro: holding_safe)
  show "triple (holding registry P) (bindA (save_snapshotA R s) (\<lambda>_.
      bindA (reach_snapshot_checkpoint R AFTER_SNAPSHOT_PERSISTED) (\<lambda>_. returnA s)))
      (\<lambda>_. holding registry P) (safe registry)"
    by (rule triple_seq [OF save], rule triple_seq [OF reach], rule read_holding)
qed

text \<open>An event the caller appends itself.\<close>

lemma caller_append_safe:
  fixes R :: "('d, 'e, 'w) runtime"
  assumes R: "runtime_on H L S registry R" and wf: "wf_event e"
    and id: "\<And>r n k. ev_event_id e = runtime_event_id r n k \<Longrightarrow> r = ev_run_id e \<and> n = ev_sequence e"
  shows "triple (safe registry) (storeEventA R e) (\<lambda>_. safe registry) (safe registry)"
proof (rule tripleI)
  fix w w' :: "('d, 'e, 'w) runtime_world" and err
  assume "safe registry w" and "storeEventA R e w = (Inl err, w')"
  then show "safe registry w'" by (auto simp: storeEventA_def split: sum.splits)
next
  fix w w' :: "('d, 'e, 'w) runtime_world" and x
  assume w: "safe registry w" and m: "storeEventA R e w = (Inr x, w')"
  then obtain d where d: "el_append L (rw_events w) e = Inr d" "w' = w\<lparr>rw_events := d\<rparr>"
    using R by (auto simp: storeEventA_def runtime_on_def split: sum.splits)
  from w obtain l T where l: "world_at l T w" "world_ok intents receipts registry T"
      "\<forall>c \<in> set (tw_calls T). authorized_call H l c" by (auto simp: safe_def holding_def)
  then have ok: "ok (rw_events w)" "log (rw_events w) = l" "runtime_ids l" by (simp_all add: world_at_def)
  show "safe registry w'"
  proof (cases "\<exists>run. ev_event_id e \<in> ev_event_id ` set (l run)")
    case True
    then obtain run c where "c \<in> set (log (rw_events w) run)" "ev_event_id e = ev_event_id c"
      using ok(2) by auto
    from append_known [OF ok(1) this] d(1) have "d = rw_events w" by (auto split: if_splits)
    with d(2) w show ?thesis by simp
  next
    case False
    then have fresh: "ev_event_id e \<notin> ev_event_id ` set (log (rw_events w) run)" for run
      using ok(2) by blast
    have n: "ev_sequence e = int (length (log (rw_events w) (ev_run_id e)))"
    proof (rule ccontr)
      assume "ev_sequence e \<noteq> int (length (log (rw_events w) (ev_run_id e)))"
      from append_gap [OF ok(1) wf fresh this] d(1) show False by simp
    qed
    from append_next [OF ok(1) wf fresh n] d(1) ok(2)
    have "ok d" "log d = extended l (ev_run_id e) e" by (auto simp: extended_def)
    moreover have "runtime_ids (extended l (ev_run_id e) e)"
      using ok(3) id by (auto simp: runtime_ids_def extended_def)
    ultimately have "world_at (extended l (ev_run_id e) e) T w'"
      using l(1) d(2) by (simp add: world_at_def)
    from holding_extended [OF this l(2,3)] show ?thesis by (simp add: safe_def)
  qed
qed

lemma resulting_drop: "triple P m (resulting registry Q run C) (safe registry) \<Longrightarrow>
    triple P m (\<lambda>_. safe registry) (safe registry)"
  by (erule triple_conseq) (auto dest: resulting_safe)

lemma holding_drop: "triple P m (\<lambda>_. holding registry Q) (safe registry) \<Longrightarrow>
    triple P m (\<lambda>_. safe registry) (safe registry)"
  by (erule triple_conseq) (auto dest: holding_safe)

subsection \<open>Every operation keeps safety\<close>

lemma resulting_safely:
  fixes m :: "('d, 'e, 'w, RuntimeToolResult) operation"
  assumes "\<And>P. stable H run P \<Longrightarrow> triple (holding registry P) m (resulting registry P run C) (safe registry)"
  shows "triple (safe registry) m (\<lambda>_. safe registry) (safe registry)"
  by (rule resulting_drop [OF assms [OF stable_simps(1), folded safe_def]])

lemma holding_safely:
  fixes m :: "('d, 'e, 'w, 'x) operation"
  assumes "triple (holding registry (\<lambda>_. True)) m Q (safe registry)" and "\<And>x w. Q x w \<Longrightarrow> safe registry w"
  shows "triple (safe registry) m (\<lambda>_. safe registry) (safe registry)"
  by (rule triple_conseq [OF assms(1)]) (simp_all add: safe_def [symmetric] assms(2))

lemma step_verification_safe:
  fixes R :: "('d, 'e, 'w) runtime"
  assumes R: "runtime_on H L S registry R"
  shows "triple (holding registry P) (record_step_verification R run v) (\<lambda>_. safe registry) (safe registry)"
  unfolding record_step_verification_def
proof (rule triple_seq [OF state_read [OF R]], rule check_holding)
  fix s
  have "triple (holding registry P) (record_verification R run v) (\<lambda>_. safe registry) (safe registry)"
    by (rule triple_conseq [OF verification_holding [OF R]]) auto
  moreover have "triple (holding registry P) (append_event R run VERIFICATION_SUCCEEDED
      [(''checks'', checks_json (vr_checks v)), (''scope'', JStr ''step''), (''step_id'', JStr i),
       (''summary'', JStr (vr_summary v))]) (\<lambda>_. safe registry) (safe registry)" for i
    by (rule append_safe [OF R]) (simp add: canon_obj canon_checks)
  ultimately show "triple (holding registry P) (case active_step_id s of
        None \<Rightarrow> raiseA InvalidTransitionError
      | Some i \<Rightarrow> if vr_outcome v = VERIFICATION_OUTCOME_FAILED then record_verification R run v
          else append_event R run VERIFICATION_SUCCEEDED
            [(''checks'', checks_json (vr_checks v)), (''scope'', JStr ''step''), (''step_id'', JStr i),
             (''summary'', JStr (vr_summary v))]) (\<lambda>_. safe registry) (safe registry)"
    by (auto intro: triple_raise holding_safe split: option.split)
qed

lemma operations_safe:
  fixes R :: "('d, 'e, 'w) runtime"
  assumes R: "runtime_on H L S registry R"
  shows "wf_request q \<Longrightarrow> triple (safe registry) (submit R q) (\<lambda>_. safe registry) (safe registry)"
    and "triple (safe registry) (resolve_gate R resolution) (\<lambda>_. safe registry) (safe registry)"
    and "triple (safe registry) (submit_gate_answer R answer) (\<lambda>_. safe registry) (safe registry)"
    and "triple (safe registry) (revise_gate R reference) (\<lambda>_. safe registry) (safe registry)"
    and "triple (safe registry) (recover R run) (\<lambda>_. safe registry) (safe registry)"
    and "triple (safe registry) (create_snapshot R run) (\<lambda>_. safe registry) (safe registry)"
    and "triple (safe registry) (build_model_input R run) (\<lambda>_. safe registry) (safe registry)"
    and "triple (safe registry) (begin_model_action R c) (\<lambda>_. safe registry) (safe registry)"
    and "triple (safe registry) (persist_model_action R c i action) (\<lambda>_. safe registry) (safe registry)"
    and "triple (safe registry) (record_model_action_failure R run reason) (\<lambda>_. safe registry) (safe registry)"
    and "triple (safe registry) (record_verification R run v) (\<lambda>_. safe registry) (safe registry)"
    and "triple (safe registry) (record_step_verification R run v) (\<lambda>_. safe registry) (safe registry)"
    and "triple (safe registry) (record_completion R c text completion) (\<lambda>_. safe registry) (safe registry)"
  by (rule resulting_safely [OF submit_holding [OF R]] resulting_safely [OF resolve_gate_holding [OF R]]
      resulting_safely [OF submit_gate_answer_holding [OF R]] resulting_safely [OF revise_gate_holding [OF R]]
      resulting_safely [OF recover_holding [OF R]] holding_safely [OF create_snapshot_holding [OF R]]
      holding_safely [OF build_model_input_holding [OF R]] holding_safely [OF begin_holding [OF R carries_True]]
      holding_safely [OF persist_holding [OF R carries_True]] holding_safely [OF failure_holding [OF R]]
      holding_safely [OF verification_holding [OF R]] holding_safely [OF step_verification_safe [OF R]]
      holding_safely [OF completion_holding [OF R carries_True carries_True]];
      (assumption | auto intro: holding_safe))+

end

interpretation sqlite_runtime: runtime_stores H "sqlite_events H" "events_ok H" history
    "sqlite_effects H" "effects_ok H" select_intent receipt_at
  for H
  by unfold_locales

subsection \<open>Operations and runs\<close>

datatype runtime_op =
    Submit ToolRequest
  | ResolveGate GateResolution
  | AnswerGate GateAnswerSubmission
  | ReviseGate GateReference
  | Recover string
  | CreateSnapshot string
  | BuildInput string
  | BeginAction ModelInput
  | PersistAction ModelInput string ModelAction
  | RecordFailure string string
  | RecordVerification string VerificationResult
  | RecordStepVerification string VerificationResult
  | RecordCompletion ModelInput string CompletionResult
  | CallerAppends ExecutionEvent

definition ignore :: "('s, 'x) action \<Rightarrow> 's \<Rightarrow> 's" where
  "ignore m w = snd (m w)"

fun runtime_step :: "('d, 'e, 'w) runtime \<Rightarrow> runtime_op \<Rightarrow> ('d, 'e, 'w) runtime_world \<Rightarrow> ('d, 'e, 'w) runtime_world" where
  "runtime_step R (Submit q) = ignore (submit R q)"
| "runtime_step R (ResolveGate v) = ignore (resolve_gate R v)"
| "runtime_step R (AnswerGate v) = ignore (submit_gate_answer R v)"
| "runtime_step R (ReviseGate v) = ignore (revise_gate R v)"
| "runtime_step R (Recover run) = ignore (recover R run)"
| "runtime_step R (CreateSnapshot run) = ignore (create_snapshot R run)"
| "runtime_step R (BuildInput run) = ignore (build_model_input R run)"
| "runtime_step R (BeginAction c) = ignore (begin_model_action R c)"
| "runtime_step R (PersistAction c i a) = ignore (persist_model_action R c i a)"
| "runtime_step R (RecordFailure run reason) = ignore (record_model_action_failure R run reason)"
| "runtime_step R (RecordVerification run v) = ignore (record_verification R run v)"
| "runtime_step R (RecordStepVerification run v) = ignore (record_step_verification R run v)"
| "runtime_step R (RecordCompletion c answer v) = ignore (record_completion R c answer v)"
| "runtime_step R (CallerAppends e) = ignore (storeEventA R e)"

text \<open>Requests are constructed ones; the caller does not use the runtime's event ids.\<close>

fun wf_runtime_op :: "runtime_op \<Rightarrow> bool" where
  "wf_runtime_op (Submit q) = wf_request q"
| "wf_runtime_op (CallerAppends e) = (wf_event e \<and> (\<forall>r n k. ev_event_id e = runtime_event_id r n k \<longrightarrow>
     r = ev_run_id e \<and> n = ev_sequence e))"
| "wf_runtime_op _ = True"

text \<open>Each operation runs in a process with its own crash schedules.\<close>

type_synonym crashes = "injector \<times> (SnapshotCheckpoint \<Rightarrow> error option) option"

definition with_crashes :: "crashes \<Rightarrow> ('d, 'e, 'w) runtime \<Rightarrow> ('d, 'e, 'w) runtime" where
  "with_crashes c R = R\<lparr>ru_injector := fst c, ru_snapshot_injector := snd c\<rparr>"

definition run_system ::
  "('d, 'e, 'w) runtime \<Rightarrow> (crashes \<times> runtime_op) list \<Rightarrow> ('d, 'e, 'w) runtime_world \<Rightarrow> ('d, 'e, 'w) runtime_world" where
  "run_system R ops w = foldl (\<lambda>w (c, op). runtime_step (with_crashes c R) op w) w ops"

definition start_world :: "'w \<Rightarrow> (EventDB, EffectDB, 'w) runtime_world" where
  "start_world outside = \<lparr>rw_events = empty_events, rw_ticks = 0,
     rw_tools = fresh_world outside\<rparr>"

definition sqlite_runtime :: "(EventDB, EffectDB, 'w) runtime \<Rightarrow> bool" where
  "sqlite_runtime R \<longleftrightarrow> ru_log R = sqlite_events (ru_hash R) \<and> ru_effects R = sqlite_effects (ru_hash R) \<and>
     (\<forall>n. valid_datetime (ru_clock R n))"

lemma sqlite_runtime_on:
  "sqlite_runtime R \<Longrightarrow>
     runtime_on (ru_hash R) (sqlite_events (ru_hash R)) (sqlite_effects (ru_hash R)) (ru_registry R) R"
  by (simp add: sqlite_runtime_def runtime_on_def)

text \<open>What every run of the system keeps.\<close>

definition sound_world :: "(EventDB, EffectDB, 'w) runtime \<Rightarrow> (EventDB, EffectDB, 'w) runtime_world \<Rightarrow> bool" where
  "sound_world R w \<longleftrightarrow>
     events_ok (ru_hash R) (rw_events w) \<and> runtime_ids (history (rw_events w)) \<and>
     effects_ok (ru_hash R) (tw_store (rw_tools w)) \<and>
     world_ok select_intent receipt_at (ru_registry R) (rw_tools w) \<and>
     (\<forall>c \<in> set (tw_calls (rw_tools w)). authorized_call (ru_hash R) (history (rw_events w)) c)"

lemma sound_world_safe: "sound_world R w \<longleftrightarrow> sqlite_runtime.safe (ru_hash R) (ru_registry R) w"
  by (auto simp: sound_world_def sqlite_runtime.safe_def sqlite_runtime.holding_def
      sqlite_runtime.world_at_def)

lemma sound_world_at:
  "sound_world R w \<Longrightarrow> sqlite_runtime.world_at (ru_hash R) (history (rw_events w)) (rw_tools w) w"
  by (simp add: sound_world_def sqlite_runtime.world_at_def)

lemma sound_start: "sound_world R (start_world outside)"
proof -
  have "history empty_events run = []" for run
    by (rule stored_history_eq [of "ru_hash R"]) (simp add: stored_history_def empty_events_def)
  then show ?thesis
    by (simp add: sound_world_def start_world_def runtime_ids_def fresh_world_ok)
       (simp add: fresh_world_def)
qed

lemma runtime_step_sound:
  assumes R: "sqlite_runtime R" and p: "wf_runtime_op p" and w: "sound_world R w"
  shows "sound_world R (runtime_step R p w)"
proof -
  note on = sqlite_runtime_on [OF R]
  let ?safe = "sqlite_runtime.safe (ru_hash R) (ru_registry R)"
  have s: "?safe w" using w by (simp add: sound_world_safe)
  have keep: "?safe (ignore m w)" if "triple ?safe m (\<lambda>_. ?safe) ?safe" for m
    using triple_always [OF that s] by (simp add: ignore_def)
  have "?safe (runtime_step R p w)"
    using p by (cases p) (auto intro!: keep sqlite_runtime.operations_safe [OF on]
        sqlite_runtime.caller_append_safe [OF on])
  then show ?thesis by (simp add: sound_world_safe)
qed

lemma with_crashes_simps [simp]:
  "ru_hash (with_crashes c R) = ru_hash R" "ru_registry (with_crashes c R) = ru_registry R"
  "sqlite_runtime (with_crashes c R) \<longleftrightarrow> sqlite_runtime R"
  by (simp_all add: with_crashes_def sqlite_runtime_def)

lemma sound_with_crashes [simp]: "sound_world (with_crashes c R) w \<longleftrightarrow> sound_world R w"
  by (simp add: sound_world_def)

lemma run_system_sound:
  "sqlite_runtime R \<Longrightarrow> \<forall>(c, p) \<in> set ops. wf_runtime_op p \<Longrightarrow> sound_world R w \<Longrightarrow> sound_world R (run_system R ops w)"
proof (induction ops arbitrary: w)
  case (Cons op ops)
  obtain c p where op: "op = (c, p)" by fastforce
  have "sound_world R (runtime_step (with_crashes c R) p w)"
    using runtime_step_sound [of "with_crashes c R" p w] Cons.prems op by simp
  with Cons.IH Cons.prems op show ?case by (simp add: run_system_def)
qed (simp add: run_system_def)

end
