(* ===== verification/RuntimeRuns.thy ===== *)
theory RuntimeRuns
  imports RuntimeSystem
begin

section \<open>Operations that nothing disturbs\<close>

text \<open>
  What the operations compute when no crash is injected: appending stores the next event and
  returns what the reducer makes of it, and a granted request of a new effect runs to its receipt.
\<close>

definition undisturbed :: "('d, 'e, 'w) runtime \<Rightarrow> bool" where
  "undisturbed R \<longleftrightarrow> ru_snapshot_injector R = None \<and> (\<forall>n. utcoffset (ru_clock R n) \<noteq> None)"

context runtime_stores
begin

lemma load_state_eq:
  fixes R :: "('d, 'e, 'w) runtime"
  assumes R: "runtime_on H L S registry R" and "undisturbed R" and w: "world_at l T w"
  shows "load_state R run w = (replay H run (l run), w)"
proof (cases "ru_snapshots R")
  case False
  then show ?thesis using full_replay_eq [OF R w] by (simp add: load_state_def)
next
  case True
  have w': "ok (rw_events w)" "log (rw_events w) = l" using w by (simp_all add: world_at_def)
  have reach: "reach_snapshot_checkpoint R c = returnA ()" for c
    using assms(2) by (simp add: reach_snapshot_checkpoint_def undisturbed_def)
  from snapshot_prefix [OF w'(1), of run] show ?thesis
  proof
    assume "el_load_snapshot L (rw_events w) run = Inr None"
    then show ?thesis using True R full_replay_eq [OF R w]
      by (simp add: load_state_def runtime_on_def bindA_ask reach)
  next
    assume "\<exists>s k. el_load_snapshot L (rw_events w) run = Inr (Some s) \<and> k \<le> length (log (rw_events w) run) \<and>
       replay H run (take k (log (rw_events w) run)) = Inr s"
    then obtain s where s: "el_load_snapshot L (rw_events w) run = Inr (Some s)" by blast
    from snapshot_transparent [OF w'(1) s] show ?thesis using True R s
      by (simp add: load_state_def runtime_on_def bindA_ask reach w'(2))
  qed
qed

text \<open>The next event of a run, appended by the caller under an id the runtime never gives.\<close>

lemma caller_append:
  fixes R :: "('d, 'e, 'w) runtime"
  assumes R: "runtime_on H L S registry R" and w: "world_at l T w" and wf: "wf_event e"
    and fresh: "\<And>run. ev_event_id e \<notin> ev_event_id ` set (l run)"
    and n: "ev_sequence e = int (length (l (ev_run_id e)))"
    and id: "\<And>r n k. ev_event_id e \<noteq> runtime_event_id r n k"
  obtains v where "storeEventA R e w = (Inr (), v)" and "world_at (extended l (ev_run_id e) e) T v"
proof -
  have w': "ok (rw_events w)" "log (rw_events w) = l" "runtime_ids l" using w by (simp_all add: world_at_def)
  obtain d where d: "el_append L (rw_events w) e = Inr d" "ok d" "log d = extended l (ev_run_id e) e"
    using append_next [OF w'(1) wf] fresh n unfolding w'(2) extended_def by blast
  moreover have "runtime_ids (extended l (ev_run_id e) e)"
    using w'(3) id by (auto simp: runtime_ids_def extended_def)
  ultimately show thesis using that [of "w\<lparr>rw_events := d\<rparr>"]
    using w R by (simp add: world_at_def storeEventA_def runtime_on_def)
qed

text \<open>Appending always stores the next event, and then returns what the reducer makes of it.\<close>

lemma append_eval:
  fixes R :: "('d, 'e, 'w) runtime"
  assumes R: "runtime_on H L S registry R" and c: "undisturbed R" and w: "world_at l T w"
    and s: "replay H run (l run) = Inr s" and p: "canon (JObj p)" and run: "run \<noteq> []"
  obtains e w' where "append_event R run k p w = (reduce H s e, w')"
    and "next_event H l run k p s e" and "world_at (extended l run e) T w'"
proof -
  let ?now = "ru_clock R (rw_ticks w)"
  let ?w = "w\<lparr>rw_ticks := rw_ticks w + 1\<rparr>"
  let ?id = "runtime_event_id run (next_sequence s) k"
  have now: "valid_datetime ?now" "utcoffset ?now \<noteq> None"
    using R c by (auto simp: runtime_on_def undisturbed_def)
  have n: "0 \<le> next_sequence s" "?id \<noteq> []"
    using replay_state_inv [OF s] by (auto simp: state_inv_def core_inv_def valid_state_def runtime_event_id_def)
  obtain e where e: "build_event ?id run (next_sequence s) k ?now p = Inr e"
    using build_event_payload [OF p n(2) run n(1) now(2,1), of k] by blast
  note b = built_event [OF p e now(1)]
  have w2: "world_at l T ?w" using w by (simp add: world_at_def)
  from store_event [OF R w2 s, of e k] b obtain d where d: "ev_event_id e \<notin> ev_event_id ` set (l run)"
      "storeEventA R e ?w = (Inr (), ?w\<lparr>rw_events := d\<rparr>)" "world_at (extended l run e) T (?w\<lparr>rw_events := d\<rparr>)"
    by auto
  have nx: "next_event H l run k p s e" using b s d(1) by (simp add: next_event_def)
  have "append_event R run k p w = (reduce H s e, ?w\<lparr>rw_events := d\<rparr>)"
    using load_state_eq [OF R c w, of run] full_replay_eq [OF R d(3), of run] next_event_replay [OF nx] d(2)
    by (simp add: append_event_def bindA_def clockA_def s e liftA_def)
  with nx d(3) that show thesis by blast
qed

end

text \<open>The state after an accepted event.\<close>

definition advance :: "hash \<Rightarrow> RunState \<Rightarrow> ExecutionEvent \<Rightarrow> RunState \<Rightarrow> RunState" where
  "advance H s e u = u\<lparr>next_sequence := next_sequence s + 1,
     applied_event_fingerprints := applied_event_fingerprints s @ [(ev_event_id e, fingerprint H e)]\<rparr>"

lemma advance_simps [simp]:
  "status (advance H s e u) = status u" "turn_index (advance H s e u) = turn_index u"
  "max_steps (advance H s e u) = max_steps u" "active_step_id (advance H s e u) = active_step_id u"
  "active_tool_call_id (advance H s e u) = active_tool_call_id u"
  "active_model_invocation_id (advance H s e u) = active_model_invocation_id u"
  "active_model_action_event_id (advance H s e u) = active_model_action_event_id u"
  "next_sequence (advance H s e u) = next_sequence s + 1"
  by (simp_all add: advance_def)

definition budget_left :: "RunState \<Rightarrow> bool" where
  "budget_left s \<longleftrightarrow> (case max_steps s of None \<Rightarrow> True | Some m \<Rightarrow> turn_index s < m)"

text \<open>The transitions of the events an execution appends.\<close>

definition pending_tool :: "RunState \<Rightarrow> ToolRequest \<Rightarrow> RunState" where
  "pending_tool s q = s\<lparr>status := TOOL_PENDING, active_step_id := Some (tr_step_id q),
     active_model_invocation_id := None, active_model_action_event_id := None,
     active_tool_call_id := Some (tr_tool_call_id q)\<rparr>"

lemma wf_request_fields:
  assumes "wf_request q"
  shows "tr_run_id q \<noteq> []" "tr_step_id q \<noteq> []" "tr_tool_call_id q \<noteq> []" "tr_tool_name q \<noteq> []"
  using assms by (auto simp: wf_request_def request_post_init_Inr_iff)

lemma request_transition:
  assumes "wf_request q" and "valid_state s" and "budget_left s"
    and "status s = READY \<or> (status s = ACTION_PENDING \<and> tr_model_action_event_id q \<noteq> None \<and>
      active_model_action_event_id s = tr_model_action_event_id q)"
    and "ev_event_type e = TOOL_REQUESTED" and "payload e = request_payload q"
  shows "transition s e = Inr (pending_tool s q)"
proof -
  have p: "get (payload e) ''step_id'' = JStr (tr_step_id q)"
      "get (payload e) ''tool_call_id'' = JStr (tr_tool_call_id q)"
    by (simp_all add: assms(6) request_payload_def get_def get_default_def split: option.split)
  have m: "get (payload e) ''model_action_event_id'' = JStr i" if "tr_model_action_event_id q = Some i" for i
    using that by (simp add: assms(6) request_payload_def get_def get_default_def)
  have i: "tr_model_action_event_id q \<noteq> Some []"
    using assms(1) by (auto simp: wf_request_def request_post_init_Inr_iff)
  have v: "valid_state (pending_tool s q)" using assms(2) by (simp add: pending_tool_def valid_state_def)
  from assms(4) show ?thesis
  proof
    assume "status s = READY"
    then show ?thesis using v assms(3) wf_request_fields [OF assms(1)]
      by (simp add: transition_def assms(5) on_tool_requested_def expect_status_def p ensure_def
          expect_model_budget_available_def budget_left_def required_text_def state_post_init_valid
          pending_tool_def [symmetric])
  next
    assume "status s = ACTION_PENDING \<and> tr_model_action_event_id q \<noteq> None \<and>
      active_model_action_event_id s = tr_model_action_event_id q"
    then show ?thesis using v assms(3) wf_request_fields [OF assms(1)] i
      by (auto simp: transition_def assms(5) on_tool_requested_def expect_pending_model_action_def p m ensure_def
          expect_model_budget_available_def budget_left_def required_text_def state_post_init_valid
          pending_tool_def [symmetric])
  qed
qed

lemma call_transitions:
  assumes "valid_state s" and "active_tool_call_id s = Some c" and "c \<noteq> []"
    and "get (payload e) ''tool_call_id'' = JStr c"
  shows "ev_event_type e = TOOL_AUTHORIZED \<Longrightarrow> status s = TOOL_PENDING \<Longrightarrow>
      transition s e = Inr (s\<lparr>status := TOOL_READY\<rparr>)"
    and "ev_event_type e = TOOL_STARTED \<Longrightarrow> status s = TOOL_READY \<Longrightarrow>
      transition s e = Inr (s\<lparr>status := TOOL_RUNNING\<rparr>)"
    and "ev_event_type e = TOOL_SUCCEEDED \<Longrightarrow> status s = TOOL_RUNNING \<Longrightarrow>
      transition s e = Inr ((clear_gate s)\<lparr>status := VERIFYING, active_tool_call_id := None\<rparr>)"
  using assms by (simp_all add: transition_def handler_defs expect_status_def expect_active_tool_def
      required_text_def ensure_def state_post_init_valid valid_state_def clear_gate_def)

context runtime_stores
begin

lemma append_accepted:
  fixes R :: "('d, 'e, 'w) runtime"
  assumes R: "runtime_on H L S registry R" and c: "undisturbed R" and w: "world_at l T w"
    and s: "replay H run (l run) = Inr s" and p: "canon (JObj p)" and run: "run \<noteq> []"
    and live: "\<not> is_terminal s" and u: "\<And>e. next_event H l run k p s e \<Longrightarrow> transition s e = Inr u"
  obtains e w' where "append_event R run k p w = (Inr (advance H s e u), w')"
    and "next_event H l run k p s e" and "world_at (extended l run e) T w'"
    and "replay H run (extended l run e run) = Inr (advance H s e u)"
proof -
  from append_eval [OF R c w s p run, of k] obtain e w' where
    e: "append_event R run k p w = (reduce H s e, w')" "next_event H l run k p s e"
      "world_at (extended l run e) T w'" by metis
  have "reduce H s e = Inr (advance H s e u)"
    using next_event_accepted [OF e(2) live u [OF e(2)]] by (simp add: advance_def)
  with e that next_event_replay [OF e(2)] show thesis by simp
qed

text \<open>An execution that may invoke its tool and that nothing interrupts.\<close>

definition may_invoke :: "ToolDefinition \<Rightarrow> 'e \<Rightarrow> ToolIntent \<Rightarrow> bool" where
  "may_invoke def d i \<longleftrightarrow> receipts d (in_effect_id i) = None \<and>
     (intents d (in_effect_id i) = None \<or> (intents d (in_effect_id i) = Some i \<and> td_retry_is_idempotent def))"

lemma execute_invokes:
  assumes "resolve registry (in_tool_name i) = Inr def" and "\<forall>c. injector c i = None"
    and "effects_ok (tw_store T)" and "wf_intent H i" and "may_invoke def (tw_store T) i"
  obtains d where "effects_ok d" and "intents d = (intents (tw_store T))(in_effect_id i \<mapsto> i)"
    and "receipts d = receipts (tw_store T)" and "receipts d (in_effect_id i) = None"
    and "execute S registry runner injector i T = invoke_and_record S runner injector i (T\<lparr>tw_store := d\<rparr>)"
proof (cases "intents (tw_store T) (in_effect_id i)")
  case None
  obtain d where d: "effects_ok d" "intents d = (intents (tw_store T))(in_effect_id i \<mapsto> i)"
      "receipts d = receipts (tw_store T)" "execute S registry runner injector i T =
      (case injector AFTER_INTENT_PERSISTED i of Some e \<Rightarrow> (Inl e, T\<lparr>tw_store := d\<rparr>)
       | None \<Rightarrow> invoke_and_record S runner injector i (T\<lparr>tw_store := d\<rparr>))"
    by (rule execute_new [OF assms(1,3,4) None])
  show thesis
    by (rule that [of d]) (use d assms(2,5) in \<open>simp_all add: may_invoke_def\<close>)
next
  case (Some j)
  with assms(5) have j: "intents (tw_store T) (in_effect_id i) = Some i"
      "receipts (tw_store T) (in_effect_id i) = None" "td_retry_is_idempotent def"
    by (auto simp: may_invoke_def)
  from execute_pending [OF assms(1,3,4) j(1,2), of runner injector] j(3)
  have "execute S registry runner injector i T = invoke_and_record S runner injector i (T\<lparr>tw_store := tw_store T\<rparr>)"
    by simp
  from that [OF assms(3) _ _ j(2) this] j(1) show thesis by (simp add: fun_upd_idem)
qed

lemma execute_fresh:
  assumes "resolve registry (in_tool_name i) = Inr def" and "\<forall>c. injector c i = None"
    and "effects_ok (tw_store T)" and "wf_intent H i" and "may_invoke def (tw_store T) i"
    and "runner (in_tool_name i) (intent_arguments i) (in_effect_id i) (tw_outside T) = (v, outside)"
    and "receipt_for i v = Inr r"
  obtains T' where "execute S registry runner injector i T = (Inr r, T')" and "effects_ok (tw_store T')"
    and "tw_outside T' = outside" and "tw_calls T' = tw_calls T @ [call_of i]"
    and "intents (tw_store T') = (intents (tw_store T))(in_effect_id i \<mapsto> i)"
    and "receipts (tw_store T') = (receipts (tw_store T))(in_effect_id i \<mapsto> r)"
proof -
  obtain d where d: "effects_ok d" "intents d = (intents (tw_store T))(in_effect_id i \<mapsto> i)"
      "receipts d = receipts (tw_store T)" "receipts d (in_effect_id i) = None"
      "execute S registry runner injector i T = invoke_and_record S runner injector i (T\<lparr>tw_store := d\<rparr>)"
    by (rule execute_invokes [where runner = runner and injector = injector, OF assms(1-5)])
  have q: "wf_receipt r" "rc_effect_id r = in_effect_id i" using receipt_for_wf [OF assms(7)] by auto
  with save_receipt_new [OF d(1) q(1)] d obtain d' where d':
    "st_save_receipt S d r = Inr d'" "effects_ok d'" "intents d' = intents d"
    "receipts d' = (receipts d)(in_effect_id i \<mapsto> r)" by auto
  let ?T = "\<lparr>tw_store = d', tw_outside = outside, tw_calls = tw_calls T @ [call_of i]\<rparr>"
  have "execute S registry runner injector i T = (Inr r, ?T)"
    using d(5) d'(1) assms(2,6,7)
    by (simp add: invoke_and_record_def bindA_def invokeA_def idempotency_key_def storeA_def reach_checkpoint_def)
  with that [of ?T] d'(2-4) d(2,3) show thesis by simp
qed

end

abbreviation request_key :: "hash \<Rightarrow> ToolRequest \<Rightarrow> string" where
  "request_key H q \<equiv> H (effect_identity (tr_run_id q) (tr_tool_call_id q))"

definition success_receipt :: "hash \<Rightarrow> ToolRequest \<Rightarrow> payload \<Rightarrow> ToolReceipt" where
  "success_receipt H q out = \<lparr>rc_effect_id = H (effect_identity (tr_run_id q) (tr_tool_call_id q)),
     rc_outcome = TOOL_SUCCEEDED_OUTCOME, rc_output_json = render (JObj out)\<rparr>"

lemma request_intent:
  assumes "wf_request q" and "H (effect_identity (tr_run_id q) (tr_tool_call_id q)) \<noteq> []"
  obtains i where "build_intent H (tr_run_id q) (tr_tool_call_id q) (tr_tool_name q) (request_arguments q) = Inr i"
proof -
  obtain d where d: "canon (JObj d)" "request_arguments q = d"
    using assms(1) by (auto simp: wf_request_def request_post_init_Inr_iff request_arguments_def decoded_def)
  show thesis
    using that assms(2) wf_request_fields [OF assms(1)] d
    by (simp add: build_intent_def derive_effect_id_def canonical_json_canon intent_post_init_def
        canonical_object_def loads_render)
qed

lemma success_receipt_for:
  assumes "in_effect_id i = H (effect_identity (tr_run_id q) (tr_tool_call_id q))" and "in_effect_id i \<noteq> []"
    and "canon (JObj out)"
  shows "receipt_for i (Returned out) = Inr (success_receipt H q out)"
  using assms by (simp add: receipt_for_def build_receipt_def canonical_json_canon receipt_post_init_def
        canonical_object_def loads_render success_receipt_def)

text \<open>The last event of a type in a log.\<close>

definition latest_event :: "EventType \<Rightarrow> payload \<Rightarrow> ExecutionEvent list \<Rightarrow> bool" where
  "latest_event k p es \<longleftrightarrow> (\<exists>e. find (\<lambda>e. ev_event_type e = k) (rev es) = Some e \<and> payload e = p)"

lemma latest_event_here: "ev_event_type e = k \<Longrightarrow> payload e = p \<Longrightarrow> latest_event k p (es @ [e])"
  by (simp add: latest_event_def)

lemma latest_event_later: "k \<notin> ev_event_type ` set fs \<Longrightarrow> latest_event k p es \<Longrightarrow> latest_event k p (es @ fs)"
proof -
  assume k: "k \<notin> ev_event_type ` set fs" and "latest_event k p es"
  moreover have "find (\<lambda>e. ev_event_type e = k) (rev fs) = None" using k by (auto simp: find_None_iff)
  ultimately show ?thesis by (auto simp: latest_event_def find_append)
qed

lemma find_narrower: "find P xs = Some x \<Longrightarrow> Q x \<Longrightarrow> (\<And>y. Q y \<Longrightarrow> P y) \<Longrightarrow> find Q xs = Some x"
  by (induction xs) (auto split: if_splits)

definition success_payload :: "hash \<Rightarrow> ToolRequest \<Rightarrow> payload" where
  "success_payload H q = [(''effect_id'', JStr (request_key H q)), (''tool_call_id'', JStr (tr_tool_call_id q))]"

text \<open>What remains to be observed after an undisturbed execution.\<close>

context runtime_stores
begin

definition executed_once ::
  "ToolRequest \<Rightarrow> payload \<Rightarrow> 'w \<Rightarrow> EventType list \<Rightarrow> (string \<Rightarrow> ExecutionEvent list) \<Rightarrow> ('e, 'w) tool_world \<Rightarrow>
   RuntimeToolResult \<Rightarrow> ('d, 'e, 'w) runtime_world \<Rightarrow> bool" where
  "executed_once q out outside ks l T r w \<longleftrightarrow>
     rt_outcome r = EXECUTED \<and> rt_receipt r = Some (success_receipt H q out) \<and>
     status (rt_state r) = VERIFYING \<and> active_step_id (rt_state r) = Some (tr_step_id q) \<and>
     (\<exists>es T'. world_at (l(tr_run_id q := l (tr_run_id q) @ es)) T' w \<and> map ev_event_type es = ks \<and>
        replay H (tr_run_id q) (l (tr_run_id q) @ es) = Inr (rt_state r) \<and>
        latest_event TOOL_REQUESTED (request_payload q) (l (tr_run_id q) @ es) \<and>
        latest_event TOOL_SUCCEEDED (success_payload H q) (l (tr_run_id q) @ es) \<and>
        receipts (tw_store T') (rc_effect_id (success_receipt H q out)) = Some (success_receipt H q out) \<and>
        (\<forall>k. k \<noteq> request_key H q \<longrightarrow> intents (tw_store T') k = intents (tw_store T) k \<and>
          receipts (tw_store T') k = receipts (tw_store T) k) \<and> tw_outside T' = outside \<and>
        tw_calls T' = tw_calls T @ [\<lparr>tc_tool_name = tr_tool_name q, tc_arguments = request_arguments q,
          tc_key = rc_effect_id (success_receipt H q out)\<rparr>])"

text \<open>Worlds whose log extends that of another in one run.\<close>

definition further ::
  "string \<Rightarrow> EventType list \<Rightarrow> (string \<Rightarrow> ExecutionEvent list) \<Rightarrow> (string \<Rightarrow> ExecutionEvent list) \<Rightarrow> bool" where
  "further run ks l l' \<longleftrightarrow> (\<exists>es. l' = l(run := l run @ es) \<and> map ev_event_type es = ks)"

lemma further_extended: "further run [ev_event_type e] l (extended l run e)"
  by (auto simp: further_def extended_def)

lemma further_trans: "further run ks l l' \<Longrightarrow> further run ks' l' l'' \<Longrightarrow> further run (ks @ ks') l l''"
  unfolding further_def by (metis append.assoc fun_upd_same fun_upd_upd map_append)

lemma executed_once_further:
  assumes "further (tr_run_id q) ks l l'" and "executed_once q out outside ks' l' T r w"
  shows "executed_once q out outside (ks @ ks') l T r w"
proof -
  from assms(1) obtain es where es: "l' = l(tr_run_id q := l (tr_run_id q) @ es)" "map ev_event_type es = ks"
    by (auto simp: further_def)
  have log: "l'(tr_run_id q := l' (tr_run_id q) @ fs) = l(tr_run_id q := l (tr_run_id q) @ es @ fs)" for fs
    by (simp add: es)
  from assms(2) obtain fs T' where
      "world_at (l(tr_run_id q := l (tr_run_id q) @ es @ fs)) T' w" "map ev_event_type fs = ks'"
      "replay H (tr_run_id q) (l (tr_run_id q) @ es @ fs) = Inr (rt_state r)"
      "latest_event TOOL_REQUESTED (request_payload q) (l (tr_run_id q) @ es @ fs)"
      "latest_event TOOL_SUCCEEDED (success_payload H q) (l (tr_run_id q) @ es @ fs)"
      "receipts (tw_store T') (rc_effect_id (success_receipt H q out)) = Some (success_receipt H q out)"
      "\<forall>k. k \<noteq> request_key H q \<longrightarrow> intents (tw_store T') k = intents (tw_store T) k \<and>
        receipts (tw_store T') k = receipts (tw_store T) k" "tw_outside T' = outside"
      "tw_calls T' = tw_calls T @ [\<lparr>tc_tool_name = tr_tool_name q, tc_arguments = request_arguments q,
          tc_key = rc_effect_id (success_receipt H q out)\<rparr>]"
    unfolding executed_once_def log by (auto simp: es)
  with assms(2) es show ?thesis
    unfolding executed_once_def by (intro conjI exI [of _ "es @ fs"] exI [of _ T']) simp_all
qed

lemma run_effect_eval:
  fixes R :: "('d, 'e, 'w) runtime"
  assumes R: "runtime_on H L S registry R" and c: "undisturbed R" "\<forall>c i. ru_injector R c i = None"
    and w: "world_at l T w" and q: "wf_request q" and s: "replay H (tr_run_id q) (l (tr_run_id q)) = Inr s"
    and st: "status s = TOOL_RUNNING" "active_tool_call_id s = Some (tr_tool_call_id q)"
      "active_step_id s = Some (tr_step_id q)" "latest_event TOOL_REQUESTED (request_payload q) (l (tr_run_id q))"
    and def: "resolve registry (tr_tool_name q) = Inr def"
    and key: "request_key H q \<noteq> []"
    and new: "\<And>i. build_intent H (tr_run_id q) (tr_tool_call_id q) (tr_tool_name q) (request_arguments q) = Inr i \<Longrightarrow>
      may_invoke def (tw_store T) i"
    and ran: "ru_runner R (tr_tool_name q) (request_arguments q) (request_key H q) (tw_outside T) = (Returned out, outside)"
    and out: "canon (JObj out)"
  shows "\<exists>r w'. run_effect R q d ev n w = (Inr r, w') \<and> rt_authorization r = d \<and>
    executed_once q out outside [TOOL_SUCCEEDED] l T r w'"
proof -
  let ?run = "tr_run_id q" and ?r = "success_receipt H q out" and ?k = "request_key H q"
  obtain i where i: "build_intent H ?run (tr_tool_call_id q) (tr_tool_name q) (request_arguments q) = Inr i"
    using request_intent [where H = H, OF q key] by blast
  note built = built_intent [OF q i]
  then have k: "in_effect_id i = ?k" by (auto simp: derive_effect_id_def result_simps)
  have wt: "effects_ok (tw_store T)" using w by (simp add: world_at_def)
  obtain T' where T': "execute S registry (ru_runner R) (ru_injector R) i T = (Inr ?r, T')"
      "effects_ok (tw_store T')" "tw_calls T' = tw_calls T @ [call_of i]"
      "receipts (tw_store T') ?k = Some ?r" "tw_outside T' = outside"
      "\<forall>k'. k' \<noteq> ?k \<longrightarrow> intents (tw_store T') k' = intents (tw_store T) k' \<and>
        receipts (tw_store T') k' = receipts (tw_store T) k'"
  proof (rule execute_fresh [where T = T and i = i and runner = "ru_runner R" and injector = "ru_injector R"])
    show "receipt_for i (Returned out) = Inr ?r" using k key out by (intro success_receipt_for) simp_all
  qed (use built k def c(2) wt new [OF i] ran in auto)
  let ?w = "w\<lparr>rw_tools := T'\<rparr>"
  have w2: "world_at l T' ?w" using w T'(2) by (simp add: world_at_def)
  have x: "executeA R i w = (Inr ?r, ?w)" using R w T'(1) by (simp add: executeA_def runtime_on_def world_at_def)
  have oe: "outcome_event q ?r = (TOOL_SUCCEEDED,
      [(''effect_id'', JStr ?k), (''tool_call_id'', JStr (tr_tool_call_id q))])"
    by (simp add: outcome_event_def success_receipt_def)
  let ?u = "(clear_gate s)\<lparr>status := VERIFYING, active_tool_call_id := None\<rparr>"
  have valid: "valid_state s" using replay_state_inv [OF s] by (simp add: state_inv_def core_inv_def)
  obtain e w' where e: "append_event R ?run TOOL_SUCCEEDED
        [(''effect_id'', JStr ?k), (''tool_call_id'', JStr (tr_tool_call_id q))] ?w = (Inr (advance H s e ?u), w')"
      "next_event H l ?run TOOL_SUCCEEDED [(''effect_id'', JStr ?k), (''tool_call_id'', JStr (tr_tool_call_id q))] s e"
      "world_at (extended l ?run e) T' w'" "replay H ?run (extended l ?run e ?run) = Inr (advance H s e ?u)"
  proof (rule append_accepted [OF R c(1) w2 s])
    fix e assume "next_event H l ?run TOOL_SUCCEEDED
        [(''effect_id'', JStr ?k), (''tool_call_id'', JStr (tr_tool_call_id q))] s e"
    then show "transition s e = Inr ?u"
      using st wf_request_fields [OF q]
      by (intro call_transitions(3) [OF valid st(2)]) (simp_all add: next_event_def get_def get_default_def)
  qed (use wf_request_fields [OF q] st in \<open>simp_all add: canon_obj is_terminal_iff\<close>)
  let ?res = "(tool_result EXECUTED (advance H s e ?u))\<lparr>rt_authorization := d,
       rt_gate_evaluation := ev, rt_gate_attempt := n, rt_receipt := Some ?r\<rparr>"
  have run: "run_effect R q d ev n w = (Inr ?res, w')"
    by (simp add: run_effect_def bindA_def runtime_on_hash [OF R] i x oe e(1))
  have call: "call_of i = \<lparr>tc_tool_name = tr_tool_name q, tc_arguments = request_arguments q, tc_key = ?k\<rparr>"
    using built k by (simp add: call_of_def idempotency_key_def)
  have ty: "ev_event_type e = TOOL_SUCCEEDED" using e(2) by (simp add: next_event_def)
  have "executed_once q out outside [TOOL_SUCCEEDED] l T ?res w'"
    unfolding executed_once_def
  proof (intro conjI exI)
    show "world_at (l(?run := l ?run @ [e])) T' w'" using e(3) by (simp add: extended_def)
    show "replay H ?run (l ?run @ [e]) = Inr (rt_state ?res)" using e(4) by simp
    show "latest_event TOOL_REQUESTED (request_payload q) (l ?run @ [e])"
      using ty st(4) by (intro latest_event_later) simp_all
    show "latest_event TOOL_SUCCEEDED (success_payload H q) (l ?run @ [e])"
      using ty e(2) by (intro latest_event_here) (simp_all add: next_event_def success_payload_def)
    show "receipts (tw_store T') (rc_effect_id ?r) = Some ?r" using T'(4) by (simp add: success_receipt_def)
  qed (use T'(6) in \<open>simp_all add: T'(3,5) call ty success_receipt_def st(3) clear_gate_def\<close>)
  with run show ?thesis by (intro exI [of _ ?res] exI [of _ w']) simp
qed

text \<open>The request the log gives back for a call is the one last submitted for it.\<close>

abbreviation latest_request :: "(string \<Rightarrow> ExecutionEvent list) \<Rightarrow> ToolRequest \<Rightarrow> bool" where
  "latest_request l q \<equiv> latest_event TOOL_REQUESTED (request_payload q) (l (tr_run_id q))"

lemma latest_requested:
  "next_event H l (tr_run_id q) TOOL_REQUESTED (request_payload q) s e \<Longrightarrow> latest_request (extended l (tr_run_id q) e) q"
  by (simp add: next_event_def extended_def latest_event_here)

lemma latest_request_further:
  assumes "further (tr_run_id q) ks l l'" and "TOOL_REQUESTED \<notin> set ks" and "latest_request l q"
  shows "latest_request l' q"
proof -
  from assms(1) obtain es where l': "l' (tr_run_id q) = l (tr_run_id q) @ es" "map ev_event_type es = ks"
    by (auto simp: further_def)
  with assms(2) have "TOOL_REQUESTED \<notin> ev_event_type ` set es" by (metis list.set_map)
  with l'(1) assms(3) show ?thesis by (simp add: latest_event_later)
qed

lemma json_text_nonempty: "render (JObj d) \<noteq> []"
  by (simp add: render.simps(7))

lemma latest_request_load:
  fixes R :: "('d, 'e, 'w) runtime"
  assumes R: "runtime_on H L S registry R" and w: "world_at l T w" and q: "wf_request q" and l: "latest_request l q"
  shows "load_active_request R (tr_run_id q) (tr_tool_call_id q) w = (Inr q, w)"
proof -
  obtain e where f: "find (\<lambda>e. ev_event_type e = TOOL_REQUESTED) (rev (l (tr_run_id q))) = Some e"
      and e2: "payload e = request_payload q" using l by (auto simp: latest_event_def)
  have ty: "ev_event_type e = TOOL_REQUESTED" using find_Some_in [OF f] by simp
  have "get (request_payload q) ''tool_call_id'' = JStr (tr_tool_call_id q)"
    by (simp add: request_payload_def get_def get_default_def split: option.split)
  with ty e2 have "request_event (tr_tool_call_id q) e" unfolding request_event_def by metis
  then have e: "find (request_event (tr_tool_call_id q)) (rev (l (tr_run_id q))) = Some e"
    by (rule find_narrower [OF f]) (unfold request_event_def, blast)
  note e = e e2
  have ev: "eventsA R (tr_run_id q) w = (Inr (l (tr_run_id q)), w)"
    using R w load by (simp add: eventsA_def runtime_on_def world_at_def)
  obtain d where d: "tr_arguments_json q = render (JObj d)" "canon (JObj d)"
    using q unfolding wf_request_def request_post_init_Inr_iff
    by (metis ToolRequest.select_convs(5) ToolRequest.surjective ToolRequest.update_convs(5))
  have eta: "\<lparr>tr_run_id = tr_run_id q, tr_step_id = tr_step_id q, tr_tool_call_id = tr_tool_call_id q,
       tr_tool_name = tr_tool_name q, tr_arguments_json = tr_arguments_json q,
       tr_model_action_event_id = tr_model_action_event_id q\<rparr> = q" by (cases q) simp
  have p: "get (request_payload q) ''step_id'' = JStr (tr_step_id q)"
      "get (request_payload q) ''tool_name'' = JStr (tr_tool_name q)"
      "get (request_payload q) ''arguments_json'' = JStr (tr_arguments_json q)"
      "optional_text (get (request_payload q) ''model_action_event_id'') = Inr (tr_model_action_event_id q)"
    by (simp_all add: request_payload_def get_def get_default_def optional_text_def split: option.split)
  have "tr_arguments_json q \<noteq> []" using d(1) json_text_nonempty by simp
  then have "request_from (tr_run_id q) (tr_tool_call_id q) (request_payload q) = request_post_init q"
    using wf_request_fields [OF q] by (simp add: request_from_def payload_text_def p ensure_def eta)
  then show ?thesis using q ev e by (simp add: load_active_request_def bindA_def wf_request_def)
qed

text \<open>Starting a granted call, and submitting an allowed request, up to the execution of the effect.\<close>

lemma start_eval:
  fixes R :: "('d, 'e, 'w) runtime"
  assumes R: "runtime_on H L S registry R" and c: "undisturbed R"
    and w: "world_at l T w" and q: "wf_request q" and s: "replay H (tr_run_id q) (l (tr_run_id q)) = Inr s"
    and st: "status s = TOOL_READY" "active_tool_call_id s = Some (tr_tool_call_id q)"
  obtains v l' s' where "\<forall>d ev n. execute_request R q d ev n True w = run_effect R q d ev n v"
    and "world_at l' T v" and "further (tr_run_id q) [TOOL_STARTED] l l'"
    and "replay H (tr_run_id q) (l' (tr_run_id q)) = Inr s'" and "status s' = TOOL_RUNNING"
    and "active_tool_call_id s' = Some (tr_tool_call_id q)" and "active_step_id s' = active_step_id s"
proof -
  let ?run = "tr_run_id q" and ?p = "[(''tool_call_id'', JStr (tr_tool_call_id q))]"
  let ?u = "s\<lparr>status := TOOL_RUNNING\<rparr>"
  have valid: "valid_state s" using replay_state_inv [OF s] by (simp add: state_inv_def core_inv_def)
  obtain e v where e: "append_event R ?run TOOL_STARTED ?p w = (Inr (advance H s e ?u), v)"
      "next_event H l ?run TOOL_STARTED ?p s e" "world_at (extended l ?run e) T v"
      "replay H ?run (extended l ?run e ?run) = Inr (advance H s e ?u)"
  proof (rule append_accepted [OF R c w s])
    fix e assume "next_event H l ?run TOOL_STARTED ?p s e"
    then show "transition s e = Inr ?u"
      using st wf_request_fields [OF q]
      by (intro call_transitions(2) [OF valid st(2)]) (simp_all add: next_event_def get_def get_default_def)
  qed (use wf_request_fields [OF q] st in \<open>simp_all add: canon_obj is_terminal_iff\<close>)
  show thesis
  proof (rule that [of v "extended l ?run e" "advance H s e ?u"])
    show "\<forall>d ev n. execute_request R q d ev n True w = run_effect R q d ev n v"
      by (simp add: execute_request_def bindA_def e(1))
    show "further ?run [TOOL_STARTED] l (extended l ?run e)"
      using further_extended [of ?run e l] e(2) by (simp add: next_event_def)
  qed (use e st in simp_all)
qed

text \<open>A request of a ready run, or of one with the pending action the request carries out, is recorded.\<close>

lemma requested_eval:
  fixes R :: "('d, 'e, 'w) runtime"
  assumes R: "runtime_on H L S registry R" and c: "undisturbed R"
    and w: "world_at l T w" and q: "wf_request q" and s: "replay H (tr_run_id q) (l (tr_run_id q)) = Inr s"
    and st: "status s = READY \<or> (status s = ACTION_PENDING \<and> tr_model_action_event_id q \<noteq> None \<and>
      active_model_action_event_id s = tr_model_action_event_id q)" and budget: "budget_left s"
  obtains t v l' where "append_event R (tr_run_id q) TOOL_REQUESTED (request_payload q) w = (Inr t, v)"
    and "world_at l' T v" and "latest_request l' q" and "further (tr_run_id q) [TOOL_REQUESTED] l l'"
    and "replay H (tr_run_id q) (l' (tr_run_id q)) = Inr t" and "valid_state t" and "status t = TOOL_PENDING"
    and "active_tool_call_id t = Some (tr_tool_call_id q)" and "active_step_id t = Some (tr_step_id q)"
proof -
  let ?run = "tr_run_id q"
  have valid: "valid_state s" using replay_state_inv [OF s] by (simp add: state_inv_def core_inv_def)
  obtain e v where e: "append_event R ?run TOOL_REQUESTED (request_payload q) w = (Inr (advance H s e (pending_tool s q)), v)"
      "next_event H l ?run TOOL_REQUESTED (request_payload q) s e" "world_at (extended l ?run e) T v"
      "replay H ?run (extended l ?run e ?run) = Inr (advance H s e (pending_tool s q))"
  proof (rule append_accepted [OF R c w s canon_request_payload])
    fix e assume "next_event H l ?run TOOL_REQUESTED (request_payload q) s e"
    then show "transition s e = Inr (pending_tool s q)"
      by (intro request_transition [OF q valid budget st]) (simp_all add: next_event_def)
  qed (use wf_request_fields [OF q] st in \<open>auto simp: is_terminal_iff\<close>)
  show thesis
  proof (rule that [OF e(1,3) latest_requested [OF e(2)] _ e(4)])
    show "further ?run [TOOL_REQUESTED] l (extended l ?run e)"
      using further_extended [of ?run e l] e(2) by (simp add: next_event_def)
    show "valid_state (advance H s e (pending_tool s q))"
      using replay_state_inv [OF e(4)] by (simp add: state_inv_def core_inv_def)
  qed (simp_all add: pending_tool_def)
qed

lemma submit_reaches:
  fixes R :: "('d, 'e, 'w) runtime"
  assumes R: "runtime_on H L S registry R" and c: "undisturbed R"
    and w: "world_at l T w" and q: "wf_request q" and s: "replay H (tr_run_id q) (l (tr_run_id q)) = Inr s"
    and st: "status s = READY \<or> (status s = ACTION_PENDING \<and> tr_model_action_event_id q \<noteq> None \<and>
      active_model_action_event_id s = tr_model_action_event_id q)" and budget: "budget_left s"
    and d: "authorize q (ru_context R) = Inr d" "ad_outcome d = ALLOW"
  obtains v l' s' where "submit R q w = run_effect R q (Some d) None None v"
    and "world_at l' T v" and "latest_request l' q" and "further (tr_run_id q) [TOOL_REQUESTED, TOOL_AUTHORIZED, TOOL_STARTED] l l'"
    and "replay H (tr_run_id q) (l' (tr_run_id q)) = Inr s'" and "status s' = TOOL_RUNNING"
    and "active_tool_call_id s' = Some (tr_tool_call_id q)" and "active_step_id s' = Some (tr_step_id q)"
proof -
  let ?run = "tr_run_id q"
  obtain t v l1 where e: "append_event R ?run TOOL_REQUESTED (request_payload q) w = (Inr t, v)" "world_at l1 T v"
      "latest_request l1 q" "further ?run [TOOL_REQUESTED] l l1" "replay H ?run (l1 ?run) = Inr t" "valid_state t"
    and t: "status t = TOOL_PENDING" "active_tool_call_id t = Some (tr_tool_call_id q)"
      "active_step_id t = Some (tr_step_id q)"
    by (rule requested_eval [OF R c w q s st budget])
  let ?u = "t\<lparr>status := TOOL_READY\<rparr>"
  obtain g v' where g: "append_event R ?run TOOL_AUTHORIZED (authorization_payload q d) v = (Inr (advance H t g ?u), v')"
      "next_event H l1 ?run TOOL_AUTHORIZED (authorization_payload q d) t g" "world_at (extended l1 ?run g) T v'"
      "replay H ?run (extended l1 ?run g ?run) = Inr (advance H t g ?u)"
  proof (rule append_accepted [OF R c e(2,5) canon_authorization])
    fix g assume "next_event H l1 ?run TOOL_AUTHORIZED (authorization_payload q d) t g"
    then show "transition t g = Inr ?u"
      using t wf_request_fields [OF q]
      by (intro call_transitions(1) [OF e(6) t(2)])
         (simp_all add: next_event_def get_def get_default_def authorization_payload_def)
  qed (use wf_request_fields [OF q] t in \<open>simp_all add: is_terminal_iff\<close>)
  have s3: "status (advance H t g ?u) = TOOL_READY"
      "active_tool_call_id (advance H t g ?u) = Some (tr_tool_call_id q)" using t by simp_all
  obtain u l' s' where u: "\<forall>d ev n. execute_request R q d ev n True v' = run_effect R q d ev n u"
      "world_at l' T u" "further ?run [TOOL_STARTED] (extended l1 ?run g) l'"
      "replay H ?run (l' ?run) = Inr s'" "status s' = TOOL_RUNNING" "active_tool_call_id s' = Some (tr_tool_call_id q)"
      "active_step_id s' = active_step_id (advance H t g ?u)"
    by (rule start_eval [OF R c g(3) q g(4) s3])
  have ks: "further ?run [TOOL_AUTHORIZED, TOOL_STARTED] l1 l'"
    using further_trans [OF further_extended [of ?run g l1] u(3)] g(2) by (simp add: next_event_def)
  have "submit R q w = run_effect R q (Some d) None None u"
    by (simp add: submit_def bindA_def e(1) g(1) d u(1))
  moreover have "latest_request l' q" by (rule latest_request_further [OF ks _ e(3)]) simp
  ultimately show thesis using that u(2,4-7) t(3) further_trans [OF e(4) ks] by simp
qed

lemma submit_eval:
  fixes R :: "('d, 'e, 'w) runtime"
  assumes R: "runtime_on H L S registry R" and c: "undisturbed R" "\<forall>c i. ru_injector R c i = None"
    and w: "world_at l T w" and q: "wf_request q" and s: "replay H (tr_run_id q) (l (tr_run_id q)) = Inr s"
    and st: "status s = READY \<or> (status s = ACTION_PENDING \<and> tr_model_action_event_id q \<noteq> None \<and>
      active_model_action_event_id s = tr_model_action_event_id q)" and budget: "budget_left s"
    and d: "authorize q (ru_context R) = Inr d" "ad_outcome d = ALLOW"
    and def: "resolve registry (tr_tool_name q) = Inr def" and key: "request_key H q \<noteq> []"
    and new: "intents (tw_store T) (request_key H q) = None" "receipts (tw_store T) (request_key H q) = None"
    and ran: "ru_runner R (tr_tool_name q) (request_arguments q) (request_key H q) (tw_outside T) = (Returned out, outside)"
    and out: "canon (JObj out)"
  shows "\<exists>r w'. submit R q w = (Inr r, w') \<and> rt_authorization r = Some d \<and>
    executed_once q out outside [TOOL_REQUESTED, TOOL_AUTHORIZED, TOOL_STARTED, TOOL_SUCCEEDED] l T r w'"
proof -
  obtain v l' s' where v: "submit R q w = run_effect R q (Some d) None None v" "world_at l' T v"
      "latest_request l' q" "further (tr_run_id q) [TOOL_REQUESTED, TOOL_AUTHORIZED, TOOL_STARTED] l l'"
      "replay H (tr_run_id q) (l' (tr_run_id q)) = Inr s'" "status s' = TOOL_RUNNING"
      "active_tool_call_id s' = Some (tr_tool_call_id q)" "active_step_id s' = Some (tr_step_id q)"
    by (rule submit_reaches [OF R c(1) w q s st budget d])
  have "may_invoke def (tw_store T) i"
    if "build_intent H (tr_run_id q) (tr_tool_call_id q) (tr_tool_name q) (request_arguments q) = Inr i" for i
    using built_intent [OF q that] new by (auto simp: may_invoke_def derive_effect_id_def result_simps)
  from run_effect_eval [OF R c v(2) q v(5-8) v(3) def key this ran out, of "Some d" None None] obtain r w' where
    "run_effect R q (Some d) None None v = (Inr r, w')" "rt_authorization r = Some d"
    "executed_once q out outside [TOOL_SUCCEEDED] l' T r w'" by blast
  with v(1) executed_once_further [OF v(4)] show ?thesis by fastforce
qed

end

context runtime_stores
begin

text \<open>An appended event the reducer refuses stays in the log, and the log never replays again.\<close>

lemma append_poisons:
  fixes R :: "('d, 'e, 'w) runtime"
  assumes R: "runtime_on H L S registry R" and c: "undisturbed R" and w: "world_at l T w"
    and s: "replay H run (l run) = Inr s" and p: "canon (JObj p)" and run: "run \<noteq> []"
    and refused: "\<And>e. next_event H l run k p s e \<Longrightarrow> reduce H s e = Inl x"
  obtains e w' where "append_event R run k p w = (Inl x, w')" and "ev_event_type e = k"
    and "payload e = p" and "world_at (extended l run e) T w'"
    and "\<forall>es. replay H run (l run @ e # es) = Inl x"
proof -
  from append_eval [OF R c w s p run, of k] obtain e w' where
    e: "append_event R run k p w = (reduce H s e, w')" "next_event H l run k p s e"
      "world_at (extended l run e) T w'" by metis
  have "replay H run (l run @ [e]) = Inl x" using next_event_replay [OF e(2)] refused [OF e(2)] by simp
  then have "\<forall>es. replay H run (l run @ e # es) = Inl x"
    using replay_append [of H run "l run @ [e]"] by simp
  moreover have "append_event R run k p w = (Inl x, w')" "ev_event_type e = k" "payload e = p"
    using e(1,2) refused [OF e(2)] by (simp_all add: next_event_def)
  ultimately show thesis using that e(3) by blast
qed

end

end
