(* ===== verification/TurnRuns.thy ===== *)
theory TurnRuns
  imports RuntimeRuns
begin

section \<open>A model turn that nothing disturbs\<close>

text \<open>
  Beginning an invocation and persisting the action the model proposed: what the log stores is
  read back as the input and the action they were.
\<close>

lemma wf_input_text:
  assumes "wf_input c"
  shows "mi_observation_json c \<noteq> []" and "mi_step_id c \<noteq> []"
proof -
  obtain d where "mi_observation_json c = render (JObj d)" "mi_step_id c \<noteq> []"
    using assms unfolding wf_input_def input_post_init_Inr_iff
    by (metis ModelInput.select_convs(5) ModelInput.surjective ModelInput.update_convs(5))
  then show "mi_observation_json c \<noteq> []" "mi_step_id c \<noteq> []" by (simp_all add: render.simps(7))
qed

lemma invoked_transition:
  assumes "valid_state s" and "status s = READY" and "budget_left s" and "wf_input c"
    and "mi_turn_index c = turn_index s" and "mi_step_id c = next_step_id s"
    and "ev_event_type e = MODEL_ACTION_REQUESTED"
    and "payload e = [(''invocation_id'', JStr (invocation_id c)),
         (''observation_json'', JStr (mi_observation_json c)),
         (''step_id'', JStr (mi_step_id c)), (''turn_index'', JInt (mi_turn_index c))]"
  shows "transition s e = Inr (s\<lparr>status := MODEL_PENDING, active_step_id := Some (mi_step_id c),
    active_model_invocation_id := Some (invocation_id c)\<rparr>)"
proof -
  have "mi_observation_json c \<noteq> []" using assms(4) by (rule wf_input_text)
  moreover have "invocation_id c \<noteq> []" "next_step_id s \<noteq> []" by (simp_all add: invocation_id_def next_step_id_def)
  ultimately show ?thesis using assms
    by (simp add: transition_def on_model_action_requested_def expect_status_def ensure_def
        expect_model_budget_available_def budget_left_def required_text_def get_def get_default_def
        state_post_init_valid valid_state_def)
qed

lemma proposed_transition:
  assumes "valid_state s" and "status s = MODEL_PENDING" and "active_model_invocation_id s = Some i"
    and "active_step_id s = Some (mi_step_id c)" and "turn_index s = mi_turn_index c"
    and "i \<noteq> []" and "mi_step_id c \<noteq> []" and "wf_action a"
    and "ev_event_type e = MODEL_ACTION_PROPOSED" and "payload e = action_payload c i a"
  shows "transition s e = Inr (s\<lparr>status := ACTION_PENDING, active_model_action_event_id := Some (ev_event_id e)\<rparr>)"
proof (cases a)
  case (ToolCall t)
  then show ?thesis using assms wf_tool_call [of t]
    by (simp add: transition_def on_model_action_proposed_def expect_status_def ensure_def action_payload_def
        required_text_def get_def get_default_def state_post_init_valid valid_state_def)
next
  case (FinalAnswer t)
  then have "t \<noteq> []" using assms(8) by (auto simp: wf_action_def action_post_init_def final_answer_post_init_def ensure_def split: if_splits)
  with FinalAnswer show ?thesis using assms
    by (simp add: transition_def on_model_action_proposed_def expect_status_def ensure_def action_payload_def
        required_text_def get_def get_default_def state_post_init_valid valid_state_def)
qed

text \<open>What the events of a turn store reads back as it was.\<close>

lemma stored_input_payload:
  assumes "wf_input c" and "mi_state_status c = READY"
    and "p = [(''invocation_id'', JStr i), (''observation_json'', JStr (mi_observation_json c)),
         (''step_id'', JStr (mi_step_id c)), (''turn_index'', JInt (mi_turn_index c))]"
  shows "stored_input (mi_run_id c) p = Inr c"
proof -
  have d: "mi_observation_json c \<noteq> []" "mi_step_id c \<noteq> []"
    using assms(1) by (rule wf_input_text)+
  have eta: "\<lparr>mi_run_id = mi_run_id c, mi_step_id = mi_step_id c, mi_turn_index = mi_turn_index c,
         mi_state_status = READY, mi_observation_json = mi_observation_json c\<rparr> = c"
    using assms(2) by (cases c) simp
  with d assms show ?thesis
    by (simp add: eta stored_input_def payload_text_def get_def get_default_def ensure_def
        wf_input_def)
qed

lemma stored_action_payload:
  assumes "wf_action a"
  shows "stored_action (action_payload c i a) = Inr a"
proof (cases a)
  case (ToolCall t)
  have "tool_call_post_init t = Inr t"
    using assms ToolCall by (cases "tool_call_post_init t") (auto simp: wf_action_def action_post_init_def)
  have eta: "\<lparr>tca_tool_call_id = tca_tool_call_id t, tca_tool_name = tca_tool_name t,
      tca_arguments_json = tca_arguments_json t\<rparr> = t" by (cases t) simp
  show ?thesis using \<open>tool_call_post_init t = Inr t\<close> wf_tool_call [of t] assms ToolCall
    by (simp add: eta stored_action_def stored_tool_call_def action_payload_def payload_text_def get_def
        get_default_def ensure_def)
next
  case (FinalAnswer t)
  then have "t \<noteq> []" using assms by (auto simp: wf_action_def action_post_init_def final_answer_post_init_def ensure_def split: if_splits)
  with FinalAnswer show ?thesis
    by (simp add: stored_action_def action_payload_def payload_text_def get_def get_default_def ensure_def
        final_answer_post_init_def)
qed

text \<open>A run whose proposed action waits, at the turn of a ready state.\<close>

definition action_pending :: "RunState \<Rightarrow> RunState \<Rightarrow> string \<Rightarrow> bool" where
  "action_pending s t i \<longleftrightarrow> status t = ACTION_PENDING \<and> active_model_action_event_id t = Some i \<and>
     turn_index t = turn_index s \<and> max_steps t = max_steps s \<and> i \<noteq> []"

lemma accepted_transition:
  assumes "valid_state t" and "action_pending s t i" and "budget_left s"
    and "mi_step_id c = next_step_id s" and "h \<noteq> []" and "cr_summary v \<noteq> []"
    and "ev_event_type e = COMPLETION_ACCEPTED" and "payload e = completion_payload c answer h (Some i) v"
  shows "\<exists>u. transition t e = Inr u \<and> status u = COMPLETED \<and> turn_index u = turn_index t + 1"
proof -
  have n: "next_step_id t = next_step_id s" "next_step_id s \<noteq> []"
    using assms(2) by (simp_all add: action_pending_def next_step_id_def)
  have p: "get (payload e) ''model_action_event_id'' = JStr i" "get (payload e) ''step_id'' = JStr (mi_step_id c)"
      "get (payload e) ''answer_sha256'' = JStr h" "get (payload e) ''summary'' = JStr (cr_summary v)"
    by (simp_all add: assms(8) completion_payload_def get_def get_default_def)
  show ?thesis
    using assms(1-7) n
    by (auto simp: transition_def on_completion_def expect_pending_model_action_def required_text_def p
        action_pending_def ensure_def expect_model_budget_available_def budget_left_def state_post_init_def
        valid_state_def split: option.splits)
qed

context runtime_stores
begin

lemma load_pending_eval:
  fixes R :: "('d, 'e, 'w) runtime"
  assumes R: "runtime_on H L S registry R" and d: "undisturbed R" and w: "world_at l T w"
    and l: "l (mi_run_id c) = es @ [e, f]" and s: "replay H (mi_run_id c) (l (mi_run_id c)) = Inr s"
    and st: "status s = ACTION_PENDING" "active_model_action_event_id s = Some (ev_event_id f)"
      "active_model_invocation_id s = Some i" "active_step_id s \<noteq> None"
    and e: "invocation_event i e" "stored_input (mi_run_id c) (payload e) = Inr c"
    and f: "ev_event_type f = MODEL_ACTION_PROPOSED" "stored_action (payload f) = Inr a"
  shows "load_pending_model_action R (mi_run_id c) w =
    (Inr \<lparr>da_event_id = ev_event_id f, da_invocation_id = i, da_context = c, da_action = a\<rparr>, w)"
proof -
  obtain j where j: "active_step_id s = Some j" using st(4) by auto
  have ev: "eventsA R (mi_run_id c) w = (Inr (es @ [e, f]), w)"
    using R w l load by (simp add: eventsA_def runtime_on_def world_at_def)
  have "\<not> invocation_event i f" using f(1) by (simp add: invocation_event_def)
  with e(1) have "find (invocation_event i) (rev (es @ [e, f])) = Some e" by simp
  moreover have "find (\<lambda>e. ev_event_id e = ev_event_id f) (rev (es @ [e, f])) = Some f" by simp
  ultimately show ?thesis
    using load_state_eq [OF R d w, of "mi_run_id c"] s st j e(2) f(2) ev
    by (simp add: load_pending_model_action_def bindA_def)
qed

lemma durable_action_eval:
  fixes R :: "('d, 'e, 'w) runtime"
  assumes R: "runtime_on H L S registry R" and d: "undisturbed R" and w: "world_at l T w"
    and s: "replay H (mi_run_id c) (l (mi_run_id c)) = Inr s" and st: "status s = READY" "budget_left s"
    and c: "wf_input c" "mi_state_status c = READY" "mi_turn_index c = turn_index s" "mi_step_id c = next_step_id s"
    and a: "wf_action a"
  shows "\<exists>v r w' l' t. begin_model_action R c w = (Inr (invocation_id c), v) \<and>
    persist_model_action R c (invocation_id c) a v = (Inr r, w') \<and> da_context r = c \<and> da_action r = a \<and>
    load_pending_model_action R (mi_run_id c) w' = (Inr r, w') \<and> world_at l' T w' \<and>
    replay H (mi_run_id c) (l' (mi_run_id c)) = Inr t \<and> action_pending s t (da_event_id r) \<and>
    further (mi_run_id c) [MODEL_ACTION_REQUESTED, MODEL_ACTION_PROPOSED] l l'"
proof -
  let ?run = "mi_run_id c" and ?i = "invocation_id c"
  have ids: "?run \<noteq> []" "mi_step_id c \<noteq> []" "?i \<noteq> []"
    using c(1) by (auto simp: wf_input_def input_post_init_Inr_iff invocation_id_def)
  let ?p = "[(''invocation_id'', JStr ?i), (''observation_json'', JStr (mi_observation_json c)),
         (''step_id'', JStr (mi_step_id c)), (''turn_index'', JInt (mi_turn_index c))]"
  let ?u = "s\<lparr>status := MODEL_PENDING, active_step_id := Some (mi_step_id c),
    active_model_invocation_id := Some ?i\<rparr>"
  have valid: "valid_state s" using replay_state_inv [OF s] by (simp add: state_inv_def core_inv_def)
  obtain e v where e: "append_event R ?run MODEL_ACTION_REQUESTED ?p w = (Inr (advance H s e ?u), v)"
      "next_event H l ?run MODEL_ACTION_REQUESTED ?p s e" "world_at (extended l ?run e) T v"
      "replay H ?run (extended l ?run e ?run) = Inr (advance H s e ?u)"
  proof (rule append_accepted [OF R d w s])
    fix e assume "next_event H l ?run MODEL_ACTION_REQUESTED ?p s e"
    then show "transition s e = Inr ?u"
      by (intro invoked_transition [OF valid st c(1,3,4)]) (simp_all add: next_event_def)
  qed (use ids st in \<open>simp_all add: canon_obj is_terminal_iff\<close>)
  let ?s = "advance H s e ?u" and ?q = "action_payload c ?i a"
  let ?j = "runtime_event_id ?run (next_sequence s + 1) MODEL_ACTION_PROPOSED"
  let ?t = "?s\<lparr>status := ACTION_PENDING, active_model_action_event_id := Some ?j\<rparr>"
  have valid2: "valid_state ?s" using replay_state_inv [OF e(4)] by (simp add: state_inv_def core_inv_def)
  obtain f w' where f: "append_event R ?run MODEL_ACTION_PROPOSED ?q v = (Inr (advance H ?s f ?t), w')"
      "next_event H (extended l ?run e) ?run MODEL_ACTION_PROPOSED ?q ?s f"
      "world_at (extended (extended l ?run e) ?run f) T w'"
      "replay H ?run (extended (extended l ?run e) ?run f ?run) = Inr (advance H ?s f ?t)"
  proof (rule append_accepted [OF R d e(3,4) canon_action])
    fix f assume f: "next_event H (extended l ?run e) ?run MODEL_ACTION_PROPOSED ?q ?s f"
    then have "transition ?s f = Inr (?s\<lparr>status := ACTION_PENDING, active_model_action_event_id := Some (ev_event_id f)\<rparr>)"
      using ids c(3) by (intro proposed_transition [where c = c, OF valid2 _ _ _ _ _ _ a])
        (simp_all add: next_event_def)
    moreover have "ev_event_id f = ?j" using f by (simp add: next_event_def)
    ultimately show "transition ?s f = Inr ?t" by simp
  qed (use ids in \<open>simp_all add: is_terminal_iff\<close>)
  let ?r = "\<lparr>da_event_id = ev_event_id f, da_invocation_id = ?i, da_context = c, da_action = a\<rparr>"
  have pending: "load_pending_model_action R ?run w' = (Inr ?r, w')"
    using e(2) f(2) f(4) a c stored_input_payload [OF c(1,2), of ?p ?i] stored_action_payload [OF a, of c ?i]
    by (intro load_pending_eval [OF R d f(3), where es = "l ?run" and e = e and s = "advance H ?s f ?t"])
       (simp_all add: next_event_def invocation_event_def get_def get_default_def)
  have "begin_model_action R c w = (Inr ?i, v)"
    using load_state_eq [OF R d w, of ?run] s st c e(1)
    by (simp add: begin_model_action_def bindA_def checkA_def)
  moreover have "persist_model_action R c ?i a v = (Inr ?r, w')"
    using load_state_eq [OF R d e(3), of ?run] e(4) f(1) pending c(3)
    by (simp add: persist_model_action_def bindA_def checkA_def)
  moreover have "action_pending s (advance H ?s f ?t) (da_event_id ?r)"
    using f(2) st by (simp add: action_pending_def next_event_def runtime_event_id_def)
  moreover have "further ?run [MODEL_ACTION_REQUESTED, MODEL_ACTION_PROPOSED] l (extended (extended l ?run e) ?run f)"
    using further_trans [OF further_extended [of ?run e l] further_extended [of ?run f]] e(2) f(2) by (simp add: next_event_def)
  ultimately show ?thesis using pending f(3,4)
    by (intro exI [of _ v] exI [of _ ?r] exI [of _ w'] exI [of _ "extended (extended l ?run e) ?run f"]
        exI [of _ "advance H ?s f ?t"]) simp
qed

lemma completion_eval:
  fixes R :: "('d, 'e, 'w) runtime"
  assumes R: "runtime_on H L S registry R" and d: "undisturbed R" and w: "world_at l T w"
    and t: "replay H (mi_run_id c) (l (mi_run_id c)) = Inr t" and p: "action_pending s t (da_event_id r)"
    and s: "budget_left s"
    and c: "mi_run_id c \<noteq> []" "mi_state_status c = READY" "mi_turn_index c = turn_index s" "mi_step_id c = next_step_id s"
    and r: "load_pending_model_action R (mi_run_id c) w = (Inr r, w)" "da_context r = c"
      "da_action r = FinalAnswer answer"
    and v: "verify_completion H answer c x = Inr v" "cr_outcome v = ACCEPTED"
  shows "\<exists>u l' w'. record_completion R c answer v w = (Inr u, w') \<and> status u = COMPLETED \<and>
    load_state R (mi_run_id c) w' = (Inr u, w') \<and> world_at l' T w' \<and> further (mi_run_id c) [COMPLETION_ACCEPTED] l l' \<and>
    replay H (mi_run_id c) (l' (mi_run_id c)) = Inr u \<and> turn_index u = turn_index s + 1"
proof -
  let ?run = "mi_run_id c" and ?p = "completion_payload c answer (H answer) (Some (da_event_id r)) v"
  note vc = verify_completion_Inr [OF v(1)]
  have valid: "valid_state t" using replay_state_inv [OF t] by (simp add: state_inv_def core_inv_def)
  have st: "status t = ACTION_PENDING" "turn_index t = turn_index s" "next_step_id t = next_step_id s"
      "active_model_action_event_id t = Some (da_event_id r)"
    using p by (simp_all add: action_pending_def next_step_id_def)
  obtain e w' where e: "append_event R ?run COMPLETION_ACCEPTED ?p w = (reduce H t e, w')"
      "next_event H l ?run COMPLETION_ACCEPTED ?p t e" "world_at (extended l ?run e) T w'"
    by (rule append_eval [OF R d w t canon_completion c(1)])
  obtain u where u: "transition t e = Inr u" "status u = COMPLETED" "turn_index u = turn_index s + 1"
    using accepted_transition [OF valid p s c(4), of "H answer" v e answer] vc e(2) st(2)
    by (auto simp: next_event_def)
  have live: "\<not> is_terminal t" using st by (simp add: is_terminal_iff)
  have a: "reduce H t e = Inr (advance H t e u)"
    using next_event_accepted [OF e(2) live u(1)] by (simp add: advance_def)
  have "record_completion R c answer v w = (Inr (advance H t e u), w')"
    using load_state_eq [OF R d w, of ?run] t st c r v(2) vc(1) e(1) a
    by (simp add: record_completion_def bindA_def checkA_def runtime_on_hash [OF R])
  moreover have "load_state R ?run w' = (Inr (advance H t e u), w')"
    using load_state_eq [OF R d e(3), of ?run] next_event_replay [OF e(2)] a by simp
  moreover have "further ?run [COMPLETION_ACCEPTED] l (extended l ?run e)"
    using further_extended [of ?run e l] e(2) by (simp add: next_event_def)
  moreover have "replay H ?run (extended l ?run e ?run) = Inr (advance H t e u)"
    using next_event_replay [OF e(2)] a by simp
  ultimately show ?thesis using u(2,3) e(3)
    by (intro exI [of _ "advance H t e u"] exI [of _ "extended l ?run e"] exI [of _ w']) simp
qed

end

end
