(* ===== verification/RecoveryRuns.thy ===== *)
theory RecoveryRuns
  imports RuntimeRuns
begin

section \<open>Recovering an interrupted call\<close>

text \<open>
  What recovery does with a run that stopped while a tool was running: with a stored receipt it
  records the outcome, without one it refuses a tool that may not be retried.
\<close>

definition crashes_at :: "ExecutionCheckpoint \<Rightarrow> error \<Rightarrow> injector \<Rightarrow> bool" where
  "crashes_at c0 x injector \<longleftrightarrow> (\<forall>c i. injector c i = (if c = c0 then Some x else None))"

lemma message_or_nonempty: "t \<noteq> [] \<Longrightarrow> message_or t d \<noteq> []"
  by (simp add: message_or_def split: json.split)

lemma outcome_transition:
  assumes "valid_state s" and "status s = TOOL_RUNNING" and "active_tool_call_id s = Some (tr_tool_call_id q)"
    and "tr_tool_call_id q \<noteq> []" and "ev_event_type e = fst (outcome_event q r)"
    and "payload e = snd (outcome_event q r)"
  shows "\<exists>u. transition s e = Inr u"
  using assms message_or_nonempty [of "''tool execution timed out''" "receipt_output r"]
    message_or_nonempty [of "''tool execution failed''" "receipt_output r"]
  by (cases "rc_outcome r")
     (simp_all add: outcome_event_def Let_def transition_def handler_defs expect_status_def
      expect_active_tool_def required_text_def ensure_def get_def get_default_def
      state_post_init_valid valid_state_def clear_gate_def fail_tool_def)

context runtime_stores
begin

lemma executeA_eval:
  fixes R :: "('d, 'e, 'w) runtime"
  assumes "runtime_on H L S registry R" and "world_at l T w"
    and "execute S registry (ru_runner R) (ru_injector R) i T = (r, T')"
  shows "executeA R i w = (r, w\<lparr>rw_tools := T'\<rparr>)"
  using assms by (simp add: executeA_def runtime_on_def world_at_def)

lemma world_at_same: "world_at l T w \<Longrightarrow> w\<lparr>rw_tools := T\<rparr> = w"
  by (simp add: world_at_def)

text \<open>Recovery of a running call is the execution of its request without a new start.\<close>

lemma recover_running:
  fixes R :: "('d, 'e, 'w) runtime"
  assumes R: "runtime_on H L S registry R" and c: "undisturbed R" and w: "world_at l T w"
    and s: "replay H run (l run) = Inr s" and st: "status s = TOOL_RUNNING" "active_tool_call_id s = Some k"
    and q: "load_active_request R run k w = (Inr q, w)"
  shows "recover R run w = run_effect R q None None None w"
  using load_state_eq [OF R c w, of run] assms(4-7)
  by (simp add: recover_def bindA_def checkA_def execute_request_def)

lemma loaded_request:
  fixes R :: "('d, 'e, 'w) runtime"
  assumes "runtime_on H L S registry R" and "load_active_request R run k w = (Inr q, w)"
  shows "wf_request q" and "tr_run_id q = run" and "tr_tool_call_id q = k"
proof -
  from assms(2) obtain e where "request_from run k (payload e) = Inr q"
    by (auto simp: load_active_request_def bindA_def liftA_def eventsA_def split: sum.splits option.splits)
  then show "wf_request q" "tr_run_id q = run" "tr_tool_call_id q = k"
    by (auto simp: request_from_def result_simps request_post_init_Inr_iff wf_request_def loads_render)
qed

lemma recover_recorded:
  fixes R :: "('d, 'e, 'w) runtime"
  assumes R: "runtime_on H L S registry R" and c: "undisturbed R" and w: "world_at l T w"
    and s: "replay H run (l run) = Inr s" and st: "status s = TOOL_RUNNING" "active_tool_call_id s = Some k"
    and q: "load_active_request R run k w = (Inr q, w)"
    and i: "build_intent H (tr_run_id q) (tr_tool_call_id q) (tr_tool_name q) (request_arguments q) = Inr i"
    and def: "resolve registry (tr_tool_name q) = Inr def"
    and stored: "intents (tw_store T) (in_effect_id i) = Some i" "receipts (tw_store T) (in_effect_id i) = Some r"
  shows "\<exists>x w'. recover R run w = (Inr x, w') \<and> rt_outcome x = EXECUTED \<and> rt_receipt x = Some r \<and>
    status (rt_state x) = after_outcome (rc_outcome r) \<and> rw_tools w' = T \<and>
    replay H run (log (rw_events w') run) = Inr (rt_state x)"
proof -
  note lq = loaded_request [OF R q]
  note built = built_intent [OF lq(1) i]
  have wt: "effects_ok (tw_store T)" using w by (simp add: world_at_def)
  have "execute S registry (ru_runner R) (ru_injector R) i T = (Inr r, T)"
    using built def wt stored by (intro execute_done) simp_all
  with executeA_eval [OF R w] world_at_same [OF w] have x: "executeA R i w = (Inr r, w)" by simp
  have r: "wf_receipt r" using receipt_key [OF wt stored(2)] by blast
  have valid: "valid_state s" using replay_state_inv [OF s] by (simp add: state_inv_def core_inv_def)
  let ?k = "fst (outcome_event q r)" and ?p = "snd (outcome_event q r)"
  have run: "run \<noteq> []" "k \<noteq> []" using wf_request_fields [OF lq(1)] lq by simp_all
  from append_eval [OF R c w s canon_outcome_event [OF r, of q], of ?k] run obtain e w' where
    e: "append_event R run ?k ?p w = (reduce H s e, w')" "next_event H l run ?k ?p s e"
      "world_at (extended l run e) T w'" by metis
  obtain u where u: "transition s e = Inr u"
    using outcome_transition [OF valid st(1), of q e r] st(2) lq(3) run e(2) by (auto simp: next_event_def)
  have "\<not> is_terminal s" using st by (simp add: is_terminal_iff)
  from next_event_accepted [OF e(2) this u] obtain t where t: "reduce H s e = Inr t" by simp
  let ?x = "(tool_result EXECUTED t)\<lparr>rt_authorization := None, rt_gate_evaluation := None,
    rt_gate_attempt := None, rt_receipt := Some r\<rparr>"
  have "recover R run w = (Inr ?x, w')"
    using recover_running [OF R c w s st q] i x e(1) t lq(2)
    by (simp add: run_effect_def bindA_def runtime_on_hash [OF R])
  moreover have "status t = after_outcome (rc_outcome r)" by (rule outcome_event_status [OF e(2) t])
  moreover have "replay H run (log (rw_events w') run) = Inr t"
    using next_event_replay [OF e(2)] t e(3) by (simp add: world_at_def)
  ultimately show ?thesis using e(3) by (intro exI [of _ ?x] exI [of _ w']) (simp add: world_at_def)
qed

lemma recover_unknown:
  fixes R :: "('d, 'e, 'w) runtime"
  assumes R: "runtime_on H L S registry R" and c: "undisturbed R" and w: "world_at l T w"
    and s: "replay H run (l run) = Inr s" and st: "status s = TOOL_RUNNING" "active_tool_call_id s = Some k"
    and q: "load_active_request R run k w = (Inr q, w)"
    and i: "build_intent H (tr_run_id q) (tr_tool_call_id q) (tr_tool_name q) (request_arguments q) = Inr i"
    and def: "resolve registry (tr_tool_name q) = Inr def" "\<not> td_retry_is_idempotent def"
    and stored: "intents (tw_store T) (in_effect_id i) = Some i" "receipts (tw_store T) (in_effect_id i) = None"
  shows "recover R run w = (Inl UnsafeToolRetryError, w)"
proof -
  note lq = loaded_request [OF R q]
  note built = built_intent [OF lq(1) i]
  have wt: "effects_ok (tw_store T)" using w by (simp add: world_at_def)
  have "execute S registry (ru_runner R) (ru_injector R) i T = (Inl UnsafeToolRetryError, T)"
    using execute_pending [OF _ wt _ stored, of registry def] built def by simp
  with executeA_eval [OF R w] world_at_same [OF w] have "executeA R i w = (Inl UnsafeToolRetryError, w)" by simp
  then show ?thesis
    using recover_running [OF R c w s st q] i by (simp add: run_effect_def bindA_def runtime_on_hash [OF R])
qed

subsection \<open>A crash during the execution, and its recovery\<close>

abbreviation request_call :: "ToolRequest \<Rightarrow> tool_call" where
  "request_call q \<equiv> \<lparr>tc_tool_name = tr_tool_name q, tc_arguments = request_arguments q, tc_key = request_key H q\<rparr>"

lemma run_effect_crash:
  fixes R :: "('d, 'e, 'w) runtime"
  assumes R: "runtime_on H L S registry R" and crash: "crashes_at c0 x (ru_injector R)"
    and w: "world_at l T w" and q: "wf_request q"
    and def: "resolve registry (tr_tool_name q) = Inr def" and key: "request_key H q \<noteq> []"
    and new: "intents (tw_store T) (request_key H q) = None" "receipts (tw_store T) (request_key H q) = None"
    and ran: "ru_runner R (tr_tool_name q) (request_arguments q) (request_key H q) (tw_outside T) = (Returned out, outside)"
    and out: "canon (JObj out)"
  obtains w' T' i where "run_effect R q d ev n w = (Inl x, w')" and "world_at l T' w'"
    and "build_intent H (tr_run_id q) (tr_tool_call_id q) (tr_tool_name q) (request_arguments q) = Inr i"
    and "in_effect_id i = request_key H q" and "intents (tw_store T') (request_key H q) = Some i"
    and "receipts (tw_store T') (request_key H q) =
      (if c0 = AFTER_RECEIPT_PERSISTED then Some (success_receipt H q out) else None)"
    and "tw_calls T' = tw_calls T @ (if c0 = AFTER_INTENT_PERSISTED then [] else [request_call q])"
proof -
  obtain i where i: "build_intent H (tr_run_id q) (tr_tool_call_id q) (tr_tool_name q) (request_arguments q) = Inr i"
    using request_intent [where H = H, OF q key] by blast
  note built = built_intent [OF q i]
  then have k: "in_effect_id i = request_key H q" by (auto simp: derive_effect_id_def result_simps)
  have call: "call_of i = request_call q" using built k by (simp add: call_of_def idempotency_key_def)
  have wt: "effects_ok (tw_store T)" using w by (simp add: world_at_def)
  have c: "ru_injector R c i = (if c = c0 then Some x else None)" for c using crash by (simp add: crashes_at_def)
  have res: "resolve registry (in_tool_name i) = Inr def" "wf_intent H i" using def built by simp_all
  obtain d1 where d1: "effects_ok d1" "intents d1 = (intents (tw_store T))(in_effect_id i \<mapsto> i)"
      "receipts d1 = receipts (tw_store T)" "execute S registry (ru_runner R) (ru_injector R) i T =
      (case ru_injector R AFTER_INTENT_PERSISTED i of Some e \<Rightarrow> (Inl e, T\<lparr>tw_store := d1\<rparr>)
       | None \<Rightarrow> invoke_and_record S (ru_runner R) (ru_injector R) i (T\<lparr>tw_store := d1\<rparr>))"
    by (rule execute_new [OF res(1) wt res(2)]) (use new k in simp)
  have rec: "receipt_for i (Returned out) = Inr (success_receipt H q out)"
    using k key out by (intro success_receipt_for) simp_all
  have wf: "wf_receipt (success_receipt H q out)" "rc_effect_id (success_receipt H q out) = in_effect_id i"
    using receipt_for_wf [OF rec] by auto
  with save_receipt_new [OF d1(1) wf(1)] d1 new k obtain d2 where d2:
    "st_save_receipt S d1 (success_receipt H q out) = Inr d2" "effects_ok d2" "intents d2 = intents d1"
    "receipts d2 = (receipts d1)(in_effect_id i \<mapsto> success_receipt H q out)" by auto
  have ran': "ru_runner R (in_tool_name i) (intent_arguments i) (idempotency_key i) (tw_outside T) = (Returned out, outside)"
    using ran built k by (simp add: idempotency_key_def)
  let ?T = "if c0 = AFTER_INTENT_PERSISTED then T\<lparr>tw_store := d1\<rparr>
    else \<lparr>tw_store = (if c0 = AFTER_RECEIPT_PERSISTED then d2 else d1), tw_outside = outside,
      tw_calls = tw_calls T @ [call_of i]\<rparr>"
  have "execute S registry (ru_runner R) (ru_injector R) i T = (Inl x, ?T)"
    using d1(4) d2(1) ran' rec
    by (cases c0) (simp_all add: c invoke_and_record_def bindA_def invokeA_def storeA_def reach_checkpoint_def)
  from executeA_eval [OF R w this]
  have run: "run_effect R q d ev n w = (Inl x, w\<lparr>rw_tools := ?T\<rparr>)"
    by (simp add: run_effect_def bindA_def runtime_on_hash [OF R] i)
  show thesis
  proof (rule that [OF run _ i k])
    show "world_at l ?T (w\<lparr>rw_tools := ?T\<rparr>)" using w d1(1) d2(2) by (simp add: world_at_def)
  qed (use d1 d2 new k call in simp_all)
qed

text \<open>What a recovery reports, and how often the tool was called in the end.\<close>

definition recovered_as ::
  "ToolRequest \<Rightarrow> payload \<Rightarrow> tool_call list \<Rightarrow> RuntimeToolResult result \<times> ('d, 'e, 'w) runtime_world \<Rightarrow> bool" where
  "recovered_as q out cs x \<longleftrightarrow> (\<exists>r w. x = (Inr r, w) \<and> rt_outcome r = EXECUTED \<and>
     rt_receipt r = Some (success_receipt H q out) \<and> status (rt_state r) = VERIFYING \<and> tw_calls (rw_tools w) = cs)"

lemma crash_recovery:
  fixes R R1 :: "('d, 'e, 'w) runtime"
  assumes R: "runtime_on H L S registry R" and c: "undisturbed R" "\<forall>c i. ru_injector R c i = None"
    and R1: "runtime_on H L S registry R1" and c1: "undisturbed R1" and crash: "crashes_at c0 x (ru_injector R1)"
    and same: "ru_runner R1 = ru_runner R" "ru_context R1 = ru_context R"
    and w: "world_at l T w" and q: "wf_request q" and s: "replay H (tr_run_id q) (l (tr_run_id q)) = Inr s"
    and st: "status s = READY \<or> (status s = ACTION_PENDING \<and> tr_model_action_event_id q \<noteq> None \<and>
      active_model_action_event_id s = tr_model_action_event_id q)" and budget: "budget_left s"
    and d: "authorize q (ru_context R) = Inr d" "ad_outcome d = ALLOW"
    and def: "resolve registry (tr_tool_name q) = Inr def" and key: "request_key H q \<noteq> []"
    and new: "intents (tw_store T) (request_key H q) = None" "receipts (tw_store T) (request_key H q) = None"
    and ran: "\<forall>v. \<exists>v'. ru_runner R (tr_tool_name q) (request_arguments q) (request_key H q) v = (Returned out, v')"
    and out: "canon (JObj out)"
  shows "\<exists>w1. submit R1 q w = (Inl x, w1) \<and>
    tw_calls (rw_tools w1) = tw_calls T @ (if c0 = AFTER_INTENT_PERSISTED then [] else [request_call q]) \<and>
    (if c0 \<noteq> AFTER_RECEIPT_PERSISTED \<and> \<not> td_retry_is_idempotent def
     then recover R (tr_run_id q) w1 = (Inl UnsafeToolRetryError, w1)
     else recovered_as q out (tw_calls T @ replicate (if c0 = AFTER_TOOL_INVOKED then 2 else 1) (request_call q))
       (recover R (tr_run_id q) w1))"
proof -
  obtain v l' s' where v: "submit R1 q w = run_effect R1 q (Some d) None None v" "world_at l' T v"
      "latest_request l' q" "further (tr_run_id q) [TOOL_REQUESTED, TOOL_AUTHORIZED, TOOL_STARTED] l l'"
      "replay H (tr_run_id q) (l' (tr_run_id q)) = Inr s'" "status s' = TOOL_RUNNING"
      "active_tool_call_id s' = Some (tr_tool_call_id q)" "active_step_id s' = Some (tr_step_id q)"
    by (rule submit_reaches [OF R1 c1 w q s st budget d(1) [folded same] d(2)])
  obtain v' where v': "ru_runner R1 (tr_tool_name q) (request_arguments q) (request_key H q) (tw_outside T) = (Returned out, v')"
    using ran same(1) by metis
  obtain w1 T' i where w1: "run_effect R1 q (Some d) None None v = (Inl x, w1)" "world_at l' T' w1"
      "build_intent H (tr_run_id q) (tr_tool_call_id q) (tr_tool_name q) (request_arguments q) = Inr i"
      "in_effect_id i = request_key H q" "intents (tw_store T') (request_key H q) = Some i"
      "receipts (tw_store T') (request_key H q) =
        (if c0 = AFTER_RECEIPT_PERSISTED then Some (success_receipt H q out) else None)"
      "tw_calls T' = tw_calls T @ (if c0 = AFTER_INTENT_PERSISTED then [] else [request_call q])"
    by (rule run_effect_crash [OF R1 crash v(2) q def key new v' out])
  have calls: "tw_calls (rw_tools w1) = tw_calls T @ (if c0 = AFTER_INTENT_PERSISTED then [] else [request_call q])"
    using w1(2,7) by (simp add: world_at_def)
  note lq = latest_request_load [OF R w1(2) q v(3)]
  have "if c0 \<noteq> AFTER_RECEIPT_PERSISTED \<and> \<not> td_retry_is_idempotent def
     then recover R (tr_run_id q) w1 = (Inl UnsafeToolRetryError, w1)
     else recovered_as q out (tw_calls T @ replicate (if c0 = AFTER_TOOL_INVOKED then 2 else 1) (request_call q))
       (recover R (tr_run_id q) w1)"
  proof (cases "c0 = AFTER_RECEIPT_PERSISTED")
    case True
    have r: "intents (tw_store T') (in_effect_id i) = Some i"
        "receipts (tw_store T') (in_effect_id i) = Some (success_receipt H q out)" using True w1 by simp_all
    from recover_recorded [OF R c(1) w1(2) v(5-7) lq w1(3) def r] True w1(7)
    show ?thesis by (auto simp: recovered_as_def success_receipt_def)
  next
    case False
    have r: "intents (tw_store T') (in_effect_id i) = Some i" "receipts (tw_store T') (in_effect_id i) = None"
      using False w1 by simp_all
    show ?thesis
    proof (cases "td_retry_is_idempotent def")
      case True
      have m: "may_invoke def (tw_store T') j"
        if "build_intent H (tr_run_id q) (tr_tool_call_id q) (tr_tool_name q) (request_arguments q) = Inr j" for j
        using that w1(3) r True by (simp add: may_invoke_def)
      obtain v'' where v'': "ru_runner R (tr_tool_name q) (request_arguments q) (request_key H q) (tw_outside T') =
          (Returned out, v'')" using ran by metis
      from run_effect_eval [OF R c w1(2) q v(5-8) v(3) def key m v'' out, of None None None] obtain res w2 where
        e: "run_effect R q None None None w1 = (Inr res, w2)" "executed_once q out v'' [TOOL_SUCCEEDED] l' T' res w2" by blast
      then have "recover R (tr_run_id q) w1 = (Inr res, w2)"
        using recover_running [OF R c(1) w1(2) v(5-7) lq] by simp
      moreover have "tw_calls (rw_tools w2) = tw_calls T' @ [request_call q]" "rt_outcome res = EXECUTED"
          "rt_receipt res = Some (success_receipt H q out)" "status (rt_state res) = VERIFYING"
        using e(2) by (auto simp: executed_once_def world_at_def success_receipt_def)
      ultimately show ?thesis using True False w1(7) by (cases c0) (auto simp: recovered_as_def numeral_2_eq_2)
    next
      case False
      with recover_unknown [OF R c(1) w1(2) v(5-7) lq w1(3) def False r] \<open>c0 \<noteq> AFTER_RECEIPT_PERSISTED\<close>
      show ?thesis by simp
    qed
  qed
  with v(1) w1(1) calls show ?thesis by auto
qed

end

end
