(* ===== verification/RuntimeProperties.thy ===== *)
theory RuntimeProperties
  imports TurnRuns RecoveryRuns OwnershipProperties
begin

section \<open>Properties of the runtime\<close>

text \<open>
  The runtime on the SQLite stores, over runs of the whole system: which tool calls can happen,
  what a submission, a recovery and a model turn do, and what an out-of-place operation does to
  its run.
\<close>

subsection \<open>A sample runtime\<close>

text \<open>A constant hash of the right form, and the state of the sample run under it.\<close>

definition zeros :: string where
  "zeros = replicate 64 (CHR ''0'')"

definition zero_hash :: hash where
  "zero_hash t = zeros"

definition begun_state :: RunState where
  "begun_state = ready_state\<lparr>applied_event_fingerprints := [(''a'', zeros), (''b'', zeros)]\<rparr>"

lemma replay_begun: "replay zero_hash ''r'' started_events = Inr begun_state"
  by (simp add: replay_def replay_tail_def started_events_def begun_state_def ready_state_def initial_state_def
      empty_state_def reduce_eval zero_hash_def)

lemma begun_state_simps [simp]:
  "status begun_state = READY" "max_steps begun_state = Some 2" "turn_index begun_state = 0"
  by (simp_all add: begun_state_def ready_state_def empty_state_def)

lemma zeros_nonempty [simp]: "zeros \<noteq> []"
  by (simp add: zeros_def)

definition once_read :: ToolDefinition where
  "once_read = \<lparr>td_tool_name = ''read'', td_retry_is_idempotent = False, td_path_argument_names = [''path'']\<rparr>"

definition sample_runtime :: "(EventDB, EffectDB, unit) runtime" where
  "sample_runtime = \<lparr>ru_hash = zero_hash, ru_log = sqlite_events zero_hash,
     ru_effects = sqlite_effects zero_hash, ru_registry = [(''read'', once_read)],
     ru_runner = sample_runner, ru_injector = no_crash, ru_context = sample_context,
     ru_snapshots = False, ru_snapshot_injector = None, ru_gate_evaluator = (\<lambda>_ _. Inr None),
     ru_max_attempts = 3, ru_clock = (\<lambda>_. noon)\<rparr>"

definition created_event :: ExecutionEvent where
  "created_event = sample_event ''a'' 0 RUN_CREATED [(''max_steps'', JInt 2)]"

definition begun_event :: ExecutionEvent where
  "begun_event = sample_event ''b'' 1 RUN_STARTED []"

definition calm :: crashes where
  "calm = (no_crash, None)"

definition started_ops :: "(crashes \<times> runtime_op) list" where
  "started_ops = map (\<lambda>e. (calm, CallerAppends e)) started_events"

definition ready_world :: "(EventDB, EffectDB, unit) runtime_world" where
  "ready_world = run_system sample_runtime started_ops (start_world ())"

lemma sample_runtime_simps [simp]:
  "ru_hash sample_runtime = zero_hash" "ru_context sample_runtime = sample_context"
  "ru_registry sample_runtime = [(''read'', once_read)]" "ru_runner sample_runtime = sample_runner"
  "ru_injector sample_runtime = no_crash" "ru_snapshots sample_runtime = False"
  by (simp_all add: sample_runtime_def)

lemma sqlite_sample_runtime [simp]: "sqlite_runtime sample_runtime" "undisturbed sample_runtime"
  by (simp_all add: sqlite_runtime_def undisturbed_def sample_runtime_def)

lemma calm_sample_runtime [simp]: "with_crashes calm sample_runtime = sample_runtime"
  by (simp add: with_crashes_def calm_def sample_runtime_def)

lemma caller_id: "CHR '':'' \<notin> set i \<Longrightarrow> i \<noteq> runtime_event_id r n k"
  by (auto simp: runtime_event_id_def)

lemma wf_caller_appends:
  assumes "wf_event e" and "CHR '':'' \<notin> set (ev_event_id e)"
  shows "wf_runtime_op (CallerAppends e)"
  using assms caller_id by simp

lemma started_events_simps:
  "started_events = [created_event, begun_event]" "wf_event created_event" "wf_event begun_event"
  "ev_event_id created_event = ''a''" "ev_event_id begun_event = ''b''"
  "ev_run_id created_event = ''r''" "ev_run_id begun_event = ''r''"
  "ev_sequence created_event = 0" "ev_sequence begun_event = 1"
  by (simp_all add: started_events_def created_event_def begun_event_def wf_sample_event canon_obj)

lemma wf_started_ops: "\<forall>(c, p) \<in> set started_ops. wf_runtime_op p"
  by (simp add: started_ops_def started_events_simps wf_caller_appends del: wf_runtime_op.simps)

context runtime_stores
begin

text \<open>The next event of a run, appended by the caller.\<close>

lemma caller_append_eval:
  fixes R :: "('d, 'e, 'w) runtime"
  assumes R: "runtime_on H L S registry R" and w: "world_at l T w" and wf: "wf_event e"
    and fresh: "\<And>run. ev_event_id e \<notin> ev_event_id ` set (l run)"
    and n: "ev_sequence e = int (length (l (ev_run_id e)))"
    and id: "CHR '':'' \<notin> set (ev_event_id e)"
  shows "world_at (extended l (ev_run_id e) e) T (ignore (storeEventA R e) w)"
  using caller_append [OF R w wf fresh n caller_id [OF id]] by (metis ignore_def snd_conv)

end

lemma started_world_at:
  assumes "sqlite_runtime R" and "ru_hash R = zero_hash"
  shows "sqlite_runtime.world_at zero_hash ((\<lambda>_. [])(''r'' := started_events)) (fresh_world o0)
    (run_system R started_ops (start_world o0))"
proof -
  let ?R = "with_crashes calm R"
  have on: "runtime_on zero_hash (sqlite_events zero_hash) (sqlite_effects zero_hash) (ru_registry ?R) ?R"
    using sqlite_runtime_on [of ?R] assms by simp
  have none: "history empty_events = (\<lambda>_. [])"
    using sound_start [of R o0]
    by (intro ext stored_history_eq [of zero_hash]) (simp add: stored_history_def empty_events_def)
  have start: "sqlite_runtime.world_at zero_hash (\<lambda>_. []) (fresh_world o0) (start_world o0)"
    using sound_world_at [OF sound_start [of R o0]] assms(2) by (simp add: start_world_def none)
  from sqlite_runtime.caller_append_eval [OF on start started_events_simps(2)]
  have "sqlite_runtime.world_at zero_hash ((\<lambda>_. [])(''r'' := [created_event])) (fresh_world o0)
      (ignore (storeEventA ?R created_event) (start_world o0))"
    by (simp add: started_events_simps extended_def)
  from sqlite_runtime.caller_append_eval [OF on this started_events_simps(3)]
  show ?thesis
    by (simp add: started_events_simps extended_def run_system_def started_ops_def image_constant_conv)
qed

lemma ready_world_at:
  "sqlite_runtime.world_at zero_hash ((\<lambda>_. [])(''r'' := started_events)) (fresh_world ()) ready_world"
  unfolding ready_world_def by (rule started_world_at) simp_all

lemma ready_world_simps [simp]:
  "history (rw_events ready_world) = (\<lambda>_. [])(''r'' := started_events)"
  "rw_tools ready_world = fresh_world ()"
  using ready_world_at by (simp_all add: sqlite_runtime.world_at_def)

lemma sound_ready [simp]: "sound_world sample_runtime ready_world"
  unfolding ready_world_def by (rule run_system_sound [OF sqlite_sample_runtime(1) wf_started_ops sound_start])

lemma sample_decision:
  obtains d where "authorize (read_request ''a'') sample_context = Inr d" and "ad_outcome d = ALLOW"
  using sample_authorize make_decision_simps(1) by metis

definition served_world :: "(EventDB, EffectDB, unit) runtime_world" where
  "served_world = snd (submit sample_runtime (read_request ''a'') ready_world)"

lemma read_request_name:
  "tr_tool_name (read_request p) = ''read''" "tr_run_id (read_request p) = ''r''"
  "tr_tool_call_id (read_request p) = ''c''"
  by (simp_all add: read_request_def)

lemma resolve_once: "resolve [(''read'', once_read)] ''read'' = Inr once_read"
  by (simp add: resolve_def)

lemma sample_submitted:
  obtains r where "submit sample_runtime (read_request ''a'') ready_world = (Inr r, served_world)"
    and "sqlite_runtime.executed_once zero_hash (read_request ''a'') [] ()
      [TOOL_REQUESTED, TOOL_AUTHORIZED, TOOL_STARTED, TOOL_SUCCEEDED]
      ((\<lambda>_. [])(''r'' := started_events)) (fresh_world ()) r served_world"
proof -
  obtain d where d: "authorize (read_request ''a'') sample_context = Inr d" "ad_outcome d = ALLOW"
    by (rule sample_decision)
  have q: "tr_run_id (read_request ''a'') = ''r''" "tr_tool_name (read_request ''a'') = ''read''"
    by (simp_all add: read_request_def)
  have "\<exists>r w'. submit sample_runtime (read_request ''a'') ready_world = (Inr r, w') \<and> rt_authorization r = Some d \<and>
    sqlite_runtime.executed_once zero_hash (read_request ''a'') [] ()
      [TOOL_REQUESTED, TOOL_AUTHORIZED, TOOL_STARTED, TOOL_SUCCEEDED]
      ((\<lambda>_. [])(''r'' := started_events)) (fresh_world ()) r w'"
  proof (rule sqlite_runtime.submit_eval [OF sqlite_runtime_on [OF sqlite_sample_runtime(1),
      unfolded sample_runtime_simps] sqlite_sample_runtime(2) _ ready_world_at wf_read_request])
    show "\<forall>c i. ru_injector sample_runtime c i = None" by (simp add: no_crash_def)
    show "replay zero_hash (tr_run_id (read_request ''a'')) (((\<lambda>_. [])(''r'' := started_events))
      (tr_run_id (read_request ''a''))) = Inr begun_state"
      by (simp add: q replay_begun)
    show "resolve [(''read'', once_read)] (tr_tool_name (read_request ''a'')) = Inr once_read"
      by (simp add: resolve_once q)
    show "ru_runner sample_runtime (tr_tool_name (read_request ''a'')) (request_arguments (read_request ''a''))
      (zero_hash (effect_identity (tr_run_id (read_request ''a'')) (tr_tool_call_id (read_request ''a''))))
      (tw_outside (fresh_world ())) = (Returned [], ())"
      by (simp add: sample_runner_def)
  qed (simp_all add: d zero_hash_def budget_left_def canon_obj fresh_world_def empty_effects_def
      select_intent_def receipt_at_def select_receipt_def empty_state_def)
  then show thesis using that unfolding served_world_def by fastforce
qed

lemma served_calls:
  "tw_calls (rw_tools served_world) =
     [\<lparr>tc_tool_name = ''read'', tc_arguments = [(''path'', JStr ''a'')], tc_key = zeros\<rparr>]"
  by (rule sample_submitted)
     (auto simp: sqlite_runtime.executed_once_def sqlite_runtime.world_at_def success_receipt_def
        zero_hash_def fresh_world_def read_request_name)

lemma served_state:
  obtains t where "status t = VERIFYING"
    and "replay zero_hash ''r'' (history (rw_events served_world) ''r'') = Inr t"
proof -
  have "\<exists>t. status t = VERIFYING \<and> replay zero_hash ''r'' (history (rw_events served_world) ''r'') = Inr t"
    by (rule sample_submitted)
       (auto simp: sqlite_runtime.executed_once_def sqlite_runtime.world_at_def read_request_name)
  with that show thesis by blast
qed

lemma served_run: "served_world = run_system sample_runtime (started_ops @ [(calm, Submit (read_request ''a''))]) (start_world ())"
  by (simp add: served_world_def ready_world_def run_system_def ignore_def)

lemma wf_served_ops: "\<forall>(c, p) \<in> set (started_ops @ [(calm, Submit (read_request ''a''))]). wf_runtime_op p"
  using wf_started_ops by simp

subsection \<open>Which calls can happen\<close>

lemma sound_calls_authorized:
  assumes "sound_world R w" and "c \<in> set (tw_calls (rw_tools w))"
  shows "\<exists>q as g b bs. history (rw_events w) (tr_run_id q) = as @ [g, b] @ bs \<and> recorded as q \<and>
    grants g (tr_tool_call_id q) \<and> about_call TOOL_STARTED b (tr_tool_call_id q) \<and>
    tc_tool_name c = tr_tool_name q \<and> tc_arguments c = request_arguments q \<and>
    derive_effect_id (ru_hash R) (tr_run_id q) (tr_tool_call_id q) = Inr (tc_key c)"
  using assms unfolding sound_world_def authorized_call_def started_call_def by blast

lemma sound_calls_once:
  assumes "sound_world R w" and "c \<in> set (tw_calls (rw_tools w))"
    and "resolve (ru_registry R) (tc_tool_name c) = Inr def" and "\<not> td_retry_is_idempotent def"
  shows "length (filter (\<lambda>d. tc_key d = tc_key c) (tw_calls (rw_tools w))) = 1"
proof -
  have w: "world_ok select_intent receipt_at (ru_registry R) (rw_tools w)"
    using assms(1) by (simp add: sound_world_def)
  then obtain i where "select_intent (tw_store (rw_tools w)) (tc_key c) = Some i" "c = call_of i"
    using assms(2) by (auto simp: world_ok_def)
  with w assms(3,4) have "calls_for (tc_key c) (tw_calls (rw_tools w)) \<le> 1" by (auto simp: world_ok_def)
  moreover have "0 < calls_for (tc_key c) (tw_calls (rw_tools w))"
    using assms(2) by (auto simp: calls_for_zero simp flip: neq0_conv)
  ultimately show ?thesis unfolding calls_for_def by linarith
qed

text \<open>No tool call without a grant: whatever operations run, in whatever order, with whatever crashes,
  every tool call was made for a request its run's log records, with the request's tool and
  arguments and the key derived from it, and the log shows a grant of the call directly before
  its start.\<close>

theorem runtime_calls_authorized:
  assumes "sqlite_runtime R" and "\<forall>(c, p) \<in> set ops. wf_runtime_op p"
    and "w = run_system R ops (start_world outside)" and "c \<in> set (tw_calls (rw_tools w))"
  shows "\<exists>q as g b bs. history (rw_events w) (tr_run_id q) = as @ [g, b] @ bs \<and> recorded as q \<and>
    grants g (tr_tool_call_id q) \<and> about_call TOOL_STARTED b (tr_tool_call_id q) \<and>
    tc_tool_name c = tr_tool_name q \<and> tc_arguments c = request_arguments q \<and>
    derive_effect_id (ru_hash R) (tr_run_id q) (tr_tool_call_id q) = Inr (tc_key c)"
  using sound_calls_authorized [OF _ assms(4)] run_system_sound [OF assms(1,2) sound_start] assms(3) by blast

text \<open>A tool that may not be retried is called at most once per effect, whatever operations the system
  runs and wherever processes crash: submissions, gate decisions and recoveries together.\<close>

theorem runtime_calls_once:
  assumes "sqlite_runtime R" and "\<forall>(c, p) \<in> set ops. wf_runtime_op p"
    and "w = run_system R ops (start_world outside)" and "c \<in> set (tw_calls (rw_tools w))"
    and "resolve (ru_registry R) (tc_tool_name c) = Inr def" and "\<not> td_retry_is_idempotent def"
  shows "length (filter (\<lambda>d. tc_key d = tc_key c) (tw_calls (rw_tools w))) = 1"
  using sound_calls_once [OF _ assms(4-6)] run_system_sound [OF assms(1,2) sound_start] assms(3) by blast

subsection \<open>What a submission does\<close>

lemma no_receipt_without_intent:
  assumes "world_ok select_intent receipt_at registry T" and "select_intent (tw_store T) k = None"
  shows "receipt_at (tw_store T) k = None"
proof (rule ccontr)
  assume "receipt_at (tw_store T) k \<noteq> None"
  with assms(1) have "1 \<le> calls_for k (tw_calls T)" by (simp add: world_ok_def)
  then have "calls_for k (tw_calls T) \<noteq> 0" by simp
  then obtain c where "c \<in> set (tw_calls T)" "tc_key c = k" by (auto simp: calls_for_zero)
  with assms show False by (auto simp: world_ok_def)
qed

text \<open>C8: a granted submission runs to its receipt: when the run is ready (or the request answers its
  pending model action) with budget left, the policy allows the request, the effect is new and
  nothing crashes, submit calls the tool exactly once with the request's arguments, appends
  exactly the four events of the call, and returns the success receipt with the tool's output in
  a state that awaits verification.\<close>

theorem granted_submission_executes:
  assumes "sqlite_runtime R" and "undisturbed R" and "\<forall>c i. ru_injector R c i = None" and "sound_world R w"
    and "wf_request q" and "replay (ru_hash R) (tr_run_id q) (history (rw_events w) (tr_run_id q)) = Inr s"
    and "status s = READY \<or> (status s = ACTION_PENDING \<and> tr_model_action_event_id q \<noteq> None \<and>
      active_model_action_event_id s = tr_model_action_event_id q)" and "budget_left s"
    and "authorize q (ru_context R) = Inr d" and "ad_outcome d = ALLOW"
    and "resolve (ru_registry R) (tr_tool_name q) = Inr def"
    and "k = ru_hash R (effect_identity (tr_run_id q) (tr_tool_call_id q))" and "k \<noteq> []"
    and "load_intent (ru_hash R) (tw_store (rw_tools w)) k = Inr None"
    and "ru_runner R (tr_tool_name q) (request_arguments q) k (tw_outside (rw_tools w)) = (Returned out, outside)"
    and "canon (JObj out)"
  shows "\<exists>r w' receipt es. submit R q w = (Inr r, w') \<and> rt_outcome r = EXECUTED \<and>
    rt_authorization r = Some d \<and> rt_receipt r = Some receipt \<and> receipt_output receipt = out \<and>
    rc_outcome receipt = TOOL_SUCCEEDED_OUTCOME \<and> status (rt_state r) = VERIFYING \<and>
    tw_calls (rw_tools w') = tw_calls (rw_tools w) @
      [\<lparr>tc_tool_name = tr_tool_name q, tc_arguments = request_arguments q, tc_key = k\<rparr>] \<and>
    history (rw_events w') = (history (rw_events w))(tr_run_id q := history (rw_events w) (tr_run_id q) @ es) \<and>
    map ev_event_type es = [TOOL_REQUESTED, TOOL_AUTHORIZED, TOOL_STARTED, TOOL_SUCCEEDED] \<and>
    replay (ru_hash R) (tr_run_id q) (history (rw_events w') (tr_run_id q)) = Inr (rt_state r)"
proof -
  let ?l = "history (rw_events w)" and ?T = "rw_tools w"
  have w: "effects_ok (ru_hash R) (tw_store ?T)" "world_ok select_intent receipt_at (ru_registry R) ?T"
    using assms(4) by (simp_all add: sound_world_def)
  have i: "select_intent (tw_store ?T) k = None"
    using assms(14) sqlite.load_intent [OF w(1)] by (simp add: sqlite_effects_def)
  note r = no_receipt_without_intent [OF w(2) i]
  have "\<exists>r w'. submit R q w = (Inr r, w') \<and> rt_authorization r = Some d \<and>
    sqlite_runtime.executed_once (ru_hash R) q out outside [TOOL_REQUESTED, TOOL_AUTHORIZED, TOOL_STARTED, TOOL_SUCCEEDED]
      ?l ?T r w'"
    using assms(12-16) i r
    by (intro sqlite_runtime.submit_eval [OF sqlite_runtime_on [OF assms(1)] assms(2,3)
          sound_world_at [OF assms(4)] assms(5-11)]) simp_all
  then obtain r w' es where x: "submit R q w = (Inr r, w')" "rt_authorization r = Some d" "rt_outcome r = EXECUTED"
      "rt_receipt r = Some (success_receipt (ru_hash R) q out)" "status (rt_state r) = VERIFYING"
      "history (rw_events w') = ?l(tr_run_id q := ?l (tr_run_id q) @ es)"
      "map ev_event_type es = [TOOL_REQUESTED, TOOL_AUTHORIZED, TOOL_STARTED, TOOL_SUCCEEDED]"
      "replay (ru_hash R) (tr_run_id q) (?l (tr_run_id q) @ es) = Inr (rt_state r)"
      "tw_calls (rw_tools w') = tw_calls ?T @ [\<lparr>tc_tool_name = tr_tool_name q, tc_arguments = request_arguments q,
          tc_key = rc_effect_id (success_receipt (ru_hash R) q out)\<rparr>]"
    by (auto simp: sqlite_runtime.executed_once_def sqlite_runtime.world_at_def)
  have "receipt_output (success_receipt (ru_hash R) q out) = out"
    using assms(16) by (simp add: success_receipt_def receipt_output_def decoded_def loads_render)
  with x assms(12) show ?thesis
    by (intro exI [of _ r] exI [of _ w'] exI [of _ "success_receipt (ru_hash R) q out"] exI [of _ es])
       (simp add: success_receipt_def)
qed

lemma sample_call:
  "replay (ru_hash sample_runtime) (tr_run_id (read_request ''a''))
     (history (rw_events ready_world) (tr_run_id (read_request ''a''))) = Inr begun_state"
  "status begun_state = READY" "budget_left begun_state"
  "resolve (ru_registry sample_runtime) (tr_tool_name (read_request ''a'')) = Inr once_read"
  "zeros = ru_hash sample_runtime (effect_identity (tr_run_id (read_request ''a'')) (tr_tool_call_id (read_request ''a'')))"
  "zeros \<noteq> []"
  "load_intent (ru_hash sample_runtime) (tw_store (rw_tools ready_world)) zeros = Inr None"
  "ru_runner sample_runtime (tr_tool_name (read_request ''a'')) (request_arguments (read_request ''a'')) zeros v =
     (Returned [], v)"
  "\<forall>c i. ru_injector sample_runtime c i = None"
  "canon (JObj [])"
  by (simp_all add: read_request_name replay_begun budget_left_def resolve_once
      zero_hash_def fresh_world_def empty_effects_def load_intent_def select_intent_def sample_runner_def
      no_crash_def canon_obj)

theorem granted_submission_executes_witness:
  "\<exists>r w'. submit sample_runtime (read_request ''a'') ready_world = (Inr r, w') \<and> rt_outcome r = EXECUTED \<and>
     status (rt_state r) = VERIFYING \<and> length (tw_calls (rw_tools w')) = 1"
proof -
  obtain d where d: "authorize (read_request ''a'') (ru_context sample_runtime) = Inr d" "ad_outcome d = ALLOW"
    using sample_decision by auto
  from granted_submission_executes [OF sqlite_sample_runtime sample_call(9) sound_ready wf_read_request sample_call(1)
      disjI1 [OF sample_call(2)] sample_call(3) d sample_call(4-8,10)]
  show ?thesis by (fastforce simp: fresh_world_def)
qed

text \<open>Only an execution changes the tool world.\<close>

lemma append_keeps_tools:
  "triple (\<lambda>w. rw_tools w = T) (append_event R run k p) (\<lambda>_ w. rw_tools w = T) (\<lambda>w. rw_tools w = T)"
proof -
  let ?K = "\<lambda>w. rw_tools w = T"
  have reach: "triple ?K (reach_snapshot_checkpoint R c) (\<lambda>_. ?K) ?K" for c
    by (auto simp: reach_snapshot_checkpoint_def intro!: triple_return triple_raise split: option.split)
  have ask: "triple ?K (askA f) (\<lambda>_. ?K) ?K" for f :: "('a, 'b, 'c) runtime_world \<Rightarrow> 'x result"
    by (rule triple_ask)
  have full: "triple ?K (full_replay R run) (\<lambda>_. ?K) ?K"
    unfolding full_replay_def by (rule ask)
  have load: "triple ?K (load_state R run) (\<lambda>_. ?K) ?K"
    unfolding load_state_def
    by (rule triple_if, rule triple_seq [OF ask]) (auto intro!: triple_seq [OF reach] ask full split: option.split)
  have store: "triple ?K (storeEventA R e) (\<lambda>_. ?K) ?K" for e
    by (auto simp: triple_def storeEventA_def split: sum.split)
  have tick: "triple ?K (clockA R) (\<lambda>_. ?K) ?K" by (simp add: triple_def clockA_def)
  have lift: "triple ?K (liftA r) (\<lambda>_. ?K) ?K" for r :: "'x result" by (rule triple_lift)
  show ?thesis
    unfolding append_event_def
    by (rule triple_seq [OF load], rule triple_seq [OF tick], rule triple_seq [OF lift],
        rule triple_seq [OF store full])
qed

definition refusal :: "AuthorizationDecision \<Rightarrow> RuntimeToolResult \<Rightarrow> bool" where
  "refusal d r \<longleftrightarrow> rt_authorization r = Some d \<and> rt_receipt r = None \<and>
     rt_outcome r = (if ad_outcome d = DENY then DENIED else RESULT_AWAITING_GATE)"

text \<open>C13: without a grant nothing happens outside: when the policy denies or escalates a request, submit
  leaves the tools, their store and the world outside as they were, whatever else raises or
  crashes; its result has no receipt and is a denial or a gate as the policy decided.\<close>

theorem ungranted_submission_is_inert:
  assumes "authorize q (ru_context R) = Inr d" and "ad_outcome d \<noteq> ALLOW"
  shows "rw_tools (snd (submit R q w)) = rw_tools w \<and>
    (case fst (submit R q w) of Inl _ \<Rightarrow> True | Inr r \<Rightarrow> refusal d r)"
proof -
  let ?K = "\<lambda>v. rw_tools v = rw_tools w"
  have denied: "triple ?K (bindA (append_event R (tr_run_id q) TOOL_DENIED p) (\<lambda>s.
        returnA ((tool_result DENIED s)\<lparr>rt_authorization := Some d\<rparr>))) (\<lambda>r v. refusal d r \<and> ?K v) ?K"
    if "ad_outcome d = DENY" for p
    by (rule triple_seq [OF append_keeps_tools]) (auto intro!: triple_return simp: that refusal_def tool_result_def)
  have escalated: "triple ?K (bindA (liftA (build_proposal (ru_hash R) q d 1)) (\<lambda>g.
        bindA (append_event R (tr_run_id q) TOOL_ESCALATED (escalation_payload R g (tr_tool_call_id q))) (\<lambda>s.
        returnA ((tool_result RESULT_AWAITING_GATE s)\<lparr>rt_authorization := Some d, rt_gate_proposal := Some g\<rparr>))))
      (\<lambda>r v. refusal d r \<and> ?K v) ?K" if "ad_outcome d = ESCALATE"
    by (intro triple_bind_lift triple_seq [OF append_keeps_tools])
       (auto intro!: triple_return simp: that refusal_def tool_result_def)
  have "triple ?K (submit R q) (\<lambda>r v. refusal d r \<and> ?K v) ?K"
    unfolding submit_def
    by (rule triple_seq [OF append_keeps_tools], rule triple_bind_lift)
       (use assms denied escalated in \<open>auto split: AuthorizationOutcome.split\<close>)
  then show ?thesis
    by (cases "submit R q w"; cases "fst (submit R q w)") (auto dest: triple_returns triple_raises)
qed

theorem ungranted_submission_is_inert_witness:
  "rw_tools (snd (submit sample_runtime ((read_request ''a'')\<lparr>tr_tool_name := ''rm''\<rparr>) ready_world)) = fresh_world ()"
proof -
  let ?q = "(read_request ''a'')\<lparr>tr_tool_name := ''rm''\<rparr>"
  obtain d where "authorize ?q (ru_context sample_runtime) = Inr d" "ad_outcome d = DENY"
    by (simp add: authorize_def resolve_def sample_context_def make_decision_simps)
  from ungranted_submission_is_inert [OF this(1), of ready_world] this(2) show ?thesis by simp
qed

subsection \<open>Operations out of place\<close>

text \<open>C12: a submission out of place destroys its run: submit does not look at the status of the run before
  it persists the request, so a request submitted while the run is not ready for one (a second
  submission during a gate, say) raises, leaves its event in the append-only log, and from then
  on no extension of the log replays: every later operation on the run raises the same error.\<close>

theorem misplaced_submission_destroys_run:
  assumes "sqlite_runtime R" and "undisturbed R" and "sound_world R w" and "wf_request q"
    and "replay (ru_hash R) (tr_run_id q) (history (rw_events w) (tr_run_id q)) = Inr s"
    and "status s \<noteq> READY" and "status s \<noteq> ACTION_PENDING"
  shows "\<exists>x e w'. submit R q w = (Inl x, w') \<and>
    x = (if is_terminal s then TerminalStateError else InvalidTransitionError) \<and>
    ev_event_type e = TOOL_REQUESTED \<and>
    history (rw_events w') (tr_run_id q) = history (rw_events w) (tr_run_id q) @ [e] \<and>
    (\<forall>es. replay (ru_hash R) (tr_run_id q) (history (rw_events w') (tr_run_id q) @ es) = Inl x) \<and>
    load_state R (tr_run_id q) w' = (Inl x, w')"
proof -
  note on = sqlite_runtime_on [OF assms(1)] and at = sound_world_at [OF assms(3)]
  let ?x = "if is_terminal s then TerminalStateError else InvalidTransitionError"
  have refused: "reduce (ru_hash R) s e = Inl ?x"
    if e: "next_event (ru_hash R) (history (rw_events w)) (tr_run_id q) TOOL_REQUESTED (request_payload q) s e" for e
  proof -
    have "state_run_id s = tr_run_id q" "fingerprint_for s (ev_event_id e) = None"
      using e by (auto simp: next_event_def fresh_iff dest: replay_run_id)
    moreover have "transition s e = Inl InvalidTransitionError"
      using e assms(6,7) by (simp add: next_event_def transition_def on_tool_requested_def expect_status_def ensure_def)
    ultimately show ?thesis using e by (simp add: reduce_def next_event_def ensure_def)
  qed
  obtain e w' where e: "append_event R (tr_run_id q) TOOL_REQUESTED (request_payload q) w = (Inl ?x, w')"
      "ev_event_type e = TOOL_REQUESTED"
      "sqlite_runtime.world_at (ru_hash R) (extended (history (rw_events w)) (tr_run_id q) e) (rw_tools w) w'"
      "\<forall>es. replay (ru_hash R) (tr_run_id q) (history (rw_events w) (tr_run_id q) @ e # es) = Inl ?x"
    by (rule sqlite_runtime.append_poisons [OF on assms(2) at assms(5) canon_request_payload
          wf_request_fields(1) [OF assms(4)] refused])
  have h: "history (rw_events w') (tr_run_id q) = history (rw_events w) (tr_run_id q) @ [e]"
    using e(3) by (simp add: sqlite_runtime.world_at_def)
  have "load_state R (tr_run_id q) w' = (Inl ?x, w')"
    using sqlite_runtime.load_state_eq [OF on assms(2) e(3), of "tr_run_id q"] e(4) by simp
  with e h show ?thesis
    by (intro exI [of _ ?x] exI [of _ e] exI [of _ w']) (simp add: submit_def bindA_def)
qed

theorem misplaced_submission_destroys_run_witness:
  "\<exists>x w'. submit sample_runtime (read_request ''a'') served_world = (Inl x, w') \<and>
     load_state sample_runtime ''r'' w' = (Inl InvalidTransitionError, w')"
proof -
  obtain t where t: "status t = VERIFYING" "replay zero_hash ''r'' (history (rw_events served_world) ''r'') = Inr t"
    by (rule served_state)
  have sound: "sound_world sample_runtime served_world"
    unfolding served_run by (rule run_system_sound [OF sqlite_sample_runtime(1) wf_served_ops sound_start])
  have q: "tr_run_id (read_request ''a'') = ''r''" by (simp add: read_request_def)
  have s: "replay (ru_hash sample_runtime) (tr_run_id (read_request ''a''))
      (history (rw_events served_world) (tr_run_id (read_request ''a''))) = Inr t"
    using t by (simp add: q)
  from misplaced_submission_destroys_run [OF sqlite_sample_runtime sound wf_read_request s] t
  show ?thesis by (auto simp: q is_terminal_iff)
qed

subsection \<open>Crash and recovery\<close>

text \<open>C3: crash recovery end to end: a process that crashes at any checkpoint of a granted submission leaves
  a world from which a new process recovers without a lost or doubled effect. After the receipt
  was stored, recovery records the outcome and calls nothing. Before that, a tool that may be
  retried is called again and its run goes on; for one that may not, recovery refuses and changes
  nothing, also when the tool was never reached.\<close>

theorem crashed_submission_recovers:
  assumes "sqlite_runtime R" and "undisturbed R" and "\<forall>c i. ru_injector R c i = None" and "sound_world R w"
    and "wf_request q" and "replay (ru_hash R) (tr_run_id q) (history (rw_events w) (tr_run_id q)) = Inr s"
    and "status s = READY" and "budget_left s"
    and "authorize q (ru_context R) = Inr d" and "ad_outcome d = ALLOW"
    and "resolve (ru_registry R) (tr_tool_name q) = Inr def"
    and "k = ru_hash R (effect_identity (tr_run_id q) (tr_tool_call_id q))" and "k \<noteq> []"
    and "load_intent (ru_hash R) (tw_store (rw_tools w)) k = Inr None"
    and "\<forall>v. \<exists>v'. ru_runner R (tr_tool_name q) (request_arguments q) k v = (Returned out, v')"
    and "canon (JObj out)"
    and "c = \<lparr>tc_tool_name = tr_tool_name q, tc_arguments = request_arguments q, tc_key = k\<rparr>"
  shows "\<exists>w1. submit (with_crashes (crash_at c0, None) R) q w = (Inl InjectedCrash, w1) \<and>
    tw_calls (rw_tools w1) = tw_calls (rw_tools w) @ (if c0 = AFTER_INTENT_PERSISTED then [] else [c]) \<and>
    (if c0 \<noteq> AFTER_RECEIPT_PERSISTED \<and> \<not> td_retry_is_idempotent def
     then recover R (tr_run_id q) w1 = (Inl UnsafeToolRetryError, w1)
     else \<exists>r receipt w2. recover R (tr_run_id q) w1 = (Inr r, w2) \<and> rt_outcome r = EXECUTED \<and>
       rt_receipt r = Some receipt \<and> receipt_output receipt = out \<and> status (rt_state r) = VERIFYING \<and>
       tw_calls (rw_tools w2) = tw_calls (rw_tools w) @ replicate (if c0 = AFTER_TOOL_INVOKED then 2 else 1) c)"
proof -
  let ?R1 = "with_crashes (crash_at c0, None) R"
  have w: "effects_ok (ru_hash R) (tw_store (rw_tools w))"
      "world_ok select_intent receipt_at (ru_registry R) (rw_tools w)"
    using assms(4) by (simp_all add: sound_world_def)
  have i: "select_intent (tw_store (rw_tools w)) k = None"
    using assms(14) sqlite.load_intent [OF w(1)] by (simp add: sqlite_effects_def)
  have R1: "runtime_on (ru_hash R) (sqlite_events (ru_hash R)) (sqlite_effects (ru_hash R)) (ru_registry R) ?R1"
    using sqlite_runtime_on [of ?R1] assms(1) by simp
  have c1: "undisturbed ?R1" "crashes_at c0 InjectedCrash (ru_injector ?R1)"
      "ru_runner ?R1 = ru_runner R" "ru_context ?R1 = ru_context R"
    using assms(2) by (auto simp: undisturbed_def with_crashes_def crashes_at_def crash_at_def)
  have out: "receipt_output (success_receipt (ru_hash R) q out) = out"
    using assms(16) by (simp add: success_receipt_def receipt_output_def decoded_def loads_render)
  from sqlite_runtime.crash_recovery [OF sqlite_runtime_on [OF assms(1)] assms(2,3) R1 c1(1,2) c1(3,4)
      sound_world_at [OF assms(4)] assms(5,6) disjI1 [OF assms(7)] assms(8-11), of out]
    assms(12-16) i no_receipt_without_intent [OF w(2) i] assms(17) out
  show ?thesis unfolding sqlite_runtime.recovered_as_def by (auto split: if_splits)
qed

theorem crashed_submission_recovers_witness:
  "(\<exists>w1 r w2. submit (with_crashes (crash_at AFTER_RECEIPT_PERSISTED, None) sample_runtime) (read_request ''a'') ready_world =
       (Inl InjectedCrash, w1) \<and>
     recover sample_runtime ''r'' w1 = (Inr r, w2) \<and> length (tw_calls (rw_tools w2)) = 1) \<and>
   (\<exists>w1. submit (with_crashes (crash_at AFTER_TOOL_INVOKED, None) sample_runtime) (read_request ''a'') ready_world =
       (Inl InjectedCrash, w1) \<and> recover sample_runtime ''r'' w1 = (Inl UnsafeToolRetryError, w1))"
proof -
  obtain d where d: "authorize (read_request ''a'') (ru_context sample_runtime) = Inr d" "ad_outcome d = ALLOW"
    using sample_decision by auto
  have ran: "\<forall>v. \<exists>v'. ru_runner sample_runtime (tr_tool_name (read_request ''a'')) (request_arguments (read_request ''a''))
      zeros v = (Returned [], v')" using sample_call(8) by blast
  note run = crashed_submission_recovers [OF sqlite_sample_runtime sample_call(9) sound_ready wf_read_request
      sample_call(1-3) d sample_call(4-7) ran sample_call(10) refl]
  show ?thesis
    using run [of AFTER_RECEIPT_PERSISTED] run [of AFTER_TOOL_INVOKED]
    by (intro conjI) (fastforce simp: read_request_name fresh_world_def once_read_def)+
qed

end
