(* ===== verification/GateRuns.thy ===== *)
theory GateRuns
  imports RuntimeRuns OwnershipProperties
begin

section \<open>Gates that a person opens\<close>

text \<open>
  A request the policy escalates waits at its gate; the approval of a pair gate, or an answer the
  evaluator passes at a user gate, lets exactly this request run to its receipt.
\<close>

subsection \<open>The open gate\<close>

definition gate_open :: "('d, 'e, 'w) runtime \<Rightarrow> ToolRequest \<Rightarrow> GateProposal \<Rightarrow> RunState \<Rightarrow> bool" where
  "gate_open R q g s \<longleftrightarrow>
     status s = AWAITING_GATE \<and> active_tool_call_id s = Some (tr_tool_call_id q) \<and>
     active_step_id s = Some (tr_step_id q) \<and>
     active_gate_proposal_digest s = Some (gr_proposal_digest (gp_reference g)) \<and>
     active_gate_revision s = Some (gr_revision (gp_reference g)) \<and>
     active_gate_mode s = Some (mode_value (gp_ownership_mode g)) \<and> active_gate_attempts s = 0 \<and>
     active_gate_max_attempts s = (if gp_ownership_mode g = USER_GATE then Some (ru_max_attempts R) else None)"

definition gate_asked :: "('d, 'e, 'w) runtime \<Rightarrow> (string \<Rightarrow> ExecutionEvent list) \<Rightarrow> ToolRequest \<Rightarrow> GateProposal \<Rightarrow> bool" where
  "gate_asked R l q g \<longleftrightarrow> (\<exists>es e. l (tr_run_id q) = es @ [e] \<and> ev_event_type e = TOOL_ESCALATED \<and>
     payload e = escalation_payload R g (tr_tool_call_id q))"

lemma built_proposal:
  assumes "build_proposal H q d n = Inr g"
  shows "gr_run_id (gp_reference g) = tr_run_id q" "gr_tool_call_id (gp_reference g) = tr_tool_call_id q"
    "gr_revision (gp_reference g) = n" "gr_proposal_digest (gp_reference g) \<noteq> []" "1 \<le> n"
    "gp_step_id g = tr_step_id q" "gp_tool_name g = tr_tool_name q" "gp_arguments_json g = tr_arguments_json q"
    "gp_ownership_mode g \<noteq> AUTO" "gp_reasons g = ad_reasons d"
  using assms by (auto simp: build_proposal_def make_reference_def hex_digest_def Let_def result_simps
      split: option.splits)

definition escalated_state :: "('d, 'e, 'w) runtime \<Rightarrow> GateProposal \<Rightarrow> RunState \<Rightarrow> RunState" where
  "escalated_state R g s = s\<lparr>status := AWAITING_GATE,
     active_gate_proposal_digest := Some (gr_proposal_digest (gp_reference g)),
     active_gate_revision := Some (gr_revision (gp_reference g)),
     active_gate_mode := Some (mode_value (gp_ownership_mode g)), active_gate_attempts := 0,
     active_gate_max_attempts := (if gp_ownership_mode g = USER_GATE then Some (ru_max_attempts R) else None)\<rparr>"

lemma escalation_fields:
  "get (escalation_payload R g c) ''tool_call_id'' = JStr c"
  "get (escalation_payload R g c) ''proposal_digest'' = JStr (gr_proposal_digest (gp_reference g))"
  "get (escalation_payload R g c) ''revision'' = JInt (gr_revision (gp_reference g))"
  "get (escalation_payload R g c) ''ownership_mode'' = JStr (mode_value (gp_ownership_mode g))"
  "get (escalation_payload R g c) ''reasons'' = JArr (map JStr (gp_reasons g))"
  "gp_ownership_mode g = USER_GATE \<Longrightarrow> get (escalation_payload R g c) ''max_attempts'' = JInt (ru_max_attempts R)"
  by (simp_all add: escalation_payload_def attempts_entry_def get_def get_default_def)

lemma escalation_transition:
  assumes "valid_state s" and "status s = TOOL_PENDING" and "active_tool_call_id s = Some (tr_tool_call_id q)"
    and "tr_tool_call_id q \<noteq> []" and "build_proposal H q d n = Inr g" and "1 \<le> ru_max_attempts R"
    and "ev_event_type e = TOOL_ESCALATED" and "payload e = escalation_payload R g (tr_tool_call_id q)"
  shows "transition s e = Inr (escalated_state R g s)"
proof -
  note g = built_proposal [OF assms(5)]
  have "gate_limit e = Inr (mode_value (gp_ownership_mode g),
      if gp_ownership_mode g = USER_GATE then Some (ru_max_attempts R) else None)"
    using g(9) assms(6) escalation_fields [where R = R and g = g and c = "tr_tool_call_id q"]
    by (cases "gp_ownership_mode g")
       (simp_all add: gate_limit_def required_text_def required_positive_int_def assms(8) ensure_def)
  then show ?thesis
    using assms(1-4) g escalation_fields [where R = R and g = g and c = "tr_tool_call_id q"]
    by (auto simp: transition_def assms(7,8) on_tool_escalated_def expect_status_def expect_active_tool_def
        required_text_def required_positive_int_def ensure_def state_post_init_Inr_iff valid_state_def escalated_state_def)
qed

text \<open>An approval opens a pair gate, a passed evaluation a user gate.\<close>

lemma gate_fields:
  "get (resolution_payload v) ''tool_call_id'' = JStr (gr_tool_call_id (gs_reference v))"
  "get (resolution_payload v) ''proposal_digest'' = JStr (gr_proposal_digest (gs_reference v))"
  "get (resolution_payload v) ''revision'' = JInt (gr_revision (gs_reference v))"
  "get (evaluation_payload a ev n m) ''tool_call_id'' = JStr (gr_tool_call_id (ga_reference a))"
  "get (evaluation_payload a ev n m) ''proposal_digest'' = JStr (gr_proposal_digest (ga_reference a))"
  "get (evaluation_payload a ev n m) ''revision'' = JInt (gr_revision (ga_reference a))"
  "get (evaluation_payload a ev n m) ''attempt'' = JInt n"
  "get (evaluation_payload a ev n m) ''max_attempts'' = JInt m"
  "get (evaluation_payload a ev n m) ''outcome'' = JStr (evaluation_value (ge_outcome ev))"
  "get (evaluation_payload a ev n m) ''reason'' = JStr (ge_reason ev)"
  by (simp_all add: resolution_payload_def evaluation_payload_def Let_def get_def get_default_def)

lemma active_gate_passed:
  assumes "gate_open R q g s" and "build_proposal H q d n = Inr g" and "tr_tool_call_id q \<noteq> []"
    and "get (payload e) ''tool_call_id'' = JStr (tr_tool_call_id q)"
    and "get (payload e) ''proposal_digest'' = JStr (gr_proposal_digest (gp_reference g))"
    and "get (payload e) ''revision'' = JInt (gr_revision (gp_reference g))"
  shows "expect_active_gate s e k = k"
  using assms(1,3-6) built_proposal [OF assms(2)]
  by (simp add: expect_active_gate_def expect_active_tool_def required_text_def required_positive_int_def ensure_def
      gate_open_def)

lemma approval_transition:
  assumes "valid_state s" and "gate_open R q g s" and "build_proposal H q d n = Inr g" and "tr_tool_call_id q \<noteq> []"
    and "gp_ownership_mode g = PAIR" and "gs_reference v = gp_reference g"
    and "ev_event_type e = GATE_APPROVED" and "payload e = resolution_payload v"
  shows "transition s e = Inr ((clear_gate s)\<lparr>status := TOOL_READY\<rparr>)"
proof -
  have "expect_active_gate s e k = k" for k :: "RunState result"
    using built_proposal [OF assms(3)]
    by (intro active_gate_passed [OF assms(2-4)]) (simp_all add: assms(6,8) gate_fields)
  then show ?thesis
    using assms(1,2,5)
    by (simp add: transition_def assms(7) on_gate_approved_def expect_status_def gate_open_def ensure_def
        state_post_init_Inr_iff valid_state_def clear_gate_def)
qed

lemma pass_transition:
  assumes "valid_state s" and "gate_open R q g s" and "build_proposal H q d n = Inr g" and "tr_tool_call_id q \<noteq> []"
    and "gp_ownership_mode g = USER_GATE" and "ga_reference a = gp_reference g" and "1 \<le> ru_max_attempts R"
    and "ge_outcome ev = GATE_PASS" and "ge_reason ev \<noteq> []"
    and "ev_event_type e = GATE_EVALUATED" and "payload e = evaluation_payload a ev 1 (ru_max_attempts R)"
  shows "transition s e = Inr ((clear_gate s)\<lparr>status := TOOL_READY\<rparr>)"
proof -
  have "expect_active_gate s e k = k" for k :: "RunState result"
    using built_proposal [OF assms(3)]
    by (intro active_gate_passed [OF assms(2-4)]) (simp_all add: assms(6,11) gate_fields)
  then show ?thesis
    using assms(1,2,5,7-9)
    by (simp add: transition_def assms(10,11) on_gate_evaluated_def expect_status_def gate_open_def ensure_def
        required_text_def required_positive_int_def gate_fields state_post_init_Inr_iff valid_state_def clear_gate_def)
qed

text \<open>The proposal the log gives back is the one last asked for.\<close>

lemma parse_mode_value: "parse_mode (mode_value m) = Inr m"
  by (cases m) (simp_all add: parse_mode_def)

lemma proposal_read_back:
  assumes "wf_request q" and "build_proposal H q d n = Inr g" and "list_all (\<lambda>r. r \<noteq> []) (ad_reasons d)"
  shows "proposal_from q (gp_reference g) (escalation_payload R g (tr_tool_call_id q)) = Inr g"
proof -
  note g = built_proposal [OF assms(2)]
  have "mode_value (gp_ownership_mode g) \<noteq> []" by (cases "gp_ownership_mode g") simp_all
  moreover have "list_all nonempty_text (map JStr (gp_reasons g))" "map text_of (map JStr (gp_reasons g)) = gp_reasons g"
    using assms(3) g by (simp_all add: list_all_iff map_idI)
  ultimately show ?thesis
    using wf_request_fields [OF assms(1)] g(6-8)
    by (simp add: proposal_from_def escalation_fields payload_text_def ensure_def parse_mode_value)
qed

context runtime_stores
begin

subsection \<open>Reaching the gate\<close>

lemma log_read:
  fixes R :: "('d, 'e, 'w) runtime"
  assumes "runtime_on H L S registry R" and "world_at l T w"
  shows "eventsA R run w = (Inr (l run), w)"
  using assms load by (simp add: eventsA_def runtime_on_def world_at_def)

lemma escalation_eval:
  fixes R :: "('d, 'e, 'w) runtime"
  assumes R: "runtime_on H L S registry R" and c: "undisturbed R"
    and w: "world_at l T w" and q: "wf_request q" and s: "replay H (tr_run_id q) (l (tr_run_id q)) = Inr s"
    and st: "status s = READY \<or> (status s = ACTION_PENDING \<and> tr_model_action_event_id q \<noteq> None \<and>
      active_model_action_event_id s = tr_model_action_event_id q)" and budget: "budget_left s"
    and d: "authorize q (ru_context R) = Inr d" "ad_outcome d = ESCALATE"
    and g: "build_proposal H q d 1 = Inr g" and m: "1 \<le> ru_max_attempts R"
  obtains r l' v where "submit R q w = (Inr r, v)" and "rt_outcome r = RESULT_AWAITING_GATE"
    and "rt_authorization r = Some d" and "rt_gate_proposal r = Some g" and "world_at l' T v"
    and "further (tr_run_id q) [TOOL_REQUESTED, TOOL_ESCALATED] l l'" and "latest_request l' q"
    and "gate_asked R l' q g" and "replay H (tr_run_id q) (l' (tr_run_id q)) = Inr (rt_state r)"
    and "gate_open R q g (rt_state r)"
proof -
  let ?run = "tr_run_id q" and ?p = "escalation_payload R g (tr_tool_call_id q)"
  obtain t v l1 where e: "append_event R ?run TOOL_REQUESTED (request_payload q) w = (Inr t, v)" "world_at l1 T v"
      "latest_request l1 q" "further ?run [TOOL_REQUESTED] l l1" "replay H ?run (l1 ?run) = Inr t" "valid_state t"
    and t: "status t = TOOL_PENDING" "active_tool_call_id t = Some (tr_tool_call_id q)"
      "active_step_id t = Some (tr_step_id q)"
    by (rule requested_eval [OF R c w q s st budget])
  let ?u = "escalated_state R g t"
  obtain f v' where f: "append_event R ?run TOOL_ESCALATED ?p v = (Inr (advance H t f ?u), v')"
      "next_event H l1 ?run TOOL_ESCALATED ?p t f" "world_at (extended l1 ?run f) T v'"
      "replay H ?run (extended l1 ?run f ?run) = Inr (advance H t f ?u)"
  proof (rule append_accepted [OF R c e(2,5) canon_escalation])
    fix f assume "next_event H l1 ?run TOOL_ESCALATED ?p t f"
    then show "transition t f = Inr ?u"
      using wf_request_fields [OF q]
      by (intro escalation_transition [OF e(6) t(1,2) _ g m]) (simp_all add: next_event_def)
  qed (use wf_request_fields [OF q] t in \<open>simp_all add: is_terminal_iff\<close>)
  let ?r = "(tool_result RESULT_AWAITING_GATE (advance H t f ?u))\<lparr>rt_authorization := Some d, rt_gate_proposal := Some g\<rparr>"
  have types: "ev_event_type f = TOOL_ESCALATED" "payload f = ?p" using f(2) by (simp_all add: next_event_def)
  have ks: "further ?run [TOOL_ESCALATED] l1 (extended l1 ?run f)"
    using further_extended [of ?run f l1] types by simp
  show thesis
  proof (rule that [of ?r v' "extended l1 ?run f"])
    show "submit R q w = (Inr ?r, v')"
      using g by (simp add: submit_def bindA_def e(1) d f(1) runtime_on_hash [OF R])
    show "further ?run [TOOL_REQUESTED, TOOL_ESCALATED] l (extended l1 ?run f)"
      using further_trans [OF e(4) ks] by simp
    show "latest_request (extended l1 ?run f) q" by (rule latest_request_further [OF ks _ e(3)]) simp
    show "gate_asked R (extended l1 ?run f) q g" using types by (auto simp: gate_asked_def)
    show "gate_open R q g (rt_state ?r)"
      using t by (simp add: tool_result_def gate_open_def escalated_state_def advance_def)
  qed (use f in \<open>simp_all add: tool_result_def\<close>)
qed

text \<open>A denied request ends its run, and nothing else.\<close>

lemma denial_eval:
  fixes R :: "('d, 'e, 'w) runtime"
  assumes R: "runtime_on H L S registry R" and c: "undisturbed R"
    and w: "world_at l T w" and q: "wf_request q" and s: "replay H (tr_run_id q) (l (tr_run_id q)) = Inr s"
    and st: "status s = READY \<or> (status s = ACTION_PENDING \<and> tr_model_action_event_id q \<noteq> None \<and>
      active_model_action_event_id s = tr_model_action_event_id q)" and budget: "budget_left s"
    and d: "authorize q (ru_context R) = Inr d" "ad_outcome d = DENY" and reasons: "join_with ''; '' (ad_reasons d) \<noteq> []"
  obtains r l' v where "submit R q w = (Inr r, v)" and "rt_outcome r = DENIED" and "rt_authorization r = Some d"
    and "rt_receipt r = None" and "status (rt_state r) = FAILED" and "world_at l' T v"
    and "further (tr_run_id q) [TOOL_REQUESTED, TOOL_DENIED] l l'"
    and "replay H (tr_run_id q) (l' (tr_run_id q)) = Inr (rt_state r)"
proof -
  let ?run = "tr_run_id q" and ?reason = "join_with ''; '' (ad_reasons d)"
  let ?p = "[(''reason'', JStr ?reason), (''tool_call_id'', JStr (tr_tool_call_id q))]"
  obtain t v l1 where e: "append_event R ?run TOOL_REQUESTED (request_payload q) w = (Inr t, v)" "world_at l1 T v"
      "latest_request l1 q" "further ?run [TOOL_REQUESTED] l l1" "replay H ?run (l1 ?run) = Inr t" "valid_state t"
    and t: "status t = TOOL_PENDING" "active_tool_call_id t = Some (tr_tool_call_id q)"
      "active_step_id t = Some (tr_step_id q)"
    by (rule requested_eval [OF R c w q s st budget])
  let ?u = "fail_tool t ?reason"
  obtain f v' where f: "append_event R ?run TOOL_DENIED ?p v = (Inr (advance H t f ?u), v')"
      "next_event H l1 ?run TOOL_DENIED ?p t f" "world_at (extended l1 ?run f) T v'"
      "replay H ?run (extended l1 ?run f ?run) = Inr (advance H t f ?u)"
  proof (rule append_accepted [OF R c e(2,5)])
    fix f assume "next_event H l1 ?run TOOL_DENIED ?p t f"
    then show "transition t f = Inr ?u"
      using t e(6) reasons wf_request_fields [OF q]
      by (simp add: next_event_def transition_def on_tool_denied_def expect_status_def expect_active_tool_def
          required_text_def get_def get_default_def ensure_def state_post_init_Inr_iff fail_tool_def clear_gate_def
          valid_state_def)
  qed (use wf_request_fields [OF q] t in \<open>simp_all add: is_terminal_iff canon_obj\<close>)
  have "further ?run [TOOL_DENIED] l1 (extended l1 ?run f)"
    using further_extended [of ?run f l1] f(2) by (simp add: next_event_def)
  with further_trans [OF e(4)] have "further ?run [TOOL_REQUESTED, TOOL_DENIED] l (extended l1 ?run f)" by fastforce
  then show thesis
    using f(3,4) by (intro that [of "(tool_result DENIED (advance H t f ?u))\<lparr>rt_authorization := Some d\<rparr>" v' "extended l1 ?run f"])
      (simp_all add: submit_def bindA_def e(1) d f(1) tool_result_def fail_tool_def)
qed

subsection \<open>Opening it\<close>

lemma rechecked:
  fixes R :: "('d, 'e, 'w) runtime"
  assumes "runtime_on H L S registry R" and "authorize q (ru_context R) = Inr d" and "ad_outcome d = ESCALATE"
    and "build_proposal H q d 1 = Inr g"
  shows "recheck R q (gp_reference g) = Inr d"
  using built_proposal [OF assms(4)]
  by (simp add: recheck_def assms ensure_def runtime_on_hash [OF assms(1)])

text \<open>An event that leaves the gate, and the start of the call.\<close>

lemma leave_gate:
  fixes R :: "('d, 'e, 'w) runtime"
  assumes R: "runtime_on H L S registry R" and c: "undisturbed R"
    and w: "world_at l T w" and q: "wf_request q" and s: "replay H (tr_run_id q) (l (tr_run_id q)) = Inr s"
    and o: "gate_open R q g s" and l: "latest_request l q" and p: "canon (JObj p)" and k: "k \<noteq> TOOL_REQUESTED"
    and u: "\<And>e. next_event H l (tr_run_id q) k p s e \<Longrightarrow>
      transition s e = Inr ((clear_gate s)\<lparr>status := TOOL_READY\<rparr>)"
  obtains t w1 v l' s' where "append_event R (tr_run_id q) k p w = (Inr t, w1)"
    and "\<forall>d ev n. execute_request R q d ev n True w1 = run_effect R q d ev n v"
    and "world_at l' T v" and "latest_request l' q" and "further (tr_run_id q) [k, TOOL_STARTED] l l'"
    and "replay H (tr_run_id q) (l' (tr_run_id q)) = Inr s'" and "status s' = TOOL_RUNNING"
    and "active_tool_call_id s' = Some (tr_tool_call_id q)" and "active_step_id s' = Some (tr_step_id q)"
proof -
  let ?run = "tr_run_id q" and ?u = "(clear_gate s)\<lparr>status := TOOL_READY\<rparr>"
  have live: "\<not> is_terminal s" using o by (simp add: gate_open_def is_terminal_iff)
  obtain e w1 where e: "append_event R ?run k p w = (Inr (advance H s e ?u), w1)" "next_event H l ?run k p s e"
      "world_at (extended l ?run e) T w1" "replay H ?run (extended l ?run e ?run) = Inr (advance H s e ?u)"
    by (rule append_accepted [OF R c w s p wf_request_fields(1) [OF q] live u])
  let ?s = "advance H s e ?u"
  have s1: "status ?s = TOOL_READY" "active_tool_call_id ?s = Some (tr_tool_call_id q)"
      "active_step_id ?s = Some (tr_step_id q)"
    using o by (simp_all add: gate_open_def clear_gate_def)
  obtain v l' s' where v: "\<forall>d ev n. execute_request R q d ev n True w1 = run_effect R q d ev n v" "world_at l' T v"
      "further ?run [TOOL_STARTED] (extended l ?run e) l'" "replay H ?run (l' ?run) = Inr s'" "status s' = TOOL_RUNNING"
      "active_tool_call_id s' = Some (tr_tool_call_id q)" "active_step_id s' = active_step_id ?s"
    by (rule start_eval [OF R c e(3) q e(4) s1(1,2)])
  have ks: "further ?run ([k] @ [TOOL_STARTED]) l l'"
    using further_trans [OF further_extended [of ?run e l]] v(3) e(2) by (simp add: next_event_def)
  then have "latest_request l' q" using k by (intro latest_request_further [where l = l, OF _ _ l]) auto
  with that [OF e(1) v(1,2)] ks v(4-7) s1(3) show thesis by simp
qed

lemma opened_eval:
  fixes R :: "('d, 'e, 'w) runtime"
  assumes R: "runtime_on H L S registry R" and c: "undisturbed R" "\<forall>c i. ru_injector R c i = None"
    and w: "world_at l T w" and q: "wf_request q" and s: "replay H (tr_run_id q) (l (tr_run_id q)) = Inr s"
    and o: "gate_open R q g s" and l: "latest_request l q" and p: "canon (JObj p)" and k: "k \<noteq> TOOL_REQUESTED"
    and u: "\<And>e. next_event H l (tr_run_id q) k p s e \<Longrightarrow>
      transition s e = Inr ((clear_gate s)\<lparr>status := TOOL_READY\<rparr>)"
    and def: "resolve registry (tr_tool_name q) = Inr def" and key: "request_key H q \<noteq> []"
    and new: "intents (tw_store T) (request_key H q) = None" "receipts (tw_store T) (request_key H q) = None"
    and ran: "ru_runner R (tr_tool_name q) (request_arguments q) (request_key H q) (tw_outside T) = (Returned out, outside)"
    and out: "canon (JObj out)"
  obtains t w1 where "append_event R (tr_run_id q) k p w = (Inr t, w1)"
    and "\<And>d ev n. \<exists>r w'. execute_request R q d ev n True w1 = (Inr r, w') \<and> rt_authorization r = d \<and>
      executed_once q out outside [k, TOOL_STARTED, TOOL_SUCCEEDED] l T r w'"
proof -
  obtain t w1 v l' s' where v: "append_event R (tr_run_id q) k p w = (Inr t, w1)"
      "\<forall>d ev n. execute_request R q d ev n True w1 = run_effect R q d ev n v" "world_at l' T v"
      "latest_request l' q" "further (tr_run_id q) [k, TOOL_STARTED] l l'"
      "replay H (tr_run_id q) (l' (tr_run_id q)) = Inr s'" "status s' = TOOL_RUNNING"
      "active_tool_call_id s' = Some (tr_tool_call_id q)" "active_step_id s' = Some (tr_step_id q)"
    by (rule leave_gate [OF R c(1) w q s o l p k u])
  have may: "may_invoke def (tw_store T) i"
    if "build_intent H (tr_run_id q) (tr_tool_call_id q) (tr_tool_name q) (request_arguments q) = Inr i" for i
    using built_intent [OF q that] new by (auto simp: may_invoke_def derive_effect_id_def result_simps)
  have "\<exists>r w'. execute_request R q d ev n True w1 = (Inr r, w') \<and> rt_authorization r = d \<and>
      executed_once q out outside [k, TOOL_STARTED, TOOL_SUCCEEDED] l T r w'" for d ev n
  proof -
    obtain r w' where "run_effect R q d ev n v = (Inr r, w')" "rt_authorization r = d"
        "executed_once q out outside [TOOL_SUCCEEDED] l' T r w'"
      using run_effect_eval [OF R c v(3) q v(6-9,4) def key may ran out] by blast
    then show ?thesis using v(2) executed_once_further [OF v(5)] by fastforce
  qed
  with that v(1) show thesis by blast
qed

lemma approval_eval:
  fixes R :: "('d, 'e, 'w) runtime"
  assumes R: "runtime_on H L S registry R" and c: "undisturbed R" "\<forall>c i. ru_injector R c i = None"
    and w: "world_at l T w" and q: "wf_request q" and s: "replay H (tr_run_id q) (l (tr_run_id q)) = Inr s"
    and o: "gate_open R q g s" and l: "latest_request l q"
    and d: "authorize q (ru_context R) = Inr d" "ad_outcome d = ESCALATE" and g: "build_proposal H q d 1 = Inr g"
    and pair: "gp_ownership_mode g = PAIR" and a: "gs_reference a = gp_reference g" "gs_action a = APPROVE"
    and def: "resolve registry (tr_tool_name q) = Inr def" and key: "request_key H q \<noteq> []"
    and new: "intents (tw_store T) (request_key H q) = None" "receipts (tw_store T) (request_key H q) = None"
    and ran: "ru_runner R (tr_tool_name q) (request_arguments q) (request_key H q) (tw_outside T) = (Returned out, outside)"
    and out: "canon (JObj out)"
  shows "\<exists>r w'. resolve_gate R a w = (Inr r, w') \<and> rt_authorization r = Some d \<and>
    executed_once q out outside [GATE_APPROVED, TOOL_STARTED, TOOL_SUCCEEDED] l T r w'"
proof -
  note built = built_proposal [OF g]
  have valid: "valid_state s" using replay_state_inv [OF s] by (simp add: state_inv_def core_inv_def)
  obtain t w1 where t: "append_event R (tr_run_id q) GATE_APPROVED (resolution_payload a) w = (Inr t, w1)"
      "\<And>d ev n. \<exists>r w'. execute_request R q d ev n True w1 = (Inr r, w') \<and> rt_authorization r = d \<and>
        executed_once q out outside [GATE_APPROVED, TOOL_STARTED, TOOL_SUCCEEDED] l T r w'"
  proof (rule opened_eval [OF R c w q s o l canon_resolution _ _ def key new ran out])
    fix e assume "next_event H l (tr_run_id q) GATE_APPROVED (resolution_payload a) s e"
    then show "transition s e = Inr ((clear_gate s)\<lparr>status := TOOL_READY\<rparr>)"
      using wf_request_fields [OF q]
      by (intro approval_transition [OF valid o g _ pair a(1)]) (simp_all add: next_event_def)
  qed simp_all
  have "validate_reference s (gp_reference g) = Inr ()"
    using o built by (simp add: validate_reference_def gate_open_def ensure_def)
  moreover have "active_gate_mode s \<noteq> Some (mode_value USER_GATE)" using o pair by (simp add: gate_open_def)
  ultimately have "resolve_gate R a w = execute_request R q (Some d) None None True w1"
    using latest_request_load [OF R w q l] rechecked [OF R d g] built a t(1)
    by (simp add: resolve_gate_def Let_def bindA_def checkA_def load_state_eq [OF R c(1) w] s)
  then show ?thesis using t(2) by simp
qed

lemma gate_answer_eval:
  fixes R :: "('d, 'e, 'w) runtime"
  assumes R: "runtime_on H L S registry R" and c: "undisturbed R" "\<forall>c i. ru_injector R c i = None"
    and w: "world_at l T w" and q: "wf_request q" and s: "replay H (tr_run_id q) (l (tr_run_id q)) = Inr s"
    and o: "gate_open R q g s" and l: "latest_request l q" and asked: "gate_asked R l q g"
    and d: "authorize q (ru_context R) = Inr d" "ad_outcome d = ESCALATE" and g: "build_proposal H q d 1 = Inr g"
    and reasons: "list_all (\<lambda>r. r \<noteq> []) (ad_reasons d)" and gate: "gp_ownership_mode g = USER_GATE"
    and a: "ga_reference a = gp_reference g" and m: "1 \<le> ru_max_attempts R"
    and ev: "ru_gate_evaluator R g (submitted_answer a) = Inr (Some ev)" "ge_outcome ev = GATE_PASS" "ge_reason ev \<noteq> []"
    and def: "resolve registry (tr_tool_name q) = Inr def" and key: "request_key H q \<noteq> []"
    and new: "intents (tw_store T) (request_key H q) = None" "receipts (tw_store T) (request_key H q) = None"
    and ran: "ru_runner R (tr_tool_name q) (request_arguments q) (request_key H q) (tw_outside T) = (Returned out, outside)"
    and out: "canon (JObj out)"
  shows "\<exists>r w'. submit_gate_answer R a w = (Inr r, w') \<and> rt_authorization r = Some d \<and>
    executed_once q out outside [GATE_EVALUATED, TOOL_STARTED, TOOL_SUCCEEDED] l T r w'"
proof -
  note built = built_proposal [OF g]
  let ?p = "evaluation_payload a ev 1 (ru_max_attempts R)"
  have valid: "valid_state s" using replay_state_inv [OF s] by (simp add: state_inv_def core_inv_def)
  obtain t w1 where t: "append_event R (tr_run_id q) GATE_EVALUATED ?p w = (Inr t, w1)"
      "\<And>d ev n. \<exists>r w'. execute_request R q d ev n True w1 = (Inr r, w') \<and> rt_authorization r = d \<and>
        executed_once q out outside [GATE_EVALUATED, TOOL_STARTED, TOOL_SUCCEEDED] l T r w'"
  proof (rule opened_eval [OF R c w q s o l canon_evaluation _ _ def key new ran out])
    fix e assume "next_event H l (tr_run_id q) GATE_EVALUATED ?p s e"
    then show "transition s e = Inr ((clear_gate s)\<lparr>status := TOOL_READY\<rparr>)"
      using wf_request_fields [OF q]
      by (intro pass_transition [OF valid o g _ gate a m ev(2,3)]) (simp_all add: next_event_def)
  qed simp_all
  have "validate_reference s (gp_reference g) = Inr ()"
    using o built by (simp add: validate_reference_def gate_open_def ensure_def)
  moreover have "active_gate_mode s = Some (mode_value USER_GATE)" "active_gate_attempts s = 0"
      "active_gate_max_attempts s = Some (ru_max_attempts R)" using o gate by (simp_all add: gate_open_def)
  moreover have "load_active_proposal R q (gp_reference g) w = (Inr g, w)"
  proof -
    from asked obtain es e where e: "l (tr_run_id q) = es @ [e]" "ev_event_type e = TOOL_ESCALATED"
        "payload e = escalation_payload R g (tr_tool_call_id q)" by (auto simp: gate_asked_def)
    have "proposal_event (tr_tool_call_id q) (gp_reference g) e"
      by (simp add: proposal_event_def e escalation_fields)
    then have "find (proposal_event (tr_tool_call_id q) (gp_reference g)) (rev (l (tr_run_id q))) = Some e"
      by (simp add: e(1))
    moreover note log_read [OF R w, of "tr_run_id q"]
    ultimately show ?thesis using proposal_read_back [OF q g reasons, of R] e(3)
      by (simp add: load_active_proposal_def bindA_def)
  qed
  moreover have "exhaust ev 1 (ru_max_attempts R) = ev" using ev(2) by (simp add: exhaust_def)
  ultimately have "submit_gate_answer R a w = execute_request R q (Some d) (Some ev) (Some 1) True w1"
    using latest_request_load [OF R w q l] rechecked [OF R d g] built a t(1) ev(1,2)
    by (simp add: submit_gate_answer_def Let_def bindA_def checkA_def load_state_eq [OF R c(1) w] s evaluate_answer_def)
  then show ?thesis using t(2) by simp
qed

end

end
