(* ===== verification/GateProperties.thy ===== *)
theory GateProperties
  imports RuntimeProperties GateRuns
begin

section \<open>Properties of gated requests\<close>

text \<open>
  An escalated request on the SQLite stores, from its submission over the person's decision to its
  receipt.
\<close>

text \<open>What an operation that executes the request once returns and leaves.\<close>

definition executes_once ::
  "('d, 'e, 'w) runtime \<Rightarrow> ToolRequest \<Rightarrow> AuthorizationDecision \<Rightarrow> payload \<Rightarrow> EventType list \<Rightarrow>
   (EventDB, EffectDB, 'w) runtime_world \<Rightarrow> RuntimeToolResult result \<times> (EventDB, EffectDB, 'w) runtime_world \<Rightarrow> bool" where
  "executes_once R q d out ks w x \<longleftrightarrow>
     (\<exists>r v c es. x = (Inr r, v) \<and> rt_outcome r = EXECUTED \<and> rt_authorization r = Some d \<and> rt_receipt r = Some c \<and>
        receipt_output c = out \<and> status (rt_state r) = VERIFYING \<and>
        tw_calls (rw_tools v) = tw_calls (rw_tools w) @ [\<lparr>tc_tool_name = tr_tool_name q,
          tc_arguments = request_arguments q, tc_key = ru_hash R (effect_identity (tr_run_id q) (tr_tool_call_id q))\<rparr>] \<and>
        history (rw_events v) (tr_run_id q) = history (rw_events w) (tr_run_id q) @ es \<and> map ev_event_type es = ks \<and>
        replay (ru_hash R) (tr_run_id q) (history (rw_events v) (tr_run_id q)) = Inr (rt_state r))"

lemma executed_once_executes:
  assumes "sqlite_runtime.executed_once (ru_hash R) q out outside ks l T r v" and "rt_authorization r = Some d"
    and "l (tr_run_id q) = history (rw_events w) (tr_run_id q) @ es" and "tw_calls T = tw_calls (rw_tools w)"
    and "canon (JObj out)"
  shows "executes_once R q d out (map ev_event_type es @ ks) w (Inr r, v)"
proof -
  from assms(1) obtain fs where "rt_outcome r = EXECUTED" "rt_receipt r = Some (success_receipt (ru_hash R) q out)"
      "status (rt_state r) = VERIFYING" "history (rw_events v) = l(tr_run_id q := l (tr_run_id q) @ fs)"
      "map ev_event_type fs = ks" "replay (ru_hash R) (tr_run_id q) (l (tr_run_id q) @ fs) = Inr (rt_state r)"
      "tw_calls (rw_tools v) = tw_calls T @ [\<lparr>tc_tool_name = tr_tool_name q, tc_arguments = request_arguments q,
          tc_key = rc_effect_id (success_receipt (ru_hash R) q out)\<rparr>]"
    by (auto simp: sqlite_runtime.executed_once_def sqlite_runtime.world_at_def)
  moreover have "receipt_output (success_receipt (ru_hash R) q out) = out"
    using assms(5) by (simp add: success_receipt_def receipt_output_def decoded_def loads_render)
  ultimately show ?thesis
    using assms(2-4) unfolding executes_once_def
    by (intro exI [of _ r] exI [of _ v] exI [of _ "success_receipt (ru_hash R) q out"] exI [of _ "es @ fs"])
       (simp add: success_receipt_def)
qed

text \<open>C9: a gated request executes: submit parks an escalated request at a gate for its exact proposal
  and touches neither the tools nor their stores; the approval of that proposal, where the policy
  asks for a pair, and an answer that its evaluator passes, where it asks for the user, then
  execute this request, once, to its recorded receipt.\<close>

theorem gated_request_executes:
  assumes "sqlite_runtime R" and "undisturbed R" and "\<forall>c i. ru_injector R c i = None" and "sound_world R w"
    and "wf_request q" and "replay (ru_hash R) (tr_run_id q) (history (rw_events w) (tr_run_id q)) = Inr s"
    and "status s = READY \<or> (status s = ACTION_PENDING \<and> tr_model_action_event_id q \<noteq> None \<and>
      active_model_action_event_id s = tr_model_action_event_id q)" and "budget_left s"
    and "authorize q (ru_context R) = Inr d" and "ad_outcome d = ESCALATE" and "list_all (\<lambda>r. r \<noteq> []) (ad_reasons d)"
    and "build_proposal (ru_hash R) q d 1 = Inr g" and "1 \<le> ru_max_attempts R"
    and "resolve (ru_registry R) (tr_tool_name q) = Inr def"
    and "k = ru_hash R (effect_identity (tr_run_id q) (tr_tool_call_id q))" and "k \<noteq> []"
    and "load_intent (ru_hash R) (tw_store (rw_tools w)) k = Inr None"
    and "ru_runner R (tr_tool_name q) (request_arguments q) k (tw_outside (rw_tools w)) = (Returned out, outside)"
    and "canon (JObj out)"
  shows "\<exists>r v. submit R q w = (Inr r, v) \<and> rt_outcome r = RESULT_AWAITING_GATE \<and> rt_gate_proposal r = Some g \<and>
    rw_tools v = rw_tools w \<and>
    (gp_ownership_mode g = PAIR \<longrightarrow>
      (\<forall>a. gs_reference a = gp_reference g \<and> gs_action a = APPROVE \<longrightarrow>
        executes_once R q d out [TOOL_REQUESTED, TOOL_ESCALATED, GATE_APPROVED, TOOL_STARTED, TOOL_SUCCEEDED] w
          (resolve_gate R a v))) \<and>
    (gp_ownership_mode g = USER_GATE \<longrightarrow>
      (\<forall>a ev. ga_reference a = gp_reference g \<and> ru_gate_evaluator R g (submitted_answer a) = Inr (Some ev) \<and>
        ge_outcome ev = GATE_PASS \<and> ge_reason ev \<noteq> [] \<longrightarrow>
        executes_once R q d out [TOOL_REQUESTED, TOOL_ESCALATED, GATE_EVALUATED, TOOL_STARTED, TOOL_SUCCEEDED] w
          (submit_gate_answer R a v)))"
proof -
  let ?l = "history (rw_events w)" and ?T = "rw_tools w"
  note R = sqlite_runtime_on [OF assms(1)] and c = assms(2,3)
  have w: "effects_ok (ru_hash R) (tw_store ?T)" "world_ok select_intent receipt_at (ru_registry R) ?T"
    using assms(4) by (simp_all add: sound_world_def)
  have i: "select_intent (tw_store ?T) k = None"
    using assms(17) sqlite.load_intent [OF w(1)] by (simp add: sqlite_effects_def)
  note new = i [unfolded assms(15)] no_receipt_without_intent [OF w(2) i, unfolded assms(15)]
  note ran = assms(18) [unfolded assms(15)] and key = assms(16) [unfolded assms(15)]
  obtain r l' v where r: "submit R q w = (Inr r, v)" "rt_outcome r = RESULT_AWAITING_GATE" "rt_gate_proposal r = Some g"
      "sqlite_runtime.world_at (ru_hash R) l' ?T v"
      "sqlite_runtime.further (tr_run_id q) [TOOL_REQUESTED, TOOL_ESCALATED] ?l l'"
      "latest_event TOOL_REQUESTED (request_payload q) (l' (tr_run_id q))" "gate_asked R l' q g"
      "replay (ru_hash R) (tr_run_id q) (l' (tr_run_id q)) = Inr (rt_state r)" "gate_open R q g (rt_state r)"
    by (rule sqlite_runtime.escalation_eval [OF R c(1) sound_world_at [OF assms(4)] assms(5-10,12,13)])
  obtain es where es: "l' (tr_run_id q) = ?l (tr_run_id q) @ es" "map ev_event_type es = [TOOL_REQUESTED, TOOL_ESCALATED]"
    using r(5) by (auto simp: sqlite_runtime.further_def)
  have done_: "executes_once R q d out ([TOOL_REQUESTED, TOOL_ESCALATED] @ ks) w x"
    if "\<exists>y w'. x = (Inr y, w') \<and> rt_authorization y = Some d \<and>
      sqlite_runtime.executed_once (ru_hash R) q out outside ks l' ?T y w'" for x ks
    using that executed_once_executes [where l = l' and T = ?T and w = w, OF _ _ es(1) _ assms(19)] es(2) by auto
  have "executes_once R q d out ([TOOL_REQUESTED, TOOL_ESCALATED] @ [GATE_APPROVED, TOOL_STARTED, TOOL_SUCCEEDED]) w
      (resolve_gate R a v)"
    if "gp_ownership_mode g = PAIR" "gs_reference a = gp_reference g" "gs_action a = APPROVE" for a
    by (rule done_, rule sqlite_runtime.approval_eval
        [OF R c r(4) assms(5) r(8,9,6) assms(9,10,12) that assms(14) key new ran assms(19)])
  moreover have "executes_once R q d out ([TOOL_REQUESTED, TOOL_ESCALATED] @ [GATE_EVALUATED, TOOL_STARTED, TOOL_SUCCEEDED]) w
      (submit_gate_answer R a v)"
    if "gp_ownership_mode g = USER_GATE" "ga_reference a = gp_reference g"
      "ru_gate_evaluator R g (submitted_answer a) = Inr (Some ev)" "ge_outcome ev = GATE_PASS" "ge_reason ev \<noteq> []" for a ev
    by (rule done_, rule sqlite_runtime.gate_answer_eval
        [OF R c r(4) assms(5) r(8,9,6,7) assms(9,10,12,11) that(1,2) assms(13) that(3-5) assms(14) key new ran assms(19)])
  moreover have "rw_tools v = ?T" using r(4) by (simp add: sqlite_runtime.world_at_def)
  ultimately show ?thesis using r(1-3) by auto
qed

subsection \<open>A gated sample\<close>

definition paired_context :: AuthorizationContext where
  "paired_context = sample_context\<lparr>ac_minimum_mode := PAIR\<rparr>"

definition paired_runtime :: "(EventDB, EffectDB, unit) runtime" where
  "paired_runtime = sample_runtime\<lparr>ru_context := paired_context\<rparr>"

lemma paired_runtime_simps [simp]:
  "ru_hash paired_runtime = zero_hash" "ru_context paired_runtime = paired_context"
  "ru_registry paired_runtime = [(''read'', once_read)]" "ru_runner paired_runtime = sample_runner"
  "ru_injector paired_runtime = no_crash" "ru_max_attempts paired_runtime = 3"
  "sqlite_runtime paired_runtime" "undisturbed paired_runtime"
  by (simp_all add: paired_runtime_def sample_runtime_def sqlite_runtime_def undisturbed_def)

lemma paired_decision:
  obtains d g where "authorize (read_request ''a'') paired_context = Inr d" and "ad_outcome d = ESCALATE"
    and "list_all (\<lambda>r. r \<noteq> []) (ad_reasons d)" and "build_proposal zero_hash (read_request ''a'') d 1 = Inr g"
    and "gp_ownership_mode g = PAIR"
proof -
  let ?q = "read_request ''a''"
  let ?c = "classify_step (execution_step ?q [''a'']) (ownership_context paired_context)"
  let ?d = "make_decision ?q ESCALATE ((''request requires '' @ mode_value (od_mode ?c) @ '' ownership'') # od_reasons ?c) [''a''] (Some ?c)"
  have "resolve (ac_registry paired_context) (tr_tool_name ?q) =
      Inr \<lparr>td_tool_name = ''read'', td_retry_is_idempotent = True, td_path_argument_names = [''path'']\<rparr>"
    by (simp add: resolve_def paired_context_def sample_context_def read_request_def)
  moreover have "normalize_arguments paired_context [(''path'', JStr ''a'')] [''path''] = Inr [''a'']"
    by (simp add: get_def get_default_def boundary_normalize_def paired_context_def sample_context_def portable_def
        starts_with_def windows_drive_def path_parts_def Let_def)
  moreover have "make_plan_step (execution_step ?q [''a'']) = Inr (execution_step ?q [''a''])"
    by (simp add: make_plan_step_def execution_step_def read_request_def step_id_pattern_def
        is_alnum_def is_digit_def)
  moreover have c: "od_mode ?c = PAIR" "list_all (\<lambda>r. r \<noteq> []) (od_reasons ?c)"
    by (simp_all add: classify_step_def Let_def ownership_context_def paired_context_def sample_context_def evaluate_risks_def
        sample_risks_def rule_matches_def execution_step_def normalize_path_def portable_def reasons_for_def
        fnmatchcase_def minimum_mode_for_def matching_rules_def sample_policy_def more_restrictive_def)
  ultimately have d: "authorize ?q paired_context = Inr ?d" by (simp add: authorize_def Let_def)
  have "canon (proposal_json ?q ?d PAIR 1)" by (rule canon_proposal [OF wf_read_request])
  moreover have "hex_digest (zero_hash t)" for t
    by (simp add: hex_digest_def zero_hash_def zeros_def is_digit_def list_all_iff)
  ultimately have "\<exists>g. build_proposal zero_hash ?q ?d 1 = Inr g \<and> gp_ownership_mode g = PAIR"
    using c by (simp add: build_proposal_def make_decision_def ensure_def dumps_canon make_reference_def Let_def
        read_request_def)
  moreover have "list_all (\<lambda>r. r \<noteq> []) (ad_reasons ?d)" using c by (simp add: make_decision_def)
  ultimately show thesis using that [OF d] by (auto simp: make_decision_simps)
qed

definition paired_world :: "(EventDB, EffectDB, unit) runtime_world" where
  "paired_world = run_system paired_runtime started_ops (start_world ())"

lemma paired_world_simps [simp]:
  "history (rw_events paired_world) = (\<lambda>_. [])(''r'' := started_events)"
  "rw_tools paired_world = fresh_world ()" "sound_world paired_runtime paired_world"
proof -
  have "sqlite_runtime.world_at zero_hash ((\<lambda>_. [])(''r'' := started_events)) (fresh_world ()) paired_world"
    unfolding paired_world_def by (rule started_world_at) simp_all
  then show "history (rw_events paired_world) = (\<lambda>_. [])(''r'' := started_events)"
    "rw_tools paired_world = fresh_world ()" by (simp_all add: sqlite_runtime.world_at_def)
  show "sound_world paired_runtime paired_world"
    unfolding paired_world_def by (intro run_system_sound wf_started_ops sound_start) simp
qed

theorem gated_request_executes_witness:
  "\<exists>r v g a x w'. submit paired_runtime (read_request ''a'') paired_world = (Inr r, v) \<and> rt_gate_proposal r = Some g \<and>
     tw_calls (rw_tools v) = [] \<and> approve (gp_reference g) ''reviewer'' ''seen'' = Inr a \<and>
     resolve_gate paired_runtime a v = (Inr x, w') \<and> rt_outcome x = EXECUTED \<and> length (tw_calls (rw_tools w')) = 1"
proof -
  let ?q = "read_request ''a''"
  obtain d g where d: "authorize ?q (ru_context paired_runtime) = Inr d" "ad_outcome d = ESCALATE"
      "list_all (\<lambda>r. r \<noteq> []) (ad_reasons d)" "build_proposal (ru_hash paired_runtime) ?q d 1 = Inr g"
      "gp_ownership_mode g = PAIR"
    by (rule paired_decision) simp
  have s: "replay (ru_hash paired_runtime) (tr_run_id ?q) (history (rw_events paired_world) (tr_run_id ?q)) = Inr begun_state"
    by (simp add: read_request_name replay_begun)
  have "\<exists>r v. submit paired_runtime ?q paired_world = (Inr r, v) \<and> rt_outcome r = RESULT_AWAITING_GATE \<and>
    rt_gate_proposal r = Some g \<and> rw_tools v = rw_tools paired_world \<and>
    (gp_ownership_mode g = PAIR \<longrightarrow>
      (\<forall>a. gs_reference a = gp_reference g \<and> gs_action a = APPROVE \<longrightarrow>
        executes_once paired_runtime ?q d [] [TOOL_REQUESTED, TOOL_ESCALATED, GATE_APPROVED, TOOL_STARTED, TOOL_SUCCEEDED]
          paired_world (resolve_gate paired_runtime a v))) \<and>
    (gp_ownership_mode g = USER_GATE \<longrightarrow>
      (\<forall>a ev. ga_reference a = gp_reference g \<and> ru_gate_evaluator paired_runtime g (submitted_answer a) = Inr (Some ev) \<and>
        ge_outcome ev = GATE_PASS \<and> ge_reason ev \<noteq> [] \<longrightarrow>
        executes_once paired_runtime ?q d [] [TOOL_REQUESTED, TOOL_ESCALATED, GATE_EVALUATED, TOOL_STARTED, TOOL_SUCCEEDED]
          paired_world (submit_gate_answer paired_runtime a v)))"
    by (rule gated_request_executes [where k = zeros and outside = "()", OF _ _ _ _ wf_read_request s _ _ d(1-4)])
       (simp_all add: read_request_name budget_left_def resolve_once zero_hash_def fresh_world_def empty_effects_def
          load_intent_def select_intent_def sample_runner_def no_crash_def canon_obj)
  then obtain r v where r: "submit paired_runtime ?q paired_world = (Inr r, v)" "rt_gate_proposal r = Some g"
      "rw_tools v = fresh_world ()"
      "\<And>a. gs_reference a = gp_reference g \<Longrightarrow> gs_action a = APPROVE \<Longrightarrow>
        executes_once paired_runtime ?q d [] [TOOL_REQUESTED, TOOL_ESCALATED, GATE_APPROVED, TOOL_STARTED, TOOL_SUCCEEDED]
          paired_world (resolve_gate paired_runtime a v)"
    using d(5) by auto
  let ?a = "\<lparr>gs_reference = gp_reference g, gs_action = APPROVE, gs_actor = ''reviewer'', gs_reason = ''seen''\<rparr>"
  have a: "approve (gp_reference g) ''reviewer'' ''seen'' = Inr ?a" by (simp add: approve_def make_resolution_def)
  from r(4) [of ?a] obtain x w' where "resolve_gate paired_runtime ?a v = (Inr x, w')" "rt_outcome x = EXECUTED"
      "length (tw_calls (rw_tools w')) = 1"
    by (auto simp: executes_once_def fresh_world_def)
  with r(1-3) a show ?thesis by (auto simp: fresh_world_def)
qed

end
