(* ===== verification/AgentRuns.thy ===== *)
theory AgentRuns
  imports TurnRuns
begin

section \<open>A loop that answers\<close>

text \<open>
  The agent's loop on a ready run whose model proposes the expected answer at once: one turn, from
  the input to the accepted completion.
\<close>

definition hex_hash :: "hash \<Rightarrow> bool" where
  "hex_hash H \<longleftrightarrow> (\<forall>t. length (H t) = 64 \<and> list_all lower_hex (H t))"

lemma hex_hash_nonempty: "hex_hash H \<Longrightarrow> H t \<noteq> []"
  unfolding hex_hash_def by (metis list.size(3) zero_neq_numeral)

lemma accepted_completion:
  assumes "hex_hash H" and "answer = ce_expected_answer x"
    and "ce_require_verified_observation x \<longrightarrow> has_verified_observation c"
  obtains v where "verify_completion H answer c x = Inr v" and "cr_outcome v = ACCEPTED"
proof -
  have pass: "list_all ck_passed (completion_checks answer c x)" using assms(2,3) by (simp add: completion_checks_pass)
  have checks: "mapR check_post_init (completion_checks answer c x) = Inr (completion_checks answer c x)"
    by (simp add: completion_checks_def check_post_init_def ensure_def)
  have "completion_checks answer c x \<noteq> []" by (simp add: completion_checks_def)
  with pass checks assms(1) that show thesis
    by (simp add: verify_completion_def completion_post_init_def ensure_def hex_hash_def)
qed

text \<open>The input of the turn of a ready state, from the log of its run.\<close>

definition turn_input :: "string \<Rightarrow> RunState \<Rightarrow> ExecutionEvent list \<Rightarrow> ModelInput" where
  "turn_input run s es = \<lparr>mi_run_id = run, mi_step_id = next_step_id s, mi_turn_index = turn_index s,
     mi_state_status = READY, mi_observation_json = render (JObj (step_observation es))\<rparr>"

lemma turn_input_simps [simp]:
  "mi_run_id (turn_input run s es) = run" "mi_step_id (turn_input run s es) = next_step_id s"
  "mi_turn_index (turn_input run s es) = turn_index s" "mi_state_status (turn_input run s es) = READY"
  "mi_observation_json (turn_input run s es) = render (JObj (step_observation es))"
  by (simp_all add: turn_input_def)

context runtime_stores
begin

lemma build_input_eval:
  fixes R :: "('d, 'e, 'w) runtime"
  assumes R: "runtime_on H L S registry R" and d: "undisturbed R" and w: "world_at l T w"
    and s: "replay H run (l run) = Inr s" and st: "status s = READY" "budget_left s" and run: "run \<noteq> []"
  shows "build_model_input R run w = (Inr \<lparr>mi_run_id = run, mi_step_id = next_step_id s,
    mi_turn_index = turn_index s, mi_state_status = READY,
    mi_observation_json = render (JObj (step_observation (l run)))\<rparr>, w)"
proof -
  have n: "0 \<le> turn_index s" "next_step_id s \<noteq> []"
    using replay_state_inv [OF s] by (auto simp: state_inv_def core_inv_def valid_state_def next_step_id_def)
  have "\<forall>e \<in> set (l run). wf_event e" using w log_events by (auto simp: world_at_def)
  note in_ = built_input [OF canon_observation [OF this] run n(2,1)]
  have "eventsA R run w = (Inr (l run), w)"
    using R w load by (simp add: eventsA_def runtime_on_def world_at_def)
  then have "load_step_observation R run w = (Inr (step_observation (l run)), w)"
    by (simp add: load_step_observation_def bindA_def)
  with load_state_eq [OF R d w, of run] s st in_ show ?thesis
    by (cases "max_steps s") (simp_all add: build_model_input_def bindA_def checkA_def budget_left_def)
qed

lemma proposal_eval:
  fixes A :: "('d, 'e, 'w, 'a) agent"
  assumes R: "runtime_on H L S registry (ag_runtime A)" and d: "undisturbed (ag_runtime A)"
    and w: "world_at l T (aw_runtime w)" and s: "replay H (ag_run_id A) (l (ag_run_id A)) = Inr s"
    and st: "status s = READY" "budget_left s" and run: "ag_run_id A \<noteq> []" and calm: "ag_injector A = None"
    and c: "c = turn_input (ag_run_id A) s (l (ag_run_id A))" and a: "wf_action a"
    and proposed: "ag_adapter A c (aw_adapter w) = (Inr (Some a), b)"
  obtains r v l' t where "next_proposal A ev s w = (Inr (Inl (c, a, da_event_id r)), \<lparr>aw_runtime = v, aw_adapter = b\<rparr>)"
    and "da_context r = c" and "da_action r = a"
    and "load_pending_model_action (ag_runtime A) (ag_run_id A) v = (Inr r, v)" and "world_at l' T v"
    and "replay H (ag_run_id A) (l' (ag_run_id A)) = Inr t" and "action_pending s t (da_event_id r)"
    and "further (ag_run_id A) [MODEL_ACTION_REQUESTED, MODEL_ACTION_PROPOSED] l l'"
proof -
  let ?R = "ag_runtime A" and ?run = "ag_run_id A" and ?v = "aw_runtime w"
  have input: "build_model_input ?R ?run ?v = (Inr c, ?v)"
    unfolding c turn_input_def by (rule build_input_eval [OF R d w s st run])
  have n: "0 \<le> turn_index s" "next_step_id s \<noteq> []"
    using replay_state_inv [OF s] by (auto simp: state_inv_def core_inv_def valid_state_def next_step_id_def)
  have "\<forall>e \<in> set (l ?run). wf_event e" using w log_events by (auto simp: world_at_def)
  then have wf: "wf_input c"
    using run n canon_observation by (simp add: wf_input_def c turn_input_def input_post_init_Inr_iff loads_render)
  have "\<exists>v r v' l' t. begin_model_action ?R c ?v = (Inr (invocation_id c), v) \<and>
      persist_model_action ?R c (invocation_id c) a v = (Inr r, v') \<and> da_context r = c \<and>
      da_action r = a \<and> load_pending_model_action ?R ?run v' = (Inr r, v') \<and>
      world_at l' T v' \<and> replay H ?run (l' ?run) = Inr t \<and> action_pending s t (da_event_id r) \<and>
      further ?run [MODEL_ACTION_REQUESTED, MODEL_ACTION_PROPOSED] l l'"
    using durable_action_eval [OF R d w, of c s a] s st wf a by (simp add: c)
  then obtain v r v' l' t where
    b: "begin_model_action ?R c ?v = (Inr (invocation_id c), v)"
      "persist_model_action ?R c (invocation_id c) a v = (Inr r, v')" "da_context r = c"
      "da_action r = a" "load_pending_model_action ?R ?run v' = (Inr r, v')"
      "world_at l' T v'" "replay H ?run (l' ?run) = Inr t" "action_pending s t (da_event_id r)"
      "further ?run [MODEL_ACTION_REQUESTED, MODEL_ACTION_PROPOSED] l l'"
    by blast
  have "next_proposal A ev s w = (Inr (Inl (c, a, da_event_id r)), \<lparr>aw_runtime = v', aw_adapter = b\<rparr>)"
    using st(1) input b(1,2) proposed
    by (simp add: next_proposal_def propose_action_def Let_def bindA_def runtimeA_def tryA_def adapterA_def
        request_model_action_def reach_loop_checkpoint_def calm)
  from that [OF this b(3-9)] show thesis .
qed

lemma answer_iteration:
  fixes A :: "('d, 'e, 'w, 'a) agent"
  assumes R: "runtime_on H L S registry (ag_runtime A)" and d: "undisturbed (ag_runtime A)"
    and w: "world_at l T (aw_runtime w)" and s: "replay H (ag_run_id A) (l (ag_run_id A)) = Inr s"
    and st: "status s = READY" "budget_left s" and run: "ag_run_id A \<noteq> []" and calm: "ag_injector A = None"
    and hex: "hex_hash H" and c: "c = turn_input (ag_run_id A) s (l (ag_run_id A))"
    and proposed: "ag_adapter A c (aw_adapter w) = (Inr (Some (FinalAnswer answer)), b)"
    and answer: "answer = ce_expected_answer x" "answer \<noteq> []"
      "ce_require_verified_observation x \<longrightarrow> has_verified_observation c"
  shows "\<exists>r w' cv l'. iteration A xs x ev w = (Inr (Inr r), w') \<and> ml_outcome r = LOOP_COMPLETED \<and>
    ml_actions r = le_actions ev @ [FinalAnswer answer] \<and> ml_tool_results r = le_tool_results ev \<and>
    ml_verifications r = le_verifications ev \<and> ml_completions r = le_completions ev @ [cv] \<and>
    ml_recovered_receipts r = le_recovered ev \<and> status (ml_state r) = COMPLETED \<and> world_at l' T (aw_runtime w') \<and>
    further (ag_run_id A) [MODEL_ACTION_REQUESTED, MODEL_ACTION_PROPOSED, COMPLETION_ACCEPTED] l l' \<and>
    replay H (ag_run_id A) (l' (ag_run_id A)) = Inr (ml_state r) \<and> turn_index (ml_state r) = turn_index s + 1"
proof -
  let ?R = "ag_runtime A" and ?run = "ag_run_id A"
  have wfa: "wf_action (FinalAnswer answer)"
    using answer(2) by (simp add: wf_action_def action_post_init_def final_answer_post_init_def ensure_def)
  obtain r v' l' t where b: "next_proposal A ev s w =
        (Inr (Inl (c, FinalAnswer answer, da_event_id r)), \<lparr>aw_runtime = v', aw_adapter = b\<rparr>)"
      "da_context r = c" "da_action r = FinalAnswer answer"
      "load_pending_model_action ?R ?run v' = (Inr r, v')" "world_at l' T v'"
      "replay H ?run (l' ?run) = Inr t" "action_pending s t (da_event_id r)"
      "further ?run [MODEL_ACTION_REQUESTED, MODEL_ACTION_PROPOSED] l l'"
    by (rule proposal_eval [OF R d w s st run calm c wfa proposed])
  obtain cv where cv: "verify_completion H answer c x = Inr cv" "cr_outcome cv = ACCEPTED"
    by (rule accepted_completion [OF hex answer(1,3)])
  from completion_eval [OF R d b(5), of c t s r answer x cv] b run st(2) cv obtain u l2 v'' where
    u: "record_completion ?R c answer cv v' = (Inr u, v'')" "status u = COMPLETED"
      "load_state ?R ?run v'' = (Inr u, v'')" "world_at l2 T v''" "further ?run [COMPLETION_ACCEPTED] l' l2"
      "replay H ?run (l2 ?run) = Inr u" "turn_index u = turn_index s + 1" by (auto simp: c)
  have ks: "further ?run [MODEL_ACTION_REQUESTED, MODEL_ACTION_PROPOSED, COMPLETION_ACCEPTED] l l2"
    using further_trans [OF b(8) u(5)] by simp
  let ?ev = "ev\<lparr>le_actions := le_actions ev @ [FinalAnswer answer], le_completions := le_completions ev @ [cv]\<rparr>"
  let ?res = "\<lparr>ml_outcome = LOOP_COMPLETED, ml_state = u, ml_actions = le_actions ?ev,
       ml_tool_results = le_tool_results ?ev, ml_verifications = le_verifications ?ev,
       ml_completions = le_completions ?ev, ml_recovered_receipts = le_recovered ?ev\<rparr>"
  have "iteration A xs x ev w = (Inr (Inr ?res), \<lparr>aw_runtime = v'', aw_adapter = b\<rparr>)"
    using st(1) b(1) u cv(1)
    by (simp add: iteration_def dispatch_answer_def finish_def loop_result_def runtime_on_hash [OF R]
        Let_def bindA_def runtimeA_def load_state_eq [OF R d w, of ?run] s)
  with u(2,4,6,7) ks show ?thesis
    by (intro exI [of _ ?res] exI [of _ "\<lparr>aw_runtime = v'', aw_adapter = b\<rparr>"] exI [of _ cv] exI [of _ l2]) simp
qed

lemma run_loop_ready:
  fixes A :: "('d, 'e, 'w, 'a) agent"
  assumes R: "runtime_on H L S registry (ag_runtime A)" and d: "undisturbed (ag_runtime A)"
    and w: "world_at l T (aw_runtime w)" and s: "replay H (ag_run_id A) (l (ag_run_id A)) = Inr s"
    and st: "status s = READY" "max_steps s \<noteq> None"
  shows "run_loop fuel A xs x w = continue_loop fuel A xs x no_evidence w"
  using st by (simp add: run_loop_def checkA_def bindA_def runtimeA_def load_state_eq [OF R d w] s)

lemma answer_eval:
  fixes A :: "('d, 'e, 'w, 'a) agent"
  assumes R: "runtime_on H L S registry (ag_runtime A)" and d: "undisturbed (ag_runtime A)"
    and w: "world_at l T (aw_runtime w)" and s: "replay H (ag_run_id A) (l (ag_run_id A)) = Inr s"
    and st: "status s = READY" "budget_left s" "max_steps s \<noteq> None" and run: "ag_run_id A \<noteq> []"
    and calm: "ag_injector A = None" and hex: "hex_hash H"
    and c: "c = turn_input (ag_run_id A) s (l (ag_run_id A))"
    and proposed: "ag_adapter A c (aw_adapter w) = (Inr (Some (FinalAnswer answer)), b)"
    and answer: "answer = ce_expected_answer x" "answer \<noteq> []"
      "ce_require_verified_observation x \<longrightarrow> has_verified_observation c"
  shows "\<exists>r w'. run_loop (Suc fuel) A xs x w = (Inr (Some r), w') \<and> ml_outcome r = LOOP_COMPLETED \<and>
    ml_actions r = [FinalAnswer answer] \<and> status (ml_state r) = COMPLETED"
proof -
  obtain r w' cv where r: "iteration A xs x no_evidence w = (Inr (Inr r), w')" "ml_outcome r = LOOP_COMPLETED"
      "ml_actions r = le_actions no_evidence @ [FinalAnswer answer]" "status (ml_state r) = COMPLETED"
    using answer_iteration [OF R d w s st(1,2) run calm hex c proposed answer, of xs no_evidence] by blast
  then show ?thesis
    by (simp add: run_loop_ready [OF R d w s st(1,3)] bindA_def) (simp add: no_evidence_def)
qed

end

end
