(* ===== verification/AgentProperties.thy ===== *)
theory AgentProperties
  imports RuntimeProperties AgentRuns
begin

section \<open>Properties of the model turns and of the agent's loop\<close>

text \<open>
  What a model turn stores is read back as it was; the loop ends within the budget of its run,
  completes only with the expected answer, and completes when the model gives it.
\<close>

subsection \<open>A sample agent\<close>

definition answering :: "unit adapter" where
  "answering c a = (Inr (Some (FinalAnswer ''ok'')), a)"

definition sample_agent :: "(EventDB, EffectDB, unit, unit) agent" where
  "sample_agent = \<lparr>ag_runtime = sample_runtime, ag_adapter = answering, ag_run_id = ''r'', ag_injector = None\<rparr>"

definition sample_expectation :: CompletionExpectation where
  "sample_expectation = \<lparr>ce_expected_answer = ''ok'', ce_require_verified_observation = False\<rparr>"

definition agent_start :: "(EventDB, EffectDB, unit, unit) agent_world" where
  "agent_start = \<lparr>aw_runtime = ready_world, aw_adapter = ()\<rparr>"

definition no_expectations :: resolver_of_expectations where
  "no_expectations c a = Inr None"

lemma sample_agent_simps [simp]:
  "ag_runtime sample_agent = sample_runtime" "ag_run_id sample_agent = ''r''" "ag_injector sample_agent = None"
  "ag_adapter sample_agent = answering" "aw_runtime agent_start = ready_world"
  "ce_expected_answer sample_expectation = ''ok''" "\<not> ce_require_verified_observation sample_expectation"
  by (simp_all add: sample_agent_def agent_start_def sample_expectation_def)

lemma zero_hash_hash [simp]: "hex_hash zero_hash"
  by (simp add: hex_hash_def zero_hash_def zeros_def lower_hex_def list_all_iff)

lemma agent_begun:
  "replay (ru_hash (ag_runtime sample_agent)) (ag_run_id sample_agent)
     (history (rw_events (aw_runtime agent_start)) (ag_run_id sample_agent)) = Inr begun_state"
  by (simp add: replay_begun)

subsection \<open>The properties\<close>

text \<open>Durable turns: beginning an invocation on a ready run and persisting the action the model
  proposed stores both so that any later process reads back exactly the input the model saw and
  the action it proposed.\<close>

theorem durable_action_roundtrip:
  assumes "sqlite_runtime R" and "undisturbed R" and "sound_world R w"
    and "replay (ru_hash R) (mi_run_id c) (history (rw_events w) (mi_run_id c)) = Inr s"
    and "status s = READY" and "budget_left s" and "wf_input c" and "mi_state_status c = READY"
    and "mi_turn_index c = turn_index s" and "mi_step_id c = next_step_id s" and "wf_action action"
  shows "\<exists>i v r w'. begin_model_action R c w = (Inr i, v) \<and> persist_model_action R c i action v = (Inr r, w') \<and>
    load_pending_model_action R (mi_run_id c) w' = (Inr r, w') \<and> da_context r = c \<and> da_action r = action"
  using sqlite_runtime.durable_action_eval [OF sqlite_runtime_on [OF assms(1)] assms(2)
      sound_world_at [OF assms(3)] assms(4-11)] by blast

lemma agent_at_turn:
  assumes "sound_world (ag_runtime A) (aw_runtime w)"
    and "replay (ru_hash (ag_runtime A)) (ag_run_id A) (history (rw_events (aw_runtime w)) (ag_run_id A)) = Inr s"
    and "max_steps s = Some m"
  shows "sqlite_runtime.agent_holding (ru_hash (ag_runtime A)) (ru_registry (ag_runtime A))
    (turn_at (ru_hash (ag_runtime A)) (ag_run_id A) (turn_index s) m) w"
proof -
  have "status s \<noteq> NEW" using replay_state_inv [OF assms(2)] assms(3)
    by (auto simp: state_inv_def core_inv_def budget_ok_def)
  with assms show ?thesis
    by (auto simp: sqlite_runtime.agent_holding_def sqlite_runtime.holding_def sqlite_runtime.world_at_def
        turn_at_def sound_world_def)
qed

definition sample_input :: ModelInput where
  "sample_input = \<lparr>mi_run_id = ''r'', mi_step_id = ''step-1'', mi_turn_index = 0, mi_state_status = READY,
     mi_observation_json = render (JObj [])\<rparr>"

lemma first_step: "show_int 1 = ''1''"
  by code_simp

theorem durable_action_roundtrip_witness:
  "\<exists>i v r w'. begin_model_action sample_runtime sample_input ready_world = (Inr i, v) \<and>
     persist_model_action sample_runtime sample_input i (FinalAnswer ''ok'') v = (Inr r, w') \<and>
     da_context r = sample_input \<and> da_action r = FinalAnswer ''ok''"
proof -
  have wf: "wf_input sample_input" "mi_state_status sample_input = READY"
      "mi_turn_index sample_input = turn_index begun_state" "mi_step_id sample_input = next_step_id begun_state"
    by (simp_all add: wf_input_def sample_input_def input_post_init_Inr_iff loads_render canon_obj next_step_id_def
        first_step)
  have s: "replay (ru_hash sample_runtime) (mi_run_id sample_input)
      (history (rw_events ready_world) (mi_run_id sample_input)) = Inr begun_state"
    by (simp add: sample_input_def replay_begun)
  have "wf_action (FinalAnswer ''ok'')"
    by (simp add: wf_action_def action_post_init_def final_answer_post_init_def ensure_def)
  from durable_action_roundtrip [OF sqlite_sample_runtime sound_ready s _ _ wf this]
  show ?thesis by (auto simp: budget_left_def)
qed

text \<open>C5: the loop ends: on a run with a budget, from any state of the system, the agent's loop ends
  within as many iterations as the budget has steps left, whatever the model proposes, whatever
  the tools do, and whatever raises; and it leaves the system sound.\<close>

theorem agent_loop_terminates:
  assumes "sqlite_runtime (ag_runtime A)" and "sound_world (ag_runtime A) (aw_runtime w)"
    and "replay (ru_hash (ag_runtime A)) (ag_run_id A) (history (rw_events (aw_runtime w)) (ag_run_id A)) = Inr s"
    and "max_steps s = Some m" and "nat (m - turn_index s) < fuel"
  shows "fst (run_loop fuel A xs x w) \<noteq> Inr None \<and>
    sound_world (ag_runtime A) (aw_runtime (snd (run_loop fuel A xs x w)))"
proof -
  note t = sqlite_runtime.run_loop_agent [OF sqlite_runtime_on [OF assms(1)] assms(5), of xs x]
  show ?thesis
  proof (cases "run_loop fuel A xs x w")
    case (Pair y v)
    then show ?thesis
    proof (cases y)
      case (Inl e)
      with triple_raises [OF t agent_at_turn [OF assms(2-4)]] Pair show ?thesis
        by (simp add: sound_world_safe sqlite_runtime.agent_safe_def)
    next
      case (Inr r)
      with triple_returns [OF t agent_at_turn [OF assms(2-4)]] Pair show ?thesis
        by (simp add: sound_world_safe sqlite_runtime.agent_safe_def loop_ended_def) auto
    qed
  qed
qed

theorem agent_loop_terminates_witness:
  "fst (run_loop 3 sample_agent no_expectations sample_expectation agent_start) \<noteq> Inr None"
  using agent_loop_terminates [OF _ _ agent_begun, of 2 3 no_expectations sample_expectation] by simp

text \<open>C4: no completion without the expected answer: when the loop reports a completed run, the last
  action of the model was the answer the application expects, and the last completion check
  accepted it.\<close>

theorem loop_completes_with_expected_answer:
  assumes "sqlite_runtime (ag_runtime A)" and "sound_world (ag_runtime A) (aw_runtime w)"
    and "replay (ru_hash (ag_runtime A)) (ag_run_id A) (history (rw_events (aw_runtime w)) (ag_run_id A)) = Inr s"
    and "max_steps s = Some m" and "nat (m - turn_index s) < fuel"
    and "run_loop fuel A xs x w = (Inr (Some r), w')" and "ml_outcome r = LOOP_COMPLETED"
  shows "last (ml_actions r) = FinalAnswer (ce_expected_answer x) \<and> ml_actions r \<noteq> [] \<and>
    ml_completions r \<noteq> [] \<and> cr_outcome (last (ml_completions r)) = ACCEPTED"
proof -
  note t = triple_returns [OF sqlite_runtime.run_loop_agent [OF sqlite_runtime_on [OF assms(1)] assms(5)]
      agent_at_turn [OF assms(2-4)] assms(6)]
  then have "completes_as x r" by (simp add: loop_ended_def)
  with assms(7) show ?thesis by (auto simp: completes_as_def)
qed

lemma sample_completes:
  obtains r w' where "run_loop 3 sample_agent no_expectations sample_expectation agent_start = (Inr (Some r), w')"
    and "ml_outcome r = LOOP_COMPLETED"
proof -
  have "\<exists>r w'. run_loop (Suc 2) sample_agent no_expectations sample_expectation agent_start = (Inr (Some r), w') \<and>
      ml_outcome r = LOOP_COMPLETED \<and> ml_actions r = [FinalAnswer ''ok''] \<and> status (ml_state r) = COMPLETED"
    by (rule sqlite_runtime.answer_eval [where b = "()" and s = begun_state, OF sqlite_runtime_on [of "ag_runtime sample_agent"] _
          sound_world_at [of "ag_runtime sample_agent"] agent_begun _ _ _ _ _ _ refl])
       (simp_all add: budget_left_def answering_def)
  with that show thesis by (auto simp: numeral_3_eq_3)
qed

theorem loop_completes_with_expected_answer_witness:
  "\<exists>r. fst (run_loop 3 sample_agent no_expectations sample_expectation agent_start) = Inr (Some r) \<and>
     last (ml_actions r) = FinalAnswer ''ok''"
proof -
  obtain r w' where r: "run_loop 3 sample_agent no_expectations sample_expectation agent_start = (Inr (Some r), w')"
      "ml_outcome r = LOOP_COMPLETED" by (rule sample_completes)
  from loop_completes_with_expected_answer [OF _ _ agent_begun _ _ r, of 2] r(1) show ?thesis by simp
qed

text \<open>The loop completes a ready run whose model gives the expected answer: in one iteration, with the
  run completed.\<close>

theorem expected_answer_completes_run:
  assumes "sqlite_runtime (ag_runtime A)" and "undisturbed (ag_runtime A)"
    and "sound_world (ag_runtime A) (aw_runtime w)"
    and "replay (ru_hash (ag_runtime A)) (ag_run_id A) (history (rw_events (aw_runtime w)) (ag_run_id A)) = Inr s"
    and "status s = READY" and "max_steps s = Some m" and "turn_index s < m" and "ag_run_id A \<noteq> []"
    and "ag_injector A = None" and "hex_hash (ru_hash (ag_runtime A))"
    and "\<forall>c. \<exists>a. ag_adapter A c (aw_adapter w) = (Inr (Some (FinalAnswer (ce_expected_answer x))), a)"
    and "ce_expected_answer x \<noteq> []" and "\<not> ce_require_verified_observation x"
  shows "\<exists>r w'. run_loop (Suc fuel) A xs x w = (Inr (Some r), w') \<and> ml_outcome r = LOOP_COMPLETED \<and>
    ml_actions r = [FinalAnswer (ce_expected_answer x)] \<and> status (ml_state r) = COMPLETED"
proof -
  let ?c = "turn_input (ag_run_id A) s (history (rw_events (aw_runtime w)) (ag_run_id A))"
  obtain b where b: "ag_adapter A ?c (aw_adapter w) = (Inr (Some (FinalAnswer (ce_expected_answer x))), b)"
    using assms(11) by blast
  show ?thesis
    by (rule sqlite_runtime.answer_eval [OF sqlite_runtime_on [OF assms(1)] assms(2) sound_world_at [OF assms(3)]
          assms(4,5) _ _ assms(8-10) refl b])
       (use assms in \<open>simp_all add: budget_left_def\<close>)
qed

theorem expected_answer_completes_run_witness:
  "\<exists>r w'. run_loop 1 sample_agent no_expectations sample_expectation agent_start = (Inr (Some r), w') \<and>
     ml_outcome r = LOOP_COMPLETED"
proof -
  have "\<forall>c. \<exists>a. ag_adapter sample_agent c (aw_adapter agent_start) =
      (Inr (Some (FinalAnswer (ce_expected_answer sample_expectation))), a)"
    by (simp add: answering_def)
  from expected_answer_completes_run [OF _ _ _ agent_begun _ _ _ _ _ _ this, of 2 0 no_expectations]
  show ?thesis by auto
qed

end
