(* ===== verification/Trace.thy ===== *)
theory Trace
  imports Histories
begin

section \<open>Traces (trace.py)\<close>

text \<open>
  The redacted view of a run that is rebuilt from its events: one record per event with the
  statuses around it, two digests and the safe part of its payload, and the metrics. The
  duration is computed in double precision the way the code computes it.
\<close>

subsection \<open>Safe payload fields\<close>

definition TRACE_SCHEMA_VERSION :: int where
  "TRACE_SCHEMA_VERSION = 1"

definition SAFE_PAYLOAD_FIELDS :: "string list" where
  "SAFE_PAYLOAD_FIELDS =
     [''action_type'', ''attempt'', ''completed_steps'', ''effect_id'', ''gate_mode'',
      ''invocation_id'', ''max_attempts'', ''max_steps'', ''mode'', ''model_action_event_id'',
      ''outcome'', ''proposal_digest'', ''revision'', ''scope'', ''step_id'', ''tool_call_id'',
      ''tool_name'', ''turn_index'']"

text \<open>\<open>value is None or isinstance(value, (str, int, float, bool))\<close>.\<close>

fun trace_scalar :: "json \<Rightarrow> bool" where
  "trace_scalar (JArr _) = False"
| "trace_scalar (JObj _) = False"
| "trace_scalar JUnserializable = False"
| "trace_scalar _ = True"

definition safe_payload_metadata :: "ExecutionEvent \<Rightarrow> payload" where
  "safe_payload_metadata e =
     [(f, get (payload e) f). f \<leftarrow> SAFE_PAYLOAD_FIELDS,
        trace_scalar (get (payload e) f) \<and> has_key (payload e) f]"

subsection \<open>Durations\<close>

text \<open>
  Subtraction of aware \<open>datetime\<close> values: microseconds of the proleptic Gregorian calendar,
  less the UTC offset.
\<close>

definition days_before_year :: "nat \<Rightarrow> nat" where
  "days_before_year y = (let z = y - 1 in z * 365 + z div 4 + z div 400 - z div 100)"

definition toordinal :: "datetime \<Rightarrow> nat" where
  "toordinal t = days_before_year (year t) +
     sum_list (map (days_in_month (year t)) [1..<month t]) + day t"

definition utc_microseconds :: "datetime \<Rightarrow> int" where
  "utc_microseconds t =
     ((int (toordinal t) * 86400 + int (hour t * 3600 + minute t * 60 + second t)) -
      (case utcoffset t of None \<Rightarrow> 0 | Some z \<Rightarrow> z * 60)) * 1000000 + int (microsecond t)"

text \<open>
  Double precision on the values the code meets. A double is \<open>(m, k)\<close> for \<open>m / 2 ^ k\<close>;
  \<open>double_div n d\<close> is the double nearest to \<open>n / d\<close> (ties to even) when it is below
  \<open>2 ^ 53\<close>, with \<open>m\<close> of 53 bits. Differences of \<open>datetime\<close> values are below
  \<open>4 * 10 ^ 11\<close> seconds and at least a microsecond, so the exponent never leaves this range.
\<close>

definition round_half_even :: "nat \<Rightarrow> nat \<Rightarrow> nat" where
  "round_half_even n d =
     (let q = n div d; r = n mod d in
      if 2 * r < d \<or> (2 * r = d \<and> even q) then q else Suc q)"

definition double_shift :: "nat \<Rightarrow> nat \<Rightarrow> nat" where
  "double_shift n d = (case find (\<lambda>k. 2 ^ 52 * d \<le> n * 2 ^ k) [0..<128] of None \<Rightarrow> 0 | Some k \<Rightarrow> k)"

definition double_div :: "nat \<Rightarrow> nat \<Rightarrow> nat \<times> nat" where
  "double_div n d = (let k = double_shift n d in (round_half_even (n * 2 ^ k) d, k))"

text \<open>\<open>duration.total_seconds()\<close>, and \<open>int(duration.total_seconds() * 1000)\<close>.\<close>

definition total_seconds :: "nat \<Rightarrow> nat \<times> nat" where
  "total_seconds us = double_div us 1000000"

definition truncated_ms :: "nat \<Rightarrow> nat" where
  "truncated_ms us =
     (let (m, k) = total_seconds us; (m', k') = double_div (m * 1000) (2 ^ k) in m' div 2 ^ k')"

text \<open>A negative duration truncates to at most zero, and \<open>max(0, ...)\<close> makes it zero.\<close>

definition duration_ms :: "ExecutionEvent list \<Rightarrow> nat" where
  "duration_ms es =
     (if 1 < length es
      then truncated_ms (nat (utc_microseconds (ev_occurred_at (last es)) -
        utc_microseconds (ev_occurred_at (hd es))))
      else 0)"

subsection \<open>Records, metrics and the trace\<close>

record TraceEvent =
  tr_sequence :: int
  tr_event_id :: string
  tr_event_type :: string
  tr_occurred_at :: string
  tr_state_before :: string
  tr_state_after :: string
  tr_payload_sha256 :: string
  tr_event_fingerprint :: string
  tr_metadata_json :: string

definition trace_metadata :: "TraceEvent \<Rightarrow> json" where
  "trace_metadata t = (case loads (tr_metadata_json t) of Some v \<Rightarrow> v | None \<Rightarrow> JUnserializable)"

definition trace_event_dict :: "TraceEvent \<Rightarrow> payload" where
  "trace_event_dict t =
     [(''event_fingerprint'', JStr (tr_event_fingerprint t)),
      (''event_id'', JStr (tr_event_id t)),
      (''event_type'', JStr (tr_event_type t)),
      (''metadata'', trace_metadata t),
      (''occurred_at'', JStr (tr_occurred_at t)),
      (''payload_sha256'', JStr (tr_payload_sha256 t)),
      (''sequence'', JInt (tr_sequence t)),
      (''state_after'', JStr (tr_state_after t)),
      (''state_before'', JStr (tr_state_before t))]"

record TraceMetrics =
  tm_event_count :: nat
  tm_model_action_count :: nat
  tm_tool_request_count :: nat
  tm_gate_escalation_count :: nat
  tm_verification_success_count :: nat
  tm_verification_failure_count :: nat
  tm_runtime_steps :: int
  tm_duration_ms :: nat

definition trace_metrics_dict :: "TraceMetrics \<Rightarrow> payload" where
  "trace_metrics_dict t =
     [(''duration_ms'', JInt (int (tm_duration_ms t))),
      (''event_count'', JInt (int (tm_event_count t))),
      (''gate_escalation_count'', JInt (int (tm_gate_escalation_count t))),
      (''model_action_count'', JInt (int (tm_model_action_count t))),
      (''runtime_steps'', JInt (tm_runtime_steps t)),
      (''tool_request_count'', JInt (int (tm_tool_request_count t))),
      (''verification_failure_count'', JInt (int (tm_verification_failure_count t))),
      (''verification_success_count'', JInt (int (tm_verification_success_count t)))]"

record RunTrace =
  rt_run_id :: string
  rt_final_status :: string
  rt_records :: "TraceEvent list"
  rt_metrics :: TraceMetrics
  rt_schema_version :: int

definition run_trace_dict :: "RunTrace \<Rightarrow> payload" where
  "run_trace_dict t =
     [(''final_status'', JStr (rt_final_status t)),
      (''metrics'', JObj (trace_metrics_dict (rt_metrics t))),
      (''records'', JArr (map (JObj \<circ> trace_event_dict) (rt_records t))),
      (''run_id'', JStr (rt_run_id t)),
      (''schema_version'', JInt (rt_schema_version t))]"

definition trace_canonical_json :: "json \<Rightarrow> string result" where
  "trace_canonical_json v = (case dumps v of None \<Rightarrow> Inl PyValueError | Some t \<Rightarrow> Inr t)"

definition trace_digest :: "hash \<Rightarrow> RunTrace \<Rightarrow> string result" where
  "trace_digest H t = bindR (trace_canonical_json (JObj (run_trace_dict t))) (\<lambda>s. Inr (H s))"

subsection \<open>Building a trace\<close>

definition trace_record ::
  "hash \<Rightarrow> RunState \<Rightarrow> RunState \<Rightarrow> ExecutionEvent \<Rightarrow> TraceEvent result" where
  "trace_record H s s' e =
     bindR (trace_canonical_json (JObj (safe_payload_metadata e))) (\<lambda>text.
     Inr \<lparr>tr_sequence = ev_sequence e, tr_event_id = ev_event_id e,
       tr_event_type = type_value (ev_event_type e),
       tr_occurred_at = isoformat (ev_occurred_at e),
       tr_state_before = status_value (status s), tr_state_after = status_value (status s'),
       tr_payload_sha256 = H (ev_payload_json e), tr_event_fingerprint = fingerprint H e,
       tr_metadata_json = text\<rparr>)"

definition trace_step ::
  "hash \<Rightarrow> RunState \<times> TraceEvent list \<Rightarrow> ExecutionEvent \<Rightarrow> (RunState \<times> TraceEvent list) result" where
  "trace_step H acc e =
     bindR (reduce H (fst acc) e) (\<lambda>s'.
     bindR (trace_record H (fst acc) s' e) (\<lambda>t. Inr (s', snd acc @ [t])))"

definition count_type :: "EventType \<Rightarrow> ExecutionEvent list \<Rightarrow> nat" where
  "count_type k es = length (filter (\<lambda>e. ev_event_type e = k) es)"

definition trace_metrics :: "RunState \<Rightarrow> ExecutionEvent list \<Rightarrow> TraceMetrics" where
  "trace_metrics s es =
     \<lparr>tm_event_count = length es,
      tm_model_action_count = count_type MODEL_ACTION_PROPOSED es,
      tm_tool_request_count = count_type TOOL_REQUESTED es,
      tm_gate_escalation_count = count_type TOOL_ESCALATED es,
      tm_verification_success_count = count_type VERIFICATION_SUCCEEDED es,
      tm_verification_failure_count = count_type VERIFICATION_FAILED es,
      tm_runtime_steps = turn_index s, tm_duration_ms = duration_ms es\<rparr>"

definition build_run_trace :: "hash \<Rightarrow> string \<Rightarrow> ExecutionEvent list \<Rightarrow> RunTrace result" where
  "build_run_trace H run_id es =
     bindR (initial_state run_id) (\<lambda>s0.
     bindR (foldR (trace_step H) (s0, []) es) (\<lambda>acc.
     Inr \<lparr>rt_run_id = run_id, rt_final_status = status_value (status (fst acc)),
       rt_records = snd acc, rt_metrics = trace_metrics (fst acc) es,
       rt_schema_version = TRACE_SCHEMA_VERSION\<rparr>))"

end
