(* ===== verification/TraceProperties.thy ===== *)
theory TraceProperties
  imports Trace Complex_Main
begin

section \<open>Properties of traces\<close>

text \<open>
  A trace is a view of the replay: it exists exactly where the replay does, its statuses are the
  replayed ones, its metadata are the safe scalars of the payloads, its digest binds the events,
  and its duration is within a millisecond of the exact one.
\<close>

subsection \<open>The records of a trace\<close>

lemma safe_fields_sorted: "sorted_wrt (<) SAFE_PAYLOAD_FIELDS"
  by (simp add: SAFE_PAYLOAD_FIELDS_def)

lemma sorted_keys_fields:
  "sorted_wrt (<) fs \<Longrightarrow> sorted_keys [(f, g f). f \<leftarrow> fs, P f]"
proof (induction fs)
  case (Cons f fs)
  have "f < k" if "(k, v) \<in> set [(f, g f). f \<leftarrow> fs, P f]" for k v
    using that Cons.prems by auto
  with Cons show ?case by auto
qed simp

lemma canon_field:
  assumes "canon (JObj p)"
  shows "canon (get p k)"
proof (cases "map_of p k")
  case (Some v)
  then have "(k, v) \<in> set p" by (rule map_of_SomeD)
  with assms Some show ?thesis by (auto simp: get_def get_default_def canon_obj)
qed (simp add: get_def get_default_def)

lemma canon_metadata:
  assumes "wf_event e"
  shows "canon (JObj (safe_payload_metadata e))"
  using assms canon_field [of "payload e"] sorted_keys_fields [OF safe_fields_sorted]
  by (auto simp: canon_obj safe_payload_metadata_def wf_event_iff)

lemma trace_record_eq:
  assumes "wf_event e"
  shows "trace_record H s s' e =
    Inr \<lparr>tr_sequence = ev_sequence e, tr_event_id = ev_event_id e,
      tr_event_type = type_value (ev_event_type e), tr_occurred_at = isoformat (ev_occurred_at e),
      tr_state_before = status_value (status s), tr_state_after = status_value (status s'),
      tr_payload_sha256 = H (ev_payload_json e), tr_event_fingerprint = fingerprint H e,
      tr_metadata_json = render (JObj (safe_payload_metadata e))\<rparr>"
  using dumps_canon [OF canon_metadata [OF assms]]
  by (simp add: trace_record_def trace_canonical_json_def)

definition between :: "hash \<Rightarrow> RunState \<Rightarrow> ExecutionEvent list \<Rightarrow> nat \<Rightarrow> TraceEvent \<Rightarrow> bool" where
  "between H s0 es i t \<longleftrightarrow> (\<exists>a b. foldR (reduce H) s0 (take i es) = Inr a \<and>
     foldR (reduce H) s0 (take (Suc i) es) = Inr b \<and> trace_record H a b (es ! i) = Inr t)"

lemma trace_fold:
  assumes "\<forall>e \<in> set es. wf_event e"
  shows "case foldR (reduce H) s0 es of
      Inl x \<Rightarrow> foldR (trace_step H) (s0, []) es = Inl x
    | Inr s \<Rightarrow> \<exists>ts. foldR (trace_step H) (s0, []) es = Inr (s, ts) \<and> length ts = length es \<and>
        (\<forall>i < length es. between H s0 es i (ts ! i))"
  using assms
proof (induction es rule: rev_induct)
  case (snoc e es)
  show ?case
  proof (cases "foldR (reduce H) s0 es")
    case (Inl x)
    with snoc show ?thesis by (simp add: foldR_append)
  next
    case (Inr s)
    with snoc obtain ts where ts: "foldR (trace_step H) (s0, []) es = Inr (s, ts)"
      "length ts = length es" "\<forall>i < length es. between H s0 es i (ts ! i)" by auto
    show ?thesis
    proof (cases "reduce H s e")
      case (Inl x)
      with Inr ts show ?thesis by (simp add: foldR_append trace_step_def)
    next
      case r: (Inr s')
      obtain t where t: "trace_record H s s' e = Inr t" using trace_record_eq snoc.prems by fastforce
      have "between H s0 (es @ [e]) i ((ts @ [t]) ! i)" if "i < Suc (length es)" for i
      proof (cases "i = length es")
        case True
        with Inr r t ts(2) show ?thesis by (simp add: between_def foldR_append nth_append)
      next
        case False
        with that have "i < length es" by simp
        with ts(2,3) show ?thesis by (simp add: between_def nth_append)
      qed
      with Inr r t ts show ?thesis by (simp add: foldR_append trace_step_def)
    qed
  qed
qed simp

text \<open>C26: traces: over well-formed events, building a trace raises exactly what the replay of the
  history raises; otherwise its final status and step count are those of the replayed state, it
  has one record per event, and record \<open>i\<close> carries the statuses of the replays of the first
  \<open>i\<close> and \<open>i + 1\<close> events.\<close>

theorem trace_is_the_replay:
  assumes "\<forall>e \<in> set es. wf_event e"
  shows "case replay H run es of
      Inl x \<Rightarrow> build_run_trace H run es = Inl x
    | Inr s \<Rightarrow> \<exists>t. build_run_trace H run es = Inr t \<and> rt_final_status t = status_value (status s) \<and>
        tm_runtime_steps (rt_metrics t) = turn_index s \<and> length (rt_records t) = length es \<and>
        (\<forall>i < length es. \<exists>a b. replay H run (take i es) = Inr a \<and> replay H run (take (Suc i) es) = Inr b \<and>
           tr_state_before (rt_records t ! i) = status_value (status a) \<and>
           tr_state_after (rt_records t ! i) = status_value (status b) \<and>
           tr_event_fingerprint (rt_records t ! i) = fingerprint H (es ! i))"
proof (cases "initial_state run")
  case (Inl x)
  then show ?thesis by (simp add: build_run_trace_def replay_def)
next
  case (Inr s0)
  have at: "\<exists>a b. replay H run (take i es) = Inr a \<and> replay H run (take (Suc i) es) = Inr b \<and>
      tr_state_before t = status_value (status a) \<and> tr_state_after t = status_value (status b) \<and>
      tr_event_fingerprint t = fingerprint H (es ! i)"
    if "between H s0 es i t" "i < length es" for i t
  proof -
    have "wf_event (es ! i)" using assms that(2) by simp
    with that(1) Inr show ?thesis by (auto simp: between_def replay_def replay_tail_def trace_record_eq)
  qed
  show ?thesis
  proof (cases "foldR (reduce H) s0 es")
    case (Inl x)
    with trace_fold [OF assms, of H s0] Inr show ?thesis
      by (simp add: build_run_trace_def replay_def replay_tail_def)
  next
    case s: (Inr s)
    with trace_fold [OF assms, of H s0] obtain ts where ts: "foldR (trace_step H) (s0, []) es = Inr (s, ts)"
      "length ts = length es" "\<forall>i < length es. between H s0 es i (ts ! i)" by auto
    with Inr s at show ?thesis
      by (simp add: build_run_trace_def replay_def replay_tail_def trace_metrics_def)
  qed
qed

subsection \<open>What a record shows\<close>

lemma trace_record_at:
  assumes "\<forall>e \<in> set es. wf_event e" and "build_run_trace H run es = Inr t"
  shows "length (rt_records t) = length es"
    and "i < length es \<Longrightarrow> \<exists>a b. trace_record H a b (es ! i) = Inr (rt_records t ! i)"
proof -
  from assms(2) obtain s0 s where s: "initial_state run = Inr s0" "foldR (trace_step H) (s0, []) es = Inr (s, rt_records t)"
    by (auto simp: build_run_trace_def result_simps)
  with trace_fold [OF assms(1), of H s0]
  have r: "length (rt_records t) = length es \<and> (\<forall>i < length es. between H s0 es i (rt_records t ! i))"
    by (cases "foldR (reduce H) s0 es") auto
  then show "length (rt_records t) = length es" ..
  show "\<exists>a b. trace_record H a b (es ! i) = Inr (rt_records t ! i)" if "i < length es"
    using r that unfolding between_def by blast
qed

lemma trace_metadata_eq:
  assumes "wf_event e" and "trace_record H a b e = Inr r"
  shows "trace_metadata r = JObj (safe_payload_metadata e)"
  using assms loads_render [OF canon_metadata [OF assms(1)]] by (auto simp: trace_record_eq trace_metadata_def)

text \<open>C40: traces: the metadata a trace shows of an event are exactly the fields of its payload that
  are on the list of safe fields and hold a scalar: no other field, no nested value and no made-up
  value is shown.\<close>

theorem trace_metadata_is_redacted:
  assumes "\<forall>e \<in> set es. wf_event e" and "build_run_trace H run es = Inr t" and "i < length es"
  shows "\<exists>d. trace_metadata (rt_records t ! i) = JObj d \<and>
    (\<forall>k v. (k, v) \<in> set d \<longleftrightarrow>
       k \<in> set SAFE_PAYLOAD_FIELDS \<and> (k, v) \<in> set (payload (es ! i)) \<and> trace_scalar v)"
proof -
  have wf: "wf_event (es ! i)" using assms(1,3) by simp
  from trace_record_at(2) [OF assms] obtain a b where "trace_record H a b (es ! i) = Inr (rt_records t ! i)"
    by blast
  note meta = trace_metadata_eq [OF wf this]
  have "sorted_keys (payload (es ! i))" using wf by (simp add: wf_event_iff canon_obj)
  note keys = map_of_eq_Some_iff [OF sorted_keys_distinct [OF this]]
  have "(k, v) \<in> set (safe_payload_metadata (es ! i)) \<longleftrightarrow>
      k \<in> set SAFE_PAYLOAD_FIELDS \<and> (k, v) \<in> set (payload (es ! i)) \<and> trace_scalar v" for k v
    by (auto simp: safe_payload_metadata_def get_def get_default_def has_key_def keys [symmetric])
  with meta show ?thesis by blast
qed

subsection \<open>What a digest binds\<close>

lemma canon_trace:
  assumes "\<forall>e \<in> set es. wf_event e" and "build_run_trace H run es = Inr t"
  shows "canon (JObj (run_trace_dict t))"
proof -
  have "canon (trace_metadata r)" if r: "r \<in> set (rt_records t)" for r
  proof -
    from r obtain i where i: "i < length es" "r = rt_records t ! i"
      using trace_record_at(1) [OF assms] by (metis in_set_conv_nth)
    then have wf: "wf_event (es ! i)" using assms(1) by simp
    from trace_record_at(2) [OF assms i(1)] i(2) trace_metadata_eq [OF wf] canon_metadata [OF wf]
    show ?thesis by fastforce
  qed
  then show ?thesis
    by (auto simp: run_trace_dict_def trace_metrics_dict_def trace_event_dict_def canon_obj)
qed

definition trace_text :: "RunTrace \<Rightarrow> string" where
  "trace_text t = render (JObj (run_trace_dict t))"

lemma trace_digest_eq:
  assumes "\<forall>e \<in> set es. wf_event e" and "build_run_trace H run es = Inr t"
  shows "trace_digest H t = Inr (H (trace_text t))"
  using dumps_canon [OF canon_trace [OF assms]]
  by (simp add: trace_digest_def trace_canonical_json_def trace_text_def)

lemma trace_text_fingerprints:
  assumes "\<forall>e \<in> set es. wf_event e" and "build_run_trace H run es = Inr t"
    and "\<forall>e \<in> set es'. wf_event e" and "build_run_trace H run' es' = Inr t'"
    and "trace_text t = trace_text t'"
  shows "map (fingerprint H) es = map (fingerprint H) es'"
proof -
  have "loads (trace_text t) = loads (trace_text t')" by (simp only: assms(5))
  then have "run_trace_dict t = run_trace_dict t'"
    using loads_render [OF canon_trace [OF assms(1,2)]] loads_render [OF canon_trace [OF assms(3,4)]]
    by (simp add: trace_text_def)
  then have r: "map trace_event_dict (rt_records t) = map trace_event_dict (rt_records t')"
    by (simp add: run_trace_dict_def map_map [symmetric] inj_map_eq_map inj_on_def del: map_map)
  have f: "tr_event_fingerprint (rt_records u ! i) = fingerprint H (fs ! i)"
    if "\<forall>e \<in> set fs. wf_event e" "build_run_trace H run0 fs = Inr u" "i < length fs" for fs u i run0
    using trace_record_at(2) [OF that] that(1,3)
    by (auto simp: trace_record_eq dest!: sym [of _ "rt_records u ! i"])
  have len: "length (rt_records t) = length es" "length (rt_records t') = length es'"
    using trace_record_at(1) assms(1-4) by blast+
  show ?thesis
  proof (rule nth_equalityI)
    show "length (map (fingerprint H) es) = length (map (fingerprint H) es')"
      using arg_cong [OF r, of length] len by simp
    fix i assume i: "i < length (map (fingerprint H) es)"
    with r len have "trace_event_dict (rt_records t ! i) = trace_event_dict (rt_records t' ! i)" "i < length es'"
      by (metis length_map nth_map)+
    with i show "map (fingerprint H) es ! i = map (fingerprint H) es' ! i"
      using f [OF assms(1,2), of i] f [OF assms(3,4), of i] by (simp add: trace_event_dict_def)
  qed
qed

text \<open>Traces: the digest of a trace binds the whole history it shows, payloads included: two
  well-formed histories whose traces have the same digest are equal, or the hash collides on two
  of the texts that were hashed.\<close>

theorem trace_digest_binds_history:
  assumes "\<forall>e \<in> set es. wf_event e" and "\<forall>e \<in> set es'. wf_event e"
    and "build_run_trace H run es = Inr t" and "build_run_trace H run' es' = Inr t'"
    and "trace_digest H t = trace_digest H t'"
  shows "es = es' \<or>
    (\<exists>x \<in> insert (trace_text t) (event_text ` set es). \<exists>y \<in> insert (trace_text t') (event_text ` set es').
       x \<noteq> y \<and> H x = H y)"
proof (cases "trace_text t = trace_text t'")
  case True
  from fingerprints_bind [OF assms(1,2) trace_text_fingerprints [OF assms(1,3,2,4) True]]
  show ?thesis by blast
next
  case False
  moreover have "H (trace_text t) = H (trace_text t')"
    using assms(5) by (simp add: trace_digest_eq [OF assms(1,3)] trace_digest_eq [OF assms(2,4)])
  ultimately show ?thesis by blast
qed

subsection \<open>Rounding\<close>

lemma round_half_even_error:
  assumes "0 < d"
  shows "\<bar>real (round_half_even n d) - real n / real d\<bar> \<le> 1 / 2"
proof -
  let ?q = "n div d" and ?r = "n mod d"
  have n: "real n = real ?q * real d + real ?r"
    by (metis div_mult_mod_eq of_nat_add of_nat_mult)
  then have x: "real n / real d = real ?q + real ?r / real d" using assms by (simp add: field_simps)
  have r: "?r < d" using assms by simp
  show ?thesis
  proof (cases "2 * ?r < d \<or> (2 * ?r = d \<and> even ?q)")
    case True
    then have "round_half_even n d = ?q" by (simp add: round_half_even_def Let_def)
    moreover have "2 * real ?r \<le> real d" using True by linarith
    ultimately show ?thesis using x assms by (simp add: field_simps)
  next
    case False
    then have "round_half_even n d = Suc ?q" by (simp add: round_half_even_def Let_def)
    moreover have "real d \<le> 2 * real ?r" using False by linarith
    moreover have "real ?r \<le> real d" using r by simp
    ultimately show ?thesis using x assms by (simp add: field_simps)
  qed
qed

text \<open>The relative error of \<open>double_div\<close> is at most half a unit in the 53rd place.\<close>

definition double_value :: "nat \<times> nat \<Rightarrow> real" where
  "double_value x = real (fst x) / 2 ^ snd x"

lemma double_shift_ok:
  assumes "2 ^ 52 * d \<le> n * 2 ^ 127"
  shows "2 ^ 52 * d \<le> n * 2 ^ double_shift n d"
proof -
  have "find (\<lambda>k. 2 ^ 52 * d \<le> n * 2 ^ k) [0..<128] \<noteq> None"
    using assms by (auto simp: find_None_iff intro!: exI [of _ 127])
  then obtain k where k: "find (\<lambda>k. 2 ^ 52 * d \<le> n * 2 ^ k) [0..<128] = Some k" by blast
  then have "2 ^ 52 * d \<le> n * 2 ^ k" by (auto simp: find_Some_iff)
  with k show ?thesis by (simp add: double_shift_def)
qed

lemma double_div_error:
  assumes "0 < d" and "2 ^ 52 * d \<le> n * 2 ^ 127"
  shows "\<bar>double_value (double_div n d) - real n / real d\<bar> \<le> real n / real d / 2 ^ 53"
proof -
  let ?k = "double_shift n d"
  have "real (2 ^ 52 * d) \<le> real (n * 2 ^ ?k)" using double_shift_ok [OF assms(2)] by (rule of_nat_mono)
  then have "2 ^ 52 * real d \<le> real n * 2 ^ ?k" by simp
  then have half: "1 / 2 \<le> real n / real d * 2 ^ ?k / 2 ^ 53" using assms(1) by (simp add: field_simps)
  have "\<bar>real (round_half_even (n * 2 ^ ?k) d) - real n / real d * 2 ^ ?k\<bar> \<le> 1 / 2"
    using round_half_even_error [OF assms(1), of "n * 2 ^ ?k"] by (simp add: mult.commute)
  with half have "\<bar>real (round_half_even (n * 2 ^ ?k) d) - real n / real d * 2 ^ ?k\<bar>
      \<le> real n / real d / 2 ^ 53 * 2 ^ ?k" by (simp add: mult_ac)
  moreover have "real (round_half_even (n * 2 ^ ?k) d) - real n / real d * 2 ^ ?k =
      (double_value (double_div n d) - real n / real d) * 2 ^ ?k"
    by (simp add: double_value_def double_div_def Let_def field_simps)
  ultimately have "\<bar>double_value (double_div n d) - real n / real d\<bar> * 2 ^ ?k
      \<le> real n / real d / 2 ^ 53 * 2 ^ ?k" by (simp add: abs_mult)
  then show ?thesis by (rule mult_right_le_imp_le) simp
qed

subsection \<open>The duration\<close>

lemma double_shift_less: "double_shift n d < 128"
proof -
  have "k < 128" if "find P [0..<128] = Some k" for P k
    using that by (auto simp: find_Some_iff)
  then show ?thesis by (auto simp: double_shift_def split: option.splits)
qed

lemma round_half_even_ge:
  assumes "0 < d" and "a * d \<le> n"
  shows "a \<le> round_half_even n d"
proof -
  have "a \<le> n div d" using assms by (simp add: less_eq_div_iff_mult_less_eq)
  then show ?thesis by (simp add: round_half_even_def Let_def)
qed

lemma truncated_ms_error:
  assumes "0 < us" and "us < 2 ^ 51"
  shows "1000 * truncated_ms us \<le> us" and "us \<le> 1000 * truncated_ms us + 1000"
proof -
  define S where "S = double_div us 1000000"
  define T where "T = double_div (fst S * 1000) (2 ^ snd S)"
  have "(2::nat) ^ 52 * 1000000 \<le> 1 * 2 ^ 127" by simp
  also have "\<dots> \<le> us * 2 ^ 127" using assms(1) by (intro mult_le_mono1) simp
  finally have big: "2 ^ 52 * 1000000 \<le> us * 2 ^ 127" .
  have k: "snd S < 128" using double_shift_less by (simp add: S_def double_div_def Let_def)
  have "2 ^ 52 \<le> fst S"
    using round_half_even_ge [OF _ double_shift_ok [OF big]] by (simp add: S_def double_div_def Let_def)
  then have "(2::nat) ^ 52 * 2 ^ snd S \<le> fst S * 2 ^ 127"
    using k by (intro mult_le_mono power_increasing) auto
  then have big': "2 ^ 52 * 2 ^ snd S \<le> fst S * 1000 * 2 ^ 127" by linarith
  have s: "\<bar>double_value S - real us / 1000000\<bar> \<le> real us / 1000000 / 2 ^ 53"
    using double_div_error [OF _ big] by (simp add: S_def)
  have t: "\<bar>double_value T - 1000 * double_value S\<bar> \<le> 1000 * double_value S / 2 ^ 53"
    using double_div_error [OF _ big'] by (simp add: T_def double_value_def mult.commute)
  have u: "real us < 2 ^ 51" using assms(2) by simp
  have close: "real us - 1 < 1000 * double_value T" "1000 * double_value T < real us + 1"
    using s t u unfolding abs_le_iff power_numeral by simp_all
  have f: "truncated_ms us = fst T div 2 ^ snd T"
    by (simp add: truncated_ms_def total_seconds_def S_def T_def split_beta)
  have T: "real (fst T) = double_value T * 2 ^ snd T" by (simp add: double_value_def)
  have "truncated_ms us * 2 ^ snd T \<le> fst T" by (simp add: f)
  then have "real (truncated_ms us * 2 ^ snd T) \<le> real (fst T)" by (rule of_nat_mono)
  then have lo: "real (truncated_ms us) \<le> double_value T" by (simp add: T)
  have "fst T < (truncated_ms us + 1) * 2 ^ snd T"
    using dividend_less_div_times [of "2 ^ snd T" "fst T"] by (simp add: f algebra_simps)
  then have "real (fst T) < real ((truncated_ms us + 1) * 2 ^ snd T)" by (simp only: of_nat_less_iff)
  then have "double_value T * 2 ^ snd T < (real (truncated_ms us) + 1) * 2 ^ snd T"
    by (simp add: T algebra_simps)
  then have hi: "double_value T < real (truncated_ms us) + 1" by simp
  show "1000 * truncated_ms us \<le> us" using lo close(2) by linarith
  show "us \<le> 1000 * truncated_ms us + 1000" using hi close(1) by linarith
qed

lemma trace_metrics_eq:
  assumes "build_run_trace H run es = Inr t"
  shows "\<exists>s. rt_metrics t = trace_metrics s es"
  using assms by (auto simp: build_run_trace_def result_simps)

definition elapsed :: "ExecutionEvent list \<Rightarrow> int" where
  "elapsed es = utc_microseconds (ev_occurred_at (last es)) - utc_microseconds (ev_occurred_at (hd es))"

lemma truncated_ms_zero: "truncated_ms 0 = 0"
  by (simp add: truncated_ms_def total_seconds_def double_div_def double_shift_def round_half_even_def
      Let_def find_None_iff split: option.splits)

text \<open>Traces: the duration in a trace is the elapsed time in whole milliseconds, rounded down, or
  one millisecond less; it can only be less when the elapsed time is itself a whole number of
  milliseconds (a double-precision product that falls just below an integer is truncated). This
  holds up to \<open>2 ^ 51\<close> microseconds, about 71 years; a clock that runs backwards gives zero.\<close>

theorem trace_duration_bounds:
  assumes "build_run_trace H run es = Inr t" and "es \<noteq> []" and "elapsed es < 2 ^ 51"
  shows "if elapsed es \<le> 0 then tm_duration_ms (rt_metrics t) = 0
    else int (tm_duration_ms (rt_metrics t)) = elapsed es div 1000 \<or>
      (int (tm_duration_ms (rt_metrics t)) = elapsed es div 1000 - 1 \<and> elapsed es mod 1000 = 0)"
proof -
  have d: "tm_duration_ms (rt_metrics t) = truncated_ms (nat (elapsed es))"
  proof (cases "1 < length es")
    case True
    with trace_metrics_eq [OF assms(1)] show ?thesis
      by (auto simp: trace_metrics_def duration_ms_def elapsed_def)
  next
    case False
    with assms(2) have "last es = hd es" by (cases es) auto
    with False trace_metrics_eq [OF assms(1)] show ?thesis
      by (auto simp: trace_metrics_def duration_ms_def elapsed_def truncated_ms_zero)
  qed
  show ?thesis
  proof (cases "elapsed es \<le> 0")
    case True
    then show ?thesis by (simp add: d truncated_ms_zero)
  next
    case False
    then have "1000 * truncated_ms (nat (elapsed es)) \<le> nat (elapsed es)"
        "nat (elapsed es) \<le> 1000 * truncated_ms (nat (elapsed es)) + 1000"
      using truncated_ms_error [of "nat (elapsed es)"] assms(3) by simp_all
    then have "1000 * int (truncated_ms (nat (elapsed es))) \<le> elapsed es"
        "elapsed es \<le> 1000 * int (truncated_ms (nat (elapsed es))) + 1000"
      using False by linarith+
    moreover have "elapsed es = 1000 * (elapsed es div 1000) + elapsed es mod 1000" by simp
    moreover have "0 \<le> elapsed es mod 1000" "elapsed es mod 1000 < 1000" by simp_all
    ultimately have "int (truncated_ms (nat (elapsed es))) = elapsed es div 1000 \<or>
        (int (truncated_ms (nat (elapsed es))) = elapsed es div 1000 - 1 \<and> elapsed es mod 1000 = 0)"
      by linarith
    with False d show ?thesis by simp
  qed
qed

subsection \<open>A run whose start is recorded 1.001 seconds after its creation\<close>

definition later :: datetime where
  "later = noon\<lparr>second := 1, microsecond := 1000\<rparr>"

definition timed_events :: "ExecutionEvent list" where
  "timed_events =
     [sample_event ''a'' 0 RUN_CREATED [(''max_steps'', JInt 2)],
      (sample_event ''b'' 1 RUN_STARTED [(''note'', JArr []), (''step_id'', JStr ''s'')])\<lparr>ev_occurred_at := later\<rparr>]"

lemma timed_second:
  "payload ((sample_event i n k p)\<lparr>ev_occurred_at := d\<rparr>) = payload (sample_event i n k p)"
  by (simp add: payload_def sample_event_def)

lemma wf_timed: "\<forall>e \<in> set timed_events. wf_event e"
proof -
  have c: "canon (JObj [(''note'', JArr []), (''step_id'', JStr ''s'')])" by (simp add: canon_obj)
  have "valid_datetime later" by (simp add: later_def noon_def valid_datetime_def days_in_month_def)
  moreover have "utcoffset later = Some 0" by (simp add: later_def noon_def)
  ultimately have "wf_event ((sample_event ''b'' 1 RUN_STARTED
      [(''note'', JArr []), (''step_id'', JStr ''s'')])\<lparr>ev_occurred_at := later\<rparr>)"
    using wf_sample_event [of "''b''" 1, OF _ _ c] by (simp add: wf_event_iff timed_second)
  then show ?thesis by (simp add: timed_events_def wf_sample_event canon_obj)
qed

lemma replay_timed: "replay flat_hash ''r'' timed_events = Inr ready_state"
  by (simp add: replay_def replay_tail_def timed_events_def ready_state_def initial_state_def empty_state_def
      reduce_eval timed_second)

lemma elapsed_timed: "elapsed timed_events = 1001000"
  by (simp add: elapsed_def timed_events_def sample_event_def later_def noon_def utc_microseconds_def
      toordinal_def)

lemma double_shiftI:
  assumes "k < 128" and "2 ^ 52 * d \<le> n * 2 ^ k" and "n * 2 ^ (k - 1) < 2 ^ 52 * d" and "0 < k"
  shows "double_shift n d = k"
proof -
  have "n * 2 ^ j < 2 ^ 52 * d" if "j < k" for j
  proof -
    have "n * 2 ^ j \<le> n * 2 ^ (k - 1)" using that by (intro mult_le_mono2 power_increasing) auto
    with assms(3) show ?thesis by linarith
  qed
  then have "find (\<lambda>k. 2 ^ 52 * d \<le> n * 2 ^ k) [0..<128] = Some k"
    using assms by (auto simp: find_Some_iff not_le intro!: exI [of _ k])
  then show ?thesis by (simp add: double_shift_def)
qed

lemma truncated_1001: "truncated_ms 1001000 = 1000"
proof -
  have "double_shift 1001000 1000000 = 52" by (rule double_shiftI) simp_all
  then have s: "total_seconds 1001000 = (4508103226997866, 52)"
    by (simp add: total_seconds_def double_div_def round_half_even_def)
  have "double_shift (4508103226997866 * 1000) (2 ^ 52) = 43" by (rule double_shiftI) simp_all
  then show ?thesis by (simp add: truncated_ms_def s double_div_def round_half_even_def)
qed

definition timed_trace :: RunTrace where
  "timed_trace = projr (build_run_trace flat_hash ''r'' timed_events)"

lemma timed_trace_eq: "build_run_trace flat_hash ''r'' timed_events = Inr timed_trace"
  using trace_fold [OF wf_timed, of flat_hash "empty_state ''r''"] replay_timed
  by (auto simp: timed_trace_def build_run_trace_def replay_def initial_state_def empty_state_def
      replay_tail_def state_post_init_def)

theorem trace_is_the_replay_witness:
  "\<exists>t. build_run_trace flat_hash ''r'' timed_events = Inr t \<and> rt_final_status t = ''ready'' \<and>
    tm_runtime_steps (rt_metrics t) = 0 \<and> length (rt_records t) = 2"
  using trace_is_the_replay [OF wf_timed, of flat_hash "''r''"] replay_timed
  by (auto simp: ready_state_def empty_state_def timed_events_def)

theorem trace_metadata_is_redacted_witness:
  "\<exists>d. trace_metadata (rt_records timed_trace ! 1) = JObj d \<and> (''step_id'', JStr ''s'') \<in> set d \<and>
    (\<forall>v. (''note'', v) \<notin> set d)"
proof -
  have c: "canon (JObj [(''note'', JArr []), (''step_id'', JStr ''s'')])" by (simp add: canon_obj)
  have "1 < length timed_events" by (simp add: timed_events_def)
  from trace_metadata_is_redacted [OF wf_timed timed_trace_eq this] show ?thesis
    by (fastforce simp: SAFE_PAYLOAD_FIELDS_def timed_events_def timed_second c)
qed

theorem trace_digest_binds_history_witness:
  "timed_events = started_events \<or>
    (\<exists>x \<in> insert (trace_text timed_trace) (event_text ` set timed_events).
       \<exists>y \<in> insert (trace_text (projr (build_run_trace flat_hash ''r'' started_events)))
          (event_text ` set started_events). x \<noteq> y \<and> flat_hash x = flat_hash y)"
proof -
  have wf: "\<forall>e \<in> set started_events. wf_event e" by (simp add: started_events_def wf_sample_event canon_obj)
  from trace_is_the_replay [OF this, of flat_hash "''r''"] replay_started
  obtain t where t: "build_run_trace flat_hash ''r'' started_events = Inr t" by auto
  have "trace_digest flat_hash timed_trace = trace_digest flat_hash t"
    by (simp add: trace_digest_eq [OF wf_timed timed_trace_eq] trace_digest_eq [OF wf t] flat_hash_def)
  from trace_digest_binds_history [OF wf_timed wf timed_trace_eq t this] t show ?thesis by simp
qed

theorem trace_duration_bounds_witness:
  "tm_duration_ms (rt_metrics timed_trace) = 1000 \<and> elapsed timed_events div 1000 = 1001"
proof -
  have "duration_ms timed_events = 1000"
    using elapsed_timed truncated_1001 by (simp add: duration_ms_def elapsed_def timed_events_def)
  then have "tm_duration_ms (rt_metrics timed_trace) = 1000"
    using trace_metrics_eq [OF timed_trace_eq] by (auto simp: trace_metrics_def)
  moreover have "timed_events \<noteq> []" by (simp add: timed_events_def)
  from trace_duration_bounds [OF timed_trace_eq this]
  have "int (tm_duration_ms (rt_metrics timed_trace)) \<in> {1001, 1000}" by (simp add: elapsed_timed split: if_splits)
  ultimately show ?thesis by (simp add: elapsed_timed)
qed

end
