(* ===== verification/ModelProvider.thy ===== *)
theory ModelProvider
  imports ModelActions
begin

section \<open>The chat-completions adapter (openai\_compatible\_adapter.py)\<close>

text \<open>
  The tool schemas shown to a provider, the request built for a model turn, the parsing of the
  response, and the adapter over a transport and a source of credentials, which are parameters.
  A JSON value stands for a Python value wherever the code tests its type; a float that is not
  finite is \<open>JUnserializable\<close>.
\<close>

definition required_text_value :: "json \<Rightarrow> string result" where
  "required_text_value value =
     (case value of
        JStr t \<Rightarrow> ensure (t \<noteq> []) ModelActionValidationError (Inr t)
      | _ \<Rightarrow> Inl ModelActionValidationError)"

subsection \<open>Tool schemas\<close>

record ModelToolSpec =
  ts_name :: string
  ts_description :: string
  ts_parameters_json :: string

definition tool_spec_post_init :: "ModelToolSpec \<Rightarrow> ModelToolSpec result" where
  "tool_spec_post_init s =
     ensure (ts_name s \<noteq> []) ModelActionValidationError
     (ensure (ts_description s \<noteq> []) ModelActionValidationError
     (bindR (validate_object_text (ts_parameters_json s)) (\<lambda>t.
      Inr (s\<lparr>ts_parameters_json := t\<rparr>))))"

definition build_tool_spec :: "string \<Rightarrow> string \<Rightarrow> payload \<Rightarrow> ModelToolSpec result" where
  "build_tool_spec name description parameters =
     bindR (canonical_object_json parameters) (\<lambda>t.
     tool_spec_post_init \<lparr>ts_name = name, ts_description = description, ts_parameters_json = t\<rparr>)"

text \<open>Request dictionaries keep the order in which the code builds them.\<close>

definition as_provider_tool :: "ModelToolSpec \<Rightarrow> json" where
  "as_provider_tool s = JObj
     [(''type'', JStr ''function''),
      (''function'', JObj
         [(''name'', JStr (ts_name s)),
          (''description'', JStr (ts_description s)),
          (''parameters'', JObj (decoded (ts_parameters_json s)))])]"

definition object_schema :: "string list \<Rightarrow> payload" where
  "object_schema names =
     [(''type'', JStr ''object''),
      (''properties'', JObj (map (\<lambda>n. (n, JObj [(''type'', JStr ''string'')])) names)),
      (''required'', JArr (map JStr names)),
      (''additionalProperties'', JBool False)]"

definition restricted_file_model_tools :: "ModelToolSpec list result" where
  "restricted_file_model_tools =
     bindR (build_tool_spec ''read_file'' ''Read one UTF-8 file inside the Runtime workspace.''
       (object_schema [''path''])) (\<lambda>r.
     bindR (build_tool_spec ''write_file'' ''Write UTF-8 content to one file inside the Runtime workspace.''
       (object_schema [''path'', ''content''])) (\<lambda>w.
     bindR (build_tool_spec ''delete_file'' ''Delete one regular file inside the Runtime workspace.''
       (object_schema [''path''])) (\<lambda>d.
     Inr [r, w, d])))"

subsection \<open>Parsing a completion\<close>

text \<open>Python's truth value; a decoded float is false when its mantissa is zero.\<close>

fun truthy :: "json \<Rightarrow> bool" where
  "truthy JNull = False"
| "truthy (JBool b) = b"
| "truthy (JInt i) = (i \<noteq> 0)"
| "truthy (JFloat t) =
     (\<not> list_all (\<lambda>c. is_digit c \<longrightarrow> c = CHR ''0'') (takeWhile (\<lambda>c. c \<noteq> CHR ''e'' \<and> c \<noteq> CHR ''E'') t))"
| "truthy (JStr t) = (t \<noteq> [])"
| "truthy (JArr vs) = (vs \<noteq> [])"
| "truthy (JObj d) = (d \<noteq> [])"
| "truthy JUnserializable = True"

text \<open>\<open>isinstance(value, dict)\<close> with the dictionary, and \<open>isinstance(value, list)\<close> with one element.\<close>

definition as_object :: "json \<Rightarrow> payload result" where
  "as_object value = (case value of JObj d \<Rightarrow> Inr d | _ \<Rightarrow> Inl ModelActionValidationError)"

definition single_item :: "json \<Rightarrow> json result" where
  "single_item value = (case value of JArr [v] \<Rightarrow> Inr v | _ \<Rightarrow> Inl ModelActionValidationError)"

definition parse_tool_call :: "json_limits \<Rightarrow> json \<Rightarrow> ModelAction result" where
  "parse_tool_call L value =
     bindR (as_object value) (\<lambda>tool_call.
     ensure (get tool_call ''type'' = JStr ''function'') ModelActionValidationError
     (bindR (as_object (get tool_call ''function'')) (\<lambda>function.
      bindR (required_text_value (get tool_call ''id'')) (\<lambda>tool_call_id.
      bindR (required_text_value (get function ''name'')) (\<lambda>tool_name.
      bindR (required_text_value (get function ''arguments'')) (\<lambda>arguments_json.
      map_sum id ToolCall (untrusted_tool_call L tool_call_id tool_name arguments_json)))))))"

definition parse_message :: "json_limits \<Rightarrow> json \<Rightarrow> payload \<Rightarrow> ModelAction result" where
  "parse_message L finish_reason message =
     (let tool_calls = get message ''tool_calls''; content = get message ''content'' in
      if truthy tool_calls then
        ensure (finish_reason = JStr ''tool_calls'') ModelActionValidationError
        (ensure (content = JNull \<or> content = JStr []) ModelActionValidationError
        (bindR (single_item tool_calls) (parse_tool_call L)))
      else
        ensure (finish_reason = JStr ''stop'') ModelActionValidationError
        (bindR (required_text_value content) (\<lambda>answer. action_post_init (FinalAnswer answer))))"

definition parse_chat_completion :: "json_limits \<Rightarrow> payload \<Rightarrow> ModelAction result" where
  "parse_chat_completion L response =
     bindR (single_item (get response ''choices'')) (\<lambda>first.
     bindR (as_object first) (\<lambda>choice.
     bindR (as_object (get choice ''message'')) (\<lambda>message.
     parse_message L (get choice ''finish_reason'') message)))"

subsection \<open>The base URL\<close>

text \<open>
  \<open>urllib.parse.urlsplit\<close> as far as the code reads it: scheme, network location, and whether
  a query or a fragment is present. The checks that \<open>urllib\<close> makes of the characters of the
  network location (brackets, normalization) are the parameter \<open>netloc_ok\<close>.
\<close>

definition scheme_char :: "char \<Rightarrow> bool" where
  "scheme_char c \<longleftrightarrow> (let n = of_char c :: nat in
     (48 \<le> n \<and> n \<le> 57) \<or> (65 \<le> n \<and> n \<le> 90) \<or> (97 \<le> n \<and> n \<le> 122) \<or> c \<in> {CHR ''+'', CHR ''-'', CHR ''.''})"

definition ascii_lower :: "string \<Rightarrow> string" where
  "ascii_lower = map (\<lambda>c. let n = of_char c :: nat in if 65 \<le> n \<and> n \<le> 90 then char_of (n + 32) else c)"

definition ascii_alpha :: "char \<Rightarrow> bool" where
  "ascii_alpha c \<longleftrightarrow> (let n = of_char c :: nat in (65 \<le> n \<and> n \<le> 90) \<or> (97 \<le> n \<and> n \<le> 122))"

definition split_scheme :: "string \<Rightarrow> string \<times> string" where
  "split_scheme url =
     (let s = takeWhile (\<lambda>c. c \<noteq> CHR '':'') url; rest = drop (length s) url in
      if s \<noteq> [] \<and> rest \<noteq> [] \<and> ascii_alpha (hd s) \<and> list_all scheme_char s
      then (ascii_lower s, tl rest) else ([], url))"

definition clean_url :: "string \<Rightarrow> string" where
  "clean_url url = filter (\<lambda>c. c \<notin> {CHR 0x09, CHR 0x0A, CHR 0x0D})
     (dropWhile (\<lambda>c. (of_char c :: nat) \<le> 32) url)"

definition url_delimiter :: "char \<Rightarrow> bool" where
  "url_delimiter c \<longleftrightarrow> c \<in> {CHR ''/'', CHR ''?'', CHR ''#''}"

definition split_netloc :: "string \<Rightarrow> string \<times> string" where
  "split_netloc url =
     (if take 2 url = ''//''
      then (takeWhile (\<lambda>c. \<not> url_delimiter c) (drop 2 url), dropWhile (\<lambda>c. \<not> url_delimiter c) (drop 2 url))
      else ([], url))"

definition after_char :: "char \<Rightarrow> string \<Rightarrow> string" where
  "after_char c s = drop 1 (dropWhile (\<lambda>d. d \<noteq> c) s)"

definition rstrip_slash :: "string \<Rightarrow> string" where
  "rstrip_slash s = rev (dropWhile (\<lambda>c. c = CHR ''/'') (rev s))"

definition validate_base_url :: "(string \<Rightarrow> bool) \<Rightarrow> string \<Rightarrow> string result" where
  "validate_base_url netloc_ok base_url =
     (let (scheme, rest) = split_scheme (clean_url base_url); (netloc, path) = split_netloc rest;
          fragment = after_char (CHR ''#'') path;
          query = after_char (CHR ''?'') (takeWhile (\<lambda>c. c \<noteq> CHR ''#'') path) in
      ensure (netloc_ok netloc) PyValueError
      (ensure ((scheme = ''http'' \<or> scheme = ''https'') \<and> netloc \<noteq> []) PyValueError
      (ensure (query = [] \<and> fragment = []) PyValueError
      (Inr (rstrip_slash base_url)))))"

subsection \<open>The adapter\<close>

record OpenAICompatibleModelAdapter =
  oa_model :: string
  oa_task :: string
  oa_tools :: "ModelToolSpec list"
  oa_base_url :: string
  oa_api_key_env :: string
  oa_timeout_seconds :: json
  oa_max_tokens :: json
  oa_temperature :: json

text \<open>\<open>math.isfinite(value)\<close> raises \<open>TypeError\<close> on what is not a number.\<close>

definition check_number :: "json \<Rightarrow> (json \<Rightarrow> bool) \<Rightarrow> 'a result \<Rightarrow> 'a result" where
  "check_number value p k =
     (case value of
        JInt _ \<Rightarrow> ensure (p value) PyValueError k
      | JBool _ \<Rightarrow> ensure (p value) PyValueError k
      | JFloat _ \<Rightarrow> ensure (p value) PyValueError k
      | JUnserializable \<Rightarrow> Inl PyValueError
      | _ \<Rightarrow> Inl PyTypeError)"

fun negative :: "json \<Rightarrow> bool" where
  "negative (JInt i) = (i < 0)"
| "negative (JFloat t) = (truthy (JFloat t) \<and> take 1 t = ''-'')"
| "negative _ = False"

definition adapter_post_init ::
  "(string \<Rightarrow> bool) \<Rightarrow> OpenAICompatibleModelAdapter \<Rightarrow> OpenAICompatibleModelAdapter result" where
  "adapter_post_init netloc_ok A =
     ensure (oa_model A \<noteq> []) ModelActionValidationError
     (ensure (oa_task A \<noteq> []) ModelActionValidationError
     (ensure (oa_api_key_env A \<noteq> []) ModelActionValidationError
     (ensure (distinct (map ts_name (oa_tools A))) PyValueError
     (check_number (oa_timeout_seconds A) (\<lambda>v. truthy v \<and> \<not> negative v)
     (case oa_max_tokens A of
        JInt n \<Rightarrow>
          ensure (0 < n) PyValueError
          (check_number (oa_temperature A) (\<lambda>v. \<not> negative v)
          (bindR (validate_base_url netloc_ok (oa_base_url A)) (\<lambda>url.
           Inr (A\<lparr>oa_base_url := url\<rparr>))))
      | _ \<Rightarrow> Inl PyValueError)))))"

definition SYSTEM_PROMPT :: string where
  "SYSTEM_PROMPT =
     ''You propose exactly one next action. Use one available tool when '' @
     ''work remains; otherwise return the final answer. Runtime identity, '' @
     ''authorization, execution, verification, and completion are not under '' @
     ''your control.''"

definition runtime_context :: "ModelInput \<Rightarrow> payload" where
  "runtime_context c =
     [(''observation'', JObj (input_observation c)),
      (''run_id'', JStr (mi_run_id c)),
      (''state_status'', JStr (status_value (mi_state_status c))),
      (''step_id'', JStr (mi_step_id c)),
      (''turn_index'', JInt (mi_turn_index c))]"

definition user_content :: "OpenAICompatibleModelAdapter \<Rightarrow> ModelInput \<Rightarrow> string result" where
  "user_content A c =
     (case dumps (JObj [(''task'', JStr (oa_task A)), (''runtime_context'', JObj (runtime_context c))]) of
        None \<Rightarrow> Inl PyValueError
      | Some t \<Rightarrow> Inr t)"

definition provider_payload :: "OpenAICompatibleModelAdapter \<Rightarrow> ModelInput \<Rightarrow> payload result" where
  "provider_payload A c =
     bindR (user_content A c) (\<lambda>content.
     Inr ([(''model'', JStr (oa_model A)),
       (''messages'', JArr
          [JObj [(''role'', JStr ''system''), (''content'', JStr SYSTEM_PROMPT)],
           JObj [(''role'', JStr ''user''), (''content'', JStr content)]]),
       (''max_tokens'', oa_max_tokens A), (''n'', JInt 1), (''stream'', JBool False),
       (''temperature'', oa_temperature A)] @
      (if oa_tools A = [] then [] else
         [(''tools'', JArr (map as_provider_tool (oa_tools A))), (''tool_choice'', JStr ''auto'')])))"

text \<open>
  A transport takes the URL, the headers, the payload and the timeout and returns the decoded
  response object or raises; a source of credentials returns what \<open>api_key_provider()\<close> or
  \<open>os.environ.get(...)\<close> return. Both have a state of their own.
\<close>

type_synonym 'a transport =
  "string \<Rightarrow> (string \<times> string) list \<Rightarrow> payload \<Rightarrow> json \<Rightarrow> 'a \<Rightarrow> payload result \<times> 'a"

type_synonym 'a credentials = "string \<Rightarrow> 'a \<Rightarrow> string option result \<times> 'a"

definition load_api_key ::
  "'a credentials \<Rightarrow> OpenAICompatibleModelAdapter \<Rightarrow> 'a \<Rightarrow> string result \<times> 'a" where
  "load_api_key credentials A w =
     (case credentials (oa_api_key_env A) w of
        (Inl e, w') \<Rightarrow> (Inl e, w')
      | (Inr (Some key), w') \<Rightarrow> (ensure (key \<noteq> []) ModelProviderError (Inr key), w')
      | (Inr None, w') \<Rightarrow> (Inl ModelProviderError, w'))"

definition completions_url :: "OpenAICompatibleModelAdapter \<Rightarrow> string" where
  "completions_url A = oa_base_url A @ ''/chat/completions''"

definition request_headers :: "string \<Rightarrow> (string \<times> string) list" where
  "request_headers api_key = [(''Authorization'', ''Bearer '' @ api_key), (''Content-Type'', ''application/json'')]"

definition next_action ::
  "json_limits \<Rightarrow> 'a credentials \<Rightarrow> 'a transport \<Rightarrow> OpenAICompatibleModelAdapter \<Rightarrow> ModelInput \<Rightarrow> 'a \<Rightarrow>
   ModelAction result \<times> 'a" where
  "next_action L credentials transport A c w =
     (case load_api_key credentials A w of
        (Inl e, w') \<Rightarrow> (Inl e, w')
      | (Inr key, w') \<Rightarrow>
          (case provider_payload A c of
             Inl e \<Rightarrow> (Inl e, w')
           | Inr request \<Rightarrow>
               (case transport (completions_url A) (request_headers key) request (oa_timeout_seconds A) w' of
                  (Inl e, w'') \<Rightarrow> (Inl e, w'')
                | (Inr response, w'') \<Rightarrow> (parse_chat_completion L response, w''))))"

text \<open>The adapter as the runtime's agents take one.\<close>

definition provider_adapter ::
  "json_limits \<Rightarrow> 'a credentials \<Rightarrow> 'a transport \<Rightarrow> OpenAICompatibleModelAdapter \<Rightarrow> 'a adapter" where
  "provider_adapter L credentials transport A c w =
     apfst (map_sum id Some) (next_action L credentials transport A c w)"

subsection \<open>The standard transport\<close>

text \<open>
  \<open>json.dumps\<close> with its default separators and in insertion order, and the HTTP exchange: an
  error status, another failure of the exchange (\<open>URLError\<close>, \<open>TimeoutError\<close>,
  \<open>OSError\<close>), or a body, which may not decode to text.
\<close>

fun comma_spaces :: "string list \<Rightarrow> string" where
  "comma_spaces [] = []"
| "comma_spaces [s] = s"
| "comma_spaces (s # t # ss) = s @ '', '' @ comma_spaces (t # ss)"

fun render_spaced :: "json \<Rightarrow> string" where
  "render_spaced (JArr vs) = ''['' @ comma_spaces (map render_spaced vs) @ '']''"
| "render_spaced (JObj kvs) =
     ''{'' @ comma_spaces (map (\<lambda>(k, v). quote k @ '': '' @ render_spaced v) kvs) @ ''}''"
| "render_spaced v = render v"

datatype http_reply = HTTPError nat | RequestFailed | ResponseBody "string option"

type_synonym 'a http = "string \<Rightarrow> string \<Rightarrow> (string \<times> string) list \<Rightarrow> json \<Rightarrow> 'a \<Rightarrow> http_reply \<times> 'a"

text \<open>As in the check of the arguments, an error at the interpreter's limits is not caught.\<close>

definition decode_response :: "json_limits \<Rightarrow> http_reply \<Rightarrow> payload result" where
  "decode_response L reply =
     (case reply of
        HTTPError _ \<Rightarrow> Inl ModelProviderError
      | RequestFailed \<Rightarrow> Inl ModelProviderError
      | ResponseBody None \<Rightarrow> Inl ModelProviderError
      | ResponseBody (Some text) \<Rightarrow>
          (case load_error (jl_body L) text of
             Some e \<Rightarrow> Inl e
           | None \<Rightarrow> (case loads text of Some (JObj d) \<Rightarrow> Inr d | _ \<Rightarrow> Inl ModelProviderError)))"

definition urllib_transport :: "json_limits \<Rightarrow> 'a http \<Rightarrow> 'a transport" where
  "urllib_transport L http url headers request timeout_seconds w =
     (if serializable (JObj request)
      then apfst (decode_response L) (http url (render_spaced (JObj request)) headers timeout_seconds w)
      else (Inl PyValueError, w))"

subsection \<open>The exceptions of the parser\<close>

definition raises_only :: "error set \<Rightarrow> 'a result \<Rightarrow> bool" where
  "raises_only E m \<longleftrightarrow> (\<forall>x. m = Inl x \<longrightarrow> x \<in> E)"

lemma raises_only_intros [intro!]:
  "raises_only E (Inr y)"
  "e \<in> E \<Longrightarrow> raises_only E (Inl e)"
  "e \<in> E \<Longrightarrow> (b \<Longrightarrow> raises_only E k) \<Longrightarrow> raises_only E (ensure b e k)"
  "raises_only E m \<Longrightarrow> (\<And>y. m = Inr y \<Longrightarrow> raises_only E (f y)) \<Longrightarrow> raises_only E (bindR m f)"
  "raises_only E n \<Longrightarrow> raises_only E (map_sum id g n)"
  by (auto simp: raises_only_def ensure_def bindR_Inl_iff map_sum_def split: sum.splits)

lemma raises_only_constructors [intro!]:
  "ModelActionValidationError \<in> E \<Longrightarrow> raises_only E (canonical_object_json d)"
  "ModelActionValidationError \<in> E \<Longrightarrow> raises_only E (validate_object_text s)"
  "ModelActionValidationError \<in> E \<Longrightarrow> raises_only E (required_text_value v)"
  "ModelActionValidationError \<in> E \<Longrightarrow> raises_only E (as_object v)"
  "ModelActionValidationError \<in> E \<Longrightarrow> raises_only E (single_item v)"
  by (auto simp: raises_only_def canonical_object_json_def validate_object_text_def required_text_value_def
      as_object_def single_item_def ensure_def split: option.splits json.splits list.splits if_splits)

lemma raises_only_untrusted [intro!]:
  "ModelActionValidationError \<in> E \<Longrightarrow> (\<And>e. limit_error L t = Some e \<Longrightarrow> e \<in> E) \<Longrightarrow>
     raises_only E (untrusted_tool_call L i n t)"
  unfolding untrusted_tool_call_def validate_object_json_def by (auto split: option.splits)

lemma raises_only_answer [intro!]:
  "ModelActionValidationError \<in> E \<Longrightarrow> raises_only E (action_post_init (FinalAnswer t))"
  by (auto simp: action_post_init_def final_answer_post_init_def)

subsection \<open>What a parsed completion is\<close>

lemma required_text_Inr [result_simps]: "required_text_value v = Inr t \<longleftrightarrow> v = JStr t \<and> t \<noteq> []"
  by (auto simp: required_text_value_def result_simps split: json.splits)

lemma as_object_Inr [result_simps]: "as_object v = Inr d \<longleftrightarrow> v = JObj d"
  by (auto simp: as_object_def split: json.splits)

lemma single_item_Inr [result_simps]: "single_item v = Inr x \<longleftrightarrow> v = JArr [x]"
  by (auto simp: single_item_def split: json.splits list.splits)

text \<open>The single choice of a response, and the action it carries.\<close>

definition proposes :: "payload \<Rightarrow> json \<Rightarrow> payload \<Rightarrow> bool" where
  "proposes response finish_reason message \<longleftrightarrow>
     (\<exists>choice. get response ''choices'' = JArr [JObj choice] \<and>
        get choice ''finish_reason'' = finish_reason \<and> get choice ''message'' = JObj message)"

definition carries_tool_call :: "payload \<Rightarrow> string \<Rightarrow> string \<Rightarrow> string \<Rightarrow> bool" where
  "carries_tool_call message call_id name arguments \<longleftrightarrow>
     get message ''content'' \<in> {JNull, JStr []} \<and>
     (\<exists>call function. get message ''tool_calls'' = JArr [JObj call] \<and> get call ''type'' = JStr ''function'' \<and>
        get call ''id'' = JStr call_id \<and> get call ''function'' = JObj function \<and>
        get function ''name'' = JStr name \<and> get function ''arguments'' = JStr arguments)"

lemma parse_tool_call_iff:
  "parse_tool_call L v = Inr a \<longleftrightarrow>
     (\<exists>call function call_id name arguments. v = JObj call \<and> get call ''type'' = JStr ''function'' \<and>
        get call ''id'' = JStr call_id \<and> get call ''function'' = JObj function \<and>
        get function ''name'' = JStr name \<and> get function ''arguments'' = JStr arguments \<and>
        call_id \<noteq> [] \<and> name \<noteq> [] \<and> arguments \<noteq> [] \<and>
        map_sum id ToolCall (untrusted_tool_call L call_id name arguments) = Inr a)"
  unfolding parse_tool_call_def result_simps by blast

lemma parse_message_iff:
  "parse_message L finish_reason message = Inr a \<longleftrightarrow>
     (if truthy (get message ''tool_calls'')
      then finish_reason = JStr ''tool_calls'' \<and> (\<exists>call_id name arguments.
        carries_tool_call message call_id name arguments \<and> call_id \<noteq> [] \<and> name \<noteq> [] \<and> arguments \<noteq> [] \<and>
        map_sum id ToolCall (untrusted_tool_call L call_id name arguments) = Inr a)
      else finish_reason = JStr ''stop'' \<and> (\<exists>answer. get message ''content'' = JStr answer \<and> answer \<noteq> [] \<and>
        action_post_init (FinalAnswer answer) = Inr a))"
  unfolding parse_message_def Let_def carries_tool_call_def
  by (cases "truthy (get message ''tool_calls'')") (simp_all add: result_simps parse_tool_call_iff, blast)

lemma parse_chat_completion_iff:
  "parse_chat_completion L response = Inr a \<longleftrightarrow>
     (\<exists>finish_reason message. proposes response finish_reason message \<and>
        parse_message L finish_reason message = Inr a)"
  unfolding parse_chat_completion_def proposes_def result_simps by blast

text \<open>The errors at the interpreter's limits that a response can cause.\<close>

definition beyond_limits :: "json_limits \<Rightarrow> payload \<Rightarrow> error \<Rightarrow> bool" where
  "beyond_limits L response e \<longleftrightarrow>
     (\<exists>message call_id name arguments. proposes response (JStr ''tool_calls'') message \<and>
        carries_tool_call message call_id name arguments \<and> limit_error L arguments = Some e)"

lemma raises_only_parse:
  "raises_only (insert ModelActionValidationError {e. beyond_limits L response e}) (parse_chat_completion L response)"
  unfolding parse_chat_completion_def parse_message_def parse_tool_call_def Let_def
  by (auto simp: result_simps beyond_limits_def proposes_def carries_tool_call_def)

end
