(* ===== verification/ProviderProperties.thy ===== *)
theory ProviderProperties
  imports ModelProvider
begin

section \<open>Properties of the chat-completions adapter\<close>

text \<open>
  The response boundary fails closed and loses nothing of a well-formed action, and the request
  determines the turn it was built for.
\<close>

text \<open>C25: provider boundary: a response is turned into an action only if it has exactly one choice
  and that choice is complete: a single function call with the finish reason of a tool call and no
  content, whose identity, name and arguments the action carries (the arguments as canonical text),
  or a non-empty final content with the finish reason of a stop and no tool call. Everything else
  raises: \<open>ModelActionValidationError\<close>, and another exception only for a complete tool call whose
  arguments exceed the interpreter's limits, a \<open>ValueError\<close> for an integer of more than 4300 digits
  or a \<open>RecursionError\<close> for too deep a nesting; no such call becomes an action.\<close>

theorem provider_response_fails_closed:
  "case parse_chat_completion L response of
     Inl e \<Rightarrow> e = ModelActionValidationError \<or>
       beyond_limits L response e \<and> e \<in> {PyValueError, PyRecursionError}
   | Inr (ToolCall a) \<Rightarrow> wf_action (ToolCall a) \<and>
       (\<exists>message arguments d. proposes response (JStr ''tool_calls'') message \<and>
          carries_tool_call message (tca_tool_call_id a) (tca_tool_name a) arguments \<and>
          limit_error L arguments = None \<and>
          loads arguments = Some (JObj d) \<and> tca_arguments_json a = render (JObj d))
   | Inr (FinalAnswer answer) \<Rightarrow> answer \<noteq> [] \<and>
       (\<exists>message. proposes response (JStr ''stop'') message \<and> get message ''content'' = JStr answer \<and>
          \<not> truthy (get message ''tool_calls''))"
proof (cases "parse_chat_completion L response")
  case (Inl e)
  with raises_only_parse [of L response] have "e = ModelActionValidationError \<or> beyond_limits L response e"
    by (auto simp: raises_only_def)
  moreover have "beyond_limits L response e \<Longrightarrow> e \<in> {PyValueError, PyRecursionError}"
    using limit_error_cases by (auto simp: beyond_limits_def)
  ultimately show ?thesis using Inl by auto
next
  case (Inr action)
  then obtain f message where p: "proposes response f message" "parse_message L f message = Inr action"
    unfolding parse_chat_completion_iff by blast
  show ?thesis
  proof (cases "truthy (get message ''tool_calls'')")
    case True
    then obtain i n s where c: "f = JStr ''tool_calls''" "carries_tool_call message i n s"
        "map_sum id ToolCall (untrusted_tool_call L i n s) = Inr action" "i \<noteq> []" "n \<noteq> []"
      using p(2) unfolding parse_message_iff by auto
    then have limit: "limit_error L s = None"
      using untrusted_beyond_limits [of L s _ i n] by (cases "limit_error L s") auto
    with c(3) obtain a where a: "action = ToolCall a"
        "tool_call_post_init \<lparr>tca_tool_call_id = i, tca_tool_name = n, tca_arguments_json = s\<rparr> = Inr a"
      by (auto simp: untrusted_within_limits map_sum_def split: sum.splits)
    then obtain d where d: "loads s = Some (JObj d)" "canon (JObj d)" "i \<noteq> []" "n \<noteq> []"
        "a = \<lparr>tca_tool_call_id = i, tca_tool_name = n, tca_arguments_json = render (JObj d)\<rparr>"
      by (auto simp: result_simps)
    then have "tool_call_post_init a = Inr a" by (simp add: result_simps loads_render)
    then have "wf_action (ToolCall a)" by (simp add: wf_action_def action_post_init_def)
    with Inr a(1) p(1) c(1,2) d limit show ?thesis by fastforce
  next
    case False
    then obtain t where "f = JStr ''stop''" "get message ''content'' = JStr t" "t \<noteq> []"
        "action_post_init (FinalAnswer t) = Inr action"
      using p(2) unfolding parse_message_iff by auto
    moreover from this have "action = FinalAnswer t"
      by (simp add: action_post_init_def final_answer_post_init_def)
    ultimately show ?thesis using Inr p(1) False by auto
  qed
qed

subsection \<open>Responses that carry an action\<close>

text \<open>The completion with which a provider proposes an action.\<close>

definition completion_of :: "ModelAction \<Rightarrow> payload" where
  "completion_of action =
     [(''choices'', JArr [JObj (case action of
        ToolCall a \<Rightarrow>
          [(''finish_reason'', JStr ''tool_calls''),
           (''message'', JObj [(''content'', JNull), (''tool_calls'', JArr [JObj
              [(''function'', JObj [(''arguments'', JStr (tca_arguments_json a)), (''name'', JStr (tca_tool_name a))]),
               (''id'', JStr (tca_tool_call_id a)), (''type'', JStr ''function'')]])])]
      | FinalAnswer answer \<Rightarrow>
          [(''finish_reason'', JStr ''stop''), (''message'', JObj [(''content'', JStr answer)])])])]"

lemma parse_call_completion:
  assumes "tca_tool_call_id a \<noteq> []" and "tca_tool_name a \<noteq> []" and "tca_arguments_json a \<noteq> []"
  shows "parse_chat_completion L (completion_of (ToolCall a)) =
    map_sum id ToolCall (untrusted_tool_call L (tca_tool_call_id a) (tca_tool_name a) (tca_arguments_json a))"
  using assms
  by (simp add: completion_of_def parse_chat_completion_def parse_message_def parse_tool_call_def
      get_def get_default_def single_item_def as_object_def required_text_value_def)

text \<open>Provider boundary: nothing of a constructed action is lost on the wire, within the interpreter's
  limits: the standard transport and the parser read the completion that proposes an action, sent as JSON text, back as
  exactly that action.\<close>

theorem provider_action_roundtrip:
  assumes "wf_action action"
    and "load_error (jl_body L) (render (JObj (completion_of action))) = None"
    and "\<And>a. action = ToolCall a \<Longrightarrow> limit_error L (tca_arguments_json a) = None"
    and "serializable (JObj request)"
    and "http url (render_spaced (JObj request)) headers timeout w =
      (ResponseBody (Some (render (JObj (completion_of action)))), w')"
  shows "urllib_transport L http url headers request timeout w = (Inr (completion_of action), w') \<and>
    parse_chat_completion L (completion_of action) = Inr action"
proof -
  have "canon (JObj (completion_of action))"
    by (cases action) (simp_all add: completion_of_def canon_obj)
  from loads_render [OF this]
  have "urllib_transport L http url headers request timeout w = (Inr (completion_of action), w')"
    using assms(2,4,5) by (simp add: urllib_transport_def decode_response_def)
  moreover have "parse_chat_completion L (completion_of action) = Inr action"
  proof (cases action)
    case (ToolCall a)
    with assms(1) have "map_sum id ToolCall (tool_call_post_init a) = Inr action"
      by (simp add: wf_action_def action_post_init_def)
    moreover have "tca_tool_call_id a \<noteq> []" "tca_tool_name a \<noteq> []" "tca_arguments_json a \<noteq> []"
      using wf_tool_call assms(1) ToolCall by auto
    ultimately show ?thesis
      using assms(3) [OF ToolCall] by (cases a) (simp add: ToolCall parse_call_completion untrusted_within_limits)
  next
    case (FinalAnswer t)
    with assms(1) show ?thesis
      by (simp add: completion_of_def parse_chat_completion_def parse_message_def wf_action_def
          action_post_init_def final_answer_post_init_def get_def get_default_def single_item_def as_object_def
          required_text_value_def ensure_def split: if_splits)
  qed
  ultimately show ?thesis ..
qed

subsection \<open>The request of a turn\<close>

lemma input_text:
  assumes "wf_input c"
  shows "mi_observation_json c = render (JObj (input_observation c))" and "canon (JObj (input_observation c))"
proof -
  have "input_post_init c = Inr c" using assms by (simp add: wf_input_def)
  then obtain d where d: "canon (JObj d)" "c = c\<lparr>mi_observation_json := render (JObj d)\<rparr>"
    by (auto simp: result_simps)
  then have e: "mi_observation_json c = render (JObj d)"
    by (metis ModelInput.select_convs(5) ModelInput.surjective ModelInput.update_convs(5))
  with d(1) show "mi_observation_json c = render (JObj (input_observation c))" "canon (JObj (input_observation c))"
    by (simp_all add: input_observation_def decoded_def loads_render)
qed

lemma canon_user_content:
  assumes "wf_input c"
  shows "canon (JObj [(''runtime_context'', JObj (runtime_context c)), (''task'', JStr (oa_task A))])"
  using input_text(2) [OF assms] by (simp add: canon_obj runtime_context_def)

lemma user_content_eq:
  assumes "wf_input c"
  shows "user_content A c = Inr (render (JObj
    [(''runtime_context'', JObj (runtime_context c)), (''task'', JStr (oa_task A))]))"
proof -
  note c = canon_user_content [OF assms, of A]
  then have "canon (JObj (runtime_context c))" by (simp add: canon_obj)
  then have "norm_json (JObj [(''task'', JStr (oa_task A)), (''runtime_context'', JObj (runtime_context c))]) =
      JObj [(''runtime_context'', JObj (runtime_context c)), (''task'', JStr (oa_task A))]"
    using canon_norm by (simp add: norm_json.simps(2) [of "[_, _]"] mk_dict_def)
  moreover from c have "serializable (JObj [(''task'', JStr (oa_task A)), (''runtime_context'', JObj (runtime_context c))])"
    using canon_serializable by fastforce
  ultimately show ?thesis by (simp add: user_content_def dumps_def)
qed

text \<open>Provider boundary: the request built for a model turn carries the whole turn: from the
  payload one can read back the model, the task and the run, step, turn index, status and
  observation of the input, so that no two turns and no two tasks are asked with the same request.\<close>

theorem provider_request_determines_turn:
  assumes "wf_input c" and "wf_input c'"
    and "provider_payload A c = Inr request" and "provider_payload A' c' = Inr request"
  shows "c = c' \<and> oa_task A = oa_task A' \<and> oa_model A = oa_model A'"
proof -
  have model: "oa_model A = oa_model A'" and "user_content A c = user_content A' c'"
    using assms(3,4) by (auto simp: provider_payload_def result_simps)
  then have "loads (render (JObj [(''runtime_context'', JObj (runtime_context c)), (''task'', JStr (oa_task A))])) =
      loads (render (JObj [(''runtime_context'', JObj (runtime_context c')), (''task'', JStr (oa_task A'))]))"
    using user_content_eq assms(1,2) by simp
  then have "runtime_context c = runtime_context c'" and task: "oa_task A = oa_task A'"
    by (simp_all add: loads_render [OF canon_user_content [OF assms(1)]] loads_render [OF canon_user_content [OF assms(2)]])
  moreover from this have "mi_state_status c = mi_state_status c'"
    by (auto simp: runtime_context_def dest: arg_cong [of _ _ parse_status])
  ultimately have "c = c'"
    using input_text [OF assms(1)] input_text [OF assms(2)] by (cases c; cases c') (simp add: runtime_context_def)
  with model task show ?thesis by simp
qed

subsection \<open>Concrete requests and responses\<close>

definition sample_turn :: ModelInput where
  "sample_turn = \<lparr>mi_run_id = ''r'', mi_step_id = ''step-1'', mi_turn_index = 0, mi_state_status = READY,
     mi_observation_json = render (JObj [])\<rparr>"

definition sample_provider :: OpenAICompatibleModelAdapter where
  "sample_provider = \<lparr>oa_model = ''m'', oa_task = ''t'', oa_tools = [], oa_base_url = ''https://h'',
     oa_api_key_env = ''K'', oa_timeout_seconds = JInt 30, oa_max_tokens = JInt 512, oa_temperature = JInt 0\<rparr>"

definition sample_limits :: json_limits where
  "sample_limits = \<lparr>jl_body = 900, jl_arguments = 900, jl_dump = 900\<rparr>"

definition echo_http :: "ModelAction \<Rightarrow> nat http" where
  "echo_http action url body headers timeout w =
     (ResponseBody (Some (render (JObj (completion_of action)))), Suc w)"

lemma wf_sample_turn: "wf_input sample_turn"
  by (simp add: wf_input_def result_simps sample_turn_def loads_render canon_obj)

theorem provider_action_roundtrip_witness:
  "urllib_transport sample_limits (echo_http (FinalAnswer ''ok'')) ''u'' [] [(''n'', JInt 1)] JNull 0 =
     (Inr (completion_of (FinalAnswer ''ok'')), 1) \<and>
   parse_chat_completion sample_limits (completion_of (FinalAnswer ''ok'')) = Inr (FinalAnswer ''ok'')"
proof -
  have "load_error (jl_body sample_limits) (render (JObj (completion_of (FinalAnswer ''ok'')))) = None" by code_simp
  from provider_action_roundtrip [OF _ this, of "[(''n'', JInt 1)]" "echo_http (FinalAnswer ''ok'')" "''u''" "[]" JNull 0 1]
  show ?thesis by (simp add: wf_action_def action_post_init_def final_answer_post_init_def echo_http_def)
qed

theorem provider_request_determines_turn_witness:
  "\<exists>request. provider_payload sample_provider sample_turn = Inr request \<and>
     (\<forall>A c. wf_input c \<longrightarrow> provider_payload A c = Inr request \<longrightarrow> c = sample_turn \<and> oa_task A = ''t'')"
proof -
  have "canon (JObj [(''runtime_context'', JObj (runtime_context sample_turn)), (''task'', JStr ''t'')])"
    using canon_user_content [OF wf_sample_turn, of sample_provider] by (simp add: sample_provider_def)
  from canon_serializable [OF this] obtain request where r: "provider_payload sample_provider sample_turn = Inr request"
    by (auto simp: provider_payload_def user_content_def dumps_def sample_provider_def)
  from provider_request_determines_turn [OF _ wf_sample_turn _ this] have
    "c = sample_turn \<and> oa_task A = ''t''" if "wf_input c" "provider_payload A c = Inr request" for A c
    using that by (simp add: sample_provider_def)
  with r show ?thesis by blast
qed

text \<open>
  The check of the base URL looks at the parts after the delimiters, so a delimiter with nothing
  after it passes, and the path of the request ends up in the query or in the fragment.
\<close>

theorem empty_query_passes_base_url_check:
  "validate_base_url netloc_ok ''https://h?'' = (if netloc_ok ''h'' then Inr ''https://h?'' else Inl PyValueError)"
  "completions_url (sample_provider\<lparr>oa_base_url := ''https://h?''\<rparr>) = ''https://h?/chat/completions''"
  by (simp_all add: validate_base_url_def clean_url_def split_scheme_def ascii_alpha_def scheme_char_def
      ascii_lower_def split_netloc_def url_delimiter_def after_char_def rstrip_slash_def completions_url_def
      sample_provider_def Let_def char_of_def)

text \<open>
  The boundary catches the syntax errors of the arguments but not the errors at the interpreter's
  limits: one integer of 4301 digits, or one array more than the stack allows, and the parser
  raises an exception that is not a \<open>ModelActionValidationError\<close>.
\<close>

definition long_number :: string where
  "long_number = [CHR ''{'', CHR 0x22, CHR ''n'', CHR 0x22, CHR '':''] @ replicate 4301 (CHR ''1'') @ ''}''"

definition deep_arrays :: "nat \<Rightarrow> string" where
  "deep_arrays d = replicate (Suc d) (CHR ''['')"

definition proposing :: "string \<Rightarrow> payload" where
  "proposing arguments = completion_of (ToolCall
     \<lparr>tca_tool_call_id = ''c'', tca_tool_name = ''read_file'', tca_arguments_json = arguments\<rparr>)"

theorem limits_escape_the_boundary:
  "parse_chat_completion L (proposing long_number) = Inl (if jl_arguments L = 0 then PyRecursionError else PyValueError)"
  "parse_chat_completion L (proposing (deep_arrays (jl_arguments L))) = Inl PyRecursionError"
proof -
  have parse: "parse_chat_completion L (proposing t) = Inl e" if "load_error (jl_arguments L) t = Some e" "t \<noteq> []" for t e
    using that untrusted_beyond_limits [of L t e] by (simp add: proposing_def parse_call_completion limit_error_def)
  let ?ds = "replicate 4301 (CHR ''1'')"
  have digits: "value_error (Suc n) d (?ds @ ''}'') = Some PyValueError" for n d
    by (rule digits_error) (simp_all add: is_digit_def)
  have skip: "skip_ws (?ds @ ''}'') = ?ds @ ''}''" by (simp add: skip_ws_def is_ws_def dropWhile_append)
  have "members_error (Suc (Suc n)) d ([CHR 0x22, CHR ''n'', CHR 0x22, CHR '':''] @ ?ds @ ''}'') = Some PyValueError" for n d
    using digits [of n d] skip by (simp add: cons_fst_def skip_ws_def [of "_ # _"] is_ws_def del: value_error.simps)
  then have "value_error (Suc (Suc (Suc n))) d (skip_ws long_number) =
      Some (if d = 0 then PyRecursionError else PyValueError)" for n d
    by (simp add: long_number_def skip_ws_def [of "_ # _"] is_ws_def del: members_error.simps)
  moreover have "2 * length long_number = Suc (Suc 8612)" by (simp add: long_number_def)
  ultimately have "load_error d long_number = Some (if d = 0 then PyRecursionError else PyValueError)" for d
    by (simp only: load_error_def)
  then show "parse_chat_completion L (proposing long_number) =
      Inl (if jl_arguments L = 0 then PyRecursionError else PyValueError)"
    by (intro parse) (simp_all add: long_number_def)
  have "load_error d (deep_arrays d) = Some PyRecursionError" for d
    using brackets_error [of d "Suc (Suc d)" "[]"]
    by (simp add: load_error_def deep_arrays_def skip_ws_def is_ws_def mult_2 del: value_error.simps)
  then show "parse_chat_completion L (proposing (deep_arrays (jl_arguments L))) = Inl PyRecursionError"
    by (intro parse) (simp_all add: deep_arrays_def)
qed

end
