(* ===== verification/RestrictedFiles.thy ===== *)
theory RestrictedFiles
  imports Authorization Executor
begin

section \<open>Restricted file tools (restricted\_file\_tools.py)\<close>

text \<open>
  A POSIX file system as a map from absolute paths to nodes, with symbolic links, and the three
  file tools over it. Every operating-system call of the tools may fail (\<open>OSError\<close>) when the
  environment says so; where the standard library hides the failure (\<open>os.path.lexists\<close>,
  \<open>Path.resolve\<close>), the tools go on without it. A failed write may leave any part of the data
  behind. A byte is a \<open>char\<close>, and so is a code point below 256.
\<close>

type_synonym bytes = string
type_synonym abs_path = "string list"

datatype file_node = RegularFile bytes | Directory | Link string | Special

type_synonym file_system = "abs_path \<Rightarrow> file_node option"

subsection \<open>Paths in the file system\<close>

definition link_target :: "file_system \<Rightarrow> abs_path \<Rightarrow> string option" where
  "link_target fs p = (case fs p of Some (Link t) \<Rightarrow> Some t | _ \<Rightarrow> None)"

text \<open>
  The kernel's lookup of the components \<open>ws\<close> from the directory \<open>p\<close>: links are followed,
  at most \<open>n\<close> of them. More than \<open>MAX_LINKS\<close> links is the \<open>ELOOP\<close> error of Linux.
  A missing component does not end the lookup: what is behind it does not exist either.
\<close>

definition MAX_LINKS :: nat where
  "MAX_LINKS = 40"

function kernel_lookup :: "nat \<Rightarrow> file_system \<Rightarrow> abs_path \<Rightarrow> string list \<Rightarrow> abs_path option" where
  "kernel_lookup n fs p [] = Some p"
| "kernel_lookup n fs p (w # ws) =
     (if w = ''..'' then kernel_lookup n fs (butlast p) ws
      else case link_target fs (p @ [w]) of
          None \<Rightarrow> kernel_lookup n fs (p @ [w]) ws
        | Some t \<Rightarrow>
            if n = 0 then None
            else kernel_lookup (n - 1) fs (if starts_with t ''/'' then [] else p) (path_parts t @ ws))"
  by pat_completeness auto

termination
  by (relation "measures [\<lambda>(n, fs, p, ws). n, \<lambda>(n, fs, p, ws). length ws]") auto

text \<open>The directory entry that a path names (the last component is not followed), and its node.\<close>

definition entry_of :: "file_system \<Rightarrow> abs_path \<Rightarrow> abs_path option" where
  "entry_of fs p =
     (if p = [] then Some [] else map_option (\<lambda>d. d @ [last p]) (kernel_lookup MAX_LINKS fs [] (butlast p)))"

definition lstat :: "file_system \<Rightarrow> abs_path \<Rightarrow> file_node option" where
  "lstat fs p = Option.bind (entry_of fs p) fs"

fun is_link :: "file_node option \<Rightarrow> bool" where
  "is_link (Some (Link _)) = True"
| "is_link _ = False"

fun is_regular :: "file_node option \<Rightarrow> bool" where
  "is_regular (Some (RegularFile _)) = True"
| "is_regular _ = False"

definition put_node :: "file_system \<Rightarrow> abs_path \<Rightarrow> file_node option \<Rightarrow> file_system" where
  "put_node fs p n = (case entry_of fs p of None \<Rightarrow> fs | Some q \<Rightarrow> fs(q := n))"

subsection \<open>UTF-8\<close>

definition utf8_encode :: "string \<Rightarrow> bytes" where
  "utf8_encode s = concat (map (\<lambda>c. let n = of_char c :: nat in
     if n < 128 then [c] else [char_of (192 + n div 64), char_of (128 + n mod 64)]) s)"

definition continuation :: "nat \<Rightarrow> bool" where
  "continuation b \<longleftrightarrow> 128 \<le> b \<and> b < 192"

text \<open>Strict decoding to code points: no overlong form, no surrogate, nothing above \<open>0x10FFFF\<close>.\<close>

fun utf8_points :: "nat list \<Rightarrow> nat list option" where
  "utf8_points [] = Some []"
| "utf8_points (b # bs) =
     (if b < 128 then map_option ((#) b) (utf8_points bs)
      else if 194 \<le> b \<and> b < 224 then
        (case bs of
           c # r \<Rightarrow> if continuation c
             then map_option ((#) ((b - 192) * 64 + (c - 128))) (utf8_points r) else None
         | _ \<Rightarrow> None)
      else if 224 \<le> b \<and> b < 240 then
        (case bs of
           c # d # r \<Rightarrow>
             (let n = (b - 224) * 4096 + (c - 128) * 64 + (d - 128) in
              if continuation c \<and> continuation d \<and> 2048 \<le> n \<and> \<not> (55296 \<le> n \<and> n < 57344)
              then map_option ((#) n) (utf8_points r) else None)
         | _ \<Rightarrow> None)
      else if 240 \<le> b \<and> b < 245 then
        (case bs of
           c # d # e # r \<Rightarrow>
             (let n = (b - 240) * 262144 + (c - 128) * 4096 + (d - 128) * 64 + (e - 128) in
              if continuation c \<and> continuation d \<and> continuation e \<and> 65536 \<le> n \<and> n < 1114112
              then map_option ((#) n) (utf8_points r) else None)
         | _ \<Rightarrow> None)
      else None)"

text \<open>A text with a code point of 256 or more is outside the model: \<open>IllTypedValue\<close>.\<close>

definition utf8_decode :: "bytes \<Rightarrow> string result" where
  "utf8_decode b =
     (case utf8_points (map of_char b) of
        None \<Rightarrow> Inl RestrictedToolExecutionError
      | Some ns \<Rightarrow> ensure (list_all (\<lambda>n. n < 256) ns) IllTypedValue (Inr (map char_of ns)))"

subsection \<open>The runner\<close>

definition restricted_file_tool_definitions :: "ToolDefinition list" where
  "restricted_file_tool_definitions =
     [\<lparr>td_tool_name = ''read_file'', td_retry_is_idempotent = True, td_path_argument_names = [''path'']\<rparr>,
      \<lparr>td_tool_name = ''write_file'', td_retry_is_idempotent = False, td_path_argument_names = [''path'']\<rparr>,
      \<lparr>td_tool_name = ''delete_file'', td_retry_is_idempotent = False, td_path_argument_names = [''path'']\<rparr>]"

definition make_restricted_file_registry :: "ToolRegistry result" where
  "make_restricted_file_registry = make_registry restricted_file_tool_definitions"

definition DEFAULT_MAX_BYTES :: int where
  "DEFAULT_MAX_BYTES = 1024 * 1024"

text \<open>
  The operating-system calls that may fail, and the environment of one invocation: the workspace
  root, the byte limit, the calls that fail, what a failed write leaves in the staging file, the
  random part of the name \<open>mkstemp\<close> picks, and the digest of bytes. The first three calls are those
  of \<open>Path.resolve\<close>, the next three those of \<open>os.path.lexists\<close>, the others those of the tools.
\<close>

datatype os_call =
    ResolveComponent abs_path
  | ReadLink abs_path
  | StatResolved abs_path
  | ProbeComponent abs_path
  | ProbeTarget abs_path
  | ProbeReplaced abs_path
  | InspectComponent abs_path
  | InspectTarget abs_path
  | ReadTarget abs_path
  | MakeStaging abs_path
  | WriteStaging abs_path
  | ReplaceTarget abs_path
  | RemoveStaging abs_path
  | UnlinkTarget abs_path

record file_env =
  fe_root :: abs_path
  fe_max_bytes :: nat
  fe_fails :: "os_call \<Rightarrow> bool"
  fe_partial :: "bytes \<Rightarrow> bytes"
  fe_random :: "abs_path \<Rightarrow> string"
  fe_sha256 :: "bytes \<Rightarrow> string"

text \<open>The constructor: a \<open>bool\<close>, another type, or a number below one is refused.\<close>

definition check_max_bytes :: "json \<Rightarrow> nat result" where
  "check_max_bytes max_bytes =
     (case max_bytes of JInt n \<Rightarrow> ensure (0 < n) PyValueError (Inr (nat n)) | _ \<Rightarrow> Inl PyValueError)"

definition require_exact_arguments :: "payload \<Rightarrow> string list \<Rightarrow> 'a result \<Rightarrow> 'a result" where
  "require_exact_arguments arguments expected k =
     ensure (set (map fst arguments) = set expected) ToolArgumentValidationError k"

definition require_text :: "payload \<Rightarrow> string \<Rightarrow> bool \<Rightarrow> string result" where
  "require_text arguments field allow_empty =
     (case map_of arguments field of
        None \<Rightarrow> Inl PyKeyError
      | Some (JStr t) \<Rightarrow> ensure (allow_empty \<or> t \<noteq> []) ToolArgumentValidationError (Inr t)
      | Some _ \<Rightarrow> Inl ToolArgumentValidationError)"

subsection \<open>Resolving a path for execution\<close>

text \<open>
  \<open>os.path.lexists\<close>: an \<open>lstat\<close> that fails counts as a missing file.
\<close>

definition lexists :: "file_env \<Rightarrow> os_call \<Rightarrow> file_system \<Rightarrow> abs_path \<Rightarrow> bool" where
  "lexists env call fs p \<longleftrightarrow> \<not> fe_fails env call \<and> lstat fs p \<noteq> None"

text \<open>
  \<open>os.path.realpath\<close> as the standard library has it (\<open>_joinrealpath\<close>, not strict): the path
  resolved so far, the components left, and the links seen with what they resolved to (\<open>None\<close>
  while a link is being resolved, so that meeting it again is a loop, which ends the resolution
  with \<open>False\<close>). A component whose \<open>lstat\<close> fails is taken for no link; a \<open>readlink\<close> that fails
  raises, and so does a null character. The recursion need not end (an infinite chain of links):
  then the result is \<open>None\<close>.
\<close>

type_synonym seen_links = "abs_path \<Rightarrow> abs_path option option"

definition seen_link :: "file_env \<Rightarrow> file_system \<Rightarrow> abs_path \<Rightarrow> string option" where
  "seen_link env fs p =
     (if fe_fails env (ResolveComponent p) then None
      else case lstat fs p of Some (Link t) \<Rightarrow> Some t | _ \<Rightarrow> None)"

partial_function (option) joinrealpath ::
  "file_env \<Rightarrow> file_system \<Rightarrow> seen_links \<Rightarrow> abs_path \<Rightarrow> string list \<Rightarrow>
   (abs_path \<times> bool \<times> seen_links) result option" where
  "joinrealpath env fs seen path rest =
     (case rest of
        [] \<Rightarrow> Some (Inr (path, True, seen))
      | w # ws \<Rightarrow>
          if w = ''..'' then joinrealpath env fs seen (butlast path) ws
          else if CHR 0x00 \<in> set w then Some (Inl PyValueError)
          else let newpath = path @ [w] in
            (case seen_link env fs newpath of
               None \<Rightarrow> joinrealpath env fs seen newpath ws
             | Some t \<Rightarrow>
                 (case seen newpath of
                    Some (Some resolved) \<Rightarrow> joinrealpath env fs seen resolved ws
                  | Some None \<Rightarrow> Some (Inr (newpath @ ws, False, seen))
                  | None \<Rightarrow>
                      if fe_fails env (ReadLink newpath) then Some (Inl PyOSError)
                      else Option.bind
                        (joinrealpath env fs (seen(newpath := Some None))
                          (if starts_with t ''/'' then [] else path) (path_parts t))
                        (\<lambda>r. case r of
                           Inl e \<Rightarrow> Some (Inl e)
                         | Inr (resolved, ok, seen') \<Rightarrow>
                             if ok then joinrealpath env fs (seen'(newpath := Some (Some resolved))) resolved ws
                             else Some (Inr (resolved @ ws, False, seen'))))))"

text \<open>
  \<open>Path.resolve\<close> (before Python 3.13): the real path without its remaining \<open>..\<close>, and then a
  \<open>stat\<close> of it, which turns the \<open>ELOOP\<close> error into a \<open>RuntimeError\<close> and ignores any other.
\<close>

definition normpath :: "string list \<Rightarrow> abs_path" where
  "normpath ws = foldl (\<lambda>p w. if w = ''..'' then butlast p else p @ [w]) [] ws"

definition resolve_path :: "file_env \<Rightarrow> file_system \<Rightarrow> resolver" where
  "resolve_path env fs ws =
     (case joinrealpath env fs (\<lambda>_. None) [] ws of
        None \<Rightarrow> Inl (PathRaises PyRecursionError)
      | Some (Inl e) \<Rightarrow> Inl (if e = PyValueError then BadPath ''embedded null byte'' else PathRaises e)
      | Some (Inr (path, _, _)) \<Rightarrow>
          (let resolved = normpath path in
           if list_ex (\<lambda>w. CHR 0x00 \<in> set w) resolved then Inl (BadPath ''embedded null byte'')
           else if kernel_lookup MAX_LINKS fs [] resolved = None \<and> \<not> fe_fails env (StatResolved resolved)
           then Inl (PathRaises PyRuntimeError)
           else Inr resolved))"

text \<open>\<open>WorkspaceBoundary.normalize\<close> in this file system; only a \<open>ValueError\<close> is caught.\<close>

definition workspace_normalize :: "file_env \<Rightarrow> file_system \<Rightarrow> string \<Rightarrow> string result" where
  "workspace_normalize env fs original_path =
     (case boundary_normalize (resolve_path env fs) (fe_root env) original_path of
        Inl (BadPath _) \<Rightarrow> Inl WorkspaceExecutionError
      | Inl (PathRaises e) \<Rightarrow> Inl e
      | Inr r \<Rightarrow> Inr r)"

text \<open>The walk over the components: one that \<open>os.path.lexists\<close> does not see is not looked at.\<close>

fun check_components :: "file_env \<Rightarrow> file_system \<Rightarrow> abs_path \<Rightarrow> string list \<Rightarrow> 'a result \<Rightarrow> 'a result" where
  "check_components env fs current [] k = k"
| "check_components env fs current (w # ws) k =
     (let current' = current @ [w] in
      if \<not> lexists env (ProbeComponent current') fs current' then check_components env fs current' ws k
      else
        ensure (\<not> fe_fails env (InspectComponent current')) RestrictedToolExecutionError
        (ensure (\<not> is_link (lstat fs current')) WorkspaceExecutionError
        (check_components env fs current' ws k)))"

definition resolve_for_execution ::
  "file_env \<Rightarrow> file_system \<Rightarrow> string \<Rightarrow> (string \<times> abs_path) result" where
  "resolve_for_execution env fs original_path =
     (let original_parts = path_parts (portable original_path) in
      ensure (''..'' \<notin> set original_parts) WorkspaceExecutionError
      (bindR (workspace_normalize env fs original_path) (\<lambda>relative_path.
       check_components env fs (fe_root env) original_parts
         (Inr (relative_path, fe_root env @ path_parts relative_path)))))"

definition require_regular_file :: "file_env \<Rightarrow> file_system \<Rightarrow> abs_path \<Rightarrow> 'a result \<Rightarrow> 'a result" where
  "require_regular_file env fs target k =
     ensure (lexists env (ProbeTarget target) fs target) WorkspaceExecutionError
     (ensure (\<not> fe_fails env (InspectTarget target)) RestrictedToolExecutionError
     (ensure (is_regular (lstat fs target)) WorkspaceExecutionError k))"

definition require_directory :: "file_env \<Rightarrow> file_system \<Rightarrow> abs_path \<Rightarrow> 'a result \<Rightarrow> 'a result" where
  "require_directory env fs target k =
     ensure (lexists env (ProbeTarget target) fs target) WorkspaceExecutionError
     (ensure (\<not> fe_fails env (InspectTarget target)) RestrictedToolExecutionError
     (ensure (lstat fs target = Some Directory) WorkspaceExecutionError k))"

subsection \<open>The three tools\<close>

text \<open>\<open>open("rb")\<close> follows links; anything but a regular file is an \<open>OSError\<close>.\<close>

definition open_bytes :: "file_system \<Rightarrow> abs_path \<Rightarrow> bytes result" where
  "open_bytes fs target =
     (case Option.bind (kernel_lookup MAX_LINKS fs [] target) fs of
        Some (RegularFile b) \<Rightarrow> Inr b
      | _ \<Rightarrow> Inl RestrictedToolExecutionError)"

definition read_file :: "file_env \<Rightarrow> payload \<Rightarrow> file_system \<Rightarrow> payload result" where
  "read_file env arguments fs =
     require_exact_arguments arguments [''path'']
     (bindR (require_text arguments ''path'' False) (\<lambda>original_path.
      bindR (resolve_for_execution env fs original_path) (\<lambda>(relative_path, target).
      require_regular_file env fs target
      (ensure (\<not> fe_fails env (ReadTarget target)) RestrictedToolExecutionError
      (bindR (open_bytes fs target) (\<lambda>content.
       let data = take (fe_max_bytes env + 1) content in
       ensure (length data \<le> fe_max_bytes env) RestrictedToolExecutionError
       (bindR (utf8_decode data) (\<lambda>text.
        Inr [(''bytes'', JInt (int (length data))), (''content'', JStr text),
          (''path'', JStr relative_path), (''sha256'', JStr (fe_sha256 env data))]))))))))"

text \<open>
  The staging of a write: create the staging file exclusively, write and sync the data, replace
  the target, and in any case remove the staging file if it is still there. When \<open>mkstemp\<close> finds
  no unused name it raises \<open>FileExistsError\<close>, an \<open>OSError\<close>.
\<close>

definition staging_name :: "file_env \<Rightarrow> abs_path \<Rightarrow> string" where
  "staging_name env dir = ''.agent-runtime-'' @ fe_random env dir @ ''.tmp''"

definition remove_staging :: "file_env \<Rightarrow> abs_path \<Rightarrow> file_system \<Rightarrow> file_system" where
  "remove_staging env staging fs =
     (if fe_fails env (RemoveStaging staging) then fs else put_node fs staging None)"

definition replace_target ::
  "file_env \<Rightarrow> abs_path \<Rightarrow> abs_path \<Rightarrow> file_system \<Rightarrow> unit result \<times> file_system" where
  "replace_target env staging target fs =
     (if fe_fails env (ReplaceTarget target) \<or> lstat fs target = Some Directory
      then (Inl RestrictedToolExecutionError, fs)
      else (Inr (), put_node (put_node fs staging None) target (lstat fs staging)))"

definition stage_and_replace ::
  "file_env \<Rightarrow> abs_path \<Rightarrow> bytes \<Rightarrow> file_system \<Rightarrow> unit result \<times> file_system" where
  "stage_and_replace env target data fs =
     (let parent = butlast target; staging = parent @ [staging_name env parent] in
      if fe_fails env (MakeStaging parent) \<or> lstat fs staging \<noteq> None
      then (Inl RestrictedToolExecutionError, fs)
      else if fe_fails env (WriteStaging staging)
      then (Inl RestrictedToolExecutionError,
        remove_staging env staging (put_node fs staging (Some (RegularFile (fe_partial env data)))))
      else apsnd (remove_staging env staging)
        (replace_target env staging target (put_node fs staging (Some (RegularFile data)))))"

definition plan_write ::
  "file_env \<Rightarrow> payload \<Rightarrow> file_system \<Rightarrow> (string \<times> abs_path \<times> bytes \<times> bool) result" where
  "plan_write env arguments fs =
     require_exact_arguments arguments [''path'', ''content'']
     (bindR (require_text arguments ''path'' False) (\<lambda>original_path.
      bindR (require_text arguments ''content'' True) (\<lambda>content.
      let data = utf8_encode content in
      ensure (length data \<le> fe_max_bytes env) ToolArgumentValidationError
      (bindR (resolve_for_execution env fs original_path) (\<lambda>(relative_path, target).
       require_directory env fs (butlast target)
       (let replaced = lexists env (ProbeReplaced target) fs target; plan = Inr (relative_path, target, data, replaced) in
        if replaced then require_regular_file env fs target plan else plan))))))"

definition write_file :: "file_env \<Rightarrow> payload \<Rightarrow> file_system \<Rightarrow> payload result \<times> file_system" where
  "write_file env arguments fs =
     (case plan_write env arguments fs of
        Inl e \<Rightarrow> (Inl e, fs)
      | Inr (relative_path, target, data, replaced) \<Rightarrow>
          apfst (\<lambda>r. bindR r (\<lambda>_.
            Inr [(''bytes'', JInt (int (length data))), (''path'', JStr relative_path),
              (''replaced'', JBool replaced), (''sha256'', JStr (fe_sha256 env data))]))
          (stage_and_replace env target data fs))"

definition plan_delete :: "file_env \<Rightarrow> payload \<Rightarrow> file_system \<Rightarrow> (string \<times> abs_path) result" where
  "plan_delete env arguments fs =
     require_exact_arguments arguments [''path'']
     (bindR (require_text arguments ''path'' False) (\<lambda>original_path.
      bindR (resolve_for_execution env fs original_path) (\<lambda>(relative_path, target).
      require_regular_file env fs target (Inr (relative_path, target)))))"

definition delete_file :: "file_env \<Rightarrow> payload \<Rightarrow> file_system \<Rightarrow> payload result \<times> file_system" where
  "delete_file env arguments fs =
     (case plan_delete env arguments fs of
        Inl e \<Rightarrow> (Inl e, fs)
      | Inr (relative_path, target) \<Rightarrow>
          if fe_fails env (UnlinkTarget target) then (Inl RestrictedToolExecutionError, fs)
          else (Inr [(''deleted'', JBool True), (''path'', JStr relative_path)], put_node fs target None))"

definition invoke_file_tool ::
  "file_env \<Rightarrow> string \<Rightarrow> payload \<Rightarrow> string \<Rightarrow> file_system \<Rightarrow> payload result \<times> file_system" where
  "invoke_file_tool env tool_name arguments key fs =
     (if tool_name = ''read_file'' then (read_file env arguments fs, fs)
      else if tool_name = ''write_file'' then write_file env arguments fs
      else if tool_name = ''delete_file'' then delete_file env arguments fs
      else (Inl UnknownToolError, fs))"

end
