(* ===== verification/FileLaws.thy ===== *)
theory FileLaws
  imports RestrictedFiles
begin

section \<open>Laws of the restricted file tools\<close>

text \<open>
  Paths without links and what resolves to them, the plan and the staging of a write, the paths a
  tool touches, what a tool sees, and the encoding of texts. The workspace is one whose root is a
  directory reached without a link.
\<close>

subsection \<open>Components\<close>

definition component :: "string \<Rightarrow> bool" where
  "component w \<longleftrightarrow> w \<noteq> [] \<and> w \<noteq> ''.'' \<and> CHR ''/'' \<notin> set w"

lemma split_slash_nonempty [simp]: "split_slash t \<noteq> []"
  by (induction t) (auto split: list.splits)

lemma split_slash_no_slash: "w \<in> set (split_slash t) \<Longrightarrow> CHR ''/'' \<notin> set w"
  by (induction t arbitrary: w) (auto split: list.splits if_splits)

lemma component_parts: "w \<in> set (path_parts t) \<Longrightarrow> component w"
  using split_slash_no_slash by (auto simp: path_parts_def component_def)

lemma split_slash_component: "CHR ''/'' \<notin> set w \<Longrightarrow> split_slash w = [w]"
  by (induction w) auto

lemma split_slash_append:
  "CHR ''/'' \<notin> set w \<Longrightarrow> split_slash (w @ ''/'' @ t) = w # split_slash t"
  by (induction w) auto

lemma parts_join: "\<forall>w \<in> set ws. component w \<Longrightarrow> path_parts (join_with ''/'' ws) = ws"
proof (induction ws)
  case (Cons w ws)
  then have w: "component w" "path_parts (join_with ''/'' ws) = ws" by simp_all
  then show ?case
    by (cases ws) (simp_all add: path_parts_def component_def split_slash_component
        split_slash_append [simplified])
qed (simp add: path_parts_def)

subsection \<open>Paths without links\<close>

definition plain :: "file_system \<Rightarrow> abs_path \<Rightarrow> bool" where
  "plain fs p \<longleftrightarrow> (\<forall>k \<le> length p. link_target fs (take k p) = None) \<and> ''..'' \<notin> set p"

lemma plain_take: "plain fs p \<Longrightarrow> plain fs (take k p)"
  by (auto simp: plain_def min_def dest: in_set_takeD)

lemma plain_butlast: "plain fs p \<Longrightarrow> plain fs (butlast p)"
  by (simp add: butlast_conv_take plain_take)

lemma plain_snoc: "plain fs (p @ [w]) \<longleftrightarrow> plain fs p \<and> link_target fs (p @ [w]) = None \<and> w \<noteq> ''..''"
  by (auto simp: plain_def le_Suc_eq)

lemma kernel_lookup_from: "plain fs (p @ ws) \<Longrightarrow> kernel_lookup n fs p ws = Some (p @ ws)"
proof (induction ws arbitrary: p)
  case (Cons w ws)
  have "plain fs (p @ [w])" using plain_take [OF Cons.prems, of "Suc (length p)"] by simp
  then have "link_target fs (p @ [w]) = None" "w \<noteq> ''..''" by (simp_all add: plain_snoc)
  with Cons show ?case by simp
qed simp

lemma kernel_lookup_plain: "plain fs p \<Longrightarrow> kernel_lookup n fs [] p = Some p"
  using kernel_lookup_from [of fs "[]"] by simp

lemma entry_plain:
  assumes "plain fs (butlast p)"
  shows "entry_of fs p = Some p" and "lstat fs p = fs p" and "put_node fs p n = fs(p := n)"
proof -
  show e: "entry_of fs p = Some p" using kernel_lookup_plain [OF assms] by (simp add: entry_of_def)
  show "lstat fs p = fs p" "put_node fs p n = fs(p := n)" by (simp_all add: lstat_def put_node_def e)
qed

lemma plain_update:
  assumes "plain fs p" and "\<not> is_link n"
  shows "plain (fs(q := n)) p"
proof -
  have "link_target (fs(q := n)) r = None" if "link_target fs r = None" for r
    using that assms(2) by (cases n rule: is_link.cases) (auto simp: link_target_def)
  with assms(1) show ?thesis by (auto simp: plain_def)
qed

lemma link_target_None_iff: "link_target fs p = None \<longleftrightarrow> \<not> is_link (fs p)"
  by (cases "fs p" rule: is_link.cases) (auto simp: link_target_def)

text \<open>Without links the standard library resolves a path to itself, whatever it cannot inspect.\<close>

lemma seen_link_plain: "plain fs (p @ [w]) \<Longrightarrow> seen_link env fs (p @ [w]) = None"
  using entry_plain(2) [of fs "p @ [w]"] plain_butlast [of fs "p @ [w]"]
  by (auto simp: seen_link_def plain_snoc link_target_def split: option.splits file_node.splits)

lemma joinrealpath_plain:
  "plain fs (p @ ws) \<Longrightarrow> joinrealpath env fs seen p ws =
     Some (if list_ex (\<lambda>w. CHR 0x00 \<in> set w) ws then Inl PyValueError else Inr (p @ ws, True, seen))"
proof (induction ws arbitrary: p)
  case (Cons w ws)
  have q: "plain fs (p @ [w])" using plain_take [OF Cons.prems, of "Suc (length p)"] by simp
  have "w \<noteq> ''..''" using q by (simp add: plain_snoc)
  then show ?case
    using Cons.IH [of "p @ [w]"] Cons.prems seen_link_plain [OF q] by (subst joinrealpath.simps) simp
qed (subst joinrealpath.simps, simp)

lemma normpath_plain: "''..'' \<notin> set ws \<Longrightarrow> normpath ws = ws"
  by (induction ws rule: rev_induct) (auto simp: normpath_def)

definition plain_resolver :: resolver where
  "plain_resolver ws =
     (if list_ex (\<lambda>w. CHR 0x00 \<in> set w) ws then Inl (BadPath ''embedded null byte'') else Inr ws)"

lemma resolve_path_plain: "plain fs ws \<Longrightarrow> resolve_path env fs ws = plain_resolver ws"
  using joinrealpath_plain [of fs "[]" ws]
  by (simp add: resolve_path_def plain_resolver_def kernel_lookup_plain normpath_plain plain_def Let_def)

lemma boundary_cong:
  "resolve1 (root @ path_parts (portable t)) = resolve2 (root @ path_parts (portable t)) \<Longrightarrow>
     boundary_normalize resolve1 root t = boundary_normalize resolve2 root t"
  by (simp add: boundary_normalize_def Let_def)

lemma normalize_plain:
  assumes "plain fs (fe_root env @ path_parts (portable path))"
  shows "workspace_normalize env fs path =
    (case boundary_normalize plain_resolver (fe_root env) path of
       Inl _ \<Rightarrow> Inl WorkspaceExecutionError | Inr r \<Rightarrow> Inr r)"
proof -
  have "boundary_normalize plain_resolver (fe_root env) path \<noteq> Inl (PathRaises e)" for e
  proof
    assume "boundary_normalize plain_resolver (fe_root env) path = Inl (PathRaises e)"
    from boundary_raises [OF this] show False by (auto simp: plain_resolver_def split: if_splits)
  qed
  moreover have "boundary_normalize (resolve_path env fs) (fe_root env) path =
      boundary_normalize plain_resolver (fe_root env) path"
    by (rule boundary_cong) (rule resolve_path_plain [OF assms])
  ultimately show ?thesis by (simp add: workspace_normalize_def split: sum.split path_failure.split)
qed

subsection \<open>Resolution\<close>

definition workspace_ok :: "file_system \<Rightarrow> abs_path \<Rightarrow> bool" where
  "workspace_ok fs root \<longleftrightarrow> plain fs root \<and> fs root = Some Directory \<and> (\<forall>w \<in> set root. component w)"

text \<open>What is strictly inside a root.\<close>

definition inside :: "abs_path \<Rightarrow> abs_path \<Rightarrow> bool" where
  "inside root p \<longleftrightarrow> length root < length p \<and> take (length root) p = root"

lemma inside_append: "ws \<noteq> [] \<Longrightarrow> inside root (root @ ws)"
  by (simp add: inside_def)

text \<open>
  What the tools rely on of the calls whose failure \<open>os.path.lexists\<close> hides: it sees the links
  of the workspace on the walk over the components, and the root when it is asked for it.
\<close>

definition probes_see :: "file_env \<Rightarrow> file_system \<Rightarrow> bool" where
  "probes_see env fs \<longleftrightarrow> \<not> fe_fails env (ProbeReplaced (fe_root env)) \<and>
     (\<forall>p. inside (fe_root env) p \<and> is_link (fs p) \<longrightarrow> \<not> fe_fails env (ProbeComponent p))"

lemma calm_probes: "(\<And>c. \<not> fe_fails env c) \<Longrightarrow> probes_see env fs"
  by (simp add: probes_see_def)

lemma check_components_Inr:
  assumes "plain fs p" and "check_components env fs p ws k = Inr r" and "''..'' \<notin> set ws"
    and "\<And>vs. vs \<noteq> [] \<Longrightarrow> is_link (fs (p @ vs)) \<Longrightarrow> \<not> fe_fails env (ProbeComponent (p @ vs))"
  shows "plain fs (p @ ws) \<and> k = Inr r"
  using assms
proof (induction ws arbitrary: p)
  case (Cons w ws)
  have e: "lstat fs (p @ [w]) = fs (p @ [w])" using entry_plain(2) [of fs "p @ [w]"] Cons.prems(1) by simp
  have "check_components env fs (p @ [w]) ws k = Inr r" and "\<not> is_link (fs (p @ [w]))"
    using Cons.prems(2) Cons.prems(4) [of "[w]"] e by (auto simp: lexists_def Let_def result_simps split: if_splits)
  moreover have "w \<noteq> ''..''" using Cons.prems(3) by auto
  ultimately show ?case
    using Cons.IH [of "p @ [w]"] Cons.prems(1,3) Cons.prems(4) [of "w # _"] by (simp add: plain_snoc link_target_None_iff)
qed simp

lemma normalize_inside:
  assumes "boundary_normalize plain_resolver root t = Inr r"
  shows "path_parts r = path_parts (portable t)"
  using assms parts_join [of "path_parts (portable t)"] component_parts
  by (auto simp: boundary_normalize_def plain_resolver_def Let_def path_parts_def [of "''.''"] split: if_splits)

lemma resolve_for_execution_Inr:
  assumes "workspace_ok fs (fe_root env)" and "probes_see env fs"
    and "resolve_for_execution env fs path = Inr (relative_path, target)"
  shows "target = fe_root env @ path_parts (portable path)" and "plain fs target"
    and "path_parts relative_path = path_parts (portable path)"
proof -
  let ?ws = "path_parts (portable path)"
  from assms(3) obtain r where dots: "''..'' \<notin> set ?ws"
    and norm: "workspace_normalize env fs path = Inr r"
    and walk: "check_components env fs (fe_root env) ?ws (Inr (r, fe_root env @ path_parts r)) =
      Inr (relative_path, target)"
    by (auto simp: resolve_for_execution_def Let_def result_simps)
  have "plain fs (fe_root env)" using assms(1) by (simp add: workspace_ok_def)
  from check_components_Inr [OF this walk dots] assms(2)
  have p: "plain fs (fe_root env @ ?ws)" and r: "relative_path = r" "target = fe_root env @ path_parts r"
    by (auto simp: probes_see_def inside_append)
  have parts: "path_parts r = ?ws"
    using norm normalize_inside by (auto simp: normalize_plain [OF p] split: sum.splits)
  with r p show "target = fe_root env @ ?ws" "plain fs target" "path_parts relative_path = ?ws" by simp_all
qed

subsection \<open>What a write does\<close>

definition staging_path :: "file_env \<Rightarrow> abs_path \<Rightarrow> abs_path" where
  "staging_path env target = butlast target @ [staging_name env (butlast target)]"

text \<open>
  The state a failed write may leave: the one before it, or that with a staging file which could
  not be removed.
\<close>

definition left_behind :: "file_env \<Rightarrow> abs_path \<Rightarrow> file_system \<Rightarrow> file_system \<Rightarrow> bool" where
  "left_behind env staging fs fs' \<longleftrightarrow> fs' = fs \<or>
     (fe_fails env (RemoveStaging staging) \<and> fs staging = None \<and>
      (\<exists>b. fs' = fs(staging \<mapsto> RegularFile b)))"

lemma stage_and_replace_cases:
  assumes "plain fs target" and "target \<noteq> []"
    and "staging_path env target \<noteq> target"
    and "stage_and_replace env target data fs = (r, fs')"
  shows "case r of
      Inl e \<Rightarrow> e = RestrictedToolExecutionError \<and> left_behind env (staging_path env target) fs fs'
    | Inr _ \<Rightarrow> fs (staging_path env target) = None \<and> fs target \<noteq> Some Directory \<and>
        fs' = fs(target \<mapsto> RegularFile data)"
proof -
  let ?s = "staging_path env target"
  have parent: "plain fs (butlast target)" by (rule plain_butlast [OF assms(1)])
  have bs: "butlast ?s = butlast target" by (simp add: staging_path_def)
  have put: "put_node (fs(?s := n)) ?s m = fs(?s := m)"
    and look: "lstat (fs(?s := n)) target = fs target" "lstat (fs(?s := n)) ?s = n"
    and swap: "put_node (put_node (fs(?s := n)) ?s None) target m = fs(?s := None, target := m)"
    if "\<not> is_link n" for n m
  proof -
    have p: "plain (fs(?s := n)) (butlast target)" by (rule plain_update [OF parent that])
    then show "put_node (fs(?s := n)) ?s m = fs(?s := m)"
      "lstat (fs(?s := n)) target = fs target" "lstat (fs(?s := n)) ?s = n"
      using entry_plain bs assms(3) by auto
    have "plain (fs(?s := None)) (butlast target)" by (rule plain_update [OF parent]) simp
    then show "put_node (put_node (fs(?s := n)) ?s None) target m = fs(?s := None, target := m)"
      using entry_plain(3) [of "fs(?s := n)" ?s] entry_plain(3) [of "fs(?s := None)" target] p bs by simp
  qed
  note s = entry_plain(2,3) [of fs ?s, unfolded bs, OF parent]
  show ?thesis
  proof (cases "fe_fails env (MakeStaging (butlast target)) \<or> lstat fs ?s \<noteq> None")
    case True
    with assms(4) show ?thesis
      by (auto simp: stage_and_replace_def Let_def staging_path_def left_behind_def)
  next
    case False
    then have new: "fs ?s = None" by (simp add: s)
    then have same: "fs(?s := None) = fs" by auto
    have removed: "remove_staging env ?s (fs(?s \<mapsto> RegularFile b)) =
        (if fe_fails env (RemoveStaging ?s) then fs(?s \<mapsto> RegularFile b) else fs)" for b
      using put [of "Some (RegularFile b)"] same by (simp add: remove_staging_def)
    have run: "stage_and_replace env target data fs =
        (if fe_fails env (WriteStaging ?s)
         then (Inl RestrictedToolExecutionError, remove_staging env ?s (fs(?s \<mapsto> RegularFile (fe_partial env data))))
         else apsnd (remove_staging env ?s) (replace_target env ?s target (fs(?s \<mapsto> RegularFile data))))"
      using False s by (simp add: stage_and_replace_def Let_def staging_path_def)
    show ?thesis
    proof (cases "fe_fails env (WriteStaging ?s) \<or> fe_fails env (ReplaceTarget target) \<or> fs target = Some Directory")
      case True
      with run removed new assms(4) look(1) [of "Some (RegularFile data)"] show ?thesis
        by (auto simp: replace_target_def left_behind_def split: if_splits)
    next
      case ok: False
      have "replace_target env ?s target (fs(?s \<mapsto> RegularFile data)) = (Inr (), fs(target \<mapsto> RegularFile data))"
        using ok look [of "Some (RegularFile data)"] swap [of "Some (RegularFile data)"] same
        by (simp add: replace_target_def)
      moreover have "plain (fs(target \<mapsto> RegularFile data)) (butlast target)"
        by (rule plain_update [OF parent]) simp
      then have "remove_staging env ?s (fs(target \<mapsto> RegularFile data)) = fs(target \<mapsto> RegularFile data)"
        using entry_plain(3) [of "fs(target \<mapsto> RegularFile data)" ?s] bs new assms(3)
        by (auto simp: remove_staging_def fun_upd_twist fun_eq_iff)
      ultimately show ?thesis using run ok assms(4) new by auto
    qed
  qed
qed

text \<open>Paths whose node a tool may change, none of them to a link.\<close>

definition touched :: "abs_path set \<Rightarrow> file_system \<Rightarrow> file_system \<Rightarrow> bool" where
  "touched X fs fs' \<longleftrightarrow> (\<forall>p. p \<notin> X \<longrightarrow> fs' p = fs p) \<and> (\<forall>p. is_link (fs' p) \<longrightarrow> is_link (fs p))"

lemma touched_refl [simp]: "touched X fs fs"
  by (simp add: touched_def)

lemma touched_plain: "touched X fs g \<Longrightarrow> plain fs p \<Longrightarrow> plain g p"
  by (auto simp: touched_def plain_def link_target_None_iff)

lemma touched_put:
  assumes "touched X fs g" and "plain fs (butlast p)" and "p \<in> X" and "\<not> is_link n"
  shows "touched X fs (put_node g p n)"
  using assms entry_plain(3) [OF touched_plain [OF assms(1,2)], of n] by (auto simp: touched_def)

lemma stage_and_replace_touches:
  assumes "plain fs target" and "stage_and_replace env target data fs = (r, fs')"
  shows "touched {target, staging_path env target} fs fs'"
proof -
  let ?s = "staging_path env target" and ?X = "{target, staging_path env target}"
  have parent: "plain fs (butlast target)" "plain fs (butlast ?s)"
    using plain_butlast [OF assms(1)] by (simp_all add: staging_path_def)
  show ?thesis
  proof (cases "fe_fails env (MakeStaging (butlast target)) \<or> lstat fs ?s \<noteq> None")
    case True
    with assms(2) show ?thesis by (auto simp: stage_and_replace_def Let_def staging_path_def)
  next
    case False
    then have new: "\<not> is_link (fs ?s)" using entry_plain(2) [OF parent(2)] by simp
    have remove: "touched ?X fs (remove_staging env ?s g)" if "touched ?X fs g" for g
      using that touched_put [OF that parent(2), of None] by (simp add: remove_staging_def)
    have staged: "touched ?X fs (put_node fs ?s (Some (RegularFile b)))" for b
      by (rule touched_put) (simp_all add: parent)
    have moved: "touched ?X fs (snd (replace_target env ?s target g))" if g: "touched ?X fs g" for g
    proof -
      have "lstat g ?s = g ?s" by (rule entry_plain(2) [OF touched_plain [OF g parent(2)]])
      then have n: "\<not> is_link (lstat g ?s)" using g new by (auto simp: touched_def)
      have "touched ?X fs (put_node g ?s None)" by (rule touched_put [OF g parent(2)]) simp_all
      from touched_put [OF this parent(1) _ n] g show ?thesis by (simp add: replace_target_def)
    qed
    have "fs' = remove_staging env ?s (put_node fs ?s (Some (RegularFile (fe_partial env data)))) \<or>
        fs' = remove_staging env ?s (snd (replace_target env ?s target (put_node fs ?s (Some (RegularFile data)))))"
      using False assms(2) by (auto simp: stage_and_replace_def Let_def staging_path_def apsnd_def split_beta
          map_prod_def split: if_splits)
    with remove staged moved show ?thesis by blast
  qed
qed

subsection \<open>The plans\<close>

lemma require_regular_Inr [result_simps]:
  "require_regular_file env fs p k = Inr x \<longleftrightarrow>
     is_regular (lstat fs p) \<and> \<not> fe_fails env (ProbeTarget p) \<and> \<not> fe_fails env (InspectTarget p) \<and> k = Inr x"
  by (cases "lstat fs p") (auto simp: require_regular_file_def lexists_def result_simps)

lemma require_directory_Inr [result_simps]:
  "require_directory env fs p k = Inr x \<longleftrightarrow>
     lstat fs p = Some Directory \<and> \<not> fe_fails env (ProbeTarget p) \<and> \<not> fe_fails env (InspectTarget p) \<and> k = Inr x"
  by (auto simp: require_directory_def lexists_def result_simps)

lemma require_text_Inr [result_simps]:
  "require_text arguments field b = Inr t \<longleftrightarrow> map_of arguments field = Some (JStr t) \<and> (b \<or> t \<noteq> [])"
  by (auto simp: require_text_def result_simps split: option.splits json.splits)

lemma require_exact_Inr [result_simps]:
  "require_exact_arguments arguments ns k = Inr x \<longleftrightarrow> set (map fst arguments) = set ns \<and> k = Inr x"
  by (auto simp: require_exact_arguments_def result_simps)

definition target_of :: "file_env \<Rightarrow> payload \<Rightarrow> abs_path" where
  "target_of env arguments =
     (case map_of arguments ''path'' of
        Some (JStr path) \<Rightarrow> fe_root env @ path_parts (portable path)
      | _ \<Rightarrow> fe_root env)"

lemma not_root:
  assumes "workspace_ok fs root" and "target = root @ ws" and "fs target \<noteq> Some Directory"
  shows "ws \<noteq> []" and "target \<noteq> []"
  using assms by (auto simp: workspace_ok_def)

lemma plan_write_Inr:
  assumes "workspace_ok fs (fe_root env)" and "probes_see env fs"
    and "plan_write env arguments fs = Inr (relative_path, target, data, replaced)"
  shows "target = target_of env arguments" and "plain fs target"
    and "\<exists>ws. ws \<noteq> [] \<and> target = fe_root env @ ws"
    and "\<exists>content. map_of arguments ''content'' = Some (JStr content) \<and> data = utf8_encode content"
    and "length data \<le> fe_max_bytes env"
    and "replaced \<longleftrightarrow> \<not> fe_fails env (ProbeReplaced target) \<and> fs target \<noteq> None"
    and "fs (butlast target) = Some Directory" and "replaced \<Longrightarrow> is_regular (fs target)"
proof -
  from assms(3) obtain path content where a: "map_of arguments ''path'' = Some (JStr path)"
      "map_of arguments ''content'' = Some (JStr content)" "data = utf8_encode content"
      "length data \<le> fe_max_bytes env"
    and r: "resolve_for_execution env fs path = Inr (relative_path, target)"
    and d: "lstat fs (butlast target) = Some Directory"
    and x: "(if lexists env (ProbeReplaced target) fs target
       then require_regular_file env fs target (Inr (relative_path, target, data, True))
       else Inr (relative_path, target, data, False)) = Inr (relative_path, target, data, replaced)"
    by (auto simp: plan_write_def Let_def result_simps split: if_splits)
  note R = resolve_for_execution_Inr [OF assms(1,2) r]
  from R(1) a(1) show t: "target = target_of env arguments" by (simp add: target_of_def)
  show p: "plain fs target" by (rule R(2))
  note e = entry_plain(2) [OF plain_butlast [OF p]]
  from x e show reg: "replaced \<Longrightarrow> is_regular (fs target)"
    and rep: "replaced \<longleftrightarrow> \<not> fe_fails env (ProbeReplaced target) \<and> fs target \<noteq> None"
    by (auto simp: lexists_def result_simps split: if_splits)
  have "target \<noteq> fe_root env"
    using assms(1,2) reg rep by (auto simp: workspace_ok_def probes_see_def)
  with R(1) show "\<exists>ws. ws \<noteq> [] \<and> target = fe_root env @ ws" by auto
  from a show "\<exists>content. map_of arguments ''content'' = Some (JStr content) \<and> data = utf8_encode content"
    "length data \<le> fe_max_bytes env" by auto
  from d show "fs (butlast target) = Some Directory"
    using entry_plain(2) [OF plain_butlast [OF plain_butlast [OF p]]] by simp
qed

lemma plan_delete_Inr:
  assumes "workspace_ok fs (fe_root env)" and "probes_see env fs"
    and "plan_delete env arguments fs = Inr (relative_path, target)"
  shows "target = target_of env arguments" and "plain fs target"
    and "\<exists>ws. ws \<noteq> [] \<and> target = fe_root env @ ws" and "is_regular (fs target)"
proof -
  from assms(3) obtain path where a: "map_of arguments ''path'' = Some (JStr path)"
    and r: "resolve_for_execution env fs path = Inr (relative_path, target)" and l: "is_regular (lstat fs target)"
    by (auto simp: plan_delete_def result_simps)
  note R = resolve_for_execution_Inr [OF assms(1,2) r]
  from R(1) a show "target = target_of env arguments" by (simp add: target_of_def)
  show p: "plain fs target" by (rule R(2))
  show reg: "is_regular (fs target)" using l entry_plain(2) [OF plain_butlast [OF p]] by simp
  then have "fs target \<noteq> Some Directory" by auto
  with not_root [OF assms(1) R(1)] R(1) show "\<exists>ws. ws \<noteq> [] \<and> target = fe_root env @ ws" by blast
qed

subsection \<open>Confinement\<close>

lemma inside_staging: "ws \<noteq> [] \<Longrightarrow> inside root (staging_path env (root @ ws))"
  by (cases ws rule: rev_cases) (simp_all add: staging_path_def butlast_append inside_def)

lemma touched_confined:
  assumes "touched X fs fs'" and "\<forall>p \<in> X. inside root p" and "workspace_ok fs root"
  shows "(\<forall>p. \<not> inside root p \<longrightarrow> fs' p = fs p) \<and> workspace_ok fs' root"
proof -
  have "\<not> inside root root" by (simp add: inside_def)
  then have "fs' root = fs root" using assms(1,2) by (auto simp: touched_def)
  moreover have "plain fs' root" using assms(1,3) touched_plain by (auto simp: workspace_ok_def)
  ultimately show ?thesis using assms by (auto simp: workspace_ok_def touched_def)
qed

lemma invoke_touches:
  assumes "workspace_ok fs (fe_root env)" and "probes_see env fs"
    and "invoke_file_tool env tool arguments key fs = (r, fs')"
  shows "\<exists>X. touched X fs fs' \<and> (\<forall>p \<in> X. inside (fe_root env) p)"
proof -
  consider (read) "fs' = fs" | (written) "write_file env arguments fs = (r, fs')"
    | (delete) "delete_file env arguments fs = (r, fs')"
    using assms(3) by (auto simp: invoke_file_tool_def split: if_splits)
  then show ?thesis
  proof cases
    case read
    then have "touched {} fs fs'" by simp
    then show ?thesis by blast
  next
    case written
    show ?thesis
    proof (cases "plan_write env arguments fs")
      case (Inl e)
      with written have "touched {} fs fs'" by (simp add: write_file_def)
      then show ?thesis by blast
    next
      case (Inr x)
      obtain rp target data rep where x: "x = (rp, target, data, rep)" by (cases x)
      note P = plan_write_Inr [OF assms(1,2) Inr [unfolded x]]
      from P(3) obtain ws where ws: "ws \<noteq> []" "target = fe_root env @ ws" by blast
      from written Inr x obtain r' where "stage_and_replace env target data fs = (r', fs')"
        by (cases "stage_and_replace env target data fs") (auto simp: write_file_def)
      from stage_and_replace_touches [OF P(2) this] ws show ?thesis
        using inside_append inside_staging by blast
    qed
  next
    case delete
    show ?thesis
    proof (cases "plan_delete env arguments fs")
      case (Inl e)
      with delete have "touched {} fs fs'" by (simp add: delete_file_def)
      then show ?thesis by blast
    next
      case (Inr x)
      obtain rp target where x: "x = (rp, target)" by (cases x)
      note P = plan_delete_Inr [OF assms(1,2) Inr [unfolded x]]
      from P(3) obtain ws where ws: "ws \<noteq> []" "target = fe_root env @ ws" by blast
      have "touched {target} fs (put_node fs target None)"
        by (rule touched_put) (simp_all add: plain_butlast [OF P(2)])
      then have "touched {target} fs fs'" using delete Inr x by (auto simp: delete_file_def split: if_splits)
      with ws inside_append show ?thesis by blast
    qed
  qed
qed

lemma file_confinement:
  assumes "workspace_ok fs (fe_root env)" and "probes_see env fs"
    and "invoke_file_tool env tool arguments key fs = (r, fs')"
  shows "(\<forall>p. \<not> inside (fe_root env) p \<longrightarrow> fs' p = fs p) \<and> workspace_ok fs' (fe_root env)"
    and "is_link (fs' p) \<Longrightarrow> is_link (fs p)"
proof -
  from invoke_touches [OF assms] obtain X where "touched X fs fs'" "\<forall>p \<in> X. inside (fe_root env) p" by blast
  from touched_confined [OF this assms(1)] this(1)
  show "(\<forall>p. \<not> inside (fe_root env) p \<longrightarrow> fs' p = fs p) \<and> workspace_ok fs' (fe_root env)"
    "is_link (fs' p) \<Longrightarrow> is_link (fs p)" by (simp_all add: touched_def)
qed

lemma probes_see_fewer: "probes_see env fs \<Longrightarrow> (\<And>p. is_link (gs p) \<Longrightarrow> is_link (fs p)) \<Longrightarrow> probes_see env gs"
  by (auto simp: probes_see_def)

subsection \<open>What the tools see\<close>

definition same_inside :: "abs_path \<Rightarrow> file_system \<Rightarrow> file_system \<Rightarrow> bool" where
  "same_inside root fs gs \<longleftrightarrow> (\<forall>ws. fs (root @ ws) = gs (root @ ws))"

lemma same_inside_plain:
  assumes "same_inside root fs gs" and "plain gs root" and "plain fs (root @ ws)"
  shows "plain gs (root @ ws)"
  using assms(3)
proof (induction ws rule: rev_induct)
  case (snoc w ws)
  have "gs ((root @ ws) @ [w]) = fs ((root @ ws) @ [w])" using assms(1) by (simp add: same_inside_def)
  with snoc show ?case by (simp add: plain_snoc link_target_None_iff flip: append_assoc)
qed (simp add: assms(2))

lemma probes_see_same_inside:
  assumes "same_inside (fe_root env) fs gs" and "probes_see env fs"
  shows "probes_see env gs"
proof -
  have "gs p = fs p" if "inside (fe_root env) p" for p
    using that assms(1) append_take_drop_id [of "length (fe_root env)" p] by (metis inside_def same_inside_def)
  with assms(2) show ?thesis by (auto simp: probes_see_def)
qed

lemma check_components_cong:
  assumes "same_inside root fs gs" and "plain fs (root @ vs @ ws)" and "plain gs (root @ vs @ ws)"
  shows "check_components env fs (root @ vs) ws k = check_components env gs (root @ vs) ws k"
  using assms(2,3)
proof (induction ws arbitrary: vs)
  case (Cons w ws)
  have "plain hs (root @ vs)" if "plain hs (root @ vs @ w # ws)" for hs
    using plain_take [OF that, of "length root + length vs"] by simp
  then have "lstat fs (root @ vs @ [w]) = lstat gs (root @ vs @ [w])"
    using entry_plain(2) [of fs "root @ vs @ [w]"] entry_plain(2) [of gs "root @ vs @ [w]"] Cons.prems assms(1)
    by (simp add: same_inside_def butlast_append)
  then show ?case using Cons.IH [of "vs @ [w]"] Cons.prems by (simp add: Let_def lexists_def)
qed simp

lemma resolve_same_inside:
  assumes "same_inside (fe_root env) fs gs" and "workspace_ok fs (fe_root env)" and "workspace_ok gs (fe_root env)"
    and "probes_see env fs" and "resolve_for_execution env fs path = Inr x"
  shows "resolve_for_execution env gs path = Inr x"
proof -
  let ?ws = "path_parts (portable path)"
  obtain rp target where x: "x = (rp, target)" by (cases x)
  note R = resolve_for_execution_Inr [OF assms(2,4) assms(5) [unfolded x]]
  have p: "plain fs (fe_root env @ ?ws)" using R(1,2) by simp
  have q: "plain gs (fe_root env @ ?ws)"
    using same_inside_plain [OF assms(1) _ p] assms(3) by (simp add: workspace_ok_def)
  have "workspace_normalize env fs path = workspace_normalize env gs path"
    by (simp add: normalize_plain [OF p] normalize_plain [OF q])
  moreover have "check_components env fs (fe_root env) ?ws k = check_components env gs (fe_root env) ?ws k"
    for k :: "(string \<times> abs_path) result"
    using check_components_cong [OF assms(1), of "[]" ?ws env k] p q by simp
  ultimately show ?thesis using assms(5) by (simp add: resolve_for_execution_def Let_def)
qed

lemma read_file_Inr:
  assumes "workspace_ok fs (fe_root env)" and "probes_see env fs"
  shows "read_file env arguments fs = Inr out \<longleftrightarrow>
    (\<exists>path rp target content text. set (map fst arguments) = {''path''} \<and>
      map_of arguments ''path'' = Some (JStr path) \<and> path \<noteq> [] \<and>
      resolve_for_execution env fs path = Inr (rp, target) \<and> fs target = Some (RegularFile content) \<and>
      \<not> fe_fails env (ProbeTarget target) \<and> \<not> fe_fails env (InspectTarget target) \<and>
      \<not> fe_fails env (ReadTarget target) \<and> length content \<le> fe_max_bytes env \<and> utf8_decode content = Inr text \<and>
      out = [(''bytes'', JInt (int (length content))), (''content'', JStr text), (''path'', JStr rp),
        (''sha256'', JStr (fe_sha256 env content))])"
proof -
  have "open_bytes fs target = (case fs target of Some (RegularFile b) \<Rightarrow> Inr b | _ \<Rightarrow> Inl RestrictedToolExecutionError) \<and>
      lstat fs target = fs target" if "resolve_for_execution env fs path = Inr (rp, target)" for path rp target
    using resolve_for_execution_Inr(2) [OF assms that] kernel_lookup_plain entry_plain(2) plain_butlast
    by (simp add: open_bytes_def)
  moreover have "take (Suc m) c = c" if "length (take (Suc m) c) \<le> m" for m and c :: bytes
    using that by simp
  ultimately show ?thesis
    by (auto simp: read_file_def result_simps Let_def split: option.splits file_node.splits)
qed

lemma write_file_Inr:
  assumes "workspace_ok fs (fe_root env)" and "probes_see env fs" and "staging_path env (target_of env arguments) \<noteq> target_of env arguments"
  shows "write_file env arguments fs = (Inr out, fs') \<longleftrightarrow>
    (\<exists>rp target data rep. plan_write env arguments fs = Inr (rp, target, data, rep) \<and>
      fs (staging_path env target) = None \<and> fs target \<noteq> Some Directory \<and> \<not> fe_fails env (MakeStaging (butlast target)) \<and>
      \<not> fe_fails env (WriteStaging (staging_path env target)) \<and> \<not> fe_fails env (ReplaceTarget target) \<and>
      fs' = fs(target \<mapsto> RegularFile data) \<and>
      out = [(''bytes'', JInt (int (length data))), (''path'', JStr rp), (''replaced'', JBool rep),
        (''sha256'', JStr (fe_sha256 env data))])"
proof (cases "plan_write env arguments fs")
  case (Inr x)
  obtain rp target data rep where x: "x = (rp, target, data, rep)" by (cases x)
  note P = plan_write_Inr [OF assms(1,2) Inr [unfolded x]]
  obtain r' gs where s: "stage_and_replace env target data fs = (r', gs)" by fastforce
  have t: "target \<noteq> []" "staging_path env target \<noteq> target" using P(1,3) assms(3) by auto
  note c = stage_and_replace_cases [OF P(2) t s]
  have bs: "butlast (staging_path env target) = butlast target" by (simp add: staging_path_def)
  have "lstat fs (staging_path env target) = fs (staging_path env target)"
    using entry_plain(2) [of fs "staging_path env target"] plain_butlast [OF P(2)] bs by simp
  then have "(\<exists>u. r' = Inr u) \<longleftrightarrow> fs (staging_path env target) = None \<and> fs target \<noteq> Some Directory \<and>
      \<not> fe_fails env (MakeStaging (butlast target)) \<and>
      \<not> fe_fails env (WriteStaging (staging_path env target)) \<and> \<not> fe_fails env (ReplaceTarget target)"
    using s c plain_update [OF plain_butlast [OF P(2)], of "Some (RegularFile data)"]
      entry_plain(2,3) [of _ target] entry_plain(3) [of fs "staging_path env target"] bs t(2) plain_butlast [OF P(2)]
    by (auto simp: stage_and_replace_def Let_def staging_path_def [symmetric] replace_target_def
        split: if_splits)
  with Inr x s c show ?thesis by (cases r') (auto simp: write_file_def)
qed (simp add: write_file_def)

text \<open>A target resolved in one of two file systems with the same workspace, seen from the other.\<close>

lemma target_same_inside:
  assumes "same_inside (fe_root env) fs gs" and "workspace_ok fs (fe_root env)" and "workspace_ok gs (fe_root env)"
    and "probes_see env fs" and "resolve_for_execution env fs path = Inr (rp, target)"
  shows "resolve_for_execution env gs path = Inr (rp, target)" and "plain gs target"
    and "gs target = fs target" and "lstat gs target = lstat fs target"
    and "lexists env call gs target \<longleftrightarrow> lexists env call fs target"
    and "target \<noteq> fe_root env \<Longrightarrow> lstat gs (butlast target) = lstat fs (butlast target)"
proof -
  show r: "resolve_for_execution env gs path = Inr (rp, target)" by (rule resolve_same_inside [OF assms])
  note R = resolve_for_execution_Inr [OF assms(2,4,5)]
    and G = resolve_for_execution_Inr [OF assms(3) probes_see_same_inside [OF assms(1,4)] r]
  show "plain gs target" by (rule G(2))
  show t: "gs target = fs target" using assms(1) by (simp add: R(1) same_inside_def)
  show l: "lstat gs target = lstat fs target"
    using t entry_plain(2) plain_butlast R(2) G(2) by metis
  then show "lexists env call gs target \<longleftrightarrow> lexists env call fs target" by (simp add: lexists_def)
  show "lstat gs (butlast target) = lstat fs (butlast target)" if "target \<noteq> fe_root env"
  proof -
    have "\<exists>ws. butlast target = fe_root env @ ws" using that R(1) by (auto simp: butlast_append)
    then have "gs (butlast target) = fs (butlast target)" using assms(1) by (auto simp: same_inside_def)
    then show ?thesis
      using entry_plain(2) [OF plain_butlast [OF plain_butlast [OF R(2)]]]
        entry_plain(2) [OF plain_butlast [OF plain_butlast [OF G(2)]]] by simp
  qed
qed

lemma plan_write_same_inside:
  assumes "same_inside (fe_root env) fs gs" and "workspace_ok fs (fe_root env)" and "workspace_ok gs (fe_root env)"
    and "probes_see env fs" and "plan_write env arguments fs = Inr x"
  shows "plan_write env arguments gs = Inr x"
proof -
  obtain rp target data rep where x: "x = (rp, target, data, rep)" by (cases x)
  from plan_write_Inr(3) [OF assms(2,4) assms(5) [unfolded x]] have root: "target \<noteq> fe_root env" by auto
  from assms(5) x obtain path where "map_of arguments ''path'' = Some (JStr path)"
      "resolve_for_execution env fs path = Inr (rp, target)"
    by (auto simp: plan_write_def Let_def result_simps split: if_splits)
  with target_same_inside [OF assms(1-4) this(2)] root assms(5) x show ?thesis
    by (auto simp: plan_write_def Let_def result_simps split: if_splits)
qed

lemma invoke_Inr:
  assumes "invoke_file_tool env tool arguments key fs = (Inr out, fs')"
  obtains (reads) "tool = ''read_file''" "read_file env arguments fs = Inr out" "fs' = fs"
    | (writes) "tool = ''write_file''" "write_file env arguments fs = (Inr out, fs')"
    | (deletes) "tool = ''delete_file''" "delete_file env arguments fs = (Inr out, fs')"
proof -
  consider "tool = ''read_file''" | "tool = ''write_file''" | "tool = ''delete_file''"
    | "tool \<noteq> ''read_file''" "tool \<noteq> ''write_file''" "tool \<noteq> ''delete_file''" by blast
  then show thesis
  proof cases
    case 1
    with assms have "read_file env arguments fs = Inr out" "fs' = fs" by (auto simp: invoke_file_tool_def)
    with 1 show thesis by (rule reads)
  next
    case 2
    with assms show thesis by (intro writes) (simp_all add: invoke_file_tool_def)
  next
    case 3
    with assms show thesis by (intro deletes) (simp_all add: invoke_file_tool_def)
  next
    case 4
    with assms show thesis by (simp add: invoke_file_tool_def)
  qed
qed

subsection \<open>Reading back what was written\<close>

lemma utf8_points_encode: "utf8_points (map of_char (utf8_encode s)) = Some (map of_char s)"
proof (induction s)
  case (Cons c s)
  let ?n = "of_char c :: nat"
  have less: "?n < 256" by simp
  then have div: "?n div 64 < 4" by (simp add: less_mult_imp_div_less)
  have "?n = ?n div 64 * 64 + ?n mod 64" by simp
  with Cons div show ?case
    by (auto simp: utf8_encode_def Let_def continuation_def)
qed (simp add: utf8_encode_def)

lemma utf8_roundtrip: "utf8_decode (utf8_encode s) = Inr s"
proof -
  have "list_all (\<lambda>n. n < 256) (map of_char s :: nat list)" by (simp add: list_all_iff)
  then show ?thesis by (simp add: utf8_decode_def utf8_points_encode comp_def)
qed

lemma check_components_plain:
  assumes "plain fs (p @ ws)" and "\<And>c. \<not> fe_fails env (InspectComponent c)"
  shows "check_components env fs p ws k = k"
  using assms(1)
proof (induction ws arbitrary: p)
  case (Cons w ws)
  have "plain fs (p @ [w])" using plain_take [OF Cons.prems, of "Suc (length p)"] by simp
  then have "\<not> is_link (lstat fs (p @ [w]))"
    using entry_plain(2) [of fs "p @ [w]"] by (simp add: plain_snoc link_target_None_iff)
  with Cons show ?case by (simp add: Let_def assms(2))
qed simp

lemma resolve_again:
  assumes "workspace_ok fs (fe_root env)" and "probes_see env fs"
    and "resolve_for_execution env fs path = Inr (rp, target)" and "plain gs target" and "fe_root env' = fe_root env" and "\<And>c. \<not> fe_fails env' (InspectComponent c)"
  shows "resolve_for_execution env' gs path = Inr (rp, target)"
proof -
  let ?ws = "path_parts (portable path)"
  note R = resolve_for_execution_Inr [OF assms(1,2,3)]
  have q: "plain gs (fe_root env @ ?ws)" using assms(4) R(1) by simp
  have p: "plain fs (fe_root env @ ?ws)" using R(1,2) by simp
  have dots: "''..'' \<notin> set ?ws" using p by (simp add: plain_def)
  have "workspace_normalize env fs path = workspace_normalize env' gs path"
    using normalize_plain [OF p] normalize_plain [of gs env' path] q assms(5) by simp
  moreover obtain r where "workspace_normalize env fs path = Inr r"
    and walk: "check_components env fs (fe_root env) ?ws (Inr (r, fe_root env @ path_parts r)) = Inr (rp, target)"
    using assms(3) by (auto simp: resolve_for_execution_def Let_def result_simps)
  moreover have "plain fs (fe_root env)" using assms(1) by (simp add: workspace_ok_def)
  from check_components_Inr [OF this walk dots] assms(2) have "r = rp" "fe_root env @ path_parts r = target"
    by (auto simp: probes_see_def inside_append)
  ultimately have "workspace_normalize env' gs path = Inr rp" "fe_root env @ path_parts rp = target"
    by auto
  with dots assms(5) show ?thesis
    by (simp add: resolve_for_execution_def Let_def check_components_plain [OF q assms(6)])
qed

end
