(* ===== verification/FileProperties.thy ===== *)
theory FileProperties
  imports FileLaws
begin

section \<open>Properties of the restricted file tools\<close>

text \<open>
  In a workspace whose root is a directory reached without a link, the tools touch nothing outside
  the root and see nothing of it, a write is all or nothing, and what is written is read back.
\<close>

text \<open>C27: file tools: whatever tool is invoked with whatever arguments, nothing outside the workspace
  changes, nor the root itself, which stays a directory reached without a link, and no link comes
  into being. Any of the operating-system calls may fail, also those whose failure the standard
  library hides, with one exception, which the code does rely on: \<open>os.path.lexists\<close> must not miss
  a link of the workspace on the walk over the components, nor the root when it asks whether the
  target of a write exists.\<close>

theorem file_tools_confined:
  assumes "workspace_ok fs (fe_root env)" and "probes_see env fs"
    and "invoke_file_tool env tool arguments key fs = (r, fs')"
  shows "(\<forall>p. \<not> inside (fe_root env) p \<longrightarrow> fs' p = fs p) \<and> workspace_ok fs' (fe_root env) \<and>
    (\<forall>p. is_link (fs' p) \<longrightarrow> is_link (fs p))"
  using file_confinement [OF assms] by blast


text \<open>The three tools on two file systems that agree inside the workspace.\<close>

lemma reads_agree:
  assumes "workspace_ok fs (fe_root env)" and "workspace_ok gs (fe_root env)" and "same_inside (fe_root env) fs gs"
    and "probes_see env fs" and "read_file env arguments fs = Inr out"
  shows "read_file env arguments gs = Inr out"
proof -
  from assms(5) obtain path rp target content s where read: "set (map fst arguments) = {''path''}"
      "map_of arguments ''path'' = Some (JStr path)" "path \<noteq> []"
      "resolve_for_execution env fs path = Inr (rp, target)" "fs target = Some (RegularFile content)"
      "\<not> fe_fails env (ProbeTarget target)" "\<not> fe_fails env (InspectTarget target)" "\<not> fe_fails env (ReadTarget target)"
      "length content \<le> fe_max_bytes env" "utf8_decode content = Inr s"
      "out = [(''bytes'', JInt (int (length content))), (''content'', JStr s), (''path'', JStr rp),
        (''sha256'', JStr (fe_sha256 env content))]"
    unfolding read_file_Inr [OF assms(1,4)] by blast
  note T = target_same_inside(1,3) [OF assms(3,1,2,4) read(4)]
  show ?thesis unfolding read_file_Inr [OF assms(2) probes_see_same_inside [OF assms(3,4)]] using read T by (metis (no_types))
qed

lemma writes_agree:
  assumes "workspace_ok fs (fe_root env)" and "workspace_ok gs (fe_root env)" and "same_inside (fe_root env) fs gs"
    and "probes_see env fs" and "staging_path env (target_of env arguments) \<noteq> target_of env arguments"
    and "write_file env arguments fs = (Inr out, fs')"
  shows "\<exists>gs'. write_file env arguments gs = (Inr out, gs') \<and> same_inside (fe_root env) fs' gs'"
proof -
  from assms(6) obtain rp target data rep where plan: "plan_write env arguments fs = Inr (rp, target, data, rep)"
      "fs' = fs(target \<mapsto> RegularFile data)" "fs (staging_path env target) = None" "fs target \<noteq> Some Directory"
    and ok: "\<not> fe_fails env (MakeStaging (butlast target))" "\<not> fe_fails env (WriteStaging (staging_path env target))"
      "\<not> fe_fails env (ReplaceTarget target)"
      "out = [(''bytes'', JInt (int (length data))), (''path'', JStr rp), (''replaced'', JBool rep),
        (''sha256'', JStr (fe_sha256 env data))]"
    unfolding write_file_Inr [OF assms(1,4,5)] by blast
  from plan_write_Inr(3) [OF assms(1,4) plan(1)] obtain ws where ws: "ws \<noteq> []" "target = fe_root env @ ws" by blast
  then have "\<exists>vs. staging_path env target = fe_root env @ vs" by (simp add: staging_path_def butlast_append)
  then have "gs (staging_path env target) = None" "gs target \<noteq> Some Directory"
    using plan(3,4) ws assms(3) by (auto simp: same_inside_def)
  with plan_write_same_inside [OF assms(3,1,2,4) plan(1)] ok
  have "write_file env arguments gs = (Inr out, gs(target \<mapsto> RegularFile data))"
    unfolding write_file_Inr [OF assms(2) probes_see_same_inside [OF assms(3,4)] assms(5)] by blast
  with plan(2) assms(3) show ?thesis by (auto simp: same_inside_def)
qed

lemma deletes_agree:
  assumes "workspace_ok fs (fe_root env)" and "workspace_ok gs (fe_root env)" and "same_inside (fe_root env) fs gs"
    and "probes_see env fs" and "delete_file env arguments fs = (Inr out, fs')"
  shows "\<exists>gs'. delete_file env arguments gs = (Inr out, gs') \<and> same_inside (fe_root env) fs' gs'"
proof -
  from assms(5) obtain rp target where plan: "plan_delete env arguments fs = Inr (rp, target)"
      "fs' = put_node fs target None"
    and ok: "\<not> fe_fails env (UnlinkTarget target)" "out = [(''deleted'', JBool True), (''path'', JStr rp)]"
    by (auto simp: delete_file_def split: sum.splits if_splits)
  from plan(1) obtain path where path: "map_of arguments ''path'' = Some (JStr path)"
      "resolve_for_execution env fs path = Inr (rp, target)"
    by (auto simp: plan_delete_def result_simps)
  note T = target_same_inside [OF assms(3,1,2,4) path(2)]
  from plan(1) path T(1,4) have "plan_delete env arguments gs = Inr (rp, target)"
    by (auto simp: plan_delete_def result_simps)
  moreover have "same_inside (fe_root env) (put_node fs target None) (put_node gs target None)"
    using entry_plain(3) [OF plain_butlast [OF plan_delete_Inr(2) [OF assms(1,4) plan(1)]]]
      entry_plain(3) [OF plain_butlast [OF T(2)]] assms(3) by (simp add: same_inside_def)
  ultimately show ?thesis using plan(2) ok by (simp add: delete_file_def)
qed

text \<open>C28: file tools: a tool that succeeds depends on nothing outside the workspace. In any other
  file system with the same workspace the same invocation succeeds with the same output and leaves
  the same workspace, whatever files, directories and links there are elsewhere. (As for the
  confinement, \<open>os.path.lexists\<close> must not miss a link of the workspace.)\<close>

theorem file_tools_see_only_workspace:
  assumes "workspace_ok fs (fe_root env)" and "workspace_ok gs (fe_root env)" and "same_inside (fe_root env) fs gs"
    and "probes_see env fs" and "staging_path env (target_of env arguments) \<noteq> target_of env arguments"
    and "invoke_file_tool env tool arguments key fs = (Inr out, fs')"
  shows "\<exists>gs'. invoke_file_tool env tool arguments key gs = (Inr out, gs') \<and> same_inside (fe_root env) fs' gs'"
  using assms(6)
proof (cases rule: invoke_Inr)
  case reads
  with reads_agree [OF assms(1-4)] assms(3) show ?thesis by (simp add: invoke_file_tool_def)
next
  case writes
  with writes_agree [OF assms(1-5)] show ?thesis by (simp add: invoke_file_tool_def)
next
  case deletes
  with deletes_agree [OF assms(1-4)] show ?thesis by (simp add: invoke_file_tool_def)
qed

text \<open>C31: file tools: what is written is read back. After a write that returned, an invocation of the
  read tool with the same path, under the same limits and with no failing call, returns the written
  content, its size in bytes and the digest that the write reported.\<close>

theorem written_content_is_read_back:
  assumes "workspace_ok fs (fe_root env)" and "probes_see env fs" and "write_file env arguments fs = (Inr out, fs')"
    and "staging_path env (target_of env arguments) \<noteq> target_of env arguments"
    and "later = env\<lparr>fe_fails := \<lambda>_. False\<rparr>"
  shows "\<exists>found. read_file later [(''path'', get arguments ''path'')] fs' = Inr found \<and>
    get found ''content'' = get arguments ''content'' \<and> get found ''path'' = get out ''path'' \<and>
    get found ''bytes'' = get out ''bytes'' \<and> get found ''sha256'' = get out ''sha256''"
proof -
  from assms(3) obtain rp target data rep where plan: "plan_write env arguments fs = Inr (rp, target, data, rep)"
    and fs': "fs' = fs(target \<mapsto> RegularFile data)"
    and out: "out = [(''bytes'', JInt (int (length data))), (''path'', JStr rp), (''replaced'', JBool rep),
        (''sha256'', JStr (fe_sha256 env data))]"
    unfolding write_file_Inr [OF assms(1,2,4)] by blast
  from plan obtain path where path: "map_of arguments ''path'' = Some (JStr path)" "path \<noteq> []"
      "resolve_for_execution env fs path = Inr (rp, target)"
    by (auto simp: plan_write_def Let_def result_simps split: if_splits)
  note P = plan_write_Inr [OF assms(1,2) plan]
  from P(4) obtain content where content: "map_of arguments ''content'' = Some (JStr content)" "data = utf8_encode content"
    by blast
  have "target \<noteq> fe_root env" using P(3) by auto
  moreover have "plain fs' (fe_root env)"
    using plain_update [of fs "fe_root env" "Some (RegularFile data)"] assms(1) fs' by (simp add: workspace_ok_def)
  ultimately have ok: "workspace_ok fs' (fe_root later)" using assms(1,5) fs' by (simp add: workspace_ok_def)
  have "plain fs' target" using plain_update [OF P(2), of "Some (RegularFile data)"] fs' by simp
  from resolve_again [OF assms(1,2) path(3) this, of later]
  have "resolve_for_execution later fs' path = Inr (rp, target)" by (simp add: assms(5))
  then have "read_file later [(''path'', JStr path)] fs' = Inr [(''bytes'', JInt (int (length data))),
      (''content'', JStr content), (''path'', JStr rp), (''sha256'', JStr (fe_sha256 later data))]"
    unfolding read_file_Inr [OF ok calm_probes [of later fs', unfolded assms(5), simplified, folded assms(5)]]
    using path(2) fs' P(5) content(2) assms(5) by (auto simp: utf8_roundtrip)
  with path content out assms(5) show ?thesis by (simp add: get_def get_default_def)
qed

subsection \<open>A workspace beside a file that is not in it\<close>

definition sample_files :: file_system where
  "sample_files = [[] \<mapsto> Directory, [''w''] \<mapsto> Directory, [''w'', ''a''] \<mapsto> RegularFile ''old'',
     [''w'', ''l''] \<mapsto> Link ''/s'', [''s''] \<mapsto> RegularFile ''secret'']"

definition sample_env :: file_env where
  "sample_env = \<lparr>fe_root = [''w''], fe_max_bytes = 9, fe_fails = (\<lambda>_. False), fe_partial = (\<lambda>b. b),
     fe_random = (\<lambda>_. ''x''), fe_sha256 = (\<lambda>b. b)\<rparr>"

definition failing_env :: file_env where
  "failing_env = sample_env\<lparr>fe_fails := (\<lambda>c. c = ReplaceTarget [''w'', ''a''])\<rparr>"

definition new_content :: payload where
  "new_content = [(''content'', JStr ''new''), (''path'', JStr ''./a'')]"

lemma sample_workspace: "workspace_ok sample_files [''w'']"
  by (auto simp: workspace_ok_def plain_def sample_files_def link_target_def component_def le_Suc_eq)

lemmas file_eval = sample_env_def sample_files_def new_content_def failing_env_def
  require_exact_arguments_def require_text_def resolve_for_execution_def workspace_normalize_def
  boundary_normalize_def portable_def path_parts_def starts_with_def windows_drive_def lstat_def entry_of_def
  lexists_def MAX_LINKS_def link_target_def resolve_path_def joinrealpath.simps normpath_def seen_link_def require_regular_file_def require_directory_def Let_def

lemma sample_target: "staging_path sample_env (target_of sample_env new_content) \<noteq> target_of sample_env new_content"
  by (simp add: staging_path_def target_of_def staging_name_def new_content_def sample_env_def path_parts_def
      portable_def)

lemma sample_fails: "\<not> fe_fails sample_env c"
  by (simp add: sample_env_def)

lemma sample_probes: "probes_see sample_env fs" "probes_see failing_env fs"
  by (simp_all add: probes_see_def sample_env_def failing_env_def)

lemma sample_write:
  "\<exists>out fs'. write_file sample_env new_content sample_files = (Inr out, fs') \<and> get out ''replaced'' = JBool True"
proof -
  have ok: "workspace_ok sample_files (fe_root sample_env)" using sample_workspace by (simp add: sample_env_def)
  have "plan_write sample_env new_content sample_files = Inr (''a'', [''w'', ''a''], ''new'', True)"
    by (simp add: plan_write_def utf8_encode_def file_eval insert_commute)
  moreover have "sample_files (staging_path sample_env [''w'', ''a'']) = None" "sample_files [''w'', ''a''] \<noteq> Some Directory"
    by (simp_all add: staging_path_def staging_name_def file_eval)
  ultimately have "\<exists>fs'. write_file sample_env new_content sample_files = (Inr
      [(''bytes'', JInt (int (length ''new''))), (''path'', JStr ''a''), (''replaced'', JBool True),
        (''sha256'', JStr (fe_sha256 sample_env ''new''))], fs')"
    unfolding write_file_Inr [OF ok sample_probes(1) sample_target] using sample_fails by blast
  then show ?thesis by (force simp: get_def get_default_def)
qed

theorem file_tools_confined_witness:
  "\<exists>fs'. snd (invoke_file_tool sample_env ''delete_file'' [(''path'', JStr ''a'')] ''k'' sample_files) = fs' \<and>
     fs' [''w'', ''a''] = None \<and> fs' [''s''] = Some (RegularFile ''secret'')"
proof -
  have ok: "workspace_ok sample_files (fe_root sample_env)" using sample_workspace by (simp add: sample_env_def)
  let ?r = "invoke_file_tool sample_env ''delete_file'' [(''path'', JStr ''a'')] ''k'' sample_files"
  have "\<not> inside (fe_root sample_env) [''s'']" by (simp add: inside_def sample_env_def)
  with file_tools_confined [OF ok sample_probes(1) prod.collapse [symmetric], of "''delete_file''" "[(''path'', JStr ''a'')]" "''k''"]
  have "snd ?r [''s''] = Some (RegularFile ''secret'')" by (simp add: sample_files_def)
  moreover have "snd ?r [''w'', ''a''] = None"
    by (simp add: invoke_file_tool_def delete_file_def plan_delete_def put_node_def file_eval)
  ultimately show ?thesis by blast
qed


theorem file_tools_see_only_workspace_witness:
  "\<exists>out fs' gs'. invoke_file_tool sample_env ''write_file'' new_content ''k'' sample_files = (Inr out, fs') \<and>
     invoke_file_tool sample_env ''write_file'' new_content ''k'' (sample_files([''s''] := None)) = (Inr out, gs') \<and>
     fs' [''w'', ''a''] = gs' [''w'', ''a'']"
proof -
  let ?gs = "sample_files([''s''] := None)"
  have ok: "workspace_ok sample_files (fe_root sample_env)" using sample_workspace by (simp add: sample_env_def)
  have gs: "workspace_ok ?gs (fe_root sample_env)"
    using plain_update [of sample_files "[''w'']" None "[''s'']"] sample_workspace
    by (simp add: workspace_ok_def sample_env_def)
  have same: "same_inside (fe_root sample_env) sample_files ?gs" by (simp add: same_inside_def sample_env_def)
  from sample_write obtain out fs' where "write_file sample_env new_content sample_files = (Inr out, fs')" by blast
  then have w: "invoke_file_tool sample_env ''write_file'' new_content ''k'' sample_files = (Inr out, fs')"
    by (simp add: invoke_file_tool_def)
  from file_tools_see_only_workspace [OF ok gs same sample_probes(1) sample_target w] obtain gs' where
    g: "invoke_file_tool sample_env ''write_file'' new_content ''k'' ?gs = (Inr out, gs')"
      "same_inside (fe_root sample_env) fs' gs'" by blast
  have "fs' (fe_root sample_env @ [''a'']) = gs' (fe_root sample_env @ [''a''])"
    using g(2) unfolding same_inside_def by blast
  then have "fs' [''w'', ''a''] = gs' [''w'', ''a'']" by (simp add: sample_env_def)
  with w g(1) show ?thesis by blast
qed

theorem written_content_is_read_back_witness:
  "\<exists>out fs' found. write_file sample_env new_content sample_files = (Inr out, fs') \<and>
     read_file sample_env [(''path'', JStr ''./a'')] fs' = Inr found \<and> get found ''content'' = JStr ''new''"
proof -
  have ok: "workspace_ok sample_files (fe_root sample_env)" using sample_workspace by (simp add: sample_env_def)
  have same: "sample_env = sample_env\<lparr>fe_fails := \<lambda>_. False\<rparr>" by (simp add: sample_env_def)
  have arg: "get new_content ''path'' = JStr ''./a''" "get new_content ''content'' = JStr ''new''"
    by (simp_all add: get_def get_default_def new_content_def)
  from sample_write obtain out fs' where w: "write_file sample_env new_content sample_files = (Inr out, fs')" by blast
  from written_content_is_read_back [OF ok sample_probes(1) w sample_target same] w arg show ?thesis by auto
qed

text \<open>
  The tools rely on the root being a directory. In a workspace whose root does not exist, a write
  to the path \<open>.\<close> passes every check (the parent of the target is the parent of the root) and
  puts a regular file in the place of the root.
\<close>

theorem write_to_missing_root_leaves_workspace:
  "\<exists>out. write_file sample_env [(''content'', JStr ''new''), (''path'', JStr ''.'')] [[] \<mapsto> Directory] =
     (Inr out, [[] \<mapsto> Directory, [''w''] \<mapsto> RegularFile ''new''])"
proof -
  let ?fs = "[[] \<mapsto> Directory] :: file_system" and ?args = "[(''content'', JStr ''new''), (''path'', JStr ''.'')]"
  have plan: "plan_write sample_env ?args ?fs = Inr (''.'', [''w''], ''new'', False)"
    by (simp add: plan_write_def utf8_encode_def file_eval insert_commute)
  have p: "plain ?fs [''w'']" by (auto simp: plain_def link_target_def le_Suc_eq)
  obtain r fs' where s: "stage_and_replace sample_env [''w''] ''new'' ?fs = (r, fs')" by fastforce
  have st: "staging_path sample_env [''w''] \<noteq> [''w'']" by (simp add: staging_path_def staging_name_def sample_env_def)
  have "stage_and_replace sample_env [''w''] ''new'' ?fs = (Inr (), snd (stage_and_replace sample_env [''w''] ''new'' ?fs))"
    by (simp add: stage_and_replace_def staging_name_def replace_target_def put_node_def file_eval)
  with s have "r = Inr ()" by (metis fst_conv)
  with stage_and_replace_cases [OF p _ st s] have "fs' = ?fs([''w''] \<mapsto> RegularFile ''new'')" by simp
  with plan s \<open>r = Inr ()\<close> show ?thesis by (simp add: write_file_def)
qed

text \<open>
  The walk fails open: \<open>os.path.lexists\<close> takes a component whose \<open>lstat\<close> fails for a missing one,
  and so does \<open>Path.resolve\<close>. When both miss a link of the workspace to a directory elsewhere, a
  write through the link passes every check and stores its file outside the workspace.
\<close>

definition linked_files :: file_system where
  "linked_files = [[] \<mapsto> Directory, [''w''] \<mapsto> Directory, [''w'', ''l''] \<mapsto> Link ''/s'',
     [''s''] \<mapsto> Directory, [''s'', ''d''] \<mapsto> Directory]"

definition blind_env :: file_env where
  "blind_env = sample_env\<lparr>fe_fails := (\<lambda>c. c \<in> {ResolveComponent [''w'', ''l''], ProbeComponent [''w'', ''l'']})\<rparr>"

theorem unseen_link_is_followed:
  "workspace_ok linked_files (fe_root blind_env) \<and>
   (\<exists>out fs'. write_file blind_env [(''content'', JStr ''new''), (''path'', JStr ''l/d/f'')] linked_files = (Inr out, fs') \<and>
     fs' [''s'', ''d'', ''f''] = Some (RegularFile ''new''))"
proof
  show "workspace_ok linked_files (fe_root blind_env)"
    by (auto simp: workspace_ok_def plain_def linked_files_def blind_env_def sample_env_def link_target_def component_def
        le_Suc_eq)
  let ?args = "[(''content'', JStr ''new''), (''path'', JStr ''l/d/f'')]"
  have plan: "plan_write blind_env ?args linked_files = Inr (''l/d/f'', [''w'', ''l'', ''d'', ''f''], ''new'', False)"
    by (simp add: plan_write_def utf8_encode_def file_eval blind_env_def linked_files_def insert_commute)
  have "fst (stage_and_replace blind_env [''w'', ''l'', ''d'', ''f''] ''new'' linked_files) = Inr () \<and>
      snd (stage_and_replace blind_env [''w'', ''l'', ''d'', ''f''] ''new'' linked_files) [''s'', ''d'', ''f''] =
        Some (RegularFile ''new'')"
    by (simp add: stage_and_replace_def staging_name_def replace_target_def remove_staging_def put_node_def file_eval
        blind_env_def linked_files_def)
  with plan show "\<exists>out fs'. write_file blind_env ?args linked_files = (Inr out, fs') \<and>
      fs' [''s'', ''d'', ''f''] = Some (RegularFile ''new'')"
    by (cases "stage_and_replace blind_env [''w'', ''l'', ''d'', ''f''] ''new'' linked_files") (auto simp: write_file_def)
qed

end
