(* ===== verification/CallEffects.thy ===== *)
theory CallEffects
  imports RuntimeSystem
begin

section \<open>The world outside is the result of the calls\<close>

text \<open>
  Whatever operations of the runtime run, wherever processes crash, the state outside is the result
  of the calls in the log of calls, in their order.
\<close>

subsection \<open>The outside is the result of the calls\<close>

definition call_effect :: "'w runner \<Rightarrow> 'w \<Rightarrow> tool_call \<Rightarrow> 'w" where
  "call_effect runner o0 c = snd (runner (tc_tool_name c) (tc_arguments c) (tc_key c) o0)"

definition result_of_calls :: "'w runner \<Rightarrow> 'w \<Rightarrow> ('e, 'w) tool_world \<Rightarrow> bool" where
  "result_of_calls runner o0 T \<longleftrightarrow> tw_outside T = foldl (call_effect runner) o0 (tw_calls T)"

lemma keeps_cases [intro!]:
  "keeps I m \<Longrightarrow> keeps I n \<Longrightarrow> keeps I k \<Longrightarrow> keeps I (case a of ALLOW \<Rightarrow> m | DENY \<Rightarrow> n | ESCALATE \<Rightarrow> k)"
  "keeps I m \<Longrightarrow> keeps I n \<Longrightarrow> keeps I k \<Longrightarrow> keeps I (case g of GATE_PASS \<Rightarrow> m | GATE_RETRY \<Rightarrow> n | GATE_BLOCK \<Rightarrow> k)"
  by (auto split: AuthorizationOutcome.split GateEvaluationOutcome.split)

lemma store_keeps [intro!]: "keeps (result_of_calls runner o0) (storeA f)"
  by (auto simp: keeps_def storeA_def result_of_calls_def split: sum.split)

lemma invokeA_keeps [intro!]: "keeps (result_of_calls runner o0) (invokeA runner i)"
  by (auto simp: keeps_def invokeA_def result_of_calls_def call_effect_def call_of_def split: prod.split)

lemma execution_keeps [intro!]: "keeps (result_of_calls runner o0) (execute S registry runner injector i)"
  unfolding execute_def invoke_and_record_def reach_checkpoint_def by auto

lemma reads_keep [intro!]:
  "keeps I (eventsA R run)"
  "keeps I (full_replay R run)"
  "keeps I (reach_snapshot_checkpoint R c)"
  "keeps I (load_state R run)"
  "keeps I (load_active_request R run call)"
  "keeps I (load_step_observation R run)"
  "keeps I (load_active_proposal R q reference)"
  unfolding eventsA_def full_replay_def reach_snapshot_checkpoint_def load_state_def load_active_request_def
    load_step_observation_def load_active_proposal_def by auto

lemma recovery_reads_keep [intro!]:
  "keeps I (load_pending_model_action R run)"
  "keeps I (load_verification_receipt R run)"
  "keeps I (load_model_tool_recovery R run)"
  unfolding load_model_tool_recovery_def load_pending_model_action_def load_verification_receipt_def
  by (auto split: prod.split RunStatus.split option.split json.split)

text \<open>
  The interface: a property of the runtime's world that the clock, a snapshot, an execution and an
  appended event keep is kept by every operation.
\<close>

locale kept_by_effects =
  fixes R :: "('d, 'e, 'w) runtime" and I :: "('d, 'e, 'w) runtime_world \<Rightarrow> bool"
  assumes snapshot [intro!]: "keeps I (save_snapshotA R s)"
    and execution [intro!]: "keeps I (executeA R i)"
    and append [intro!]: "keeps I (append_event R run k p)"
begin

lemma execute_request [intro!]: "keeps I (execute_request R q d v n b)"
  unfolding execute_request_def run_effect_def by auto

lemma operations:
  "keeps I (submit R q)"
  "keeps I (resolve_gate R v)"
  "keeps I (submit_gate_answer R a)"
  "keeps I (revise_gate R reference)"
  "keeps I (recover R run)"
  "keeps I (create_snapshot R run)"
  unfolding submit_def resolve_gate_def submit_gate_answer_def revise_gate_def recover_def create_snapshot_def
    Let_def by auto

lemma turns:
  "keeps I (build_model_input R run)"
  "keeps I (begin_model_action R c)"
  "keeps I (persist_model_action R c i action)"
  "keeps I (record_model_action_failure R run reason)"
  "keeps I (record_verification R run r)"
  "keeps I (record_step_verification R run r)"
  "keeps I (record_completion R c answer completion)"
  unfolding build_model_input_def begin_model_action_def persist_model_action_def record_model_action_failure_def
    record_verification_def record_step_verification_def record_completion_def by auto

end

subsection \<open>Two such properties\<close>

definition outside_ok :: "('d, 'e, 'w) runtime \<Rightarrow> 'w \<Rightarrow> ('d, 'e, 'w) runtime_world \<Rightarrow> bool" where
  "outside_ok R o0 w \<longleftrightarrow> result_of_calls (ru_runner R) o0 (rw_tools w)"

lemma runtime_keeps [intro!]:
  "keeps (outside_ok R o0) (clockA R)"
  "keeps (outside_ok R o0) (storeEventA R e)"
  "keeps (outside_ok R o0) (save_snapshotA R s)"
  "keeps (outside_ok R o0) (executeA R i)"
  using execution_keeps [of "ru_runner R" o0 "ru_effects R" "ru_registry R" "ru_injector R" i]
  by (auto simp: keeps_def outside_ok_def clockA_def storeEventA_def save_snapshotA_def executeA_def
      split: sum.split prod.split)

text \<open>The world outside is one such property.\<close>

interpretation calls: kept_by_effects R "outside_ok R o0" for R o0
proof unfold_locales
  show "keeps (outside_ok R o0) (append_event R run k p)" for run k p
    unfolding append_event_def by auto
qed (rule runtime_keeps)+

text \<open>
  Another one, of a runtime on the SQLite log whose clock stands still: every row of the log is
  stamped with that time.
\<close>

definition stamped :: "datetime \<Rightarrow> EventDB \<Rightarrow> bool" where
  "stamped t db \<longleftrightarrow> (\<forall>r \<in> set (execution_events db). er_occurred_at r = isoformat t)"

definition stamped_on :: "(EventDB, 'e, 'w) runtime \<Rightarrow> datetime \<Rightarrow> (EventDB, 'e, 'w) runtime_world \<Rightarrow> bool" where
  "stamped_on R t w \<longleftrightarrow>
     (ru_log R = sqlite_events (ru_hash R) \<and> ru_clock R = (\<lambda>_. t) \<longrightarrow> stamped t (rw_events w))"

lemma append_stamped:
  assumes "append H db e = Inr db'" and "stamped t db" and "ev_occurred_at e = t"
  shows "stamped t db'"
  using assms by (auto simp: append_def insert_event_def Let_def ensure_def stamped_def row_of_event_def
      split: option.splits if_splits)

lemma snapshot_stamped: "save_snapshot H db s = Inr db' \<Longrightarrow> stamped t db \<Longrightarrow> stamped t db'"
  by (auto simp: save_snapshot_def ensure_def Let_def stamped_def bindR_def split: option.splits if_splits sum.splits)

lemma store_stamped:
  assumes "ru_clock R = (\<lambda>_. t) \<Longrightarrow> ev_occurred_at e = t"
  shows "keeps (stamped_on R t) (storeEventA R e)"
  using assms by (auto simp: keeps_def stamped_on_def storeEventA_def sqlite_events_def intro: append_stamped
      split: sum.split)

interpretation stamps: kept_by_effects R "stamped_on R t" for R t
proof unfold_locales
  fix s i run k p
  show "keeps (stamped_on R t) (save_snapshotA R s)"
    by (auto simp: keeps_def stamped_on_def save_snapshotA_def sqlite_events_def intro: snapshot_stamped split: sum.split)
  show "keeps (stamped_on R t) (executeA R i)"
    by (auto simp: keeps_def stamped_on_def executeA_def split: prod.split)
  have kept: "keeps (stamped_on R t) (bindA (clockA R) (\<lambda>now. bindA (liftA (build_event j run n k now p)) (\<lambda>e.
      bindA (storeEventA R e) (\<lambda>_. full_replay R run))))" for j n
  proof -
    have "stamped_on R t w \<Longrightarrow> stamped_on R t (w\<lparr>rw_ticks := c\<rparr>)" for w c by (simp add: stamped_on_def)
    moreover have "keeps (stamped_on R t) (bindA (storeEventA R e) (\<lambda>_. full_replay R run))"
      if "build_event j run n k (ru_clock R c) p = Inr e" for e c
      using that by (intro keeps_bind store_stamped reads_keep) (auto simp: build_event_time)
    ultimately show ?thesis
      by (auto simp: keeps_def [of _ "bindA (clockA R) _"] bindA_def [of "clockA R"] bindA_def [of "liftA _"] clockA_def liftA_def
          split: sum.split dest!: keepsD)
  qed
  show "keeps (stamped_on R t) (append_event R run k p)"
    unfolding append_event_def by (rule keeps_bind [OF reads_keep(4) kept])
qed

text \<open>The events read from a stamped log.\<close>

lemma stamped_history:
  assumes "stored_history H db run es" and "stamped t db" and "valid_datetime t" and "e \<in> set es"
  shows "ev_occurred_at e = t"
proof -
  have e: "wf_event e" using assms(1,4) by (simp add: stored_history_def)
  have "\<forall>r \<in> set (chain_rows H CHAIN_SEED es). er_occurred_at r = isoformat t"
    using assms(1,2) unfolding stored_history_def stamped_def by (metis filter_is_subset subsetD)
  moreover have "isoformat (ev_occurred_at e) \<in> er_occurred_at ` set (chain_rows H d es)" for d
    using assms(4) by (induction es arbitrary: d) (auto simp: Let_def row_of_event_def image_iff)
  ultimately have "isoformat (ev_occurred_at e) = isoformat t" by (metis imageE)
  then show ?thesis using e assms(3) fromisoformat_isoformat [of t] fromisoformat_isoformat [of "ev_occurred_at e"]
    by (simp add: wf_event_def)
qed

lemma ignore_keeps: "keeps I m \<Longrightarrow> I w \<Longrightarrow> I (ignore m w)"
  by (simp add: keeps_def ignore_def)

lemma step_keeps: "outside_ok R o0 w \<Longrightarrow> outside_ok R o0 (runtime_step R p w)"
  by (cases p) (auto intro!: ignore_keeps calls.operations calls.turns runtime_keeps)

lemma outside_with_crashes [simp]: "outside_ok (with_crashes c R) = outside_ok R"
  by (simp add: outside_ok_def [abs_def] with_crashes_def)

lemma run_system_outside: "outside_ok R o0 w \<Longrightarrow> outside_ok R o0 (run_system R ops w)"
proof (induction ops arbitrary: w)
  case (Cons op ops)
  obtain c p where op: "op = (c, p)" by fastforce
  have "outside_ok R o0 (runtime_step (with_crashes c R) p w)"
    using step_keeps [of "with_crashes c R" o0 w p] Cons.prems by simp
  with Cons.IH op show ?case by (simp add: run_system_def)
qed (simp add: run_system_def)

lemma start_outside: "outside_ok R o0 (start_world o0)"
  by (simp add: outside_ok_def start_world_def fresh_world_def result_of_calls_def)

end
