(* ===== verification/FileRuntime.thy ===== *)
theory FileRuntime
  imports FileProperties RuntimeProperties CallEffects
begin

section \<open>The runtime on the file tools\<close>

text \<open>
  The file tools as the runner of the runtime. The state outside is, whatever operations run and
  wherever processes crash, the result of the calls in the log of calls, in their order; with the
  authorization of every call and the confinement of every tool this bounds what a run can do to
  the file system.
\<close>

subsection \<open>The file tools as the runner\<close>

text \<open>
  \<open>type(exc).__name__\<close> of what a file tool raises. The text of an exception is the parameter
  \<open>describe\<close>; a value outside the model stops the process. Each invocation has an environment of
  its own: \<open>envs n\<close> for the \<open>n\<close>-th.
\<close>

definition error_class :: "error \<Rightarrow> string" where
  "error_class e =
     (case e of
        RestrictedToolExecutionError \<Rightarrow> ''RestrictedToolExecutionError''
      | WorkspaceExecutionError \<Rightarrow> ''WorkspaceExecutionError''
      | ToolArgumentValidationError \<Rightarrow> ''ToolArgumentValidationError''
      | UnknownToolError \<Rightarrow> ''UnknownToolError''
      | PyKeyError \<Rightarrow> ''KeyError''
      | PyRuntimeError \<Rightarrow> ''RuntimeError''
      | PyValueError \<Rightarrow> ''ValueError''
      | PyTypeError \<Rightarrow> ''TypeError''
      | ToolTimeoutError \<Rightarrow> ''ToolTimeoutError''
      | _ \<Rightarrow> ''Exception'')"

definition file_runner ::
  "(error \<Rightarrow> string \<Rightarrow> payload \<Rightarrow> string) \<Rightarrow> (nat \<Rightarrow> file_env) \<Rightarrow> (file_system \<times> nat) runner" where
  "file_runner describe envs tool arguments key s =
     (case invoke_file_tool (envs (snd s)) tool arguments key (fst s) of
        (Inr out, fs') \<Rightarrow> (Returned out, (fs', Suc (snd s)))
      | (Inl e, fs') \<Rightarrow>
          (if e = IllTypedValue then Aborted e else Raised (error_class e) (describe e tool arguments),
           (fs', Suc (snd s))))"

lemma file_runner_outside:
  "snd (file_runner describe envs tool arguments key s) =
     (snd (invoke_file_tool (envs (snd s)) tool arguments key (fst s)), Suc (snd s))"
  by (simp add: file_runner_def split: prod.split sum.split)

lemma calls_confined:
  assumes "\<And>n. fe_root (envs n) = root" and "workspace_ok (fst s) root" and "\<And>n. probes_see (envs n) (fst s)"
  shows "(\<forall>p. \<not> inside root p \<longrightarrow> fst (foldl (call_effect (file_runner describe envs)) s cs) p = fst s p) \<and>
    workspace_ok (fst (foldl (call_effect (file_runner describe envs)) s cs)) root \<and>
    snd (foldl (call_effect (file_runner describe envs)) s cs) = snd s + length cs"
  using assms(2,3)
proof (induction cs arbitrary: s)
  case (Cons c cs)
  let ?r = "invoke_file_tool (envs (snd s)) (tc_tool_name c) (tc_arguments c) (tc_key c) (fst s)"
  let ?s = "call_effect (file_runner describe envs) s c"
  have s: "?s = (snd ?r, Suc (snd s))" by (simp add: call_effect_def file_runner_outside)
  have "workspace_ok (fst s) (fe_root (envs (snd s)))" using Cons.prems assms(1) by simp
  note c = file_confinement [OF this Cons.prems(2) prod.collapse [symmetric], of "tc_tool_name c" "tc_arguments c" "tc_key c"]
  then have "(\<forall>p. \<not> inside root p \<longrightarrow> snd ?r p = fst s p) \<and> workspace_ok (snd ?r) root" using assms(1) by simp
  moreover have "probes_see (envs n) (snd ?r)" for n by (rule probes_see_fewer [OF Cons.prems(2) c(2)])
  ultimately show ?case using Cons.IH [of ?s] s by simp
qed simp

lemma sound_outside_confined:
  assumes "sound_world R w" and "outside_ok R (fs, 0) w" and "ru_runner R = file_runner describe envs"
    and "\<And>n. fe_root (envs n) = root" and "workspace_ok fs root" and "\<And>n. probes_see (envs n) fs"
  shows "tw_outside (rw_tools w) = foldl (call_effect (ru_runner R)) (fs, 0) (tw_calls (rw_tools w)) \<and>
    (\<forall>c \<in> set (tw_calls (rw_tools w)). authorized_call (ru_hash R) (history (rw_events w)) c) \<and>
    (\<forall>p. \<not> inside root p \<longrightarrow> fst (tw_outside (rw_tools w)) p = fs p) \<and>
    workspace_ok (fst (tw_outside (rw_tools w))) root"
  using calls_confined [of envs root "(fs, 0)" describe "tw_calls (rw_tools w)"] assms
  by (simp add: sound_world_def outside_ok_def result_of_calls_def)

text \<open>The runtime on the file tools: whatever operations run, in whatever order, with whatever
  crashes and failing operating-system calls, the file system is the result of the tool calls in
  the log of calls, one after the other, each of them authorized by the log of its run; nothing
  outside the workspace has changed.\<close>

theorem run_confines_file_effects:
  assumes "sqlite_runtime R" and "\<forall>(c, p) \<in> set ops. wf_runtime_op p"
    and "ru_runner R = file_runner describe envs" and "\<And>n. fe_root (envs n) = root"
    and "workspace_ok fs root" and "\<And>n. probes_see (envs n) fs" and "w = run_system R ops (start_world (fs, 0))"
  shows "tw_outside (rw_tools w) = foldl (call_effect (ru_runner R)) (fs, 0) (tw_calls (rw_tools w)) \<and>
    (\<forall>c \<in> set (tw_calls (rw_tools w)). authorized_call (ru_hash R) (history (rw_events w)) c) \<and>
    (\<forall>p. \<not> inside root p \<longrightarrow> fst (tw_outside (rw_tools w)) p = fs p) \<and>
    workspace_ok (fst (tw_outside (rw_tools w))) root"
  using run_system_sound [OF assms(1,2) sound_start] run_system_outside [OF start_outside, of R "(fs, 0)" ops]
  unfolding assms(7) by (intro sound_outside_confined [OF _ _ assms(3-6)]) simp_all

text \<open>The workspace with the file tools, every call of which needs no more than the agent.\<close>

definition file_context :: AuthorizationContext where
  "file_context = \<lparr>ac_registry = map (\<lambda>d. (td_tool_name d, d)) restricted_file_tool_definitions,
     ac_resolver = Inr, ac_root = [''w''], ac_risk_rules = [],
     ac_policy = \<lparr>op_default_mode = AUTO, op_rules = []\<rparr>, ac_minimum_mode = AUTO\<rparr>"

definition file_request :: "string \<Rightarrow> ToolRequest" where
  "file_request p = (read_request p)\<lparr>tr_tool_name := ''read_file''\<rparr>"

lemma wf_file_request: "wf_request (file_request p)"
proof -
  have "canonical_object (render (JObj [(''path'', JStr p)])) = Inr (render (JObj [(''path'', JStr p)]))"
    unfolding canonical_object_Inr_iff by (rule exI [of _ "[(''path'', JStr p)]"]) (simp add: loads_render canon_obj)
  then show ?thesis by (simp add: wf_request_def request_post_init_def file_request_def read_request_def)
qed

definition file_runtime :: "(EventDB, EffectDB, file_system \<times> nat) runtime" where
  "file_runtime = \<lparr>ru_hash = zero_hash, ru_log = sqlite_events zero_hash,
     ru_effects = sqlite_effects zero_hash,
     ru_registry = map (\<lambda>d. (td_tool_name d, d)) restricted_file_tool_definitions,
     ru_runner = file_runner (\<lambda>e tool arguments. error_class e) (\<lambda>_. sample_env), ru_injector = no_crash,
     ru_context = file_context, ru_snapshots = True, ru_snapshot_injector = None,
     ru_gate_evaluator = (\<lambda>_ _. Inr None), ru_max_attempts = 3, ru_clock = (\<lambda>_. noon)\<rparr>"

lemma file_registry: "make_restricted_file_registry = Inr (ru_registry file_runtime)"
  by (simp add: make_restricted_file_registry_def make_registry_Inr_iff file_runtime_def
      restricted_file_tool_definitions_def)

end
