(* ===== verification/ToolRuns.thy ===== *)
theory ToolRuns
  imports AgentRuns
begin

section \<open>A loop that calls a tool and then answers\<close>

text \<open>
  One iteration of the agent's loop in which the model proposes an allowed call, the tool returns
  what the application expects, and the step is verified: the run is ready again, one step
  further, and the next input carries the verified observation.
\<close>

subsection \<open>What the events of a call keep of the state\<close>

definition call_events :: "EventType set" where
  "call_events = {TOOL_REQUESTED, TOOL_AUTHORIZED, TOOL_STARTED, TOOL_SUCCEEDED}"

definition same_turn :: "RunState \<Rightarrow> RunState \<Rightarrow> bool" where
  "same_turn s t \<longleftrightarrow> turn_index t = turn_index s \<and>
     (status s \<noteq> NEW \<longrightarrow> max_steps t = max_steps s \<and> status t \<noteq> NEW)"

lemma call_event_same_turn:
  assumes "reduce H s e = Inr t" and "ev_event_type e \<in> call_events"
  shows "same_turn s t"
  using assms
proof (cases rule: reduce_cases)
  case (fresh u)
  then have "turn_index u = turn_index s"
    using transition_frame [OF fresh(5)] assms(2) by (auto simp: frame_def consumes_step_def call_events_def)
  then show ?thesis using fresh extends_state_reduce [OF assms(1)] by (simp add: same_turn_def extends_state_def)
qed (use extends_state_reduce [OF assms(1)] in \<open>simp add: same_turn_def\<close>)

lemma call_events_same_turn:
  "replay_tail H s es = Inr t \<Longrightarrow> ev_event_type ` set es \<subseteq> call_events \<Longrightarrow> same_turn s t"
proof (induction es arbitrary: s)
  case Nil
  then show ?case by (simp add: replay_tail_def same_turn_def)
next
  case (Cons e es)
  then obtain u where u: "reduce H s e = Inr u" "replay_tail H u es = Inr t"
    by (auto simp: replay_tail_def result_simps)
  with Cons.IH [OF u(2)] call_event_same_turn [OF u(1)] Cons.prems(2) show ?case by (simp add: same_turn_def)
qed

lemma verified_transition:
  assumes "valid_state s" and "status s = VERIFYING" and "active_step_id s = Some i" and "i \<noteq> []"
    and "ev_event_type e = VERIFICATION_SUCCEEDED"
    and "payload e = [(''checks'', cs), (''scope'', JStr ''step''), (''step_id'', JStr i), (''summary'', JStr t)]"
  shows "transition s e = Inr (s\<lparr>status := READY, turn_index := turn_index s + 1, active_step_id := None\<rparr>)"
  using assms
  by (simp add: transition_def on_verification_succeeded_def expect_status_def ensure_def get_default_def get_def
      required_text_def state_post_init_valid valid_state_def)

text \<open>The observation the next input carries after a verified step.\<close>

definition verified_observation :: "VerificationResult \<Rightarrow> payload" where
  "verified_observation v = [(''verification'', JObj
     [(''checks'', checks_json (vr_checks v)), (''summary'', JStr (vr_summary v))])]"

lemma canon_verified_observation: "canon (JObj (verified_observation v))"
  by (simp add: verified_observation_def canon_obj canon_checks)

lemma verified_observation_seen:
  assumes "mi_observation_json c = render (JObj (verified_observation v))"
  shows "has_verified_observation c"
  using assms canon_verified_observation [of v]
  by (simp add: has_verified_observation_def input_observation_def decoded_def loads_render Let_def)
     (simp add: verified_observation_def get_def get_default_def checks_json_def)

lemma step_observation_verified:
  assumes "ev_event_type e = VERIFICATION_SUCCEEDED"
    and "payload e = [(''checks'', checks_json (vr_checks v)), (''scope'', JStr ''step''), (''step_id'', JStr i),
      (''summary'', JStr (vr_summary v))]"
  shows "step_observation (es @ [e]) = verified_observation v"
  using assms by (simp add: step_observation_def observation_event_def get_def get_default_def verified_observation_def)

lemma request_from_action:
  assumes "tool_request_from_action c (ToolCall t) (Some i) = Inr q"
  shows "wf_request q" and "tr_run_id q = mi_run_id c" and "tr_step_id q = mi_step_id c"
    and "tr_tool_call_id q = tca_tool_call_id t" and "tr_tool_name q = tca_tool_name t"
    and "decoded (tr_arguments_json q) = decoded (tca_arguments_json t)" and "tr_model_action_event_id q = Some i"
  using assms
  by (auto simp: tool_request_from_action_def result_simps request_post_init_Inr_iff wf_request_def
      decoded_def loads_render)

subsection \<open>The iteration\<close>

text \<open>The events of an iteration that proposes, executes and verifies a granted call.\<close>

definition verified_call_events :: "EventType list" where
  "verified_call_events = [MODEL_ACTION_REQUESTED, MODEL_ACTION_PROPOSED, TOOL_REQUESTED, TOOL_AUTHORIZED, TOOL_STARTED,
     TOOL_SUCCEEDED, VERIFICATION_SUCCEEDED]"

context runtime_stores
begin

lemma verified_eval:
  fixes R :: "('d, 'e, 'w) runtime"
  assumes R: "runtime_on H L S registry R" and d: "undisturbed R" and w: "world_at l T w"
    and s: "replay H run (l run) = Inr s" and st: "status s = VERIFYING" "active_step_id s = Some i" "i \<noteq> []"
    and run: "run \<noteq> []" and v: "vr_outcome v = PASSED"
  obtains u l' w' where "record_step_verification R run v w = (Inr u, w')" and "world_at l' T w'"
    and "replay H run (l' run) = Inr u" and "status u = READY" and "turn_index u = turn_index s + 1"
    and "max_steps u = max_steps s" and "step_observation (l' run) = verified_observation v"
    and "further run [VERIFICATION_SUCCEEDED] l l'"
proof -
  let ?p = "[(''checks'', checks_json (vr_checks v)), (''scope'', JStr ''step''), (''step_id'', JStr i),
    (''summary'', JStr (vr_summary v))]"
  let ?u = "s\<lparr>status := READY, turn_index := turn_index s + 1, active_step_id := None\<rparr>"
  have valid: "valid_state s" using replay_state_inv [OF s] by (simp add: state_inv_def core_inv_def)
  obtain e w' where e: "append_event R run VERIFICATION_SUCCEEDED ?p w = (Inr (advance H s e ?u), w')"
      "next_event H l run VERIFICATION_SUCCEEDED ?p s e" "world_at (extended l run e) T w'"
      "replay H run (extended l run e run) = Inr (advance H s e ?u)"
  proof (rule append_accepted [OF R d w s])
    fix e assume "next_event H l run VERIFICATION_SUCCEEDED ?p s e"
    then show "transition s e = Inr ?u"
      by (intro verified_transition [OF valid st]) (simp_all add: next_event_def)
  qed (use run st in \<open>simp_all add: canon_obj canon_checks is_terminal_iff\<close>)
  show thesis
  proof (rule that [of "advance H s e ?u" w' "extended l run e"])
    show "record_step_verification R run v w = (Inr (advance H s e ?u), w')"
      using load_state_eq [OF R d w, of run] s st v e(1)
      by (simp add: record_step_verification_def bindA_def checkA_def)
    show "step_observation (extended l run e run) = verified_observation v"
      using e(2) step_observation_verified [of e v i "l run"] by (simp add: next_event_def extended_def)
    show "further run [VERIFICATION_SUCCEEDED] l (extended l run e)"
      using further_extended [of run e l] e(2) by (simp add: next_event_def)
  qed (use e(3,4) in simp_all)
qed

lemma tool_iteration:
  fixes A :: "('d, 'e, 'w, 'a) agent"
  assumes R: "runtime_on H L S registry (ag_runtime A)" and d: "undisturbed (ag_runtime A)"
      "\<forall>c i. ru_injector (ag_runtime A) c i = None"
    and w: "world_at l T (aw_runtime w)" and s: "replay H (ag_run_id A) (l (ag_run_id A)) = Inr s"
    and st: "status s = READY" "budget_left s" and run: "ag_run_id A \<noteq> []" and calm: "ag_injector A = None"
    and c: "c = turn_input (ag_run_id A) s (l (ag_run_id A))" and a: "wf_action (ToolCall t)"
    and proposed: "ag_adapter A c (aw_adapter w) = (Inr (Some (ToolCall t)), b)"
    and granted: "\<And>i. i \<noteq> [] \<Longrightarrow> \<exists>q g. tool_request_from_action c (ToolCall t) (Some i) = Inr q \<and>
      authorize q (ru_context (ag_runtime A)) = Inr g \<and> ad_outcome g = ALLOW"
    and def: "resolve registry (tca_tool_name t) = Inr def"
    and k: "k = H (effect_identity (ag_run_id A) (tca_tool_call_id t))" "k \<noteq> []"
    and new: "intents (tw_store T) k = None" "receipts (tw_store T) k = None"
    and ran: "ru_runner (ag_runtime A) (tca_tool_name t) (decoded (tca_arguments_json t)) k (tw_outside T) = (Returned out, outside)"
    and out: "canon (JObj out)" "get out ''path'' = JStr (ve_path e)" "get out ''sha256'' = JStr (ve_sha256 e)"
    and x: "xs c t = Inr (Some e)"
  obtains ev' w' tr vr l' T' u where "iteration A xs x ev w = (Inr (Inl ev'), w')"
    and "ev' = ev\<lparr>le_actions := le_actions ev @ [ToolCall t], le_tool_results := le_tool_results ev @ [tr],
      le_verifications := le_verifications ev @ [vr]\<rparr>"
    and "rt_outcome tr = EXECUTED" and "vr_outcome vr = PASSED" and "aw_adapter w' = b"
    and "world_at l' T' (aw_runtime w')" and "replay H (ag_run_id A) (l' (ag_run_id A)) = Inr u"
    and "status u = READY" and "turn_index u = turn_index s + 1" and "max_steps u = max_steps s"
    and "step_observation (l' (ag_run_id A)) = verified_observation vr"
    and "further (ag_run_id A) verified_call_events l l'" and "tw_outside T' = outside"
    and "tw_calls T' = tw_calls T @
      [\<lparr>tc_tool_name = tca_tool_name t, tc_arguments = decoded (tca_arguments_json t), tc_key = k\<rparr>]"
proof -
  let ?R = "ag_runtime A" and ?run = "ag_run_id A"
  obtain r v l1 s1 where p: "next_proposal A ev s w = (Inr (Inl (c, ToolCall t, da_event_id r)), \<lparr>aw_runtime = v, aw_adapter = b\<rparr>)"
      "da_context r = c" "da_action r = ToolCall t" "load_pending_model_action ?R ?run v = (Inr r, v)"
      "world_at l1 T v" "replay H ?run (l1 ?run) = Inr s1" "action_pending s s1 (da_event_id r)"
      "further ?run [MODEL_ACTION_REQUESTED, MODEL_ACTION_PROPOSED] l l1"
    by (rule proposal_eval [OF R d(1) w s st run calm c a proposed])
  let ?i = "da_event_id r"
  have i: "?i \<noteq> []" and s1: "status s1 = ACTION_PENDING" "active_model_action_event_id s1 = Some ?i"
      "turn_index s1 = turn_index s" "max_steps s1 = max_steps s" and b1: "budget_left s1"
    using p(7) st(2) by (auto simp: action_pending_def budget_left_def split: option.splits)
  obtain q g where q: "tool_request_from_action c (ToolCall t) (Some ?i) = Inr q"
      "authorize q (ru_context ?R) = Inr g" "ad_outcome g = ALLOW" using granted [OF i] by blast
  note qf = request_from_action [OF q(1)]
  have "\<exists>tr w2. submit ?R q v = (Inr tr, w2) \<and> rt_authorization tr = Some g \<and>
      executed_once q out outside [TOOL_REQUESTED, TOOL_AUTHORIZED, TOOL_STARTED, TOOL_SUCCEEDED] l1 T tr w2"
    using s1 q(2,3) qf k new def ran b1 p(6)
    by (intro submit_eval [OF R d p(5)]) (simp_all add: c request_arguments_def out(1))
  then obtain tr w2 es T2 where sub: "submit ?R q v = (Inr tr, w2)" "rt_outcome tr = EXECUTED"
      "rt_receipt tr = Some (success_receipt H q out)" "status (rt_state tr) = VERIFYING"
      "active_step_id (rt_state tr) = Some (tr_step_id q)" "world_at (l1(?run := l1 ?run @ es)) T2 w2"
      "map ev_event_type es = [TOOL_REQUESTED, TOOL_AUTHORIZED, TOOL_STARTED, TOOL_SUCCEEDED]"
      "replay H ?run (l1 ?run @ es) = Inr (rt_state tr)" "tw_outside T2 = outside"
      "tw_calls T2 = tw_calls T @ [\<lparr>tc_tool_name = tca_tool_name t, tc_arguments = decoded (tca_arguments_json t), tc_key = k\<rparr>]"
    using qf k by (auto simp: executed_once_def c success_receipt_def request_arguments_def)
  have "replay_tail H s1 es = Inr (rt_state tr)" using sub(8) p(6) by (simp add: replay_append)
  moreover have "ev_event_type ` set es \<subseteq> call_events"
    using arg_cong [OF sub(7), of set] by (auto simp: call_events_def)
  ultimately have turn: "turn_index (rt_state tr) = turn_index s" "max_steps (rt_state tr) = max_steps s"
    using call_events_same_turn [of H s1 es "rt_state tr"] s1 by (simp_all add: same_turn_def)
  let ?v = "verify_receipt (success_receipt H q out) e"
  have passed: "vr_outcome ?v = PASSED"
    using out by (simp add: verify_receipt_passed success_receipt_def receipt_output_def decoded_def loads_render)
  have n: "tr_step_id q \<noteq> []" using qf by (simp add: c next_step_id_def)
  have log2: "replay H ?run ((l1(?run := l1 ?run @ es)) ?run) = Inr (rt_state tr)" using sub(8) by simp
  obtain u l' w' where u: "record_step_verification ?R ?run ?v w2 = (Inr u, w')" "world_at l' T2 w'"
      "replay H ?run (l' ?run) = Inr u" "status u = READY" "turn_index u = turn_index (rt_state tr) + 1"
      "max_steps u = max_steps (rt_state tr)" "step_observation (l' ?run) = verified_observation ?v"
      "further ?run [VERIFICATION_SUCCEEDED] (l1(?run := l1 ?run @ es)) l'"
    by (rule verified_eval [OF R d(1) sub(6) log2 sub(4,5) n run passed])
  let ?ev = "ev\<lparr>le_actions := le_actions ev @ [ToolCall t], le_tool_results := le_tool_results ev @ [tr],
      le_verifications := le_verifications ev @ [?v]\<rparr>"
  have "iteration A xs x ev w = (Inr (Inl ?ev), \<lparr>aw_runtime = w', aw_adapter = b\<rparr>)"
    using st(1) p(1) q(1) sub(1-4) u(1,4) x
    by (simp add: iteration_def dispatch_tool_def verify_step_def expectation_for_def Let_def bindA_def runtimeA_def
        load_state_eq [OF R d(1) w, of ?run] s)
  moreover have "further ?run verified_call_events l l'"
  proof -
    have "further ?run [TOOL_REQUESTED, TOOL_AUTHORIZED, TOOL_STARTED, TOOL_SUCCEEDED] l1 (l1(?run := l1 ?run @ es))"
      using sub(7) by (auto simp: further_def)
    from further_trans [OF further_trans [OF p(8) this] u(8)] show ?thesis by (simp add: verified_call_events_def)
  qed
  ultimately show thesis using that [of ?ev "\<lparr>aw_runtime = w', aw_adapter = b\<rparr>" ?v tr l' T2 u] sub(2,9,10) passed
    by (simp add: u turn)
qed

text \<open>The two turns in a row: the call, and the answer on the observation it left.\<close>

lemma tool_then_answer:
  fixes A :: "('d, 'e, 'w, 'a) agent"
  assumes R: "runtime_on H L S registry (ag_runtime A)" and d: "undisturbed (ag_runtime A)"
      "\<forall>c i. ru_injector (ag_runtime A) c i = None"
    and w: "world_at l T (aw_runtime w)" and s: "replay H (ag_run_id A) (l (ag_run_id A)) = Inr s"
    and st: "status s = READY" "max_steps s = Some m" "turn_index s + 1 < m"
    and run: "ag_run_id A \<noteq> []" and calm: "ag_injector A = None" and hex: "hex_hash H"
    and c: "c = turn_input (ag_run_id A) s (l (ag_run_id A))" and a: "wf_action (ToolCall t)"
    and proposed: "ag_adapter A c (aw_adapter w) = (Inr (Some (ToolCall t)), b)"
    and granted: "\<And>i. i \<noteq> [] \<Longrightarrow> \<exists>q g. tool_request_from_action c (ToolCall t) (Some i) = Inr q \<and>
      authorize q (ru_context (ag_runtime A)) = Inr g \<and> ad_outcome g = ALLOW"
    and def: "resolve registry (tca_tool_name t) = Inr def"
    and new: "intents (tw_store T) (H (effect_identity (ag_run_id A) (tca_tool_call_id t))) = None"
      "receipts (tw_store T) (H (effect_identity (ag_run_id A) (tca_tool_call_id t))) = None"
    and ran: "ru_runner (ag_runtime A) (tca_tool_name t) (decoded (tca_arguments_json t))
      (H (effect_identity (ag_run_id A) (tca_tool_call_id t))) (tw_outside T) = (Returned out, outside)"
    and out: "canon (JObj out)" "get out ''path'' = JStr (ve_path e)" "get out ''sha256'' = JStr (ve_sha256 e)"
    and e: "xs c t = Inr (Some e)"
    and answers: "\<And>c'. mi_turn_index c' = turn_index s + 1 \<Longrightarrow> has_verified_observation c' \<Longrightarrow>
        \<exists>b'. ag_adapter A c' b = (Inr (Some (FinalAnswer (ce_expected_answer x))), b')"
      "ce_expected_answer x \<noteq> []"
  shows "\<exists>r w' tr vr cv l' T'. run_loop (Suc (Suc fuel)) A xs x w = (Inr (Some r), w') \<and>
    ml_outcome r = LOOP_COMPLETED \<and> status (ml_state r) = COMPLETED \<and>
    ml_actions r = [ToolCall t, FinalAnswer (ce_expected_answer x)] \<and>
    ml_tool_results r = [tr] \<and> rt_outcome tr = EXECUTED \<and>
    ml_verifications r = [vr] \<and> vr_outcome vr = PASSED \<and> ml_completions r = [cv] \<and>
    world_at l' T' (aw_runtime w') \<and> replay H (ag_run_id A) (l' (ag_run_id A)) = Inr (ml_state r) \<and>
    further (ag_run_id A) (verified_call_events @ [MODEL_ACTION_REQUESTED, MODEL_ACTION_PROPOSED, COMPLETION_ACCEPTED]) l l' \<and>
    turn_index (ml_state r) = turn_index s + 2 \<and> tw_outside T' = outside \<and>
    tw_calls T' = tw_calls T @ [\<lparr>tc_tool_name = tca_tool_name t,
      tc_arguments = decoded (tca_arguments_json t), tc_key = H (effect_identity (ag_run_id A) (tca_tool_call_id t))\<rparr>]"
proof -
  let ?R = "ag_runtime A" and ?run = "ag_run_id A"
  have k: "H (effect_identity ?run (tca_tool_call_id t)) \<noteq> []" by (rule hex_hash_nonempty [OF hex])
  have b1: "budget_left s" using st by (simp add: budget_left_def)
  obtain ev w1 tr vr l1 T1 u where i1: "iteration A xs x no_evidence w = (Inr (Inl ev), w1)"
      "ev = no_evidence\<lparr>le_actions := le_actions no_evidence @ [ToolCall t],
        le_tool_results := le_tool_results no_evidence @ [tr],
        le_verifications := le_verifications no_evidence @ [vr]\<rparr>"
      "rt_outcome tr = EXECUTED" "vr_outcome vr = PASSED" "aw_adapter w1 = b"
      "world_at l1 T1 (aw_runtime w1)" "replay H ?run (l1 ?run) = Inr u"
      "status u = READY" "turn_index u = turn_index s + 1" "max_steps u = max_steps s"
      "step_observation (l1 ?run) = verified_observation vr" "further ?run verified_call_events l l1"
      "tw_outside T1 = outside"
      "tw_calls T1 = tw_calls T @ [\<lparr>tc_tool_name = tca_tool_name t,
        tc_arguments = decoded (tca_arguments_json t), tc_key = H (effect_identity ?run (tca_tool_call_id t))\<rparr>]"
    by (rule tool_iteration [where xs = xs and x = x and ev = no_evidence,
          OF R d w s st(1) b1 run calm c a proposed granted def refl k new ran out e])
  let ?c = "turn_input ?run u (l1 ?run)"
  have seen: "has_verified_observation ?c" using verified_observation_seen [of ?c vr] i1(11) by simp
  obtain b' where proposed2: "ag_adapter A ?c (aw_adapter w1) = (Inr (Some (FinalAnswer (ce_expected_answer x))), b')"
    using answers(1) [of ?c] i1(5,9) seen by auto
  have b2: "budget_left u" using st i1(9,10) by (simp add: budget_left_def)
  obtain r w2 cv l2 where i2: "iteration A xs x ev w1 = (Inr (Inr r), w2)" "ml_outcome r = LOOP_COMPLETED"
      "ml_actions r = le_actions ev @ [FinalAnswer (ce_expected_answer x)]" "ml_tool_results r = le_tool_results ev"
      "ml_verifications r = le_verifications ev" "ml_completions r = le_completions ev @ [cv]"
      "status (ml_state r) = COMPLETED" "world_at l2 T1 (aw_runtime w2)"
      "further ?run [MODEL_ACTION_REQUESTED, MODEL_ACTION_PROPOSED, COMPLETION_ACCEPTED] l1 l2"
      "replay H ?run (l2 ?run) = Inr (ml_state r)" "turn_index (ml_state r) = turn_index u + 1"
    using answer_iteration [OF R d(1) i1(6,7,8) b2 run calm hex refl proposed2 refl answers(2), of xs ev] seen by blast
  have m: "max_steps s \<noteq> None" using st(2) by simp
  have "run_loop (Suc (Suc fuel)) A xs x w = (Inr (Some r), w2)"
    using i1(1) i2(1) by (simp add: run_loop_ready [OF R d(1) w s st(1) m] bindA_def)
  moreover note further_trans [OF i1(12) i2(9)]
  ultimately show ?thesis using i1(2-4,9,13,14) i2(2-11)
    by (intro exI [of _ r] exI [of _ w2] exI [of _ tr] exI [of _ vr] exI [of _ cv] exI [of _ l2] exI [of _ T1])
       (simp add: no_evidence_def)
qed

end

end
