(* ===== verification/FileAgents.thy ===== *)
theory FileAgents
  imports FileRuntime AgentProperties ToolRuns
begin

section \<open>An agent that uses a tool\<close>

text \<open>
  The whole of the program together: the agent's loop, the model's durable actions, authorization,
  durable execution, verification of the receipt and acceptance of the answer; and, as its
  instance, an agent that reads a file of the workspace and answers.
\<close>

text \<open>C6: the loop completes a run whose model proposes an allowed call and then, on the observation of its
  verified result, the expected answer: in two iterations, with exactly one invocation of the
  tool, one passed verification and one accepted completion.\<close>

theorem verified_call_then_answer_completes:
  assumes "sqlite_runtime (ag_runtime A)" and "undisturbed (ag_runtime A)"
    and "\<forall>c i. ru_injector (ag_runtime A) c i = None" and "sound_world (ag_runtime A) (aw_runtime w)"
    and "H = ru_hash (ag_runtime A)" and "hex_hash H" and "run = ag_run_id A" and "run \<noteq> []" and "ag_injector A = None"
    and "es = history (rw_events (aw_runtime w)) run" and "replay H run es = Inr s"
    and "status s = READY" and "max_steps s = Some m" and "turn_index s + 1 < m"
    and "c = turn_input run s es" and "wf_action (ToolCall t)"
    and "ag_adapter A c (aw_adapter w) = (Inr (Some (ToolCall t)), b)"
    and "\<And>i. i \<noteq> [] \<Longrightarrow> \<exists>q g. tool_request_from_action c (ToolCall t) (Some i) = Inr q \<and>
      authorize q (ru_context (ag_runtime A)) = Inr g \<and> ad_outcome g = ALLOW"
    and "resolve (ru_registry (ag_runtime A)) (tca_tool_name t) = Inr def"
    and "k = H (effect_identity run (tca_tool_call_id t))"
    and "load_intent H (tw_store (rw_tools (aw_runtime w))) k = Inr None"
    and "ru_runner (ag_runtime A) (tca_tool_name t) (decoded (tca_arguments_json t)) k
      (tw_outside (rw_tools (aw_runtime w))) = (Returned out, outside)"
    and "canon (JObj out)" and "xs c t = Inr (Some e)"
    and "get out ''path'' = JStr (ve_path e)" and "get out ''sha256'' = JStr (ve_sha256 e)"
    and "\<And>c'. mi_turn_index c' = turn_index s + 1 \<Longrightarrow> has_verified_observation c' \<Longrightarrow>
      \<exists>b'. ag_adapter A c' b = (Inr (Some (FinalAnswer (ce_expected_answer x))), b')"
    and "ce_expected_answer x \<noteq> []"
  shows "\<exists>r w' tr vr cv fs. run_loop (Suc (Suc fuel)) A xs x w = (Inr (Some r), w') \<and>
    ml_outcome r = LOOP_COMPLETED \<and> status (ml_state r) = COMPLETED \<and>
    ml_actions r = [ToolCall t, FinalAnswer (ce_expected_answer x)] \<and>
    ml_tool_results r = [tr] \<and> rt_outcome tr = EXECUTED \<and>
    ml_verifications r = [vr] \<and> vr_outcome vr = PASSED \<and> ml_completions r = [cv] \<and>
    history (rw_events (aw_runtime w')) = (history (rw_events (aw_runtime w)))(run := es @ fs) \<and>
    map ev_event_type fs = [MODEL_ACTION_REQUESTED, MODEL_ACTION_PROPOSED, TOOL_REQUESTED, TOOL_AUTHORIZED, TOOL_STARTED,
      TOOL_SUCCEEDED, VERIFICATION_SUCCEEDED, MODEL_ACTION_REQUESTED, MODEL_ACTION_PROPOSED, COMPLETION_ACCEPTED] \<and>
    replay H run (es @ fs) = Inr (ml_state r) \<and> turn_index (ml_state r) = turn_index s + 2 \<and>
    tw_outside (rw_tools (aw_runtime w')) = outside \<and>
    tw_calls (rw_tools (aw_runtime w')) = tw_calls (rw_tools (aw_runtime w)) @
      [\<lparr>tc_tool_name = tca_tool_name t, tc_arguments = decoded (tca_arguments_json t), tc_key = k\<rparr>]"
proof -
  let ?T = "rw_tools (aw_runtime w)"
  have w: "effects_ok H (tw_store ?T)" "world_ok select_intent receipt_at (ru_registry (ag_runtime A)) ?T"
    using assms(4,5) by (simp_all add: sound_world_def)
  have i: "select_intent (tw_store ?T) k = None"
    using assms(21) sqlite.load_intent [OF w(1)] by (simp add: sqlite_effects_def)
  note new = i no_receipt_without_intent [OF w(2) i]
  have s: "replay H (ag_run_id A) (history (rw_events (aw_runtime w)) (ag_run_id A)) = Inr s"
    using assms(7,10,11) by simp
  have c: "c = turn_input (ag_run_id A) s (history (rw_events (aw_runtime w)) (ag_run_id A))"
    using assms(7,10,15) by simp
  obtain r w' tr vr cv l' T' where r: "run_loop (Suc (Suc fuel)) A xs x w = (Inr (Some r), w')"
      "ml_outcome r = LOOP_COMPLETED" "status (ml_state r) = COMPLETED"
      "ml_actions r = [ToolCall t, FinalAnswer (ce_expected_answer x)]"
      "ml_tool_results r = [tr]" "rt_outcome tr = EXECUTED" "ml_verifications r = [vr]" "vr_outcome vr = PASSED"
      "ml_completions r = [cv]" "sqlite_runtime.world_at H l' T' (aw_runtime w')"
      "replay H (ag_run_id A) (l' (ag_run_id A)) = Inr (ml_state r)"
      "sqlite_runtime.further (ag_run_id A) (verified_call_events @ [MODEL_ACTION_REQUESTED, MODEL_ACTION_PROPOSED,
        COMPLETION_ACCEPTED]) (history (rw_events (aw_runtime w))) l'"
      "turn_index (ml_state r) = turn_index s + 2" "tw_outside T' = outside"
      "tw_calls T' = tw_calls ?T @ [\<lparr>tc_tool_name = tca_tool_name t, tc_arguments = decoded (tca_arguments_json t),
        tc_key = H (effect_identity (ag_run_id A) (tca_tool_call_id t))\<rparr>]"
    using sqlite_runtime.tool_then_answer [where b = b and x = x and xs = xs and fuel = fuel, OF
          sqlite_runtime_on [OF assms(1), folded assms(5)] assms(2,3) sound_world_at [OF assms(4), folded assms(5)] s
          assms(12-14) assms(8) [unfolded assms(7)] assms(9,6) c assms(16-19) new [unfolded assms(7,20)]
          assms(22) [unfolded assms(7,20)] assms(23,25,26,24,27,28)] by blast
  then obtain fs where "l' = (history (rw_events (aw_runtime w)))(run := es @ fs)"
      "map ev_event_type fs = verified_call_events @ [MODEL_ACTION_REQUESTED, MODEL_ACTION_PROPOSED, COMPLETION_ACCEPTED]"
    unfolding assms(7,10) by (auto simp: sqlite_runtime.further_def)
  with r show ?thesis unfolding assms(7,20)
    by (intro exI [of _ r] exI [of _ w'] exI [of _ tr] exI [of _ vr] exI [of _ cv] exI [of _ fs])
       (simp add: sqlite_runtime.world_at_def verified_call_events_def)
qed

subsection \<open>Reading a file and answering\<close>

definition read_call :: ToolCallAction where
  "read_call = \<lparr>tca_tool_call_id = ''c'', tca_tool_name = ''read_file'',
     tca_arguments_json = render (JObj [(''path'', JStr ''a'')])\<rparr>"

definition file_agent :: "(EventDB, EffectDB, file_system \<times> nat, unit) agent" where
  "file_agent = \<lparr>ag_runtime = file_runtime,
     ag_adapter = (\<lambda>c a. (static_next_action [ToolCall read_call, FinalAnswer ''ok''] c, a)),
     ag_run_id = ''r'', ag_injector = None\<rparr>"

definition file_agent_start :: "(EventDB, EffectDB, file_system \<times> nat, unit) agent_world" where
  "file_agent_start = \<lparr>aw_runtime = run_system file_runtime started_ops (start_world (sample_files, 0)), aw_adapter = ()\<rparr>"

definition file_expectations :: resolver_of_expectations where
  "file_expectations c a = Inr (Some \<lparr>ve_path = ''a'', ve_sha256 = ''old''\<rparr>)"

definition observed_expectation :: CompletionExpectation where
  "observed_expectation = \<lparr>ce_expected_answer = ''ok'', ce_require_verified_observation = True\<rparr>"

lemma file_runtime_simps [simp]:
  "ru_hash file_runtime = zero_hash" "ru_context file_runtime = file_context"
  "ru_injector file_runtime = no_crash" "sqlite_runtime file_runtime" "undisturbed file_runtime"
  "ru_registry file_runtime = map (\<lambda>d. (td_tool_name d, d)) restricted_file_tool_definitions"
  by (simp_all add: file_runtime_def sqlite_runtime_def undisturbed_def)

lemma file_started:
  "rw_tools (aw_runtime file_agent_start) = fresh_world (sample_files, 0)"
  "history (rw_events (aw_runtime file_agent_start)) ''r'' = started_events"
  "sound_world file_runtime (aw_runtime file_agent_start)"
proof -
  have "sqlite_runtime.world_at zero_hash ((\<lambda>_. [])(''r'' := started_events)) (fresh_world (sample_files, 0))
      (aw_runtime file_agent_start)"
    unfolding file_agent_start_def by (simp add: started_world_at)
  then show "rw_tools (aw_runtime file_agent_start) = fresh_world (sample_files, 0)"
    "history (rw_events (aw_runtime file_agent_start)) ''r'' = started_events"
    by (simp_all add: sqlite_runtime.world_at_def)
  show "sound_world file_runtime (aw_runtime file_agent_start)"
    unfolding file_agent_start_def by (simp add: run_system_sound wf_started_ops sound_start)
qed

lemma read_file_definition:
  "resolve (map (\<lambda>d. (td_tool_name d, d)) restricted_file_tool_definitions) ''read_file'' =
     Inr \<lparr>td_tool_name = ''read_file'', td_retry_is_idempotent = True, td_path_argument_names = [''path'']\<rparr>"
  by (simp add: resolve_def restricted_file_tool_definitions_def)

lemma file_request_granted:
  assumes "q = (file_request ''a'')\<lparr>tr_model_action_event_id := i\<rparr>"
  obtains g where "authorize q file_context = Inr g" and "ad_outcome g = ALLOW"
proof -
  have "resolve (ac_registry file_context) (tr_tool_name q) =
      Inr \<lparr>td_tool_name = ''read_file'', td_retry_is_idempotent = True, td_path_argument_names = [''path'']\<rparr>"
    by (simp add: assms file_context_def file_request_def read_file_definition)
  moreover have "request_arguments q = [(''path'', JStr ''a'')]"
    using read_arguments [of "''a''"] by (simp add: assms request_arguments_def file_request_def)
  moreover have "normalize_arguments file_context [(''path'', JStr ''a'')] [''path''] = Inr [''a'']"
    by (simp add: get_def get_default_def boundary_normalize_def file_context_def portable_def
        starts_with_def windows_drive_def path_parts_def Let_def)
  moreover have "make_plan_step (execution_step q [''a'']) = Inr (execution_step q [''a''])"
    by (simp add: assms make_plan_step_def execution_step_def file_request_def read_request_def step_id_pattern_def
        is_alnum_def is_digit_def)
  moreover have "od_mode (classify_step (execution_step q [''a'']) (ownership_context file_context)) = AUTO"
    by (simp add: classify_step_def Let_def ownership_context_def file_context_def evaluate_risks_def
        minimum_mode_for_def matching_rules_def more_restrictive_def)
  ultimately have "\<exists>g. authorize q file_context = Inr g \<and> ad_outcome g = ALLOW"
    by (simp add: authorize_def Let_def make_decision_simps)
  then show thesis using that by blast
qed

lemma read_is_granted:
  assumes "i \<noteq> []" and c: "c = turn_input ''r'' begun_state started_events"
  shows "\<exists>q g. tool_request_from_action c (ToolCall read_call) (Some i) = Inr q \<and>
    authorize q file_context = Inr g \<and> ad_outcome g = ALLOW"
proof -
  let ?q = "(file_request ''a'')\<lparr>tr_model_action_event_id := Some i\<rparr>"
  have "next_step_id begun_state = ''step-1''" by (simp add: next_step_id_def first_step)
  then have q: "tool_request_from_action c (ToolCall read_call) (Some i) = Inr ?q"
    using assms(1)
    by (simp add: tool_request_from_action_def c read_call_def file_request_def read_request_def
        request_post_init_def ensure_def canonical_object_def canonical_json_canon loads_render canon_obj)
  obtain g where "authorize ?q file_context = Inr g" "ad_outcome g = ALLOW" by (rule file_request_granted [OF refl])
  with q show ?thesis by blast
qed

definition read_output :: payload where
  "read_output = [(''bytes'', JInt 3), (''content'', JStr ''old''), (''path'', JStr ''a''), (''sha256'', JStr ''old'')]"

lemma read_output_simps:
  "canon (JObj read_output)" "get read_output ''path'' = JStr ''a''" "get read_output ''sha256'' = JStr ''old''"
  by (simp_all add: read_output_def canon_obj get_def get_default_def)

lemma read_runs:
  "ru_runner file_runtime ''read_file'' [(''path'', JStr ''a'')] zeros (sample_files, 0) =
     (Returned read_output, (sample_files, 1))"
proof -
  have "read_file sample_env [(''path'', JStr ''a'')] sample_files = Inr read_output"
    by (simp add: read_output_def read_file_def file_eval open_bytes_def utf8_decode_def char_of_def bit_0)
  then show ?thesis by (simp add: file_runtime_def file_runner_def invoke_file_tool_def)
qed

theorem verified_call_then_answer_completes_witness:
  "\<exists>r w'. run_loop 2 file_agent file_expectations observed_expectation file_agent_start = (Inr (Some r), w') \<and>
     ml_outcome r = LOOP_COMPLETED \<and> ml_actions r = [ToolCall read_call, FinalAnswer ''ok''] \<and>
     length (tw_calls (rw_tools (aw_runtime w'))) = 1"
proof -
  let ?c = "turn_input ''r'' begun_state started_events"
  have a: "wf_action (ToolCall read_call)"
    by (simp add: wf_action_def action_post_init_def tool_call_post_init_def read_call_def ensure_def
        canonical_object_json_canon canon_obj loads_render validate_object_text_def)
  have d: "decoded (tca_arguments_json read_call) = [(''path'', JStr ''a'')]"
    by (simp add: read_call_def decoded_def loads_render canon_obj)
  have "\<exists>r w' tr vr cv fs. run_loop (Suc (Suc 0)) file_agent file_expectations observed_expectation file_agent_start =
        (Inr (Some r), w') \<and> ml_outcome r = LOOP_COMPLETED \<and> status (ml_state r) = COMPLETED \<and>
      ml_actions r = [ToolCall read_call, FinalAnswer (ce_expected_answer observed_expectation)] \<and>
      ml_tool_results r = [tr] \<and> rt_outcome tr = EXECUTED \<and>
      ml_verifications r = [vr] \<and> vr_outcome vr = PASSED \<and> ml_completions r = [cv] \<and>
      history (rw_events (aw_runtime w')) = (history (rw_events (aw_runtime file_agent_start)))(''r'' := started_events @ fs) \<and>
      map ev_event_type fs = [MODEL_ACTION_REQUESTED, MODEL_ACTION_PROPOSED, TOOL_REQUESTED, TOOL_AUTHORIZED, TOOL_STARTED,
        TOOL_SUCCEEDED, VERIFICATION_SUCCEEDED, MODEL_ACTION_REQUESTED, MODEL_ACTION_PROPOSED, COMPLETION_ACCEPTED] \<and>
      replay zero_hash ''r'' (started_events @ fs) = Inr (ml_state r) \<and> turn_index (ml_state r) = turn_index begun_state + 2 \<and>
      tw_outside (rw_tools (aw_runtime w')) = (sample_files, 1) \<and>
      tw_calls (rw_tools (aw_runtime w')) = tw_calls (rw_tools (aw_runtime file_agent_start)) @
        [\<lparr>tc_tool_name = tca_tool_name read_call, tc_arguments = decoded (tca_arguments_json read_call), tc_key = zeros\<rparr>]"
  proof (rule verified_call_then_answer_completes [where H = zero_hash and run = "''r''" and es = started_events and
        s = begun_state and m = 2 and c = ?c and out = read_output and outside = "(sample_files, 1)" and
        e = "\<lparr>ve_path = ''a'', ve_sha256 = ''old''\<rparr>" and b = "()"])
    show "ru_runner (ag_runtime file_agent) (tca_tool_name read_call) (decoded (tca_arguments_json read_call)) zeros
      (tw_outside (rw_tools (aw_runtime file_agent_start))) = (Returned read_output, (sample_files, 1))"
      using read_runs d by (simp add: read_call_def file_agent_def file_started fresh_world_def)
    show "resolve (ru_registry (ag_runtime file_agent)) (tca_tool_name read_call) =
        Inr \<lparr>td_tool_name = ''read_file'', td_retry_is_idempotent = True, td_path_argument_names = [''path'']\<rparr>"
      by (simp add: file_agent_def read_call_def read_file_definition)
    show "\<exists>q g. tool_request_from_action ?c (ToolCall read_call) (Some i) = Inr q \<and>
        authorize q (ru_context (ag_runtime file_agent)) = Inr g \<and> ad_outcome g = ALLOW" if "i \<noteq> []" for i
      using read_is_granted [OF that refl] by (simp add: file_agent_def)
  qed (simp_all add: file_agent_def file_started no_crash_def a replay_begun static_next_action_def
      file_expectations_def observed_expectation_def read_output_simps zero_hash_def
      fresh_world_def empty_effects_def load_intent_def select_intent_def)
  then show ?thesis
    by (simp add: numeral_2_eq_2 file_started fresh_world_def observed_expectation_def) force
qed

end
