(* ===== verification/ResumedRuns.thy ===== *)
theory ResumedRuns
  imports ToolRuns
begin

section \<open>Resuming an interrupted step\<close>

text \<open>
  A process that dies after the receipt of a call was recorded and before its verification leaves
  a run whose log and store say everything: the input of the turn, the proposed call and the
  receipt. Resuming verifies that receipt, without another invocation, and goes on.
\<close>

text \<open>The action a request carries out.\<close>

definition action_of_request :: "ToolRequest \<Rightarrow> ToolCallAction" where
  "action_of_request q = \<lparr>tca_tool_call_id = tr_tool_call_id q, tca_tool_name = tr_tool_name q,
     tca_arguments_json = tr_arguments_json q\<rparr>"

lemma request_text:
  assumes "wf_request q"
  obtains d where "tr_arguments_json q = render (JObj d)" and "canon (JObj d)"
  using assms unfolding wf_request_def request_post_init_Inr_iff
  by (metis ToolRequest.select_convs(5) ToolRequest.surjective ToolRequest.update_convs(5))

lemma stored_call_of_request:
  assumes "wf_request q"
  shows "stored_tool_call (request_payload q) = Inr (action_of_request q)"
proof -
  obtain d where d: "tr_arguments_json q = render (JObj d)" "canon (JObj d)" by (rule request_text [OF assms])
  have p: "get (request_payload q) ''tool_call_id'' = JStr (tr_tool_call_id q)"
      "get (request_payload q) ''tool_name'' = JStr (tr_tool_name q)"
      "get (request_payload q) ''arguments_json'' = JStr (tr_arguments_json q)"
    by (simp_all add: request_payload_def get_def get_default_def split: option.split)
  have "tool_call_post_init (action_of_request q) = Inr (action_of_request q)"
    using wf_request_fields [OF assms] d
    by (simp add: tool_call_post_init_def action_of_request_def ensure_def validate_object_text_def
        canonical_object_json_canon loads_render)
  then show ?thesis using wf_request_fields [OF assms] d(1)
    by (simp add: render.simps(7) stored_tool_call_def payload_text_def p ensure_def action_of_request_def)
qed

lemma latest_event_find:
  assumes "latest_event k p es"
  obtains e where "find (\<lambda>e. ev_event_type e = k) (rev es) = Some e" and "ev_event_type e = k" and "payload e = p"
  using assms find_Some_in by (fastforce simp: latest_event_def)

context runtime_stores
begin

lemma load_receipt_eval:
  fixes R :: "('d, 'e, 'w) runtime"
  assumes R: "runtime_on H L S registry R" and d: "undisturbed R" and w: "world_at l T w"
    and s: "replay H run (l run) = Inr s" and st: "status s = VERIFYING"
    and done_: "latest_event TOOL_SUCCEEDED (success_payload H q) (l run)" and key: "request_key H q \<noteq> []"
    and r: "receipts (tw_store T) (request_key H q) = Some r" "rc_outcome r = TOOL_SUCCEEDED_OUTCOME"
  shows "load_verification_receipt R run w = (Inr r, w)"
proof -
  obtain e where e: "find (\<lambda>e. ev_event_type e = TOOL_SUCCEEDED) (rev (l run)) = Some e"
      "payload e = success_payload H q" by (rule latest_event_find [OF done_])
  have p: "get (success_payload H q) ''effect_id'' = JStr (request_key H q)"
    by (simp add: success_payload_def get_def get_default_def)
  have ev: "eventsA R run w = (Inr (l run), w)" using R w load by (simp add: eventsA_def runtime_on_def world_at_def)
  have "st_load_receipt (ru_effects R) (tw_store (rw_tools w)) (request_key H q) = Inr (Some r)"
    using R w r(1) load_receipt [of "tw_store T" "request_key H q"] by (simp add: runtime_on_def world_at_def)
  then show ?thesis using load_state_eq [OF R d w, of run] s st e p key r(2) ev
    by (simp add: load_verification_receipt_def bindA_def checkA_def)
qed

lemma load_recovery_eval:
  fixes R :: "('d, 'e, 'w) runtime"
  assumes R: "runtime_on H L S registry R" and d: "undisturbed R" and w: "world_at l T w"
    and s: "replay H run (l run) = Inr s" and st: "status s = VERIFYING" "active_step_id s = Some (tr_step_id q)"
    and q: "wf_request q" and run: "run \<noteq> []"
    and requested: "latest_event TOOL_REQUESTED (request_payload q) (l run)"
    and done_: "latest_event TOOL_SUCCEEDED (success_payload H q) (l run)" and key: "request_key H q \<noteq> []"
    and r: "receipts (tw_store T) (request_key H q) = Some r" "rc_outcome r = TOOL_SUCCEEDED_OUTCOME"
  shows "load_model_tool_recovery R run w = (Inr
    \<lparr>mr_context = \<lparr>mi_run_id = run, mi_step_id = tr_step_id q, mi_turn_index = turn_index s, mi_state_status = READY,
       mi_observation_json = render (JObj (step_observation (l run)))\<rparr>,
     mr_action = action_of_request q, mr_receipt = r\<rparr>, w)"
proof -
  obtain e where f: "find (\<lambda>e. ev_event_type e = TOOL_REQUESTED) (rev (l run)) = Some e"
    and e: "ev_event_type e = TOOL_REQUESTED" "payload e = request_payload q"
    by (rule latest_event_find [OF requested])
  have "get (request_payload q) ''step_id'' = JStr (tr_step_id q)"
    by (simp add: request_payload_def get_def get_default_def split: option.split)
  with e have "step_request_event (tr_step_id q) e" unfolding step_request_event_def by metis
  then have find: "find (step_request_event (tr_step_id q)) (rev (l run)) = Some e"
    by (rule find_narrower [OF f]) (unfold step_request_event_def, blast)
  have ev: "eventsA R run w = (Inr (l run), w)" using R w load by (simp add: eventsA_def runtime_on_def world_at_def)
  have "\<forall>e \<in> set (l run). wf_event e" using w log_events by (auto simp: world_at_def)
  moreover have "0 \<le> turn_index s"
    using replay_state_inv [OF s] by (simp add: state_inv_def core_inv_def valid_state_def)
  ultimately have in_: "build_input run (tr_step_id q) (turn_index s) READY (step_observation (l run)) =
      Inr \<lparr>mi_run_id = run, mi_step_id = tr_step_id q, mi_turn_index = turn_index s, mi_state_status = READY,
        mi_observation_json = render (JObj (step_observation (l run)))\<rparr>"
    using wf_request_fields [OF q] run by (intro built_input canon_observation) simp_all
  show ?thesis
    using load_state_eq [OF R d w, of run] s st find ev in_ e(2) stored_call_of_request [OF q]
      load_receipt_eval [OF R d w s st(1) done_ key r]
    by (simp add: load_model_tool_recovery_def load_step_observation_def bindA_def checkA_def)
qed

lemma resumed_answer:
  fixes A :: "('d, 'e, 'w, 'a) agent"
  assumes R: "runtime_on H L S registry (ag_runtime A)" and d: "undisturbed (ag_runtime A)"
    and w: "world_at l T (aw_runtime w)" and s: "replay H (ag_run_id A) (l (ag_run_id A)) = Inr s"
    and st: "status s = VERIFYING" "active_step_id s = Some (tr_step_id q)" "max_steps s = Some m" "turn_index s + 1 < m"
    and q: "wf_request q" and run: "ag_run_id A \<noteq> []" and calm: "ag_injector A = None" and hex: "hex_hash H"
    and requested: "latest_event TOOL_REQUESTED (request_payload q) (l (ag_run_id A))"
    and done_: "latest_event TOOL_SUCCEEDED (success_payload H q) (l (ag_run_id A))"
    and r: "receipts (tw_store T) (request_key H q) = Some r" and passed: "vr_outcome (verify_receipt r e) = PASSED"
    and e: "\<And>c. xs c (action_of_request q) = Inr (Some e)"
    and answers: "\<And>c'. mi_turn_index c' = turn_index s + 1 \<Longrightarrow> has_verified_observation c' \<Longrightarrow>
        \<exists>b'. ag_adapter A c' (aw_adapter w) = (Inr (Some (FinalAnswer (ce_expected_answer x))), b')"
      "ce_expected_answer x \<noteq> []"
  shows "\<exists>res w' cv. resume_loop (Suc fuel) A xs x w = (Inr (Some res), w') \<and>
    ml_outcome res = LOOP_COMPLETED \<and> status (ml_state res) = COMPLETED \<and>
    ml_actions res = [ToolCall (action_of_request q), FinalAnswer (ce_expected_answer x)] \<and>
    ml_tool_results res = [] \<and> ml_recovered_receipts res = [r] \<and> ml_verifications res = [verify_receipt r e] \<and> ml_completions res = [cv] \<and>
    rw_tools (aw_runtime w') = T"
proof -
  let ?R = "ag_runtime A" and ?run = "ag_run_id A" and ?v = "verify_receipt r e"
  have key: "request_key H q \<noteq> []" by (rule hex_hash_nonempty [OF hex])
  have ok: "rc_outcome r = TOOL_SUCCEEDED_OUTCOME" using passed by (simp add: verify_receipt_passed)
  note rec = load_recovery_eval [OF R d w s st(1,2) q run requested done_ key r ok]
  obtain u l' w1 where u: "record_step_verification ?R ?run ?v (aw_runtime w) = (Inr u, w1)" "world_at l' T w1"
      "replay H ?run (l' ?run) = Inr u" "status u = READY" "turn_index u = turn_index s + 1"
      "max_steps u = max_steps s" "step_observation (l' ?run) = verified_observation ?v"
      "further ?run [VERIFICATION_SUCCEEDED] l l'"
    by (rule verified_eval [OF R d w s st(1,2) wf_request_fields(2) [OF q] run passed])
  let ?w1 = "w\<lparr>aw_runtime := w1\<rparr>" and ?c = "turn_input ?run u (l' ?run)"
  have w1: "world_at l' T (aw_runtime ?w1)" using u(2) by simp
  have seen: "has_verified_observation ?c" using verified_observation_seen [of ?c ?v] u(7) by simp
  obtain b where b: "ag_adapter A ?c (aw_adapter ?w1) = (Inr (Some (FinalAnswer (ce_expected_answer x))), b)"
    using answers(1) [of ?c] u(5) seen by auto
  have b2: "budget_left u" using st u(5,6) by (simp add: budget_left_def)
  let ?ev = "no_evidence\<lparr>le_actions := [ToolCall (action_of_request q)], le_verifications := [?v], le_recovered := [r]\<rparr>"
  obtain res w2 cv where i: "iteration A xs x ?ev ?w1 = (Inr (Inr res), w2)" "ml_outcome res = LOOP_COMPLETED"
      "ml_actions res = le_actions ?ev @ [FinalAnswer (ce_expected_answer x)]" "ml_tool_results res = le_tool_results ?ev"
      "ml_verifications res = le_verifications ?ev" "ml_completions res = le_completions ?ev @ [cv]"
      "ml_recovered_receipts res = le_recovered ?ev" "status (ml_state res) = COMPLETED" "rw_tools (aw_runtime w2) = T"
    using answer_iteration [OF R d w1 u(3,4) b2 run calm hex refl b refl answers(2), of xs ?ev] seen
    by (fastforce simp: world_at_def)
  have "resume_loop (Suc fuel) A xs x w = (Inr (Some res), w2)"
    using rec u(1,4) e i(1)
    by (simp add: resume_loop_def bindA_def runtimeA_def reach_loop_checkpoint_def calm expectation_for_def Let_def)
  with i(2-9) show ?thesis
    by (intro exI [of _ res] exI [of _ w2] exI [of _ cv]) (simp add: no_evidence_def)
qed

text \<open>A granted submission, a process that dies, and the process that resumes.\<close>

lemma submitted_then_resumed:
  fixes A :: "('d, 'e, 'w, 'a) agent"
  assumes R: "runtime_on H L S registry (ag_runtime A)" and d: "undisturbed (ag_runtime A)"
      "\<forall>c i. ru_injector (ag_runtime A) c i = None"
    and w: "world_at l T w" and q: "wf_request q" and run: "ag_run_id A = tr_run_id q"
    and s: "replay H (tr_run_id q) (l (tr_run_id q)) = Inr s"
    and st: "status s = READY \<or> (status s = ACTION_PENDING \<and> tr_model_action_event_id q \<noteq> None \<and>
      active_model_action_event_id s = tr_model_action_event_id q)" "max_steps s = Some m" "turn_index s + 1 < m"
    and g: "authorize q (ru_context (ag_runtime A)) = Inr g" "ad_outcome g = ALLOW"
    and def: "resolve registry (tr_tool_name q) = Inr def" and hex: "hex_hash H" and calm: "ag_injector A = None"
    and new: "intents (tw_store T) (request_key H q) = None" "receipts (tw_store T) (request_key H q) = None"
    and ran: "ru_runner (ag_runtime A) (tr_tool_name q) (request_arguments q) (request_key H q) (tw_outside T) =
      (Returned out, outside)"
    and out: "canon (JObj out)" "get out ''path'' = JStr (ve_path e)" "get out ''sha256'' = JStr (ve_sha256 e)"
    and e: "\<And>c. xs c (action_of_request q) = Inr (Some e)"
    and answers: "\<And>c'. mi_turn_index c' = turn_index s + 1 \<Longrightarrow> has_verified_observation c' \<Longrightarrow>
        \<exists>b'. ag_adapter A c' b = (Inr (Some (FinalAnswer (ce_expected_answer x))), b')"
      "ce_expected_answer x \<noteq> []"
  shows "\<exists>r v res w' vr cv. submit (ag_runtime A) q w = (Inr r, v) \<and>
    resume_loop (Suc fuel) A xs x \<lparr>aw_runtime = v, aw_adapter = b\<rparr> = (Inr (Some res), w') \<and>
    ml_outcome res = LOOP_COMPLETED \<and> status (ml_state res) = COMPLETED \<and>
    ml_actions res = [ToolCall (action_of_request q), FinalAnswer (ce_expected_answer x)] \<and>
    ml_tool_results res = [] \<and> Some (ml_recovered_receipts res) = map_option (\<lambda>c. [c]) (rt_receipt r) \<and>
    ml_verifications res = [vr] \<and> vr_outcome vr = PASSED \<and> ml_completions res = [cv] \<and>
    rw_tools (aw_runtime w') = rw_tools v \<and>
    tw_calls (rw_tools v) = tw_calls T @ [\<lparr>tc_tool_name = tr_tool_name q, tc_arguments = request_arguments q,
      tc_key = request_key H q\<rparr>]"
proof -
  let ?run = "tr_run_id q" and ?r = "success_receipt H q out"
  have key: "request_key H q \<noteq> []" by (rule hex_hash_nonempty [OF hex])
  have budget: "budget_left s" using st(2,3) by (simp add: budget_left_def)
  obtain r v es T' where v: "submit (ag_runtime A) q w = (Inr r, v)" "rt_receipt r = Some ?r"
      "status (rt_state r) = VERIFYING" "active_step_id (rt_state r) = Some (tr_step_id q)"
      "world_at (l(?run := l ?run @ es)) T' v"
      "map ev_event_type es = [TOOL_REQUESTED, TOOL_AUTHORIZED, TOOL_STARTED, TOOL_SUCCEEDED]"
      "replay H ?run (l ?run @ es) = Inr (rt_state r)"
      "latest_event TOOL_REQUESTED (request_payload q) (l ?run @ es)"
      "latest_event TOOL_SUCCEEDED (success_payload H q) (l ?run @ es)"
      "receipts (tw_store T') (request_key H q) = Some ?r"
      "tw_calls T' = tw_calls T @ [\<lparr>tc_tool_name = tr_tool_name q, tc_arguments = request_arguments q,
        tc_key = request_key H q\<rparr>]"
    using submit_eval [OF R d w q s st(1) budget g def key new ran out(1)]
    by (auto simp: executed_once_def success_receipt_def)
  have "replay_tail H s es = Inr (rt_state r)" using v(7) s by (simp add: replay_append)
  moreover have "ev_event_type ` set es \<subseteq> call_events"
    using arg_cong [OF v(6), of set] by (auto simp: call_events_def)
  ultimately have turn: "turn_index (rt_state r) = turn_index s" "max_steps (rt_state r) = Some m"
    using call_events_same_turn [of H s es "rt_state r"] st(1,2) by (auto simp: same_turn_def)
  have passed: "vr_outcome (verify_receipt ?r e) = PASSED"
    using out by (simp add: verify_receipt_passed success_receipt_def receipt_output_def decoded_def loads_render)
  have log: "replay H ?run ((l(?run := l ?run @ es)) ?run) = Inr (rt_state r)"
      "latest_event TOOL_REQUESTED (request_payload q) ((l(?run := l ?run @ es)) ?run)"
      "latest_event TOOL_SUCCEEDED (success_payload H q) ((l(?run := l ?run @ es)) ?run)"
    using v(7-9) by simp_all
  have "\<exists>res w' cv. resume_loop (Suc fuel) A xs x \<lparr>aw_runtime = v, aw_adapter = b\<rparr> = (Inr (Some res), w') \<and>
    ml_outcome res = LOOP_COMPLETED \<and> status (ml_state res) = COMPLETED \<and>
    ml_actions res = [ToolCall (action_of_request q), FinalAnswer (ce_expected_answer x)] \<and>
    ml_tool_results res = [] \<and> ml_recovered_receipts res = [?r] \<and> ml_verifications res = [verify_receipt ?r e] \<and>
    ml_completions res = [cv] \<and> rw_tools (aw_runtime w') = T'"
    using v(5) log v(3,4,10) turn st(3) answers wf_request_fields(1) [OF q]
    by (intro resumed_answer [OF R d(1), where l = "l(?run := l ?run @ es)" and s = "rt_state r" and m = m])
       (simp_all add: q run calm hex e passed)
  moreover have "rw_tools v = T'" using v(5) by (simp add: world_at_def)
  ultimately show ?thesis using v(1,2,11) passed by fastforce
qed

end

end
