(* ===== verification/AgentSafety.thy ===== *)
theory AgentSafety
  imports CallEffects
begin

section \<open>What every operation of an agent keeps\<close>

text \<open>
  An agent only acts through the operations of its runtime: what every one of them keeps, every
  operation of the agent keeps, whatever the model proposes and whatever raises.
\<close>

subsection \<open>The runs of agents\<close>

text \<open>
  An operation of an agent, or one the application makes on the agent's runtime itself. A run of
  agents is a sequence of them in any order, each by an agent with its own model, its own crash
  schedules of the runtime and of the loop, and the same stores, registry, runner and policy.
\<close>

datatype agent_op =
    RunStatic "error option" ToolRequest VerificationExpectation
  | RecoverStatic ToolRequest VerificationExpectation
  | ToolTurn VerificationExpectation
  | CompletionTurn CompletionExpectation
  | RunLoop nat resolver_of_expectations CompletionExpectation
  | ResumeLoop nat resolver_of_expectations CompletionExpectation
  | OnRuntime runtime_op

fun agent_step ::
  "('d, 'e, 'w, 'a) agent \<Rightarrow> agent_op \<Rightarrow> ('d, 'e, 'w, 'a) agent_world \<Rightarrow> ('d, 'e, 'w, 'a) agent_world" where
  "agent_step A (RunStatic crash q x) = ignore (runtimeA (run_agent (ag_runtime A) crash q x))"
| "agent_step A (RecoverStatic q x) = ignore (runtimeA (recover_verification (ag_runtime A) q x))"
| "agent_step A (ToolTurn x) = ignore (run_tool_turn A x)"
| "agent_step A (CompletionTurn k) = ignore (run_completion_turn A k)"
| "agent_step A (RunLoop fuel xs k) = ignore (run_loop fuel A xs k)"
| "agent_step A (ResumeLoop fuel xs k) = ignore (resume_loop fuel A xs k)"
| "agent_step A (OnRuntime p) = (\<lambda>w. w\<lparr>aw_runtime := runtime_step (ag_runtime A) p (aw_runtime w)\<rparr>)"

fun wf_agent_op :: "agent_op \<Rightarrow> bool" where
  "wf_agent_op (RunStatic crash q x) = wf_request q"
| "wf_agent_op (RecoverStatic q x) = wf_request q"
| "wf_agent_op (OnRuntime p) = wf_runtime_op p"
| "wf_agent_op _ = True"

definition run_agents ::
  "(('d, 'e, 'w, 'a) agent \<times> agent_op) list \<Rightarrow> ('d, 'e, 'w, 'a) agent_world \<Rightarrow> ('d, 'e, 'w, 'a) agent_world" where
  "run_agents ops w = foldl (\<lambda>w (A, op). agent_step A op w) w ops"

lemma run_agents_keeps:
  assumes "\<And>A op w. (A, op) \<in> set ops \<Longrightarrow> J w \<Longrightarrow> J (agent_step A op w)" and "J w"
  shows "J (run_agents ops w)"
  using assms by (induction ops arbitrary: w) (auto simp: run_agents_def)

subsection \<open>The interface\<close>

locale kept_by_operations =
  fixes R :: "('d, 'e, 'w) runtime" and I :: "('d, 'e, 'w) runtime_world \<Rightarrow> bool"
  assumes submit: "wf_request q \<Longrightarrow> keeps I (submit R q)"
    and build_input: "keeps I (build_model_input R run)"
    and begin_action: "keeps I (begin_model_action R c)"
    and persist_action: "keeps I (persist_model_action R c i action)"
    and failure: "keeps I (record_model_action_failure R run reason)"
    and verification: "keeps I (record_verification R run v)"
    and step_verification: "keeps I (record_step_verification R run v)"
    and completion: "keeps I (record_completion R c answer k)"
begin

lemma static_agent:
  assumes "wf_request q"
  shows "keeps I (run_agent R crash q x)" and "keeps I (recover_verification R q x)"
  using submit [OF assms] verification unfolding run_agent_def recover_verification_def Let_def by auto

text \<open>The runtime inside the world of an agent.\<close>

definition inside_agent :: "('d, 'e, 'w, 'a) agent_world \<Rightarrow> bool" where
  "inside_agent w = I (aw_runtime w)"

lemma runtimeA_keeps: "keeps I m \<Longrightarrow> keeps inside_agent (runtimeA m)"
  by (auto simp: keeps_def inside_agent_def runtimeA_def split: prod.split)

lemma adapterA_keeps: "keeps inside_agent (adapterA A c)"
  by (auto simp: keeps_def inside_agent_def adapterA_def split: prod.split)

lemma tryA_keeps: "keeps J m \<Longrightarrow> keeps J (tryA m)"
  by (auto simp: keeps_def tryA_def split: prod.split)

lemma reach_loop_keeps: "keeps J (reach_loop_checkpoint A c)"
  by (auto simp: keeps_def reach_loop_checkpoint_def split: option.split)

lemma model_action_cases:
  "(\<And>b. keeps J (m b)) \<Longrightarrow> (\<And>b. keeps J (n b)) \<Longrightarrow> keeps J (case a of ToolCall b \<Rightarrow> m b | FinalAnswer b \<Rightarrow> n b)"
  "(\<And>b. keeps J (k b)) \<Longrightarrow> (\<And>d. keeps J (l d)) \<Longrightarrow> keeps J (case r of Inl b \<Rightarrow> k b | Inr d \<Rightarrow> l d)"
  by (auto split: ModelAction.split sum.split)

text \<open>A request made of a proposal is a well-formed one.\<close>

lemma requested_keeps:
  assumes "\<And>q. wf_request q \<Longrightarrow> keeps J (f q)"
  shows "keeps J (bindA (liftA (tool_request_from_action c a i)) f)"
  using assms sqlite_runtime.tool_request_run [of c a i] unfolding keeps_def bindA_def liftA_def
  by (cases "tool_request_from_action c a i") auto

lemmas agent_keeps = runtimeA_keeps adapterA_keeps tryA_keeps reach_loop_keeps model_action_cases requested_keeps
  submit build_input begin_action persist_action failure verification step_verification completion

lemma turns:
  assumes "ag_runtime A = R"
  shows "keeps inside_agent (run_tool_turn A x)" and "keeps inside_agent (run_completion_turn A k)"
  unfolding run_tool_turn_def run_completion_turn_def Let_def assms by (auto intro!: agent_keeps)

lemma finish_keeps:
  assumes "ag_runtime A = R"
  shows "keeps inside_agent (finish A oc ev)" and "keeps inside_agent (loop_result A oc ev)"
  unfolding finish_def loop_result_def assms by (auto intro!: agent_keeps)

lemma proposal_keeps:
  assumes "ag_runtime A = R"
  shows "keeps inside_agent (next_proposal A ev s)"
proof -
  note ended = finish_keeps [OF assms]
  have "keeps inside_agent (propose_action A ev c)" for c
    unfolding propose_action_def Let_def assms by (auto intro!: agent_keeps ended)
  then show ?thesis
    unfolding next_proposal_def Let_def assms
    by (auto intro!: agent_keeps ended split: sum.split error.split)
qed

lemma verify_step_keeps:
  assumes "ag_runtime A = R"
  shows "keeps inside_agent (verify_step A xs ev c action receipt)"
  unfolding verify_step_def Let_def assms by (auto intro!: agent_keeps finish_keeps [OF assms])

lemma dispatch_keeps:
  assumes "ag_runtime A = R"
  shows "keeps inside_agent (dispatch_answer A x ev c answer)"
    and "keeps inside_agent (dispatch_tool A xs ev c action i)"
  unfolding dispatch_answer_def dispatch_tool_def Let_def assms
  by (auto intro!: agent_keeps finish_keeps [OF assms] verify_step_keeps [OF assms])

lemma iteration_keeps:
  assumes "ag_runtime A = R"
  shows "keeps inside_agent (iteration A xs x ev)"
  unfolding iteration_def Let_def assms
  by (auto intro!: agent_keeps finish_keeps [OF assms] proposal_keeps [OF assms] dispatch_keeps [OF assms]
      split: prod.split)

lemma continued:
  assumes "ag_runtime A = R"
  shows "keeps inside_agent (continue_loop fuel A xs x ev)"
  by (induction fuel arbitrary: ev) (auto intro!: agent_keeps iteration_keeps [OF assms])

lemma loops:
  assumes "ag_runtime A = R"
  shows "keeps inside_agent (run_loop fuel A xs x)" and "keeps inside_agent (resume_loop fuel A xs x)"
  unfolding run_loop_def resume_loop_def Let_def assms
  by (auto intro!: agent_keeps finish_keeps [OF assms] continued [OF assms])

lemma agent_step_keeps:
  assumes "ag_runtime A = R" and "wf_agent_op op" and "\<And>p w. wf_runtime_op p \<Longrightarrow> I w \<Longrightarrow> I (runtime_step R p w)"
    and "I (aw_runtime w)"
  shows "I (aw_runtime (agent_step A op w))"
proof -
  have w: "inside_agent w" using assms(4) by (simp add: inside_agent_def)
  note static = runtimeA_keeps [OF static_agent(1)] runtimeA_keeps [OF static_agent(2)]
  have "inside_agent (agent_step A op w)"
  proof (cases op)
    case (OnRuntime p)
    with assms(2-4) show ?thesis by (simp add: inside_agent_def assms(1))
  qed (use assms(2) in \<open>simp_all add: assms(1) ignore_keeps [where I = inside_agent] w static turns [OF assms(1)] loops [OF assms(1)]\<close>)
  then show ?thesis by (simp add: inside_agent_def)
qed

end

subsection \<open>What the operations of the runtime keep\<close>

text \<open>The state outside is the result of the calls, on every store.\<close>

interpretation outside: kept_by_operations R "outside_ok R o0" for R o0
  by unfold_locales (rule calls.operations calls.turns)+

text \<open>Under a clock that stands still, every row of the log has its time.\<close>

interpretation stamped: kept_by_operations R "stamped_on R t" for R t
  by unfold_locales (rule stamps.operations stamps.turns)+

text \<open>On the SQLite stores, a sound system stays sound.\<close>

definition sound_on :: "(EventDB, EffectDB, 'w) runtime \<Rightarrow> (EventDB, EffectDB, 'w) runtime_world \<Rightarrow> bool" where
  "sound_on R w \<longleftrightarrow> (sqlite_runtime R \<longrightarrow> sound_world R w)"

lemma keeps_sound:
  fixes R :: "(EventDB, EffectDB, 'w) runtime"
  assumes "sqlite_runtime R \<Longrightarrow> triple (sqlite_runtime.safe (ru_hash R) (ru_registry R)) m
      (\<lambda>_. sqlite_runtime.safe (ru_hash R) (ru_registry R)) (sqlite_runtime.safe (ru_hash R) (ru_registry R))"
  shows "keeps (sound_on R) m"
  using keeps_triple [OF assms] by (auto simp: keeps_def sound_on_def sound_world_safe)

interpretation sound: kept_by_operations R "sound_on R" for R
  by unfold_locales (auto intro!: keeps_sound sqlite_runtime.operations_safe [OF sqlite_runtime_on])

end
