(* ===== verification/SystemProperties.thy ===== *)
theory SystemProperties
  imports FileAgents ResumedRuns AgentSafety
begin

section \<open>Properties of runs of agents\<close>

text \<open>
  Whatever agents do, in whatever order and across crashes, happens through the runtime; and a
  step whose process died after the tool's receipt was recorded is taken up from there.
\<close>

lemma run_agents_sound:
  assumes "sqlite_runtime R" and "\<forall>(A, op) \<in> set ops. (\<exists>c. ag_runtime A = with_crashes c R) \<and> wf_agent_op op"
    and "w = aw_runtime (run_agents ops \<lparr>aw_runtime = start_world outside, aw_adapter = a\<rparr>)"
  shows "sound_world R w" and "outside_ok R outside w"
proof -
  have "sound_world R (aw_runtime (run_agents ops \<lparr>aw_runtime = start_world outside, aw_adapter = a\<rparr>))"
  proof (rule run_agents_keeps, goal_cases)
    case (1 A op v)
    then obtain c where c: "ag_runtime A = with_crashes c R" "wf_agent_op op" using assms(2) by blast
    have "sound_on (with_crashes c R) (aw_runtime (agent_step A op v))"
      using 1(2) assms(1) runtime_step_sound [of "with_crashes c R"]
      by (intro sound.agent_step_keeps [OF c]) (simp_all add: sound_on_def)
    then show ?case using assms(1) by (simp add: sound_on_def)
  qed (simp add: sound_start)
  then show "sound_world R w" by (simp add: assms(3))
  have "outside_ok R outside (aw_runtime (run_agents ops \<lparr>aw_runtime = start_world outside, aw_adapter = a\<rparr>))"
  proof (rule run_agents_keeps, goal_cases)
    case (1 A op v)
    then obtain c where c: "ag_runtime A = with_crashes c R" "wf_agent_op op" using assms(2) by blast
    have "outside_ok (with_crashes c R) outside (aw_runtime (agent_step A op v))"
      using 1(2) by (intro outside.agent_step_keeps [OF c] step_keeps) simp_all
    then show ?case by simp
  qed (simp add: start_outside)
  then show "outside_ok R outside w" by (simp add: assms(3))
qed

subsection \<open>Which calls agents can make\<close>

text \<open>C1: no tool call without a grant: after any sequence of operations of agents (static runs and their
  recovery, turns, loops and resumptions, and whatever the application does on the runtime in
  between), whatever their models propose and wherever processes crash, every tool call was made
  for a request its run's log records, with the request's tool and arguments and the key derived
  from it, and the log shows a grant of the call directly before its start.\<close>

theorem agent_calls_authorized:
  assumes "sqlite_runtime R" and "\<forall>(A, op) \<in> set ops. (\<exists>c. ag_runtime A = with_crashes c R) \<and> wf_agent_op op"
    and "w = aw_runtime (run_agents ops \<lparr>aw_runtime = start_world outside, aw_adapter = a\<rparr>)"
    and "c \<in> set (tw_calls (rw_tools w))"
  shows "\<exists>q as g b bs. history (rw_events w) (tr_run_id q) = as @ [g, b] @ bs \<and> recorded as q \<and>
    grants g (tr_tool_call_id q) \<and> about_call TOOL_STARTED b (tr_tool_call_id q) \<and>
    tc_tool_name c = tr_tool_name q \<and> tc_arguments c = request_arguments q \<and>
    derive_effect_id (ru_hash R) (tr_run_id q) (tr_tool_call_id q) = Inr (tc_key c)"
  by (rule sound_calls_authorized [OF run_agents_sound(1) [OF assms(1-3)] assms(4)])

text \<open>The sample agent starts its run; a static agent is then killed once its tool has answered.\<close>

definition killed_ops :: "((EventDB, EffectDB, unit, unit) agent \<times> agent_op) list" where
  "killed_ops = map (\<lambda>(c, p). (sample_agent, OnRuntime p)) started_ops @
     [(sample_agent, RunStatic (Some PyRuntimeError) (read_request ''a'') \<lparr>ve_path = ''a'', ve_sha256 = ''old''\<rparr>)]"

lemma on_runtime_ops:
  assumes "\<forall>(c, p) \<in> set ops. with_crashes c (ag_runtime A) = ag_runtime A"
  shows "aw_runtime (run_agents (map (\<lambda>(c, p). (A, OnRuntime p)) ops) w) = run_system (ag_runtime A) ops (aw_runtime w)"
  using assms by (induction ops arbitrary: w) (auto simp: run_agents_def run_system_def)

lemma killed_run:
  "served_world = aw_runtime (run_agents killed_ops \<lparr>aw_runtime = start_world (), aw_adapter = ()\<rparr>)"
proof -
  let ?w = "run_agents (map (\<lambda>(c, p). (sample_agent, OnRuntime p)) started_ops) \<lparr>aw_runtime = start_world (), aw_adapter = ()\<rparr>"
  obtain r where r: "submit sample_runtime (read_request ''a'') ready_world = (Inr r, served_world)"
    by (rule sample_submitted) auto
  have "aw_runtime ?w = ready_world"
    by (subst on_runtime_ops) (auto simp: ready_world_def started_ops_def)
  then have "aw_runtime (agent_step sample_agent (RunStatic (Some PyRuntimeError) (read_request ''a'')
      \<lparr>ve_path = ''a'', ve_sha256 = ''old''\<rparr>) ?w) = served_world"
    using r by (simp add: ignore_def runtimeA_def run_agent_def bindA_def liftA_def raiseA_def split: sum.split)
  then show ?thesis by (simp add: killed_ops_def run_agents_def)
qed

lemma killed_ops_wf:
  "\<forall>(A, op) \<in> set killed_ops. (\<exists>c. ag_runtime A = with_crashes c sample_runtime) \<and> wf_agent_op op"
proof -
  have "\<exists>c. sample_runtime = with_crashes c sample_runtime" by (rule exI [of _ calm]) simp
  moreover have "\<forall>x \<in> set killed_ops. fst x = sample_agent \<and> wf_agent_op (snd x)"
    using wf_started_ops wf_read_request by (auto simp: killed_ops_def)
  ultimately show ?thesis by fastforce
qed

theorem agent_calls_authorized_witness:
  "\<exists>c q as g b bs. tw_calls (rw_tools served_world) = [c] \<and>
     history (rw_events served_world) (tr_run_id q) = as @ [g, b] @ bs \<and>
     recorded as q \<and> grants g (tr_tool_call_id q) \<and> tc_tool_name c = tr_tool_name q"
proof -
  obtain c where c: "tw_calls (rw_tools served_world) = [c]" by (simp add: served_calls)
  then have "c \<in> set (tw_calls (rw_tools served_world))" by simp
  from agent_calls_authorized [OF sqlite_sample_runtime(1) killed_ops_wf killed_run this] c
  show ?thesis by blast
qed

text \<open>C2: a tool that may not be retried is called at most once per effect, whatever agents do and wherever
  processes crash: submissions, gate decisions, recoveries and resumptions together.\<close>

theorem agent_calls_once:
  assumes "sqlite_runtime R" and "\<forall>(A, op) \<in> set ops. (\<exists>c. ag_runtime A = with_crashes c R) \<and> wf_agent_op op"
    and "w = aw_runtime (run_agents ops \<lparr>aw_runtime = start_world outside, aw_adapter = a\<rparr>)"
    and "c \<in> set (tw_calls (rw_tools w))"
    and "resolve (ru_registry R) (tc_tool_name c) = Inr def" and "\<not> td_retry_is_idempotent def"
  shows "length (filter (\<lambda>d. tc_key d = tc_key c) (tw_calls (rw_tools w))) = 1"
  by (rule sound_calls_once [OF run_agents_sound(1) [OF assms(1-3)] assms(4-6)])

theorem agent_calls_once_witness:
  "\<exists>c. tw_calls (rw_tools served_world) = [c] \<and> tc_tool_name c = ''read'' \<and>
     length (filter (\<lambda>d. tc_key d = tc_key c) (tw_calls (rw_tools served_world))) = 1"
proof -
  obtain c where c: "tw_calls (rw_tools served_world) = [c]" "tc_tool_name c = ''read''"
    by (simp add: served_calls)
  have r: "resolve (ru_registry sample_runtime) (tc_tool_name c) = Inr once_read" by (simp add: c(2) resolve_once)
  have "c \<in> set (tw_calls (rw_tools served_world))" by (simp add: c(1))
  from agent_calls_once [OF sqlite_sample_runtime(1) killed_ops_wf killed_run this r] c
  show ?thesis by (simp add: once_read_def)
qed

text \<open>C21: agents with the file tools: whatever agents do, in whatever order, with whatever crashes and
  failing operating-system calls, the file system is the result of the tool calls in the log of
  calls, one after the other, each of them authorized by the log of its run; nothing outside the
  workspace has changed. (The confinement relies on \<open>os.path.lexists\<close> not missing a link that the
  workspace had at the start.)\<close>

theorem agents_confine_file_effects:
  assumes "sqlite_runtime R" and "\<forall>(A, op) \<in> set ops. (\<exists>c. ag_runtime A = with_crashes c R) \<and> wf_agent_op op"
    and "w = aw_runtime (run_agents ops \<lparr>aw_runtime = start_world (fs, 0), aw_adapter = a\<rparr>)"
    and "ru_runner R = file_runner describe envs" and "\<And>n. fe_root (envs n) = root" and "workspace_ok fs root"
    and "\<And>n. probes_see (envs n) fs"
  shows "tw_outside (rw_tools w) = foldl (call_effect (ru_runner R)) (fs, 0) (tw_calls (rw_tools w)) \<and>
    (\<forall>c \<in> set (tw_calls (rw_tools w)). authorized_call (ru_hash R) (history (rw_events w)) c) \<and>
    (\<forall>p. \<not> inside root p \<longrightarrow> fst (tw_outside (rw_tools w)) p = fs p) \<and>
    workspace_ok (fst (tw_outside (rw_tools w))) root"
  by (rule sound_outside_confined [OF run_agents_sound [OF assms(1-3)] assms(4-7)])

text \<open>The file agent starts its run and loops, dies after the receipt of a static run and resumes.\<close>

definition file_ops :: "((EventDB, EffectDB, file_system \<times> nat, unit) agent \<times> agent_op) list" where
  "file_ops = map (\<lambda>(c, p). (file_agent, OnRuntime p)) started_ops @
     [(file_agent, RunLoop 2 file_expectations observed_expectation),
      (file_agent, RunStatic (Some PyRuntimeError) (file_request ''a'') \<lparr>ve_path = ''a'', ve_sha256 = ''old''\<rparr>),
      (file_agent, ResumeLoop 2 file_expectations observed_expectation)]"

theorem agents_confine_file_effects_witness:
  "fst (tw_outside (rw_tools (aw_runtime (run_agents file_ops
     \<lparr>aw_runtime = start_world (sample_files, 0), aw_adapter = ()\<rparr>)))) [''s''] = Some (RegularFile ''secret'')"
proof -
  have "ag_runtime file_agent = with_crashes calm file_runtime"
    by (simp add: file_agent_def with_crashes_def calm_def file_runtime_def)
  moreover have "\<forall>x \<in> set file_ops. fst x = file_agent \<and> wf_agent_op (snd x)"
    using wf_started_ops wf_file_request [of "''a''"] by (auto simp: file_ops_def)
  ultimately have ops: "\<forall>(A, op) \<in> set file_ops. (\<exists>c. ag_runtime A = with_crashes c file_runtime) \<and> wf_agent_op op"
    by fastforce
  have runner: "ru_runner file_runtime = file_runner (\<lambda>e tool arguments. error_class e) (\<lambda>_. sample_env)"
    by (simp add: file_runtime_def)
  have root: "fe_root sample_env = [''w'']" by (simp add: sample_env_def)
  have "\<not> inside [''w''] [''s'']" by (simp add: inside_def)
  then have "fst (tw_outside (rw_tools (aw_runtime (run_agents file_ops
      \<lparr>aw_runtime = start_world (sample_files, 0), aw_adapter = ()\<rparr>)))) [''s''] = sample_files [''s'']"
    using agents_confine_file_effects [OF file_runtime_simps(4) ops refl runner _ sample_workspace sample_probes(1)] root by blast
  then show ?thesis by (simp add: sample_files_def)
qed

subsection \<open>An interrupted step\<close>

text \<open>C7: an interrupted step resumes: when a granted submission returned its receipt and the process
  died before the receipt was verified, another process resumes the run from its log and its
  stores: it verifies the recorded receipt, never calls a tool again, shows the model the verified
  observation and completes the run with the answer the model then gives.\<close>

theorem interrupted_step_resumes:
  assumes "sqlite_runtime (ag_runtime A)" and "undisturbed (ag_runtime A)"
    and "\<forall>c i. ru_injector (ag_runtime A) c i = None" and "sound_world (ag_runtime A) w"
    and "H = ru_hash (ag_runtime A)" and "hex_hash H" and "ag_run_id A = tr_run_id q" and "ag_injector A = None"
    and "wf_request q" and "replay H (tr_run_id q) (history (rw_events w) (tr_run_id q)) = Inr s"
    and "status s = READY \<or> (status s = ACTION_PENDING \<and> tr_model_action_event_id q \<noteq> None \<and>
      active_model_action_event_id s = tr_model_action_event_id q)"
    and "max_steps s = Some m" and "turn_index s + 1 < m"
    and "authorize q (ru_context (ag_runtime A)) = Inr g" and "ad_outcome g = ALLOW"
    and "resolve (ru_registry (ag_runtime A)) (tr_tool_name q) = Inr def"
    and "k = H (effect_identity (tr_run_id q) (tr_tool_call_id q))"
    and "load_intent H (tw_store (rw_tools w)) k = Inr None"
    and "ru_runner (ag_runtime A) (tr_tool_name q) (request_arguments q) k (tw_outside (rw_tools w)) =
      (Returned out, outside)"
    and "canon (JObj out)" and "get out ''path'' = JStr (ve_path e)" and "get out ''sha256'' = JStr (ve_sha256 e)"
    and "\<And>c. xs c (action_of_request q) = Inr (Some e)"
    and "\<And>c'. mi_turn_index c' = turn_index s + 1 \<Longrightarrow> has_verified_observation c' \<Longrightarrow>
      \<exists>b'. ag_adapter A c' b = (Inr (Some (FinalAnswer (ce_expected_answer x))), b')"
    and "ce_expected_answer x \<noteq> []"
  shows "\<exists>r v res w' vr cv. submit (ag_runtime A) q w = (Inr r, v) \<and>
    resume_loop (Suc fuel) A xs x \<lparr>aw_runtime = v, aw_adapter = b\<rparr> = (Inr (Some res), w') \<and>
    ml_outcome res = LOOP_COMPLETED \<and> status (ml_state res) = COMPLETED \<and>
    ml_actions res = [ToolCall (action_of_request q), FinalAnswer (ce_expected_answer x)] \<and>
    ml_tool_results res = [] \<and> Some (ml_recovered_receipts res) = map_option (\<lambda>c. [c]) (rt_receipt r) \<and>
    ml_verifications res = [vr] \<and> vr_outcome vr = PASSED \<and> ml_completions res = [cv] \<and>
    rw_tools (aw_runtime w') = rw_tools v \<and>
    tw_calls (rw_tools v) = tw_calls (rw_tools w) @
      [\<lparr>tc_tool_name = tr_tool_name q, tc_arguments = request_arguments q, tc_key = k\<rparr>]"
proof -
  let ?T = "rw_tools w"
  have w: "effects_ok H (tw_store ?T)" "world_ok select_intent receipt_at (ru_registry (ag_runtime A)) ?T"
    using assms(4,5) by (simp_all add: sound_world_def)
  have i: "select_intent (tw_store ?T) k = None"
    using assms(18) sqlite.load_intent [OF w(1)] by (simp add: sqlite_effects_def)
  note new = i no_receipt_without_intent [OF w(2) i]
  show ?thesis
    unfolding assms(17)
    by (rule sqlite_runtime.submitted_then_resumed [where b = b and x = x and xs = xs, OF
          sqlite_runtime_on [OF assms(1), folded assms(5)] assms(2,3) sound_world_at [OF assms(4), folded assms(5)]
          assms(9,7,10-16,6,8) new [unfolded assms(17)] assms(19) [unfolded assms(17)] assms(20-25)])
qed

theorem interrupted_step_resumes_witness:
  "\<exists>r v res w'. submit file_runtime (file_request ''a'') (aw_runtime file_agent_start) = (Inr r, v) \<and>
    resume_loop 1 file_agent file_expectations observed_expectation \<lparr>aw_runtime = v, aw_adapter = ()\<rparr> =
      (Inr (Some res), w') \<and> ml_outcome res = LOOP_COMPLETED \<and> length (tw_calls (rw_tools (aw_runtime w'))) = 1"
proof -
  let ?q = "file_request ''a''" and ?A = file_agent
  have q: "?q = ?q\<lparr>tr_model_action_event_id := None\<rparr>" by (simp add: file_request_def read_request_def)
  obtain g where g: "authorize ?q file_context = Inr g" "ad_outcome g = ALLOW" by (rule file_request_granted [OF q])
  have fields: "tr_run_id ?q = ''r''" "tr_tool_name ?q = ''read_file''"
    by (simp_all add: file_request_def read_request_def)
  have args: "request_arguments ?q = [(''path'', JStr ''a'')]"
    using read_arguments [of "''a''"] by (simp add: request_arguments_def file_request_def)
  have "\<exists>r v res w' vr cv. submit (ag_runtime ?A) ?q (aw_runtime file_agent_start) = (Inr r, v) \<and>
    resume_loop (Suc 0) ?A file_expectations observed_expectation \<lparr>aw_runtime = v, aw_adapter = ()\<rparr> =
      (Inr (Some res), w') \<and>
    ml_outcome res = LOOP_COMPLETED \<and> status (ml_state res) = COMPLETED \<and>
    ml_actions res = [ToolCall (action_of_request ?q), FinalAnswer (ce_expected_answer observed_expectation)] \<and>
    ml_tool_results res = [] \<and> Some (ml_recovered_receipts res) = map_option (\<lambda>c. [c]) (rt_receipt r) \<and>
    ml_verifications res = [vr] \<and> vr_outcome vr = PASSED \<and> ml_completions res = [cv] \<and>
    rw_tools (aw_runtime w') = rw_tools v \<and>
    tw_calls (rw_tools v) = tw_calls (rw_tools (aw_runtime file_agent_start)) @
      [\<lparr>tc_tool_name = tr_tool_name ?q, tc_arguments = request_arguments ?q, tc_key = zeros\<rparr>]"
    by (rule interrupted_step_resumes [where H = zero_hash and s = begun_state and m = 2 and g = g and
          out = read_output and outside = "(sample_files, 1)" and e = "\<lparr>ve_path = ''a'', ve_sha256 = ''old''\<rparr>"])
       (simp_all add: file_agent_def file_started no_crash_def wf_file_request fields args g read_file_definition
          read_runs read_output_simps replay_begun static_next_action_def file_expectations_def
          observed_expectation_def zero_hash_def fresh_world_def empty_effects_def load_intent_def select_intent_def)
  then show ?thesis by (auto simp: file_agent_def file_started fresh_world_def)
qed

end
