(* ===== verification/FileDemo.thy ===== *)
theory FileDemo
  imports FileRuntime FakeAgents
begin

section \<open>The file-tool demonstration (examples/r4a\_restricted\_file\_demo.py)\<close>

text \<open>
  The script as an action over one runtime world: a temporary directory with a workspace and one
  database, a runtime of the file tools for every scenario, the summary it prints, and the removal
  of the directory when the block ends, whether it returns or raises. The directory's runtime.db
  is the world's two stores: empty when the directory is made, gone when it is removed. The calls
  the script makes on the file system itself are taken not to fail; how the workspace boundary
  resolves paths, the texts of exceptions and the environments of the tools are parameters.
\<close>

subsection \<open>The configuration\<close>

record demo =
  dm_hash :: hash
  dm_root :: abs_path
  dm_resolver :: resolver
  dm_describe :: "error \<Rightarrow> string \<Rightarrow> payload \<Rightarrow> string"
  dm_sha256 :: "bytes \<Rightarrow> string"
  dm_envs :: "nat \<Rightarrow> file_env"

type_synonym demo_runtime = "(EventDB, EffectDB, file_system \<times> nat) runtime"
type_synonym 'a demo_operation = "(EventDB, EffectDB, file_system \<times> nat, 'a) operation"

definition DEMO_TIME :: datetime where
  "DEMO_TIME = \<lparr>year = 2026, month = 8, day = 11, hour = 0, minute = 0, second = 0,
     microsecond = 0, utcoffset = Some 0\<rparr>"

definition demo_workspace :: "demo \<Rightarrow> abs_path" where
  "demo_workspace D = dm_root D @ [''workspace'']"

definition demo_context :: "ToolRegistry \<Rightarrow> demo \<Rightarrow> AuthorizationContext" where
  "demo_context registry D = \<lparr>ac_registry = registry, ac_resolver = dm_resolver D, ac_root = demo_workspace D,
     ac_risk_rules =
       [\<lparr>rk_tag = ''write_operation'', rk_path_patterns = [], rk_tool_names = {''write_file''}\<rparr>,
        \<lparr>rk_tag = ''destructive_tool'', rk_path_patterns = [], rk_tool_names = {''delete_file''}\<rparr>],
     ac_policy = \<lparr>op_default_mode = AUTO, op_rules =
       [\<lparr>or_risk_tags = {''write_operation''}, or_minimum_mode = PAIR,
          or_reason = ''writes require pair review''\<rparr>,
        \<lparr>or_risk_tags = {''destructive_tool''}, or_minimum_mode = USER_GATE,
          or_reason = ''deletion requires explicit user approval''\<rparr>]\<rparr>,
     ac_minimum_mode = AUTO\<rparr>"

definition make_demo_runtime :: "demo \<Rightarrow> demo_runtime result" where
  "make_demo_runtime D =
     bindR make_restricted_file_registry (\<lambda>registry.
     runtime_init \<lparr>ru_hash = dm_hash D, ru_log = sqlite_events (dm_hash D),
       ru_effects = sqlite_effects (dm_hash D), ru_registry = registry,
       ru_runner = file_runner (dm_describe D) (dm_envs D), ru_injector = no_crash,
       ru_context = demo_context registry D, ru_snapshots = False, ru_snapshot_injector = None,
       ru_gate_evaluator = (\<lambda>gate answer. map_sum id Some (evaluate_gate gate answer)),
       ru_max_attempts = 3, ru_clock = (\<lambda>_. DEMO_TIME)\<rparr>)"

text \<open>The events of \<open>enumerate((RUN_CREATED, RUN_STARTED))\<close>, from a given number on.\<close>

fun append_initial :: "demo_runtime \<Rightarrow> string \<Rightarrow> int \<Rightarrow> EventType list \<Rightarrow> unit demo_operation" where
  "append_initial R run_id sequence [] = returnA ()"
| "append_initial R run_id sequence (k # ks) =
     bindA (liftA (build_event (runtime_event_id run_id sequence k) run_id sequence k DEMO_TIME [])) (\<lambda>e.
     bindA (storeEventA R e) (\<lambda>_. append_initial R run_id (sequence + 1) ks))"

definition initialize_run :: "demo_runtime \<Rightarrow> string \<Rightarrow> unit demo_operation" where
  "initialize_run R run_id = append_initial R run_id 0 [RUN_CREATED, RUN_STARTED]"

definition demo_request :: "string \<Rightarrow> string \<Rightarrow> payload \<Rightarrow> ToolRequest result" where
  "demo_request run_id tool_name arguments =
     build_request run_id ''demo-step'' ''demo-call'' tool_name arguments None"

definition event_values :: "demo_runtime \<Rightarrow> string \<Rightarrow> json demo_operation" where
  "event_values R run_id =
     bindA (eventsA R run_id) (\<lambda>es. returnA (JArr (map (\<lambda>e. JStr (type_value (ev_event_type e))) es)))"

subsection \<open>Python's assert and subscript\<close>

definition assert_some :: "'a option \<Rightarrow> 'a result" where
  "assert_some x = (case x of None \<Rightarrow> Inl AssertionError | Some y \<Rightarrow> Inr y)"

definition item :: "payload \<Rightarrow> string \<Rightarrow> json result" where
  "item d k = (case map_of d k of None \<Rightarrow> Inl PyKeyError | Some v \<Rightarrow> Inr v)"

text \<open>The items of a receipt's output the script copies.\<close>

fun items :: "payload \<Rightarrow> string list \<Rightarrow> payload result" where
  "items d [] = Inr []"
| "items d (k # ks) = bindR (item d k) (\<lambda>v. bindR (items d ks) (\<lambda>vs. Inr ((k, v) # vs)))"

subsection \<open>The script's own calls on the file system\<close>

definition outsideA :: "(file_system \<Rightarrow> file_system) \<Rightarrow> unit demo_operation" where
  "outsideA f w = (Inr (), w\<lparr>rw_tools := (rw_tools w)\<lparr>tw_outside := apfst f (tw_outside (rw_tools w))\<rparr>\<rparr>)"

definition write_text :: "abs_path \<Rightarrow> string \<Rightarrow> unit demo_operation" where
  "write_text p content = outsideA (\<lambda>fs. put_node fs p (Some (RegularFile (utf8_encode content))))"

definition path_exists :: "abs_path \<Rightarrow> bool demo_operation" where
  "path_exists p = askA (\<lambda>w. Inr (Option.bind (kernel_lookup MAX_LINKS (fst (tw_outside (rw_tools w))) [] p)
     (fst (tw_outside (rw_tools w))) \<noteq> None))"

definition toolsA :: "((EffectDB, file_system \<times> nat) tool_world, 'a) action \<Rightarrow> 'a demo_operation" where
  "toolsA m w = (case m (rw_tools w) of (r, t) \<Rightarrow> (r, w\<lparr>rw_tools := t\<rparr>))"

fun runtime_outcome_value :: "RuntimeToolOutcome \<Rightarrow> string" where
  "runtime_outcome_value EXECUTED = ''executed''"
| "runtime_outcome_value DENIED = ''denied''"
| "runtime_outcome_value RESULT_AWAITING_GATE = ''awaiting_gate''"
| "runtime_outcome_value RESULT_GATE_RETRY = ''gate_retry''"
| "runtime_outcome_value BLOCKED = ''blocked''"
| "runtime_outcome_value RESULT_REJECTED = ''rejected''"

subsection \<open>The scenarios\<close>

definition demo_text :: string where
  "demo_text = ''temporary demo content''"

text \<open>A read needs no review.\<close>

definition demo_read :: "demo \<Rightarrow> json demo_operation" where
  "demo_read D =
     bindA (liftA (make_demo_runtime D)) (\<lambda>R.
     bindA (initialize_run R ''demo-read'') (\<lambda>_.
     bindA (liftA (demo_request ''demo-read'' ''read_file'' [(''path'', JStr ''input.txt'')])) (\<lambda>request.
     bindA (submit R request) (\<lambda>read_result.
     bindA (liftA (assert_some (rt_receipt read_result))) (\<lambda>receipt.
     bindA (event_values R ''demo-read'') (\<lambda>values.
     bindA (liftA (items (receipt_output receipt) [''bytes'', ''path'', ''sha256''])) (\<lambda>out.
     returnA (JObj (take 1 out @ [(''events'', values)] @ take 1 (drop 1 out) @
       [(''receipt_outcome'', JStr (outcome_value (rc_outcome receipt)))] @ drop 2 out)))))))))"

text \<open>A write waits for the review of its exact proposal.\<close>

definition demo_write :: "demo \<Rightarrow> json demo_operation" where
  "demo_write D =
     bindA (liftA (make_demo_runtime D)) (\<lambda>R.
     bindA (initialize_run R ''demo-write'') (\<lambda>_.
     bindA (liftA (demo_request ''demo-write'' ''write_file''
       [(''content'', JStr demo_text), (''path'', JStr ''output.txt'')])) (\<lambda>request.
     bindA (submit R request) (\<lambda>paused_write.
     bindA (liftA (assert_some (rt_gate_proposal paused_write))) (\<lambda>proposal.
     bindA (liftA (approve (gp_reference proposal) ''demo-reviewer'' ''reviewed exact temporary output'')) (\<lambda>resolution.
     bindA (resolve_gate R resolution) (\<lambda>write_result.
     bindA (liftA (assert_some (rt_receipt write_result))) (\<lambda>receipt.
     bindA (event_values R ''demo-write'') (\<lambda>values.
     bindA (liftA (items (receipt_output receipt) [''bytes'', ''path'', ''replaced'', ''sha256''])) (\<lambda>out.
     returnA (JObj (take 1 out @ [(''events'', values)] @ take 1 (drop 1 out) @
       [(''receipt_outcome'', JStr (outcome_value (rc_outcome receipt)))] @ drop 2 out))))))))))))"

text \<open>A deletion needs an answer that names it and explains its risk.\<close>

definition demo_delete :: "demo \<Rightarrow> json demo_operation" where
  "demo_delete D =
     bindA (liftA (make_demo_runtime D)) (\<lambda>R.
     bindA (initialize_run R ''demo-delete'') (\<lambda>_.
     bindA (liftA (demo_request ''demo-delete'' ''delete_file'' [(''path'', JStr ''delete-me.txt'')])) (\<lambda>request.
     bindA (submit R request) (\<lambda>paused_delete.
     bindA (liftA (assert_some (rt_gate_proposal paused_delete))) (\<lambda>proposal.
     bindA (liftA (build_answer (gp_reference proposal) ''demo-operator''
       [(''path'', JStr ''delete-me.txt''), (''refuse'', JBool False),
        (''risk_explanation'', JStr ''Deleting this temporary file permanently removes selected demo data.''),
        (''tool_name'', JStr ''delete_file'')])) (\<lambda>answer.
     bindA (submit_gate_answer R answer) (\<lambda>delete_result.
     bindA (liftA (assert_some (rt_receipt delete_result))) (\<lambda>receipt.
     bindA (event_values R ''demo-delete'') (\<lambda>values.
     bindA (liftA (items (receipt_output receipt) [''deleted'', ''path''])) (\<lambda>out.
     returnA (JObj (take 1 out @ [(''events'', values)] @ drop 1 out @
       [(''receipt_outcome'', JStr (outcome_value (rc_outcome receipt)))]))))))))))))"

text \<open>A path that leaves the workspace is denied before anything is stored for it.\<close>

definition demo_escape :: "demo \<Rightarrow> json demo_operation" where
  "demo_escape D =
     bindA (liftA (make_demo_runtime D)) (\<lambda>R.
     bindA (initialize_run R ''demo-escape'') (\<lambda>_.
     bindA (liftA (demo_request ''demo-escape'' ''write_file''
       [(''content'', JStr ''blocked''), (''path'', JStr ''../outside.txt'')])) (\<lambda>request.
     bindA (submit R request) (\<lambda>escape_result.
     bindA (liftA (derive_effect_id (dm_hash D) (tr_run_id request) (tr_tool_call_id request))) (\<lambda>effect_id.
     bindA (askA (\<lambda>w. st_load_intent (ru_effects R) (tw_store (rw_tools w)) effect_id)) (\<lambda>intent.
     bindA (path_exists (dm_root D @ [''outside.txt''])) (\<lambda>outside_changed.
     returnA (JObj [(''intent_persisted'', JBool (intent \<noteq> None)),
       (''outcome'', JStr (runtime_outcome_value (rt_outcome escape_result))),
       (''outside_changed'', JBool outside_changed)]))))))))"

text \<open>An effect whose outcome is unknown is not repeated: the executor must raise.\<close>

definition fail_closed :: "demo_runtime \<Rightarrow> ToolIntent \<Rightarrow> string demo_operation" where
  "fail_closed R intent =
     bindA (toolsA (storeA (\<lambda>d. st_save_intent (ru_effects R) d intent))) (\<lambda>_.
     bindA (tryA (toolsA (execute (ru_effects R) (ru_registry R) (ru_runner R) (ru_injector R) intent))) (\<lambda>attempt.
     case attempt of
       Inl UnsafeToolRetryError \<Rightarrow> returnA ''UnsafeToolRetryError''
     | Inl e \<Rightarrow> raiseA e
     | Inr _ \<Rightarrow> raiseA AssertionError))"

definition demo_recovery :: "demo \<Rightarrow> json demo_operation" where
  "demo_recovery D =
     bindA (write_text (demo_workspace D @ [''preserve-me.txt'']) ''preserved'') (\<lambda>_.
     bindA (liftA (build_intent (dm_hash D) ''demo-write-recovery'' ''demo-call'' ''write_file''
       [(''content'', JStr ''not retried''), (''path'', JStr ''unknown.txt'')])) (\<lambda>write_intent.
     bindA (liftA (build_intent (dm_hash D) ''demo-delete-recovery'' ''demo-call'' ''delete_file''
       [(''path'', JStr ''preserve-me.txt'')])) (\<lambda>delete_intent.
     bindA (liftA (make_demo_runtime D)) (\<lambda>R.
     bindA (fail_closed R write_intent) (\<lambda>write_error.
     bindA (fail_closed R delete_intent) (\<lambda>delete_error.
     bindA (path_exists (demo_workspace D @ [''unknown.txt''])) (\<lambda>target_exists.
     bindA (path_exists (demo_workspace D @ [''preserve-me.txt''])) (\<lambda>target_preserved.
     returnA (JObj [(''automatic_retry'', JBool False),
       (''delete_file'', JObj [(''error_type'', JStr delete_error), (''target_preserved'', JBool target_preserved)]),
       (''write_file'', JObj [(''error_type'', JStr write_error), (''target_exists'', JBool target_exists)])])))))))))"

subsection \<open>The temporary directory\<close>

text \<open>
  \<open>with TemporaryDirectory() as root\<close>: what runs inside the block, and the removal of the tree and
  of the database in it when the block is left.
\<close>

definition in_directory :: "demo \<Rightarrow> 'a demo_operation \<Rightarrow> 'a demo_operation" where
  "in_directory D body = bindA (outsideA (\<lambda>fs. put_node fs (dm_root D) (Some Directory))) (\<lambda>_. body)"

definition remove_tree :: "abs_path \<Rightarrow> file_system \<Rightarrow> file_system" where
  "remove_tree root fs = (\<lambda>p. if p = root \<or> inside root p then None else fs p)"

definition removed :: "demo \<Rightarrow> (EventDB, EffectDB, file_system \<times> nat) runtime_world \<Rightarrow>
    (EventDB, EffectDB, file_system \<times> nat) runtime_world" where
  "removed D w = w\<lparr>rw_events := empty_events, rw_tools := (rw_tools w)\<lparr>tw_store := empty_effects,
     tw_outside := apfst (remove_tree (dm_root D)) (tw_outside (rw_tools w))\<rparr>\<rparr>"

definition temporary_directory :: "demo \<Rightarrow> 'a demo_operation \<Rightarrow> 'a demo_operation" where
  "temporary_directory D body w = (case in_directory D body w of (r, v) \<Rightarrow> (r, removed D v))"

subsection \<open>The script\<close>

text \<open>The body of the block, with the summary in key order.\<close>

definition demo_script :: "demo \<Rightarrow> payload demo_operation" where
  "demo_script D =
     bindA (outsideA (\<lambda>fs. put_node fs (demo_workspace D) (Some Directory))) (\<lambda>_.
     bindA (write_text (demo_workspace D @ [''input.txt'']) demo_text) (\<lambda>_.
     bindA (write_text (demo_workspace D @ [''delete-me.txt'']) ''disposable'') (\<lambda>_.
     bindA (demo_read D) (\<lambda>read_summary.
     bindA (demo_write D) (\<lambda>write_summary.
     bindA (demo_delete D) (\<lambda>delete_summary.
     bindA (demo_escape D) (\<lambda>escape_summary.
     bindA (demo_recovery D) (\<lambda>recovery_summary.
     returnA [(''delete_file'', delete_summary), (''denied_escape'', escape_summary),
       (''fail_closed_recovery'', recovery_summary), (''read_file'', read_summary),
       (''write_file'', write_summary)]))))))))"

definition run_demo :: "demo \<Rightarrow> payload demo_operation" where
  "run_demo D = temporary_directory D (demo_script D)"

end
