(* ===== verification/FileDemoRuns.thy ===== *)
theory FileDemoRuns
  imports FileDemo GateRuns
begin

section \<open>What the file-tool demonstration computes\<close>

text \<open>
  The scenarios of the demonstration, each from the state of the world the one before leaves, in
  a temporary directory without links in which no call of the operating system fails.
\<close>

subsection \<open>Names in the workspace\<close>

definition simple_name :: "string \<Rightarrow> bool" where
  "simple_name n \<longleftrightarrow> n \<noteq> [] \<and> n \<noteq> ''.'' \<and> n \<noteq> ''..'' \<and> CHR ''/'' \<notin> set n \<and> CHR 0x5C \<notin> set n \<and> CHR '':'' \<notin> set n \<and>
     CHR 0x00 \<notin> set n"

lemma simple_name_parts:
  assumes "simple_name n"
  shows "portable n = n" and "path_parts n = [n]" and "\<not> starts_with n ''/''" and "\<not> windows_drive n"
    and "component n"
proof -
  show p: "portable n = n" using assms unfolding simple_name_def portable_def by (intro map_idI) auto
  show "path_parts n = [n]"
    using assms by (simp add: simple_name_def path_parts_def split_slash_component)
  show "\<not> starts_with n ''/''"
    using assms by (cases n) (auto simp: simple_name_def starts_with_def)
  show "\<not> windows_drive n"
    using assms by (auto simp: simple_name_def windows_drive_def split: list.splits)
  show "component n" using assms by (simp add: simple_name_def component_def)
qed

text \<open>Resolution without links.\<close>

definition lexical :: "string list \<Rightarrow> string list" where
  "lexical p = the (kernel_lookup 0 (\<lambda>_. None) [] p)"

lemma kernel_lookup_lexical: "kernel_lookup n (\<lambda>_. None) p ws = Some (foldl (\<lambda>q w. if w = ''..'' then butlast q else q @ [w]) p ws)"
  by (induction ws arbitrary: p) (simp_all add: link_target_def)

lemma lexical_plain: "''..'' \<notin> set ws \<Longrightarrow> foldl (\<lambda>q w. if w = ''..'' then butlast q else q @ [w]) p ws = p @ ws"
  by (induction ws arbitrary: p) auto

lemma lexical_simps:
  "''..'' \<notin> set ws \<Longrightarrow> lexical ws = ws"
  "''..'' \<notin> set ws \<Longrightarrow> ws \<noteq> [] \<Longrightarrow> lexical (ws @ [''..'', w]) = (if w = ''..'' then butlast (butlast ws) else butlast ws @ [w])"
  by (simp_all add: lexical_def kernel_lookup_lexical lexical_plain)

lemma boundary_simple:
  assumes "simple_name n" and "resolver (root @ [n]) = Inr (root @ [n])"
  shows "boundary_normalize resolver root n = Inr n"
  using simple_name_parts [OF assms(1)] assms
  by (simp add: boundary_normalize_def Let_def simple_name_def)

subsection \<open>The file tools when nothing fails\<close>

text \<open>No call fails, and the root is a path the kernel takes (no null character).\<close>

definition calm_env :: "file_env \<Rightarrow> bool" where
  "calm_env env \<longleftrightarrow> (\<forall>c. \<not> fe_fails env c) \<and> list_all (\<lambda>w. CHR 0x00 \<notin> set w) (fe_root env)"

lemma calm_probes_see: "calm_env env \<Longrightarrow> probes_see env fs"
  by (rule calm_probes) (simp add: calm_env_def)

lemma resolve_simple:
  assumes "workspace_ok fs (fe_root env)" and "calm_env env" and "simple_name n"
    and "\<not> is_link (fs (fe_root env @ [n]))"
  shows "resolve_for_execution env fs n = Inr (n, fe_root env @ [n])"
proof -
  note n = simple_name_parts [OF assms(3)]
  have root: "plain fs (fe_root env)" using assms(1) by (simp add: workspace_ok_def)
  have plain: "plain fs (fe_root env @ [n])"
    using root assms(3,4) by (simp add: plain_snoc link_target_None_iff simple_name_def)
  have "plain_resolver (fe_root env @ [n]) = Inr (fe_root env @ [n])"
    using assms(2,3) by (auto simp: plain_resolver_def simple_name_def calm_env_def list_ex_iff list_all_iff)
  from boundary_simple [where resolver = plain_resolver, OF assms(3) this] have "workspace_normalize env fs n = Inr n"
    using plain n by (simp add: normalize_plain)
  moreover have "lstat fs (fe_root env @ [n]) = fs (fe_root env @ [n])"
    using root by (intro entry_plain(2)) simp
  ultimately show ?thesis
    using n assms(2-4) by (auto simp: resolve_for_execution_def calm_env_def simple_name_def ensure_def Let_def)
qed

lemma read_simple:
  assumes "workspace_ok fs (fe_root env)" and "calm_env env" and "simple_name n"
    and "fs (fe_root env @ [n]) = Some (RegularFile b)" and "length b \<le> fe_max_bytes env" and "utf8_decode b = Inr t"
  shows "read_file env [(''path'', JStr n)] fs = Inr [(''bytes'', JInt (int (length b))), (''content'', JStr t),
    (''path'', JStr n), (''sha256'', JStr (fe_sha256 env b))]"
  unfolding read_file_Inr [OF assms(1) calm_probes_see [OF assms(2)]]
  using resolve_simple [OF assms(1-3)] assms(2-6) by (simp add: calm_env_def simple_name_def)

lemma write_simple:
  assumes "workspace_ok fs (fe_root env)" and "calm_env env" and "simple_name n"
    and "fs (fe_root env @ [n]) = None" and "length (utf8_encode t) \<le> fe_max_bytes env"
    and "staging_name env (fe_root env) \<noteq> n" and "fs (fe_root env @ [staging_name env (fe_root env)]) = None"
  shows "write_file env [(''content'', JStr t), (''path'', JStr n)] fs =
    (Inr [(''bytes'', JInt (int (length (utf8_encode t)))), (''path'', JStr n), (''replaced'', JBool False),
      (''sha256'', JStr (fe_sha256 env (utf8_encode t)))], fs(fe_root env @ [n] \<mapsto> RegularFile (utf8_encode t)))"
proof -
  let ?a = "[(''content'', JStr t), (''path'', JStr n)]"
  have target: "target_of env ?a = fe_root env @ [n]"
    using simple_name_parts [OF assms(3)] by (simp add: target_of_def)
  have staging: "staging_path env (fe_root env @ [n]) = fe_root env @ [staging_name env (fe_root env)]"
    by (simp add: staging_path_def)
  have calm: "\<not> fe_fails env c" for c using assms(2) by (simp add: calm_env_def)
  have n: "n \<noteq> []" using assms(3) by (simp add: simple_name_def)
  have root: "plain fs (fe_root env)" "fs (fe_root env) = Some Directory"
    using assms(1) by (simp_all add: workspace_ok_def)
  have "lstat fs (fe_root env) = Some Directory" "lstat fs (fe_root env @ [n]) = None"
    using entry_plain(2) [of fs "fe_root env @ [n]"] entry_plain(2) [OF plain_butlast [OF root(1)]] root assms(4) by simp_all
  then have "plan_write env ?a fs = Inr (n, fe_root env @ [n], utf8_encode t, False)"
    using resolve_simple [OF assms(1-3)] assms(4,5) calm n
    by (simp add: plan_write_def require_exact_arguments_def require_text_def require_directory_def lexists_def
        insert_commute)
  moreover have "staging_path env (target_of env ?a) \<noteq> target_of env ?a"
    using assms(6) by (simp add: target staging)
  ultimately show ?thesis
    unfolding write_file_Inr [OF assms(1) calm_probes_see [OF assms(2)] \<open>staging_path env (target_of env ?a) \<noteq> target_of env ?a\<close>]
    using assms(4,7) calm by (auto simp: staging)
qed

lemma delete_simple:
  assumes "workspace_ok fs (fe_root env)" and "calm_env env" and "simple_name n"
    and "fs (fe_root env @ [n]) = Some (RegularFile b)"
  shows "delete_file env [(''path'', JStr n)] fs =
    (Inr [(''deleted'', JBool True), (''path'', JStr n)], fs(fe_root env @ [n] := None))"
proof -
  have "plain fs (fe_root env)" using assms(1) by (simp add: workspace_ok_def)
  then have "lstat fs (fe_root env @ [n]) = fs (fe_root env @ [n])"
      "put_node fs (fe_root env @ [n]) None = fs(fe_root env @ [n] := None)"
    using entry_plain(2,3) [of fs "fe_root env @ [n]"] by simp_all
  then show ?thesis
    using resolve_simple [OF assms(1-3)] assms(2-4)
    by (simp add: delete_file_def plan_delete_def require_exact_arguments_def require_text_def
        require_regular_file_def lexists_def simple_name_def calm_env_def ensure_def)
qed

subsection \<open>The requests and their authorization\<close>

definition file_registry_of :: ToolRegistry where
  "file_registry_of = map (\<lambda>d. (td_tool_name d, d)) restricted_file_tool_definitions"

definition asked :: "string \<Rightarrow> string \<Rightarrow> payload \<Rightarrow> ToolRequest" where
  "asked run tool arguments = \<lparr>tr_run_id = run, tr_step_id = ''demo-step'', tr_tool_call_id = ''demo-call'',
     tr_tool_name = tool, tr_arguments_json = render (JObj arguments), tr_model_action_event_id = None\<rparr>"

lemma asked_simps [simp]:
  "tr_run_id (asked run tool a) = run" "tr_step_id (asked run tool a) = ''demo-step''"
  "tr_tool_call_id (asked run tool a) = ''demo-call''" "tr_tool_name (asked run tool a) = tool"
  by (simp_all add: asked_def)

lemma demo_request_eval:
  assumes "run \<noteq> []" and "tool \<noteq> []" and "canon (JObj a)"
  shows "demo_request run tool a = Inr (asked run tool a)" and "wf_request (asked run tool a)"
    and "request_arguments (asked run tool a) = a"
  using assms
  by (simp_all add: demo_request_def build_request_def canonical_json_canon wf_request_def request_post_init_def
      asked_def ensure_def canonical_object_def loads_render request_arguments_def decoded_def)

lemma resolve_file_tools:
  "resolve file_registry_of ''read_file'' =
     Inr \<lparr>td_tool_name = ''read_file'', td_retry_is_idempotent = True, td_path_argument_names = [''path'']\<rparr>"
  "resolve file_registry_of ''write_file'' =
     Inr \<lparr>td_tool_name = ''write_file'', td_retry_is_idempotent = False, td_path_argument_names = [''path'']\<rparr>"
  "resolve file_registry_of ''delete_file'' =
     Inr \<lparr>td_tool_name = ''delete_file'', td_retry_is_idempotent = False, td_path_argument_names = [''path'']\<rparr>"
  by (simp_all add: file_registry_of_def resolve_def restricted_file_tool_definitions_def)

lemma demo_step_ok: "make_plan_step (execution_step (asked run tool a) paths) = Inr (execution_step (asked run tool a) paths)"
proof -
  have "step_id_pattern ''demo-step''" by (simp add: step_id_pattern_def is_alnum_def is_digit_def)
  then show ?thesis by (simp add: make_plan_step_def execution_step_def ensure_def)
qed

lemma demo_modes:
  "od_mode (classify_step (execution_step (asked run ''read_file'' a) ps) (ownership_context (demo_context g D))) = AUTO"
  "od_mode (classify_step (execution_step (asked run ''write_file'' a) ps) (ownership_context (demo_context g D))) = PAIR"
  "od_mode (classify_step (execution_step (asked run ''delete_file'' a) ps) (ownership_context (demo_context g D))) = USER_GATE"
  by (simp_all add: classify_step_def Let_def ownership_context_def demo_context_def evaluate_risks_def rule_matches_def
      execution_step_def minimum_mode_for_def matching_rules_def more_restrictive_def)

lemma demo_reasons:
  "od_reasons (classify_step (execution_step (asked run ''delete_file'' a) ps) (ownership_context (demo_context g D))) =
     [''deletion requires explicit user approval'']"
  by (simp add: classify_step_def Let_def ownership_context_def demo_context_def evaluate_risks_def rule_matches_def
      execution_step_def reasons_for_def matching_rules_def)

text \<open>The decisions: a read is allowed, a write needs a pair, a deletion its user, an escape is denied.\<close>

lemma demo_normalized:
  assumes "simple_name n" and "dm_resolver D (demo_workspace D @ [n]) = Inr (demo_workspace D @ [n])"
    and "get a ''path'' = JStr n"
  shows "normalize_arguments (demo_context g D) a [''path''] = Inr [n]"
  using assms boundary_simple [OF assms(1), of "dm_resolver D" "demo_workspace D"]
  by (simp add: demo_context_def simple_name_def)

lemma demo_read_allowed:
  assumes "simple_name n" and "dm_resolver D (demo_workspace D @ [n]) = Inr (demo_workspace D @ [n])"
    and "get a ''path'' = JStr n" and "run \<noteq> []" and "canon (JObj a)"
  obtains d where "authorize (asked run ''read_file'' a) (demo_context file_registry_of D) = Inr d" and "ad_outcome d = ALLOW"
proof -
  have "resolve (ac_registry (demo_context file_registry_of D)) ''read_file'' =
      Inr \<lparr>td_tool_name = ''read_file'', td_retry_is_idempotent = True, td_path_argument_names = [''path'']\<rparr>"
    using resolve_file_tools by (simp add: demo_context_def)
  then have "\<exists>d. authorize (asked run ''read_file'' a) (demo_context file_registry_of D) = Inr d \<and> ad_outcome d = ALLOW"
    using demo_normalized [OF assms(1-3)] demo_request_eval(3) [OF assms(4) _ assms(5), of "''read_file''"]
      demo_step_ok demo_modes(1)
    by (simp add: authorize_def Let_def make_decision_simps)
  with that show thesis by blast
qed

lemma demo_escalated:
  assumes "simple_name n" and "dm_resolver D (demo_workspace D @ [n]) = Inr (demo_workspace D @ [n])"
    and "get a ''path'' = JStr n" and "run \<noteq> []" and "canon (JObj a)" and "\<And>t. hex_digest (H t)"
    and "tool = ''write_file'' \<and> m = PAIR \<or> tool = ''delete_file'' \<and> m = USER_GATE"
  obtains d g where "authorize (asked run tool a) (demo_context file_registry_of D) = Inr d" and "ad_outcome d = ESCALATE"
    and "build_proposal H (asked run tool a) d 1 = Inr g" and "gp_ownership_mode g = m"
    and "tool = ''delete_file'' \<longrightarrow> list_all (\<lambda>r. r \<noteq> []) (ad_reasons d)"
proof -
  let ?q = "asked run tool a"
  let ?c = "classify_step (execution_step ?q [n]) (ownership_context (demo_context file_registry_of D))"
  let ?d = "make_decision ?q ESCALATE ((''request requires '' @ mode_value (od_mode ?c) @ '' ownership'') # od_reasons ?c) [n] (Some ?c)"
  obtain df where df: "resolve (ac_registry (demo_context file_registry_of D)) tool = Inr df" "td_path_argument_names df = [''path'']"
    using assms(7) resolve_file_tools by (auto simp: demo_context_def)
  have t: "tool \<noteq> []" using assms(7) by auto
  note q = demo_request_eval(3) [OF assms(4) t assms(5)]
  have m: "od_mode ?c = m" "m \<noteq> AUTO" using assms(7) demo_modes by auto
  have d: "authorize ?q (demo_context file_registry_of D) = Inr ?d"
    using df q m demo_normalized [OF assms(1-3)] demo_step_ok by (simp add: authorize_def Let_def)
  have "canon (proposal_json ?q ?d m 1)" by (rule canon_proposal [OF demo_request_eval(2) [OF assms(4) t assms(5)]])
  then have "\<exists>g. build_proposal H ?q ?d 1 = Inr g \<and> gp_ownership_mode g = m"
    using m t assms(4,6)
    by (simp add: build_proposal_def make_decision_def ensure_def dumps_canon make_reference_def Let_def)
  moreover have "list_all (\<lambda>r. r \<noteq> []) (ad_reasons ?d)" if "tool = ''delete_file''"
    using that demo_reasons by (simp add: make_decision_def)
  ultimately show thesis using that [OF d] by (auto simp: make_decision_simps)
qed

subsection \<open>The runtime and its runs\<close>

text \<open>The demonstration's parameters: what the code relies on of the hash, the resolver and the environments.\<close>

definition demo_runs :: "string list" where
  "demo_runs = [''demo-read'', ''demo-write'', ''demo-delete'', ''demo-escape'', ''demo-write-recovery'',
     ''demo-delete-recovery'']"

definition demo_key :: "demo \<Rightarrow> string \<Rightarrow> string" where
  "demo_key D run = dm_hash D (effect_identity run ''demo-call'')"

definition demo_ok :: "demo \<Rightarrow> bool" where
  "demo_ok D \<longleftrightarrow> (\<forall>t. hex_digest (dm_hash D t)) \<and> inj_on (demo_key D) (set demo_runs) \<and>
     (\<forall>p. dm_resolver D p = Inr (lexical p)) \<and> dm_root D \<noteq> [] \<and> (\<forall>w \<in> set (dm_root D). component w \<and> w \<noteq> ''..'') \<and>
     (\<forall>n. fe_root (dm_envs D n) = demo_workspace D \<and> calm_env (dm_envs D n) \<and>
        fe_max_bytes (dm_envs D n) = nat DEFAULT_MAX_BYTES \<and> fe_sha256 (dm_envs D n) = dm_sha256 D)"

definition demo_runtime_of :: "demo \<Rightarrow> demo_runtime" where
  "demo_runtime_of D = \<lparr>ru_hash = dm_hash D, ru_log = sqlite_events (dm_hash D),
     ru_effects = sqlite_effects (dm_hash D), ru_registry = file_registry_of,
     ru_runner = file_runner (dm_describe D) (dm_envs D), ru_injector = no_crash,
     ru_context = demo_context file_registry_of D, ru_snapshots = False, ru_snapshot_injector = None,
     ru_gate_evaluator = (\<lambda>gate answer. map_sum id Some (evaluate_gate gate answer)),
     ru_max_attempts = 3, ru_clock = (\<lambda>_. DEMO_TIME)\<rparr>"

lemma demo_runtime_simps [simp]:
  "ru_hash (demo_runtime_of D) = dm_hash D" "ru_registry (demo_runtime_of D) = file_registry_of"
  "ru_context (demo_runtime_of D) = demo_context file_registry_of D" "ru_max_attempts (demo_runtime_of D) = 3"
  "ru_runner (demo_runtime_of D) = file_runner (dm_describe D) (dm_envs D)" "ru_injector (demo_runtime_of D) = no_crash"
  "ru_effects (demo_runtime_of D) = sqlite_effects (dm_hash D)"
  by (simp_all add: demo_runtime_of_def)

lemma demo_runtime_made: "make_demo_runtime D = Inr (demo_runtime_of D)"
proof -
  have registry: "make_restricted_file_registry = Inr file_registry_of"
    by (simp add: make_restricted_file_registry_def make_registry_Inr_iff file_registry_of_def
        restricted_file_tool_definitions_def)
  show ?thesis unfolding make_demo_runtime_def registry
    by (simp add: runtime_init_def ensure_def demo_runtime_of_def)
qed

lemma demo_time: "valid_datetime DEMO_TIME" "utcoffset DEMO_TIME = Some 0"
  by (simp_all add: DEMO_TIME_def valid_datetime_def days_in_month_def)

lemma demo_on:
  "runtime_on (dm_hash D) (sqlite_events (dm_hash D)) (sqlite_effects (dm_hash D)) file_registry_of (demo_runtime_of D)"
  "undisturbed (demo_runtime_of D)" "\<forall>c i. no_crash c i = None"
proof -
  have "sqlite_runtime (demo_runtime_of D)"
    by (simp add: sqlite_runtime_def demo_runtime_of_def demo_time)
  from sqlite_runtime_on [OF this]
  show "runtime_on (dm_hash D) (sqlite_events (dm_hash D)) (sqlite_effects (dm_hash D)) file_registry_of (demo_runtime_of D)"
    by simp
  show "undisturbed (demo_runtime_of D)" by (simp add: undisturbed_def demo_runtime_of_def demo_time)
qed (simp add: no_crash_def)

text \<open>An event the script appends itself, under the id the runtime would give it.\<close>

lemma appended_eval:
  assumes w: "sqlite_runtime.world_at (dm_hash D) l T w" and s: "replay (dm_hash D) run (l run) = Inr s"
    and run: "run \<noteq> []" and live: "\<not> is_terminal s"
    and u: "\<And>e. payload e = [] \<Longrightarrow> ev_event_type e = k \<Longrightarrow> transition s e = Inr u"
  obtains e w' where "build_event (runtime_event_id run (next_sequence s) k) run (next_sequence s) k DEMO_TIME [] = Inr e"
    and "storeEventA (demo_runtime_of D) e w = (Inr (), w')" and "ev_event_type e = k"
    and "sqlite_runtime.world_at (dm_hash D) (extended l run e) T w'"
    and "replay (dm_hash D) run (extended l run e run) = Inr (advance (dm_hash D) s e u)"
proof -
  have n: "0 \<le> next_sequence s" "runtime_event_id run (next_sequence s) k \<noteq> []"
    using replay_state_inv [OF s] by (auto simp: state_inv_def core_inv_def valid_state_def runtime_event_id_def)
  have canon: "canon (JObj [])" by (simp add: canon_obj)
  obtain e where e: "build_event (runtime_event_id run (next_sequence s) k) run (next_sequence s) k DEMO_TIME [] = Inr e"
    using build_event_payload [OF canon n(2) run n(1), of DEMO_TIME k] demo_time by auto
  note b = built_event [OF canon e demo_time(1)]
  from sqlite_runtime.store_event [OF demo_on(1) w s, of e k] b obtain d where
    d: "ev_event_id e \<notin> ev_event_id ` set (l run)" "storeEventA (demo_runtime_of D) e w = (Inr (), w\<lparr>rw_events := d\<rparr>)"
      "sqlite_runtime.world_at (dm_hash D) (extended l run e) T (w\<lparr>rw_events := d\<rparr>)" by auto
  have nx: "next_event (dm_hash D) l run k [] s e" using b s d(1) by (simp add: next_event_def)
  have "replay (dm_hash D) run (extended l run e run) = Inr (advance (dm_hash D) s e u)"
    using next_event_accepted [OF nx live u] next_event_replay [OF nx] b by (simp add: advance_def)
  with that e d(2,3) b show thesis by blast
qed

lemma initialize_eval:
  assumes w: "sqlite_runtime.world_at (dm_hash D) l T w" and new: "l run = []" and run: "run \<noteq> []"
  obtains es s w' where "initialize_run (demo_runtime_of D) run w = (Inr (), w')"
    and "sqlite_runtime.world_at (dm_hash D) (l(run := es)) T w'" and "map ev_event_type es = [RUN_CREATED, RUN_STARTED]"
    and "replay (dm_hash D) run es = Inr s" and "status s = READY" and "budget_left s"
proof -
  let ?s = "empty_state run"
  have valid: "valid_state ?s" using run by (simp add: valid_state_def empty_state_def)
  then have s: "replay (dm_hash D) run (l run) = Inr ?s"
    by (simp add: new replay_def initial_state_def state_post_init_valid replay_tail_def)
  have fields: "next_sequence ?s = 0" "status ?s = NEW" "\<not> is_terminal ?s"
    by (simp_all add: empty_state_def is_terminal_iff)
  obtain e w1 where e: "build_event (runtime_event_id run 0 RUN_CREATED) run 0 RUN_CREATED DEMO_TIME [] = Inr e"
      "storeEventA (demo_runtime_of D) e w = (Inr (), w1)" "ev_event_type e = RUN_CREATED"
      "sqlite_runtime.world_at (dm_hash D) (extended l run e) T w1"
      "replay (dm_hash D) run (extended l run e run) = Inr (advance (dm_hash D) ?s e (?s\<lparr>status := CREATED, max_steps := None\<rparr>))"
  proof (rule appended_eval [OF w s run fields(3), unfolded fields(1)])
    fix e assume "payload e = []" "ev_event_type e = RUN_CREATED"
    then show "transition ?s e = Inr (?s\<lparr>status := CREATED, max_steps := None\<rparr>)"
      using valid fields by (simp add: transition_def on_run_created_def expect_status_def ensure_def get_def get_default_def
          state_post_init_Inr_iff valid_state_def)
  qed blast
  let ?t = "advance (dm_hash D) ?s e (?s\<lparr>status := CREATED, max_steps := None\<rparr>)"
  have t: "next_sequence ?t = 1" "status ?t = CREATED" "\<not> is_terminal ?t" "valid_state ?t"
    using valid by (simp_all add: fields is_terminal_iff advance_def valid_state_def)
  obtain f w2 where f: "build_event (runtime_event_id run 1 RUN_STARTED) run 1 RUN_STARTED DEMO_TIME [] = Inr f"
      "storeEventA (demo_runtime_of D) f w1 = (Inr (), w2)" "ev_event_type f = RUN_STARTED"
      "sqlite_runtime.world_at (dm_hash D) (extended (extended l run e) run f) T w2"
      "replay (dm_hash D) run (extended (extended l run e) run f run) = Inr (advance (dm_hash D) ?t f (?t\<lparr>status := READY\<rparr>))"
  proof (rule appended_eval [OF e(4,5) run t(3), unfolded t(1)])
    fix f assume "payload f = []" "ev_event_type f = RUN_STARTED"
    then show "transition ?t f = Inr (?t\<lparr>status := READY\<rparr>)"
      using t by (simp add: transition_def on_run_started_def expect_status_def ensure_def state_post_init_Inr_iff valid_state_def)
  qed blast
  show thesis
  proof (rule that [of w2 "[e, f]" "advance (dm_hash D) ?t f (?t\<lparr>status := READY\<rparr>)"])
    show "initialize_run (demo_runtime_of D) run w = (Inr (), w2)"
      using e(1,2) f(1,2) by (simp add: initialize_run_def bindA_def)
    show "sqlite_runtime.world_at (dm_hash D) (l(run := [e, f])) T w2"
      using f(4) by (simp add: extended_def new)
    show "replay (dm_hash D) run [e, f] = Inr (advance (dm_hash D) ?t f (?t\<lparr>status := READY\<rparr>))"
      using f(5) by (simp add: new)
  qed (simp_all add: e(3) f(3) budget_left_def fields)
qed

subsection \<open>The world between the scenarios\<close>

text \<open>
  The world after the runs in \<open>runs\<close>: the other runs have no events, their effects no intent and
  no receipt, and the file system is \<open>F\<close>.
\<close>

definition fresh_runs :: "demo \<Rightarrow> string set \<Rightarrow> (string \<Rightarrow> ExecutionEvent list) \<Rightarrow> (EffectDB, 'w) tool_world \<Rightarrow> bool" where
  "fresh_runs D runs l T \<longleftrightarrow> (\<forall>run. run \<notin> runs \<longrightarrow> l run = []) \<and>
     (\<forall>run \<in> set demo_runs. run \<notin> runs \<longrightarrow> select_intent (tw_store T) (demo_key D run) = None \<and>
        receipt_at (tw_store T) (demo_key D run) = None)"

definition demo_at :: "demo \<Rightarrow> string set \<Rightarrow> file_system \<Rightarrow> (EventDB, EffectDB, file_system \<times> nat) runtime_world \<Rightarrow> bool" where
  "demo_at D runs F w \<longleftrightarrow> (\<exists>l T. sqlite_runtime.world_at (dm_hash D) l T w \<and> fresh_runs D runs l T \<and> fst (tw_outside T) = F)"

lemma executed_after:
  assumes D: "demo_ok D" and run: "run \<in> set demo_runs"
    and l: "fresh_runs D runs l T" and l': "\<And>r. r \<noteq> run \<Longrightarrow> l' r = l r"
    and x: "sqlite_runtime.executed_once (dm_hash D) (asked run tool a) out outside ks l' T r w" and out: "canon (JObj out)"
  obtains c where "rt_receipt r = Some c" and "receipt_output c = out" and "rc_outcome c = TOOL_SUCCEEDED_OUTCOME"
    and "event_values (demo_runtime_of D) run w =
      (Inr (JArr (map (\<lambda>k. JStr (type_value k)) (map ev_event_type (l' run) @ ks))), w)"
    and "demo_at D (insert run runs) (fst outside) w"
proof -
  from x obtain es T' where e: "sqlite_runtime.world_at (dm_hash D) (l'(run := l' run @ es)) T' w"
      "map ev_event_type es = ks" "tw_outside T' = outside"
      "\<forall>k. k \<noteq> demo_key D run \<longrightarrow> select_intent (tw_store T') k = select_intent (tw_store T) k \<and>
        receipt_at (tw_store T') k = receipt_at (tw_store T) k"
      "rt_receipt r = Some (success_receipt (dm_hash D) (asked run tool a) out)"
    unfolding sqlite_runtime.executed_once_def demo_key_def by auto
  have other: "demo_key D r \<noteq> demo_key D run" if "r \<in> set demo_runs" "r \<noteq> run" for r
    using D run that unfolding demo_ok_def inj_on_def by blast
  have "fresh_runs D (insert run runs) (l'(run := l' run @ es)) T'"
    using l l' e(4) other by (auto simp: fresh_runs_def)
  with e(1,3) have at: "demo_at D (insert run runs) (fst outside) w" unfolding demo_at_def by blast
  have "eventsA (demo_runtime_of D) run w = (Inr (l' run @ es), w)"
    using sqlite_runtime.log_read [OF demo_on(1) e(1), of run] by simp
  then have "event_values (demo_runtime_of D) run w =
      (Inr (JArr (map (\<lambda>k. JStr (type_value k)) (map ev_event_type (l' run) @ ks))), w)"
    using e(2) by (auto simp: event_values_def bindA_def)
  with that [OF e(5)] at out show thesis
    by (simp add: success_receipt_def receipt_output_def decoded_def loads_render)
qed

subsection \<open>The scenarios\<close>

text \<open>A new run of the demonstration, and what its request needs to run.\<close>

lemma demo_names: "simple_name ''input.txt''" "simple_name ''output.txt''" "simple_name ''delete-me.txt''"
  by (simp_all add: simple_name_def)

lemma demo_resolved:
  assumes "demo_ok D" and "simple_name n"
  shows "dm_resolver D (demo_workspace D @ [n]) = Inr (demo_workspace D @ [n])"
proof -
  have "''..'' \<notin> set (demo_workspace D @ [n])" using assms by (auto simp: demo_ok_def demo_workspace_def simple_name_def)
  then show ?thesis using assms(1) lexical_simps(1) [of "demo_workspace D @ [n]"] by (simp add: demo_ok_def)
qed

lemma demo_key_nonempty: "demo_ok D \<Longrightarrow> dm_hash D t \<noteq> []"
  by (auto simp: demo_ok_def hex_digest_def dest: spec [of _ t])

lemma demo_env:
  assumes "demo_ok D" and "workspace_ok F (demo_workspace D)"
  shows "workspace_ok F (fe_root (dm_envs D n))" and "calm_env (dm_envs D n)" and "fe_root (dm_envs D n) = demo_workspace D"
    and "fe_max_bytes (dm_envs D n) = 1048576" and "fe_sha256 (dm_envs D n) = dm_sha256 D"
  using assms by (simp_all add: demo_ok_def DEFAULT_MAX_BYTES_def)

lemma begun_run:
  assumes "demo_at D runs F w" and "run \<in> set demo_runs" and "run \<notin> runs"
  obtains l T es s v where "initialize_run (demo_runtime_of D) run w = (Inr (), v)"
    and "sqlite_runtime.world_at (dm_hash D) (l(run := es)) T v" and "fresh_runs D runs l T" and "fst (tw_outside T) = F"
    and "map ev_event_type es = [RUN_CREATED, RUN_STARTED]"
    and "replay (dm_hash D) run ((l(run := es)) run) = Inr s" and "status s = READY" and "budget_left s"
    and "select_intent (tw_store T) (demo_key D run) = None" and "receipt_at (tw_store T) (demo_key D run) = None"
proof -
  from assms(1) obtain l T where w: "sqlite_runtime.world_at (dm_hash D) l T w" "fresh_runs D runs l T"
      "fst (tw_outside T) = F" by (auto simp: demo_at_def)
  have run: "l run = []" "run \<noteq> []" "select_intent (tw_store T) (demo_key D run) = None"
      "receipt_at (tw_store T) (demo_key D run) = None"
    using w(2) assms(2,3) by (auto simp: fresh_runs_def demo_runs_def)
  obtain es s v where "initialize_run (demo_runtime_of D) run w = (Inr (), v)"
      "sqlite_runtime.world_at (dm_hash D) (l(run := es)) T v" "map ev_event_type es = [RUN_CREATED, RUN_STARTED]"
      "replay (dm_hash D) run es = Inr s" "status s = READY" "budget_left s"
    by (rule initialize_eval [OF w(1) run(1,2)])
  with that w(2,3) run(3,4) show thesis by simp
qed

definition read_summary :: "demo \<Rightarrow> json" where
  "read_summary D = JObj [(''bytes'', JInt 22),
     (''events'', JArr (map (\<lambda>k. JStr (type_value k)) [RUN_CREATED, RUN_STARTED, TOOL_REQUESTED, TOOL_AUTHORIZED,
       TOOL_STARTED, TOOL_SUCCEEDED])),
     (''path'', JStr ''input.txt''), (''receipt_outcome'', JStr ''succeeded''),
     (''sha256'', JStr (dm_sha256 D (utf8_encode demo_text)))]"

lemma demo_text_length: "length (utf8_encode demo_text) = 22"
  by (simp add: demo_text_def utf8_encode_def)

lemma demo_read_eval:
  assumes D: "demo_ok D" and at: "demo_at D runs F w" and run: "''demo-read'' \<notin> runs"
    and F: "workspace_ok F (demo_workspace D)" "F (demo_workspace D @ [''input.txt'']) = Some (RegularFile (utf8_encode demo_text))"
  obtains v where "demo_read D w = (Inr (read_summary D), v)" and "demo_at D (insert ''demo-read'' runs) F v"
proof -
  let ?run = "''demo-read''" and ?a = "[(''path'', JStr ''input.txt'')]"
  let ?q = "asked ?run ''read_file'' ?a" and ?R = "demo_runtime_of D"
  have r: "?run \<in> set demo_runs" by (simp add: demo_runs_def)
  obtain l T es s w1 where b: "initialize_run ?R ?run w = (Inr (), w1)"
      "sqlite_runtime.world_at (dm_hash D) (l(?run := es)) T w1" "fresh_runs D runs l T" "fst (tw_outside T) = F"
      "map ev_event_type es = [RUN_CREATED, RUN_STARTED]" "replay (dm_hash D) ?run ((l(?run := es)) ?run) = Inr s"
      "status s = READY" "budget_left s" "select_intent (tw_store T) (demo_key D ?run) = None"
      "receipt_at (tw_store T) (demo_key D ?run) = None"
    by (rule begun_run [OF at r run])
  have a: "canon (JObj ?a)" "get ?a ''path'' = JStr ''input.txt''" by (simp_all add: canon_obj get_def get_default_def)
  note q = demo_request_eval [OF _ _ a(1), of ?run "''read_file''", simplified]
  obtain d where d: "authorize ?q (demo_context file_registry_of D) = Inr d" "ad_outcome d = ALLOW"
    by (rule demo_read_allowed [OF demo_names(1) demo_resolved [OF D demo_names(1)] a(2) _ a(1), of ?run]) simp_all
  let ?n = "snd (tw_outside T)"
  let ?out = "[(''bytes'', JInt 22), (''content'', JStr demo_text), (''path'', JStr ''input.txt''),
    (''sha256'', JStr (dm_sha256 D (utf8_encode demo_text)))]"
  have "read_file (dm_envs D ?n) ?a F = Inr ?out"
    using read_simple [where env = "dm_envs D ?n" and fs = F and n = "''input.txt''" and b = "utf8_encode demo_text"
        and t = demo_text] demo_env [OF D F(1), of ?n] demo_names(1) F(2)
    by (simp add: utf8_roundtrip demo_text_length)
  then have ran: "ru_runner ?R ''read_file'' ?a k (tw_outside T) = (Returned ?out, (F, Suc ?n))" for k
    using b(4) by (simp add: file_runner_def invoke_file_tool_def)
  have out: "canon (JObj ?out)" by (simp add: canon_obj)
  have "\<exists>r w'. submit ?R ?q w1 = (Inr r, w') \<and> rt_authorization r = Some d \<and>
      sqlite_runtime.executed_once (dm_hash D) ?q ?out (F, Suc ?n)
        [TOOL_REQUESTED, TOOL_AUTHORIZED, TOOL_STARTED, TOOL_SUCCEEDED] (l(?run := es)) T r w'"
    using b(6-10) d q resolve_file_tools(1) ran demo_key_nonempty [OF D] out demo_on(3)
    by (intro sqlite_runtime.submit_eval [OF demo_on(1,2) _ b(2), where s = s]) (simp_all add: demo_key_def)
  then obtain x v where x: "submit ?R ?q w1 = (Inr x, v)"
      "sqlite_runtime.executed_once (dm_hash D) ?q ?out (F, Suc ?n)
        [TOOL_REQUESTED, TOOL_AUTHORIZED, TOOL_STARTED, TOOL_SUCCEEDED] (l(?run := es)) T x v" by blast
  obtain c where c: "rt_receipt x = Some c" "receipt_output c = ?out" "rc_outcome c = TOOL_SUCCEEDED_OUTCOME"
      "event_values ?R ?run v = (Inr (JArr (map (\<lambda>k. JStr (type_value k)) (map ev_event_type ((l(?run := es)) ?run) @
        [TOOL_REQUESTED, TOOL_AUTHORIZED, TOOL_STARTED, TOOL_SUCCEEDED]))), v)"
      "demo_at D (insert ?run runs) (fst (F, Suc ?n)) v"
    by (rule executed_after [OF D r b(3) _ x(2) out]) simp
  have "demo_read D w = (Inr (read_summary D), v)"
    using b(1,5) q(1) x(1) c(1-4)
    by (simp add: demo_read_def bindA_def demo_runtime_made assert_some_def item_def read_summary_def)
  with that c(5) show thesis by simp
qed

definition no_staging :: "file_system \<Rightarrow> abs_path \<Rightarrow> bool" where
  "no_staging F dir \<longleftrightarrow> (\<forall>r. F (dir @ [''.agent-runtime-'' @ r @ ''.tmp'']) = None)"

text \<open>A gate the policy asks for.\<close>

lemma demo_paused:
  assumes D: "demo_ok D" and at: "demo_at D runs F w" and r: "run \<in> set demo_runs" and run: "run \<notin> runs"
    and tool: "tool = ''write_file'' \<and> m = PAIR \<or> tool = ''delete_file'' \<and> m = USER_GATE"
    and n: "simple_name n" and a: "canon (JObj a)" "get a ''path'' = JStr n"
  obtains v w1 l T l' d g x where "initialize_run (demo_runtime_of D) run w = (Inr (), w1)"
    and "submit (demo_runtime_of D) (asked run tool a) w1 = (Inr x, v)" and "rt_gate_proposal x = Some g"
    and "authorize (asked run tool a) (demo_context file_registry_of D) = Inr d" and "ad_outcome d = ESCALATE"
    and "build_proposal (dm_hash D) (asked run tool a) d 1 = Inr g" and "gp_ownership_mode g = m"
    and "tool = ''delete_file'' \<longrightarrow> list_all (\<lambda>r. r \<noteq> []) (ad_reasons d)"
    and "sqlite_runtime.world_at (dm_hash D) l' T v" and "fresh_runs D runs l T" and "fst (tw_outside T) = F"
    and "\<And>r. r \<noteq> run \<Longrightarrow> l' r = l r"
    and "map ev_event_type (l' run) = [RUN_CREATED, RUN_STARTED, TOOL_REQUESTED, TOOL_ESCALATED]"
    and "latest_event TOOL_REQUESTED (request_payload (asked run tool a)) (l' run)" and "gate_asked (demo_runtime_of D) l' (asked run tool a) g"
    and "replay (dm_hash D) run (l' run) = Inr (rt_state x)"
    and "gate_open (demo_runtime_of D) (asked run tool a) g (rt_state x)"
    and "select_intent (tw_store T) (demo_key D run) = None" and "receipt_at (tw_store T) (demo_key D run) = None"
proof -
  let ?q = "asked run tool a" and ?R = "demo_runtime_of D"
  have t: "run \<noteq> []" "tool \<noteq> []" using r tool by (auto simp: demo_runs_def)
  note q = demo_request_eval(2) [OF t a(1)]
  obtain l T es s w1 where b: "initialize_run ?R run w = (Inr (), w1)"
      "sqlite_runtime.world_at (dm_hash D) (l(run := es)) T w1" "fresh_runs D runs l T" "fst (tw_outside T) = F"
      "map ev_event_type es = [RUN_CREATED, RUN_STARTED]" "replay (dm_hash D) run ((l(run := es)) run) = Inr s"
      "status s = READY" "budget_left s" "select_intent (tw_store T) (demo_key D run) = None"
      "receipt_at (tw_store T) (demo_key D run) = None"
    by (rule begun_run [OF at r run])
  have hex: "\<And>t. hex_digest (dm_hash D t)" using D by (simp add: demo_ok_def)
  obtain d g where d: "authorize ?q (demo_context file_registry_of D) = Inr d" "ad_outcome d = ESCALATE"
      "build_proposal (dm_hash D) ?q d 1 = Inr g" "gp_ownership_mode g = m"
      "tool = ''delete_file'' \<longrightarrow> list_all (\<lambda>r. r \<noteq> []) (ad_reasons d)"
    by (rule demo_escalated [where H = "dm_hash D", OF n demo_resolved [OF D n] a(2) t(1) a(1) hex tool])
  have s: "replay (dm_hash D) (tr_run_id ?q) ((l(run := es)) (tr_run_id ?q)) = Inr s" using b(6) by simp
  have c: "authorize ?q (ru_context ?R) = Inr d" "1 \<le> ru_max_attempts ?R" using d(1) by simp_all
  obtain x l' v where x: "submit ?R ?q w1 = (Inr x, v)" "rt_gate_proposal x = Some g"
      "sqlite_runtime.world_at (dm_hash D) l' T v" "sqlite_runtime.further (tr_run_id ?q) [TOOL_REQUESTED, TOOL_ESCALATED] (l(run := es)) l'"
      "latest_event TOOL_REQUESTED (request_payload ?q) (l' (tr_run_id ?q))" "gate_asked ?R l' ?q g" "replay (dm_hash D) (tr_run_id ?q) (l' (tr_run_id ?q)) = Inr (rt_state x)"
      "gate_open ?R ?q g (rt_state x)"
    by (rule sqlite_runtime.escalation_eval [OF demo_on(1,2) b(2) q s disjI1 [OF b(7)] b(8) c(1) d(2,3) c(2)])
  have l': "l' r' = l r'" if "r' \<noteq> run" for r' using x(4) that by (auto simp: sqlite_runtime.further_def)
  have types: "map ev_event_type (l' run) = [RUN_CREATED, RUN_STARTED, TOOL_REQUESTED, TOOL_ESCALATED]"
    using x(4) b(5) by (auto simp: sqlite_runtime.further_def)
  have log: "replay (dm_hash D) run (l' run) = Inr (rt_state x)"
      "latest_event TOOL_REQUESTED (request_payload ?q) (l' run)" using x(5,7) by simp_all
  show thesis by (rule that [OF b(1) x(1,2) d x(3) b(3,4) l' types log(2) x(6) log(1) x(8) b(9,10)])
qed

definition write_summary :: "demo \<Rightarrow> json" where
  "write_summary D = JObj [(''bytes'', JInt 22),
     (''events'', JArr (map (\<lambda>k. JStr (type_value k)) [RUN_CREATED, RUN_STARTED, TOOL_REQUESTED, TOOL_ESCALATED,
       GATE_APPROVED, TOOL_STARTED, TOOL_SUCCEEDED])),
     (''path'', JStr ''output.txt''), (''receipt_outcome'', JStr ''succeeded''), (''replaced'', JBool False),
     (''sha256'', JStr (dm_sha256 D (utf8_encode demo_text)))]"

lemma demo_write_eval:
  assumes D: "demo_ok D" and at: "demo_at D runs F w" and run: "''demo-write'' \<notin> runs"
    and F: "workspace_ok F (demo_workspace D)" "F (demo_workspace D @ [''output.txt'']) = None" "no_staging F (demo_workspace D)"
  obtains v where "demo_write D w = (Inr (write_summary D), v)"
    and "demo_at D (insert ''demo-write'' runs)
      (F(demo_workspace D @ [''output.txt''] \<mapsto> RegularFile (utf8_encode demo_text))) v"
proof -
  let ?run = "''demo-write''" and ?a = "[(''content'', JStr demo_text), (''path'', JStr ''output.txt'')]"
  let ?q = "asked ?run ''write_file'' ?a" and ?R = "demo_runtime_of D"
  let ?F = "F(demo_workspace D @ [''output.txt''] \<mapsto> RegularFile (utf8_encode demo_text))"
  have r: "?run \<in> set demo_runs" by (simp add: demo_runs_def)
  have a: "canon (JObj ?a)" "get ?a ''path'' = JStr ''output.txt''" by (simp_all add: canon_obj get_def get_default_def)
  note q = demo_request_eval [OF _ _ a(1), of ?run "''write_file''", simplified]
  obtain v w1 l T l' d g x where p: "initialize_run ?R ?run w = (Inr (), w1)" "submit ?R ?q w1 = (Inr x, v)"
      "rt_gate_proposal x = Some g" "authorize ?q (demo_context file_registry_of D) = Inr d" "ad_outcome d = ESCALATE"
      "build_proposal (dm_hash D) ?q d 1 = Inr g" "gp_ownership_mode g = PAIR"
      "sqlite_runtime.world_at (dm_hash D) l' T v" "fresh_runs D runs l T" "fst (tw_outside T) = F"
      "\<And>r. r \<noteq> ?run \<Longrightarrow> l' r = l r"
      "map ev_event_type (l' ?run) = [RUN_CREATED, RUN_STARTED, TOOL_REQUESTED, TOOL_ESCALATED]"
      "latest_event TOOL_REQUESTED (request_payload ?q) (l' ?run)" "replay (dm_hash D) ?run (l' ?run) = Inr (rt_state x)" "gate_open ?R ?q g (rt_state x)"
      "select_intent (tw_store T) (demo_key D ?run) = None" "receipt_at (tw_store T) (demo_key D ?run) = None"
    by (rule demo_paused [where tool = "''write_file''" and m = PAIR, OF D at r run _ demo_names(2) a]) simp_all
  let ?n = "snd (tw_outside T)"
  let ?out = "[(''bytes'', JInt 22), (''path'', JStr ''output.txt''), (''replaced'', JBool False),
    (''sha256'', JStr (dm_sha256 D (utf8_encode demo_text)))]"
  have "write_file (dm_envs D ?n) ?a F = (Inr ?out, ?F)"
    using write_simple [where env = "dm_envs D ?n" and fs = F and n = "''output.txt''" and t = demo_text]
      demo_env [OF D F(1), of ?n] demo_names(2) F(2,3)
    by (simp add: demo_text_length no_staging_def staging_name_def)
  then have ran: "ru_runner ?R ''write_file'' ?a k (tw_outside T) = (Returned ?out, (?F, Suc ?n))" for k
    using p(10) by (simp add: file_runner_def invoke_file_tool_def)
  have out: "canon (JObj ?out)" by (simp add: canon_obj)
  let ?v = "\<lparr>gs_reference = gp_reference g, gs_action = APPROVE, gs_actor = ''demo-reviewer'',
    gs_reason = ''reviewed exact temporary output''\<rparr>"
  have "\<exists>y w'. resolve_gate ?R ?v v = (Inr y, w') \<and> rt_authorization y = Some d \<and>
      sqlite_runtime.executed_once (dm_hash D) ?q ?out (?F, Suc ?n) [GATE_APPROVED, TOOL_STARTED, TOOL_SUCCEEDED] l' T y w'"
    using p q resolve_file_tools(2) ran demo_key_nonempty [OF D] out demo_on(3)
    by (intro sqlite_runtime.approval_eval [OF demo_on(1,2) _ p(8), where s = "rt_state x" and g = g])
       (simp_all add: demo_key_def)
  then obtain y v' where y: "resolve_gate ?R ?v v = (Inr y, v')"
      "sqlite_runtime.executed_once (dm_hash D) ?q ?out (?F, Suc ?n) [GATE_APPROVED, TOOL_STARTED, TOOL_SUCCEEDED] l' T y v'"
    by blast
  obtain c where c: "rt_receipt y = Some c" "receipt_output c = ?out" "rc_outcome c = TOOL_SUCCEEDED_OUTCOME"
      "event_values ?R ?run v' = (Inr (JArr (map (\<lambda>k. JStr (type_value k)) (map ev_event_type (l' ?run) @
        [GATE_APPROVED, TOOL_STARTED, TOOL_SUCCEEDED]))), v')"
      "demo_at D (insert ?run runs) (fst (?F, Suc ?n)) v'"
    by (rule executed_after [OF D r p(9,11) y(2) out])
  have "approve (gp_reference g) ''demo-reviewer'' ''reviewed exact temporary output'' = Inr ?v"
    by (simp add: approve_def make_resolution_def)
  then have "demo_write D w = (Inr (write_summary D), v')"
    using p(1-3,12) q(1) y(1) c(1-4)
    by (simp add: demo_write_def bindA_def demo_runtime_made assert_some_def item_def write_summary_def)
  with that c(5) show thesis by simp
qed

definition delete_summary :: json where
  "delete_summary = JObj [(''deleted'', JBool True),
     (''events'', JArr (map (\<lambda>k. JStr (type_value k)) [RUN_CREATED, RUN_STARTED, TOOL_REQUESTED, TOOL_ESCALATED,
       GATE_EVALUATED, TOOL_STARTED, TOOL_SUCCEEDED])),
     (''path'', JStr ''delete-me.txt''), (''receipt_outcome'', JStr ''succeeded'')]"

definition demo_answer :: payload where
  "demo_answer = [(''path'', JStr ''delete-me.txt''), (''refuse'', JBool False),
     (''risk_explanation'', JStr ''Deleting this temporary file permanently removes selected demo data.''),
     (''tool_name'', JStr ''delete_file'')]"

lemma demo_answer_built:
  "build_answer reference ''demo-operator'' demo_answer =
     Inr \<lparr>ga_reference = reference, ga_actor = ''demo-operator'', ga_answer_json = render (JObj demo_answer)\<rparr>"
  "submitted_answer \<lparr>ga_reference = reference, ga_actor = ''demo-operator'', ga_answer_json = render (JObj demo_answer)\<rparr> =
     demo_answer"
proof -
  have "canon (JObj demo_answer)" by (simp add: demo_answer_def canon_obj)
  then show "build_answer reference ''demo-operator'' demo_answer =
      Inr \<lparr>ga_reference = reference, ga_actor = ''demo-operator'', ga_answer_json = render (JObj demo_answer)\<rparr>"
    "submitted_answer \<lparr>ga_reference = reference, ga_actor = ''demo-operator'', ga_answer_json = render (JObj demo_answer)\<rparr> =
      demo_answer"
    by (simp_all add: build_answer_def dumps_canon validate_answer_json_def loads_render ensure_def submitted_answer_def
        decoded_def)
qed

lemma demo_answer_passes:
  assumes "build_proposal H (asked run ''delete_file'' [(''path'', JStr ''delete-me.txt'')]) d 1 = Inr g"
  obtains ev where "ru_gate_evaluator (demo_runtime_of D) g demo_answer = Inr (Some ev)" and "ge_outcome ev = GATE_PASS"
    and "ge_reason ev \<noteq> []"
proof -
  note g = built_proposal [OF assms]
  have "loads (gp_arguments_json g) = Some (JObj [(''path'', JStr ''delete-me.txt'')])"
    using g(8) loads_render [of "JObj [(''path'', JStr ''delete-me.txt'')]"] by (simp add: asked_def canon_obj)
  moreover have "explanation_length ''Deleting this temporary file permanently removes selected demo data.'' = 60"
    by code_simp
  ultimately have "evaluate_gate g demo_answer = Inr \<lparr>ge_outcome = GATE_PASS,
      ge_reason = ''tool, path, and risk explanation match the gated proposal''\<rparr>"
    using g(7) by (simp add: evaluate_gate_def demo_answer_def required_fields_def text_fields_def get_def get_default_def
        has_key_def Let_def)
  with that show thesis by (simp add: demo_runtime_of_def)
qed

lemma demo_delete_eval:
  assumes D: "demo_ok D" and at: "demo_at D runs F w" and run: "''demo-delete'' \<notin> runs"
    and F: "workspace_ok F (demo_workspace D)" "F (demo_workspace D @ [''delete-me.txt'']) = Some (RegularFile b)"
  obtains v where "demo_delete D w = (Inr delete_summary, v)"
    and "demo_at D (insert ''demo-delete'' runs) (F(demo_workspace D @ [''delete-me.txt''] := None)) v"
proof -
  let ?run = "''demo-delete''" and ?a = "[(''path'', JStr ''delete-me.txt'')]"
  let ?q = "asked ?run ''delete_file'' ?a" and ?R = "demo_runtime_of D"
  let ?F = "F(demo_workspace D @ [''delete-me.txt''] := None)"
  have r: "?run \<in> set demo_runs" by (simp add: demo_runs_def)
  have a: "canon (JObj ?a)" "get ?a ''path'' = JStr ''delete-me.txt''" by (simp_all add: canon_obj get_def get_default_def)
  note q = demo_request_eval [OF _ _ a(1), of ?run "''delete_file''", simplified]
  obtain v w1 l T l' d g x where p: "initialize_run ?R ?run w = (Inr (), w1)" "submit ?R ?q w1 = (Inr x, v)"
      "rt_gate_proposal x = Some g" "authorize ?q (demo_context file_registry_of D) = Inr d" "ad_outcome d = ESCALATE"
      "build_proposal (dm_hash D) ?q d 1 = Inr g" "gp_ownership_mode g = USER_GATE" "list_all (\<lambda>r. r \<noteq> []) (ad_reasons d)"
      "sqlite_runtime.world_at (dm_hash D) l' T v" "fresh_runs D runs l T" "fst (tw_outside T) = F"
      "\<And>r. r \<noteq> ?run \<Longrightarrow> l' r = l r"
      "map ev_event_type (l' ?run) = [RUN_CREATED, RUN_STARTED, TOOL_REQUESTED, TOOL_ESCALATED]"
      "latest_event TOOL_REQUESTED (request_payload ?q) (l' ?run)" "gate_asked ?R l' ?q g"
      "replay (dm_hash D) ?run (l' ?run) = Inr (rt_state x)" "gate_open ?R ?q g (rt_state x)"
      "select_intent (tw_store T) (demo_key D ?run) = None" "receipt_at (tw_store T) (demo_key D ?run) = None"
    by (rule demo_paused [where tool = "''delete_file''" and m = USER_GATE, OF D at r run _ demo_names(3) a]) simp_all
  let ?n = "snd (tw_outside T)"
  let ?out = "[(''deleted'', JBool True), (''path'', JStr ''delete-me.txt'')]"
  have "delete_file (dm_envs D ?n) ?a F = (Inr ?out, ?F)"
    using delete_simple [where env = "dm_envs D ?n" and fs = F and n = "''delete-me.txt''" and b = b]
      demo_env [OF D F(1), of ?n] demo_names(3) F(2) by simp
  then have ran: "ru_runner ?R ''delete_file'' ?a k (tw_outside T) = (Returned ?out, (?F, Suc ?n))" for k
    using p(11) by (simp add: file_runner_def invoke_file_tool_def)
  have out: "canon (JObj ?out)" by (simp add: canon_obj)
  obtain ev where ev: "ru_gate_evaluator ?R g demo_answer = Inr (Some ev)" "ge_outcome ev = GATE_PASS" "ge_reason ev \<noteq> []"
    by (rule demo_answer_passes [OF p(6)])
  let ?v = "\<lparr>ga_reference = gp_reference g, ga_actor = ''demo-operator'', ga_answer_json = render (JObj demo_answer)\<rparr>"
  have "\<exists>y w'. submit_gate_answer ?R ?v v = (Inr y, w') \<and> rt_authorization y = Some d \<and>
      sqlite_runtime.executed_once (dm_hash D) ?q ?out (?F, Suc ?n) [GATE_EVALUATED, TOOL_STARTED, TOOL_SUCCEEDED] l' T y w'"
    using p q resolve_file_tools(3) ran demo_key_nonempty [OF D] out demo_on(3) ev
    by (intro sqlite_runtime.gate_answer_eval [OF demo_on(1,2) _ p(9), where s = "rt_state x" and g = g and ev = ev])
       (simp_all add: demo_key_def demo_answer_built)
  then obtain y v' where y: "submit_gate_answer ?R ?v v = (Inr y, v')"
      "sqlite_runtime.executed_once (dm_hash D) ?q ?out (?F, Suc ?n) [GATE_EVALUATED, TOOL_STARTED, TOOL_SUCCEEDED] l' T y v'"
    by blast
  obtain c where c: "rt_receipt y = Some c" "receipt_output c = ?out" "rc_outcome c = TOOL_SUCCEEDED_OUTCOME"
      "event_values ?R ?run v' = (Inr (JArr (map (\<lambda>k. JStr (type_value k)) (map ev_event_type (l' ?run) @
        [GATE_EVALUATED, TOOL_STARTED, TOOL_SUCCEEDED]))), v')"
      "demo_at D (insert ?run runs) (fst (?F, Suc ?n)) v'"
    by (rule executed_after [OF D r p(10,12) y(2) out])
  have "demo_delete D w = (Inr delete_summary, v')"
    using p(1-3,13) q(1) y(1) c(1-4)
    by (simp add: demo_delete_def bindA_def demo_runtime_made assert_some_def item_def delete_summary_def
        demo_answer_def [symmetric] demo_answer_built)
  with that c(5) show thesis by simp
qed

text \<open>An escape.\<close>

definition escape_summary :: json where
  "escape_summary = JObj [(''intent_persisted'', JBool False), (''outcome'', JStr ''denied''), (''outside_changed'', JBool False)]"

lemma path_exists_plain:
  assumes "plain F (butlast p)" and "p \<noteq> []" and "last p \<noteq> ''..''" and "\<not> is_link (F p)" and "fst (tw_outside (rw_tools w)) = F"
  shows "path_exists p w = (Inr (F p \<noteq> None), w)"
proof -
  have "plain F p"
    using plain_snoc [of F "butlast p" "last p"] assms(1-4) by (simp add: link_target_None_iff del: append_butlast_last_id)
      (simp add: assms(2))
  then show ?thesis by (simp add: path_exists_def askA_def assms(5) kernel_lookup_plain)
qed

lemma demo_root_plain: "workspace_ok F (demo_workspace D) \<Longrightarrow> plain F (dm_root D)"
  using plain_butlast [of F "demo_workspace D"] by (simp add: workspace_ok_def demo_workspace_def)

lemma escape_denied:
  assumes D: "demo_ok D" and a: "a = [(''content'', JStr ''blocked''), (''path'', JStr ''../outside.txt'')]"
  obtains d where "authorize (asked ''demo-escape'' ''write_file'' a) (demo_context file_registry_of D) = Inr d"
    and "ad_outcome d = DENY" and "join_with ''; '' (ad_reasons d) \<noteq> []"
proof -
  have parts: "path_parts (portable ''../outside.txt'') = [''..'', ''outside.txt'']" by code_simp
  have "dm_resolver D (demo_workspace D @ [''..'', ''outside.txt'']) = Inr (dm_root D @ [''outside.txt''])"
    using D lexical_simps(2) [of "demo_workspace D" "''outside.txt''"] by (auto simp: demo_ok_def demo_workspace_def)
  then obtain m where "boundary_normalize (dm_resolver D) (demo_workspace D) ''../outside.txt'' = Inl (BadPath m)"
    using parts by (simp add: boundary_normalize_def Let_def demo_workspace_def starts_with_def windows_drive_def portable_def)
  then obtain reason where "normalize_arguments (demo_context file_registry_of D) a [''path''] = Inl (BadPath reason)" "reason \<noteq> []"
    by (simp add: a get_def get_default_def demo_context_def)
  moreover have "resolve (ac_registry (demo_context file_registry_of D)) ''write_file'' =
      Inr \<lparr>td_tool_name = ''write_file'', td_retry_is_idempotent = False, td_path_argument_names = [''path'']\<rparr>"
    using resolve_file_tools by (simp add: demo_context_def)
  moreover have "request_arguments (asked ''demo-escape'' ''write_file'' a) = a"
    by (rule demo_request_eval(3)) (simp_all add: a canon_obj)
  ultimately show thesis
    by (intro that [of "make_decision (asked ''demo-escape'' ''write_file'' a) DENY [reason] [] None"])
       (simp_all add: authorize_def make_decision_def)
qed

lemma demo_escape_eval:
  assumes D: "demo_ok D" and at: "demo_at D runs F w" and run: "''demo-escape'' \<notin> runs"
    and F: "workspace_ok F (demo_workspace D)" "F (dm_root D @ [''outside.txt'']) = None"
  obtains v where "demo_escape D w = (Inr escape_summary, v)" and "demo_at D (insert ''demo-escape'' runs) F v"
proof -
  let ?run = "''demo-escape''" and ?a = "[(''content'', JStr ''blocked''), (''path'', JStr ''../outside.txt'')]"
  let ?q = "asked ?run ''write_file'' ?a" and ?R = "demo_runtime_of D"
  have r: "?run \<in> set demo_runs" by (simp add: demo_runs_def)
  have a: "canon (JObj ?a)" by (simp add: canon_obj)
  note q = demo_request_eval [OF _ _ a, of ?run "''write_file''", simplified]
  obtain l T es s w1 where b: "initialize_run ?R ?run w = (Inr (), w1)"
      "sqlite_runtime.world_at (dm_hash D) (l(?run := es)) T w1" "fresh_runs D runs l T" "fst (tw_outside T) = F"
      "map ev_event_type es = [RUN_CREATED, RUN_STARTED]" "replay (dm_hash D) ?run ((l(?run := es)) ?run) = Inr s"
      "status s = READY" "budget_left s" "select_intent (tw_store T) (demo_key D ?run) = None"
      "receipt_at (tw_store T) (demo_key D ?run) = None"
    by (rule begun_run [OF at r run])
  obtain d where d: "authorize ?q (demo_context file_registry_of D) = Inr d" "ad_outcome d = DENY"
      "join_with ''; '' (ad_reasons d) \<noteq> []" by (rule escape_denied [OF D refl])
  have s: "replay (dm_hash D) (tr_run_id ?q) ((l(?run := es)) (tr_run_id ?q)) = Inr s" using b(6) by simp
  have c: "authorize ?q (ru_context ?R) = Inr d" using d(1) by simp
  obtain x l' v where x: "submit ?R ?q w1 = (Inr x, v)" "rt_outcome x = DENIED" "sqlite_runtime.world_at (dm_hash D) l' T v"
      "sqlite_runtime.further (tr_run_id ?q) [TOOL_REQUESTED, TOOL_DENIED] (l(?run := es)) l'"
    by (rule sqlite_runtime.denial_eval [OF demo_on(1,2) b(2) q(2) s disjI1 [OF b(7)] b(8) c d(2,3)])
  have v: "rw_tools v = T" "effects_ok (dm_hash D) (tw_store T)" using x(3) by (simp_all add: sqlite_runtime.world_at_def)
  have "fresh_runs D (insert ?run runs) l' T" using b(3) x(4) by (auto simp: fresh_runs_def sqlite_runtime.further_def)
  with x(3) b(4) have at': "demo_at D (insert ?run runs) F v" unfolding demo_at_def by blast
  have "st_load_intent (sqlite_effects (dm_hash D)) (tw_store T) (dm_hash D (effect_identity ?run ''demo-call'')) = Inr None"
    using b(9) sqlite.load_intent [OF v(2)] by (simp add: demo_key_def)
  moreover have "path_exists (dm_root D @ [''outside.txt'']) v = (Inr False, v)"
    using path_exists_plain [of F "dm_root D @ [''outside.txt'']" v] demo_root_plain [OF F(1)] F(2) v(1) b(4) by simp
  moreover have "derive_effect_id (dm_hash D) ?run ''demo-call'' = Inr (dm_hash D (effect_identity ?run ''demo-call''))"
    by (simp add: derive_effect_id_def ensure_def)
  ultimately have "demo_escape D w = (Inr escape_summary, v)"
    using b(1) q(1) x(1,2) v(1)
    by (simp add: demo_escape_def bindA_def demo_runtime_made askA_def escape_summary_def)
  with that at' show thesis by blast
qed

end
