(* ===== verification/FileDemoProperties.thy ===== *)
theory FileDemoProperties
  imports FileDemoRuns
begin

section \<open>Properties of the file-tool demonstration\<close>

text \<open>
  The whole script: from any file system in which its temporary directory is new, it returns the
  summary its authors document, and leaves no file and no stored record behind.
\<close>

subsection \<open>Recovery that fails closed\<close>

definition recovery_summary :: json where
  "recovery_summary = JObj [(''automatic_retry'', JBool False),
     (''delete_file'', JObj [(''error_type'', JStr ''UnsafeToolRetryError''), (''target_preserved'', JBool True)]),
     (''write_file'', JObj [(''error_type'', JStr ''UnsafeToolRetryError''), (''target_exists'', JBool False)])]"

lemma fail_closed_eval:
  assumes D: "demo_ok D" and at: "demo_at D runs F w" and run: "run \<in> set demo_runs" "run \<notin> runs"
    and i: "build_intent (dm_hash D) run ''demo-call'' tool a = Inr i"
    and tool: "tool = ''write_file'' \<or> tool = ''delete_file''" and a: "canon (JObj a)"
  obtains v where "fail_closed (demo_runtime_of D) i w = (Inr ''UnsafeToolRetryError'', v)" and "demo_at D (insert run runs) F v"
proof -
  let ?R = "demo_runtime_of D"
  from at obtain l T where w: "sqlite_runtime.world_at (dm_hash D) l T w" "fresh_runs D runs l T" "fst (tw_outside T) = F"
    by (auto simp: demo_at_def)
  have T: "rw_tools w = T" "effects_ok (dm_hash D) (tw_store T)" using w(1) by (simp_all add: sqlite_runtime.world_at_def)
  have q: "wf_request (asked run tool a)" "request_arguments (asked run tool a) = a"
    using run(1) tool a by (intro demo_request_eval(2,3); auto simp: demo_runs_def)+
  have built: "wf_intent (dm_hash D) i" "in_tool_name i = tool" "derive_effect_id (dm_hash D) run ''demo-call'' = Inr (in_effect_id i)"
    using built_intent [where H = "dm_hash D" and i = i, OF q(1)] i by (simp_all add: q(2))
  have k: "in_effect_id i = demo_key D run" using built(3) by (auto simp: derive_effect_id_def demo_key_def result_simps)
  have new: "select_intent (tw_store T) (in_effect_id i) = None" "receipt_at (tw_store T) (in_effect_id i) = None"
    using w(2) run k by (simp_all add: fresh_runs_def)
  have wf: "wf_intent (dm_hash D) i" using built by simp
  obtain d where d: "st_save_intent (sqlite_effects (dm_hash D)) (tw_store T) i = Inr d" "effects_ok (dm_hash D) d"
      "select_intent d = (select_intent (tw_store T))(in_effect_id i \<mapsto> i)" "receipt_at d = receipt_at (tw_store T)"
    using sqlite.save_intent_new [OF T(2) wf new(1)] by blast
  let ?T = "T\<lparr>tw_store := d\<rparr>" and ?v = "w\<lparr>rw_tools := T\<lparr>tw_store := d\<rparr>\<rparr>"
  obtain df where df: "resolve file_registry_of (in_tool_name i) = Inr df" "\<not> td_retry_is_idempotent df"
    using tool built resolve_file_tools by auto
  have "execute (sqlite_effects (dm_hash D)) file_registry_of (ru_runner ?R) no_crash i ?T = (Inl UnsafeToolRetryError, ?T)"
    using sqlite.execute_pending [OF df(1), of "dm_hash D" ?T] d wf new(2) df(2) by simp
  then have run_: "fail_closed ?R i w = (Inr ''UnsafeToolRetryError'', ?v)"
    using d(1) T(1) by (simp add: fail_closed_def bindA_def toolsA_def storeA_def tryA_def)
  have "sqlite_runtime.world_at (dm_hash D) l ?T ?v" using w(1) d(2) by (simp add: sqlite_runtime.world_at_def)
  moreover have "demo_key D r \<noteq> demo_key D run" if "r \<in> set demo_runs" "r \<noteq> run" for r
    using D run(1) that unfolding demo_ok_def inj_on_def by blast
  then have "fresh_runs D (insert run runs) l ?T"
    using w(2) d(3,4) k by (auto simp: fresh_runs_def)
  ultimately have "demo_at D (insert run runs) F ?v" using w(3) unfolding demo_at_def by force
  with that run_ show thesis by blast
qed

text \<open>The script's own calls.\<close>

lemma outsideA_eval:
  assumes "sqlite_runtime.world_at H l T w"
  shows "outsideA f w = (Inr (), w\<lparr>rw_tools := T\<lparr>tw_outside := apfst f (tw_outside T)\<rparr>\<rparr>)"
    and "sqlite_runtime.world_at H l (T\<lparr>tw_outside := apfst f (tw_outside T)\<rparr>)
      (w\<lparr>rw_tools := T\<lparr>tw_outside := apfst f (tw_outside T)\<rparr>\<rparr>)"
  using assms by (simp_all add: outsideA_def sqlite_runtime.world_at_def)

lemma outside_eval:
  assumes "demo_at D runs F w"
  obtains v where "outsideA f w = (Inr (), v)" and "demo_at D runs (f F) v"
proof -
  from assms obtain l T where w: "sqlite_runtime.world_at (dm_hash D) l T w" "fresh_runs D runs l T" "fst (tw_outside T) = F"
    by (auto simp: demo_at_def)
  let ?T = "T\<lparr>tw_outside := apfst f (tw_outside T)\<rparr>"
  have "fresh_runs D runs l ?T" "fst (tw_outside ?T) = f F" using w(2,3) by (simp_all add: fresh_runs_def)
  then have "demo_at D runs (f F) (w\<lparr>rw_tools := ?T\<rparr>)" using outsideA_eval(2) [OF w(1)] unfolding demo_at_def by blast
  with that outsideA_eval(1) [OF w(1)] show thesis by blast
qed

lemma write_text_eval:
  assumes "demo_at D runs F w" and "plain F p"
  obtains v where "write_text (p @ [n]) t w = (Inr (), v)" and "demo_at D runs (F(p @ [n] \<mapsto> RegularFile (utf8_encode t))) v"
proof -
  have "put_node F (p @ [n]) (Some (RegularFile (utf8_encode t))) = F(p @ [n] \<mapsto> RegularFile (utf8_encode t))"
    using assms(2) by (intro entry_plain(3)) simp
  then show thesis
    using outside_eval [OF assms(1), of "\<lambda>fs. put_node fs (p @ [n]) (Some (RegularFile (utf8_encode t)))"] that
    unfolding write_text_def by metis
qed

lemma path_exists_demo:
  assumes "demo_at D runs F w" and "plain F p" and "n \<noteq> ''..''" and "\<not> is_link (F (p @ [n]))"
  shows "path_exists (p @ [n]) w = (Inr (F (p @ [n]) \<noteq> None), w)"
  using assms by (intro path_exists_plain) (auto simp: demo_at_def sqlite_runtime.world_at_def)

lemma demo_recovery_eval:
  assumes D: "demo_ok D" and at: "demo_at D runs F w"
    and run: "''demo-write-recovery'' \<notin> runs" "''demo-delete-recovery'' \<notin> runs"
    and F: "workspace_ok F (demo_workspace D)" "F (demo_workspace D @ [''unknown.txt'']) = None"
  obtains v where "demo_recovery D w = (Inr recovery_summary, v)"
    and "demo_at D (insert ''demo-delete-recovery'' (insert ''demo-write-recovery'' runs))
      (F(demo_workspace D @ [''preserve-me.txt''] \<mapsto> RegularFile (utf8_encode ''preserved''))) v"
proof -
  let ?w = "demo_workspace D" and ?R = "demo_runtime_of D"
  let ?F = "F(?w @ [''preserve-me.txt''] \<mapsto> RegularFile (utf8_encode ''preserved''))"
  have plain: "plain F ?w" using F(1) by (simp add: workspace_ok_def)
  then have plain': "plain ?F ?w" by (rule plain_update) simp
  obtain w1 where w1: "write_text (?w @ [''preserve-me.txt'']) ''preserved'' w = (Inr (), w1)" "demo_at D runs ?F w1"
    by (rule write_text_eval [OF at plain])
  have built: "\<exists>i. build_intent (dm_hash D) run ''demo-call'' tool a = Inr i"
    if "run \<noteq> []" "tool \<noteq> []" "canon (JObj a)" for run tool a
    using request_intent [where H = "dm_hash D", OF demo_request_eval(2) [OF that]] demo_request_eval(3) [OF that]
      demo_key_nonempty [OF D] by simp blast
  obtain i j where i: "build_intent (dm_hash D) ''demo-write-recovery'' ''demo-call'' ''write_file''
        [(''content'', JStr ''not retried''), (''path'', JStr ''unknown.txt'')] = Inr i"
    and j: "build_intent (dm_hash D) ''demo-delete-recovery'' ''demo-call'' ''delete_file''
        [(''path'', JStr ''preserve-me.txt'')] = Inr j"
    using built [of "''demo-write-recovery''" "''write_file''" "[(''content'', JStr ''not retried''), (''path'', JStr ''unknown.txt'')]"]
      built [of "''demo-delete-recovery''" "''delete_file''" "[(''path'', JStr ''preserve-me.txt'')]"]
    by (auto simp: canon_obj)
  have mem: "''demo-write-recovery'' \<in> set demo_runs" "''demo-delete-recovery'' \<in> set demo_runs"
    by (simp_all add: demo_runs_def)
  obtain w2 where w2: "fail_closed ?R i w1 = (Inr ''UnsafeToolRetryError'', w2)"
      "demo_at D (insert ''demo-write-recovery'' runs) ?F w2"
    by (rule fail_closed_eval [OF D w1(2) mem(1) run(1) i]) (simp_all add: canon_obj)
  have "''demo-delete-recovery'' \<notin> insert ''demo-write-recovery'' runs" using run(2) by simp
  then obtain w3 where w3: "fail_closed ?R j w2 = (Inr ''UnsafeToolRetryError'', w3)"
      "demo_at D (insert ''demo-delete-recovery'' (insert ''demo-write-recovery'' runs)) ?F w3"
    by (rule fail_closed_eval [OF D w2(2) mem(2) _ j]) (simp_all add: canon_obj)
  have "path_exists (?w @ [''unknown.txt'']) w3 = (Inr False, w3)" "path_exists (?w @ [''preserve-me.txt'']) w3 = (Inr True, w3)"
    using path_exists_demo [OF w3(2) plain', of "''unknown.txt''"] path_exists_demo [OF w3(2) plain', of "''preserve-me.txt''"] F(2)
    by simp_all
  then have "demo_recovery D w = (Inr recovery_summary, w3)"
    using w1(1) w2(1) w3(1) i j
    by (simp add: demo_recovery_def bindA_def demo_runtime_made recovery_summary_def)
  with that w3(2) show thesis by blast
qed

subsection \<open>The script\<close>

lemma start_at:
  fixes D :: demo and fs :: file_system
  shows "sqlite_runtime.world_at (dm_hash D) (\<lambda>_. []) (fresh_world (fs, 0 :: nat)) (start_world (fs, 0))"
proof -
  have "history empty_events = (\<lambda>_. [])"
    using sound_start [of "demo_runtime_of D" "(fs, 0)"]
    by (intro ext stored_history_eq [of "dm_hash D"]) (simp add: stored_history_def empty_events_def)
  then show ?thesis
    using sound_world_at [OF sound_start [of "demo_runtime_of D" "(fs, 0)"]] by (simp add: start_world_def)
qed

definition demo_summary :: "demo \<Rightarrow> payload" where
  "demo_summary D = [(''delete_file'', delete_summary), (''denied_escape'', escape_summary),
     (''fail_closed_recovery'', recovery_summary), (''read_file'', read_summary D), (''write_file'', write_summary D)]"

lemma workspace_ok_update:
  "workspace_ok F root \<Longrightarrow> \<not> is_link n \<Longrightarrow> p \<noteq> root \<Longrightarrow> workspace_ok (F(p := n)) root"
  by (simp add: workspace_ok_def plain_update)

text \<open>The temporary directory is new.\<close>

definition new_directory :: "file_system \<Rightarrow> abs_path \<Rightarrow> bool" where
  "new_directory fs root \<longleftrightarrow> plain fs root \<and> fs root = None \<and> (\<forall>p. inside root p \<longrightarrow> fs p = None)"

definition demo_directory :: "demo \<Rightarrow> file_system \<Rightarrow> file_system" where
  "demo_directory D fs = fs(dm_root D \<mapsto> Directory, demo_workspace D \<mapsto> Directory,
     demo_workspace D @ [''input.txt''] \<mapsto> RegularFile (utf8_encode demo_text),
     demo_workspace D @ [''delete-me.txt''] \<mapsto> RegularFile (utf8_encode ''disposable''))"

text \<open>The files after the script.\<close>

definition demo_result :: "demo \<Rightarrow> file_system \<Rightarrow> file_system" where
  "demo_result D fs = (demo_directory D fs)(
     demo_workspace D @ [''output.txt''] \<mapsto> RegularFile (utf8_encode demo_text),
     demo_workspace D @ [''delete-me.txt''] := None,
     demo_workspace D @ [''preserve-me.txt''] \<mapsto> RegularFile (utf8_encode ''preserved''))"

text \<open>The two directories the scripts make.\<close>

definition with_workspace :: "demo \<Rightarrow> file_system \<Rightarrow> file_system" where
  "with_workspace D fs = fs(dm_root D \<mapsto> Directory, demo_workspace D \<mapsto> Directory)"

lemma directories_made:
  assumes "demo_ok D" and "new_directory fs (dm_root D)"
  shows "put_node (put_node fs (dm_root D) (Some Directory)) (demo_workspace D) (Some Directory) = with_workspace D fs"
    and "workspace_ok (fs(dm_root D \<mapsto> Directory, demo_workspace D \<mapsto> Directory)) (demo_workspace D)"
    and "plain (with_workspace D fs) (demo_workspace D)"
    and "n \<noteq> [] \<Longrightarrow> with_workspace D fs (demo_workspace D @ n) = None"
proof -
  have root: "plain fs (dm_root D)" "\<And>ws. ws \<noteq> [] \<Longrightarrow> fs (dm_root D @ ws) = None"
    using assms(2) inside_append by (auto simp: new_directory_def)
  have plain: "plain (fs(dm_root D \<mapsto> Directory)) (dm_root D @ [''workspace''])"
    using plain_update [OF root(1), of "Some Directory"] root(2) by (simp add: plain_snoc link_target_def)
  then show made: "workspace_ok (fs(dm_root D \<mapsto> Directory, demo_workspace D \<mapsto> Directory)) (demo_workspace D)"
    using assms(1) plain_update [OF plain, of "Some Directory"]
    by (auto simp: workspace_ok_def demo_workspace_def demo_ok_def component_def)
  then show "plain (with_workspace D fs) (demo_workspace D)" by (simp add: workspace_ok_def with_workspace_def)
  show "put_node (put_node fs (dm_root D) (Some Directory)) (demo_workspace D) (Some Directory) = with_workspace D fs"
    using entry_plain(3) [OF plain_butlast [OF root(1)]] entry_plain(3) [of "fs(dm_root D \<mapsto> Directory)" "demo_workspace D"]
      plain_update [OF root(1), of "Some Directory"] by (simp add: demo_workspace_def with_workspace_def)
  show "with_workspace D fs (demo_workspace D @ n) = None" if "n \<noteq> []"
    using that root(2) [of "''workspace'' # n"] by (simp add: with_workspace_def demo_workspace_def)
qed

lemma demo_prepared:
  assumes "demo_ok D" and "new_directory fs (dm_root D)"
  shows "workspace_ok (demo_directory D fs) (demo_workspace D)" and "no_staging (demo_directory D fs) (demo_workspace D)"
    and "n \<notin> {''input.txt'', ''delete-me.txt''} \<Longrightarrow> demo_directory D fs (demo_workspace D @ [n]) = None"
    and "n \<noteq> ''workspace'' \<Longrightarrow> demo_directory D fs (dm_root D @ [n]) = None"
proof -
  have root: "\<And>ws. ws \<noteq> [] \<Longrightarrow> fs (dm_root D @ ws) = None"
    using assms(2) inside_append by (auto simp: new_directory_def)
  note made = directories_made(2) [OF assms]
  show "workspace_ok (demo_directory D fs) (demo_workspace D)"
    unfolding demo_directory_def by (rule workspace_ok_update [OF workspace_ok_update [OF made]]) simp_all
  show "no_staging (demo_directory D fs) (demo_workspace D)"
    using root by (simp add: no_staging_def demo_directory_def demo_workspace_def)
  show "demo_directory D fs (demo_workspace D @ [n]) = None" if "n \<notin> {''input.txt'', ''delete-me.txt''}"
    using that root by (simp add: demo_directory_def demo_workspace_def)
  show "demo_directory D fs (dm_root D @ [n]) = None" if "n \<noteq> ''workspace''"
    using that root by (simp add: demo_directory_def demo_workspace_def)
qed

lemma demo_started:
  assumes "demo_ok D" and "new_directory fs (dm_root D)"
  obtains w0 w1 w2 w where
    "outsideA (\<lambda>fs. put_node fs (dm_root D) (Some Directory)) (start_world (fs, 0)) = (Inr (), w0)"
    and "outsideA (\<lambda>fs. put_node fs (demo_workspace D) (Some Directory)) w0 = (Inr (), w1)"
    and "write_text (demo_workspace D @ [''input.txt'']) demo_text w1 = (Inr (), w2)"
    and "write_text (demo_workspace D @ [''delete-me.txt'']) ''disposable'' w2 = (Inr (), w)"
    and "demo_at D {} (demo_directory D fs) w"
proof -
  let ?w = "demo_workspace D" and ?M = "with_workspace D fs"
  let ?I = "?M(?w @ [''input.txt''] \<mapsto> RegularFile (utf8_encode demo_text))"
  note M = directories_made(3) [OF assms]
  have I: "plain ?I ?w" by (intro plain_update M) simp_all
  have "fresh_runs D {} (\<lambda>_. []) (fresh_world (fs, 0 :: nat))"
    by (simp add: fresh_runs_def fresh_world_def empty_effects_def select_intent_def receipt_at_def select_receipt_def)
  with start_at have start: "demo_at D {} fs (start_world (fs, 0))" unfolding demo_at_def by (force simp: fresh_world_def)
  obtain w0 where w0: "outsideA (\<lambda>fs. put_node fs (dm_root D) (Some Directory)) (start_world (fs, 0)) = (Inr (), w0)"
      "demo_at D {} (put_node fs (dm_root D) (Some Directory)) w0"
    by (rule outside_eval [OF start])
  obtain w1 where w1: "outsideA (\<lambda>fs. put_node fs ?w (Some Directory)) w0 = (Inr (), w1)" "demo_at D {} ?M w1"
    using outside_eval [OF w0(2)] directories_made(1) [OF assms] by metis
  obtain w2 where w2: "write_text (?w @ [''input.txt'']) demo_text w1 = (Inr (), w2)" "demo_at D {} ?I w2"
    by (rule write_text_eval [OF w1(2) M])
  obtain w3 where "write_text (?w @ [''delete-me.txt'']) ''disposable'' w2 = (Inr (), w3)"
      "demo_at D {} (demo_directory D fs) w3"
    unfolding demo_directory_def with_workspace_def [symmetric] by (rule write_text_eval [OF w2(2) I])
  with that w0(1) w1(1) w2(1) show thesis by blast
qed

text \<open>Removing the directory leaves the file system as it was before.\<close>

lemma remove_tree_back:
  assumes "new_directory fs root" and "\<And>p. p \<noteq> root \<Longrightarrow> \<not> inside root p \<Longrightarrow> fs' p = fs p"
  shows "remove_tree root fs' = fs"
  using assms by (auto simp: remove_tree_def new_directory_def)

lemma demo_result_removed:
  assumes "new_directory fs (dm_root D)"
  shows "remove_tree (dm_root D) (demo_result D fs) = fs"
proof (rule remove_tree_back [OF assms])
  fix p assume p: "p \<noteq> dm_root D" "\<not> inside (dm_root D) p"
  have "p \<noteq> dm_root D @ x # ws" for x ws using p(2) inside_append [of "x # ws" "dm_root D"] by auto
  then show "demo_result D fs p = fs p" using p(1) by (simp add: demo_result_def demo_directory_def demo_workspace_def)
qed

lemma with_workspace_removed:
  assumes "new_directory fs (dm_root D)"
  shows "remove_tree (dm_root D) ((with_workspace D fs)(demo_workspace D @ [n] \<mapsto> f)) = fs"
proof (rule remove_tree_back [OF assms])
  fix p assume p: "p \<noteq> dm_root D" "\<not> inside (dm_root D) p"
  have "p \<noteq> dm_root D @ x # ws" for x ws using p(2) inside_append [of "x # ws" "dm_root D"] by auto
  then show "((with_workspace D fs)(demo_workspace D @ [n] \<mapsto> f)) p = fs p"
    using p(1) by (simp add: with_workspace_def demo_workspace_def)
qed

text \<open>C23: the file-tool demonstration: with a new temporary directory, from any state of the rest of the file
  system, the script returns its summary: the read, the reviewed write and the answered deletion
  each with their events and receipt, the denied escape, and the two recoveries that refuse to
  repeat an effect. When its block ends the directory holds exactly the input, the written output
  and the preserved file; after it the directory, its files and its database are gone, and the
  file system is as it was before.\<close>

theorem demo_returns_summary:
  assumes "demo_ok D" and "new_directory fs (dm_root D)"
  shows "\<exists>v w. in_directory D (demo_script D) (start_world (fs, 0)) = (Inr (demo_summary D), v) \<and>
    fst (tw_outside (rw_tools v)) = demo_result D fs \<and>
    run_demo D (start_world (fs, 0)) = (Inr (demo_summary D), w) \<and>
    fst (tw_outside (rw_tools w)) = fs \<and>
    rw_events w = empty_events \<and> tw_store (rw_tools w) = empty_effects"
proof -
  let ?w = "demo_workspace D" and ?D = "demo_directory D fs"
  let ?D1 = "?D(?w @ [''output.txt''] \<mapsto> RegularFile (utf8_encode demo_text))"
  let ?D2 = "?D1(?w @ [''delete-me.txt''] := None)"
  note F = demo_prepared [OF assms]
  have F1: "workspace_ok ?D1 ?w" by (intro workspace_ok_update F(1)) simp_all
  have F2: "workspace_ok ?D2 ?w" by (intro workspace_ok_update F1) simp_all
  obtain w0 w1 w2 w3 where pre: "outsideA (\<lambda>fs. put_node fs (dm_root D) (Some Directory)) (start_world (fs, 0)) = (Inr (), w0)"
      "outsideA (\<lambda>fs. put_node fs ?w (Some Directory)) w0 = (Inr (), w1)"
      "write_text (?w @ [''input.txt'']) demo_text w1 = (Inr (), w2)"
      "write_text (?w @ [''delete-me.txt'']) ''disposable'' w2 = (Inr (), w3)" "demo_at D {} ?D w3"
    by (rule demo_started [OF assms])
  have files: "?D (?w @ [''input.txt'']) = Some (RegularFile (utf8_encode demo_text))"
      "?D1 (?w @ [''delete-me.txt'']) = Some (RegularFile (utf8_encode ''disposable''))"
    by (simp_all add: demo_directory_def)
  obtain w4 where w4: "demo_read D w3 = (Inr (read_summary D), w4)" "demo_at D {''demo-read''} ?D w4"
    by (rule demo_read_eval [OF assms(1) pre(5) _ F(1) files(1)]) simp_all
  obtain w5 where w5: "demo_write D w4 = (Inr (write_summary D), w5)" "demo_at D {''demo-write'', ''demo-read''} ?D1 w5"
    by (rule demo_write_eval [OF assms(1) w4(2) _ F(1) F(3) F(2)]) simp_all
  obtain w6 where w6: "demo_delete D w5 = (Inr delete_summary, w6)"
      "demo_at D {''demo-delete'', ''demo-write'', ''demo-read''} ?D2 w6"
    by (rule demo_delete_eval [OF assms(1) w5(2) _ F1 files(2)]) simp_all
  have o: "?D2 (dm_root D @ [''outside.txt'']) = None" "?D2 (?w @ [''unknown.txt'']) = None"
    using F(3) [of "''unknown.txt''"] F(4) [of "''outside.txt''"] by (simp_all add: demo_workspace_def)
  obtain w7 where w7: "demo_escape D w6 = (Inr escape_summary, w7)"
      "demo_at D {''demo-escape'', ''demo-delete'', ''demo-write'', ''demo-read''} ?D2 w7"
    by (rule demo_escape_eval [OF assms(1) w6(2) _ F2 o(1)]) simp_all
  obtain w8 where w8: "demo_recovery D w7 = (Inr recovery_summary, w8)"
      "demo_at D (insert ''demo-delete-recovery'' (insert ''demo-write-recovery''
        {''demo-escape'', ''demo-delete'', ''demo-write'', ''demo-read''}))
        (?D2(?w @ [''preserve-me.txt''] \<mapsto> RegularFile (utf8_encode ''preserved''))) w8"
    by (rule demo_recovery_eval [OF assms(1) w7(2) _ _ F2 o(2)]) simp_all
  have body: "in_directory D (demo_script D) (start_world (fs, 0)) = (Inr (demo_summary D), w8)"
    using pre(1-4) w4(1) w5(1) w6(1) w7(1) w8(1)
    by (simp add: in_directory_def demo_script_def bindA_def demo_summary_def)
  moreover have files: "fst (tw_outside (rw_tools w8)) = demo_result D fs"
    using w8(2) by (auto simp: demo_at_def demo_result_def sqlite_runtime.world_at_def)
  moreover have "run_demo D (start_world (fs, 0)) = (Inr (demo_summary D), removed D w8)"
    by (simp add: run_demo_def temporary_directory_def body)
  ultimately show ?thesis using demo_result_removed [OF assms(2)]
    by (intro exI [of _ w8] exI [of _ "removed D w8"]) (simp add: removed_def)
qed

text \<open>A hash that tells the six effects apart, and an empty file system.\<close>

definition demo_sample_hash :: hash where
  "demo_sample_hash t = (let n = length (takeWhile (\<lambda>r. effect_identity r ''demo-call'' \<noteq> t) demo_runs) in
     replicate n (CHR ''1'') @ replicate (64 - n) (CHR ''0''))"

lemma demo_sample_hash_digest: "hex_digest (demo_sample_hash t)"
proof -
  have "length (takeWhile P demo_runs) \<le> 6" for P
    using length_takeWhile_le [of P demo_runs] by (simp add: demo_runs_def)
  then have "length (takeWhile P demo_runs) \<le> 64" for P by (rule order_trans) simp
  then show ?thesis
    by (simp add: hex_digest_def demo_sample_hash_def Let_def list_all_iff is_digit_def ball_Un)
qed

lemma demo_sample_hash_inj: "inj_on (\<lambda>r. demo_sample_hash (effect_identity r ''demo-call'')) (set demo_runs)"
proof -
  have "distinct (map (\<lambda>r. demo_sample_hash (effect_identity r ''demo-call'')) demo_runs)"
    by (simp add: demo_sample_hash_def demo_runs_def numeral_eq_Suc)
  then show ?thesis by (simp add: distinct_map)
qed

definition sample_demo :: demo where
  "sample_demo = \<lparr>dm_hash = demo_sample_hash, dm_root = [''t''], dm_resolver = (\<lambda>p. Inr (lexical p)),
     dm_describe = (\<lambda>_ _ _. ''error''), dm_sha256 = (\<lambda>b. b),
     dm_envs = (\<lambda>n. \<lparr>fe_root = [''t'', ''workspace''], fe_max_bytes = nat DEFAULT_MAX_BYTES, fe_fails = (\<lambda>_. False),
       fe_partial = (\<lambda>b. b), fe_random = (\<lambda>_. ''x''), fe_sha256 = (\<lambda>b. b)\<rparr>)\<rparr>"

lemma sample_demo_ok: "demo_ok sample_demo"
  unfolding demo_ok_def demo_key_def
  using demo_sample_hash_digest demo_sample_hash_inj
  by (simp add: sample_demo_def demo_workspace_def calm_env_def component_def)

theorem demo_returns_summary_witness:
  "\<exists>v w. in_directory sample_demo (demo_script sample_demo) (start_world (\<lambda>_. None, 0)) = (Inr (demo_summary sample_demo), v) \<and>
     fst (tw_outside (rw_tools v)) [''t'', ''workspace'', ''output.txt''] = Some (RegularFile (utf8_encode demo_text)) \<and>
     run_demo sample_demo (start_world (\<lambda>_. None, 0)) = (Inr (demo_summary sample_demo), w) \<and>
     fst (tw_outside (rw_tools w)) = (\<lambda>_. None)"
proof -
  have root: "dm_root sample_demo = [''t'']" by (simp add: sample_demo_def)
  have "new_directory (\<lambda>_. None) (dm_root sample_demo)"
    by (simp add: new_directory_def plain_def link_target_def root)
  from demo_returns_summary [OF sample_demo_ok this] show ?thesis
    by (fastforce simp: demo_result_def demo_workspace_def root)
qed

end
