(* ===== verification/TraceDemo.thy ===== *)
theory TraceDemo
  imports FileDemo Trace
begin

section \<open>The trace demonstration (examples/r4l\_trace\_demo.py)\<close>

text \<open>
  One run of the model-driven agent on the read tool of a temporary workspace, the summary of its
  trace, and the removal of the directory. The parameters are those of the file-tool demonstration.
\<close>

definition TRACE_DEMO_TIME :: datetime where
  "TRACE_DEMO_TIME = \<lparr>year = 2026, month = 8, day = 15, hour = 0, minute = 0, second = 0,
     microsecond = 0, utcoffset = Some 0\<rparr>"

definition trace_demo_run :: string where
  "trace_demo_run = ''r4l-trace-demo''"

definition trace_demo_content :: string where
  "trace_demo_content = ''trace demo private content''"

definition trace_demo_answer :: string where
  "trace_demo_answer = ''trace demo complete''"

text \<open>\<open>DemoExpectationResolver.expectation_for\<close>.\<close>

definition demo_expectation_for :: "string \<Rightarrow> resolver_of_expectations" where
  "demo_expectation_for expected_sha256 c action =
     (let path = get (tool_call_arguments action) ''path'' in
      ensure (path = JStr ''input.txt'') PyValueError
      (bindR (make_expectation ''input.txt'' expected_sha256) (\<lambda>e. Inr (Some e))))"

definition make_trace_demo_runtime :: "demo \<Rightarrow> demo_runtime result" where
  "make_trace_demo_runtime D =
     bindR make_restricted_file_registry (\<lambda>registry.
     runtime_init \<lparr>ru_hash = dm_hash D, ru_log = sqlite_events (dm_hash D),
       ru_effects = sqlite_effects (dm_hash D), ru_registry = registry,
       ru_runner = file_runner (dm_describe D) (dm_envs D), ru_injector = no_crash,
       ru_context = \<lparr>ac_registry = registry, ac_resolver = dm_resolver D, ac_root = demo_workspace D,
         ac_risk_rules = [], ac_policy = \<lparr>op_default_mode = AUTO, op_rules = []\<rparr>, ac_minimum_mode = AUTO\<rparr>,
       ru_snapshots = False, ru_snapshot_injector = None,
       ru_gate_evaluator = (\<lambda>gate answer. map_sum id Some (evaluate_gate gate answer)),
       ru_max_attempts = 3, ru_clock = (\<lambda>_. TRACE_DEMO_TIME)\<rparr>)"

definition append_trace_event :: "demo_runtime \<Rightarrow> string \<Rightarrow> int \<Rightarrow> EventType \<Rightarrow> payload \<Rightarrow> unit demo_operation" where
  "append_trace_event R event_id sequence k p =
     bindA (liftA (build_event event_id trace_demo_run sequence k TRACE_DEMO_TIME p)) (storeEventA R)"

text \<open>The scripted model.\<close>

definition trace_demo_actions :: "ModelAction list result" where
  "trace_demo_actions =
     bindR (build_tool_call ''call-read'' ''read_file'' [(''path'', JStr ''input.txt'')]) (\<lambda>call.
     bindR (final_answer_post_init trace_demo_answer) (\<lambda>answer.
     Inr [ToolCall call, FinalAnswer answer]))"

definition trace_demo_agent :: "demo_runtime \<Rightarrow> ModelAction list \<Rightarrow> (EventDB, EffectDB, file_system \<times> nat, unit) agent" where
  "trace_demo_agent R actions = \<lparr>ag_runtime = R, ag_adapter = (\<lambda>c a. (static_next_action actions c, a)),
     ag_run_id = trace_demo_run, ag_injector = None\<rparr>"

text \<open>An operation of an agent whose adapter has no state.\<close>

definition agentA :: "(EventDB, EffectDB, file_system \<times> nat, unit, 'x) agent_operation \<Rightarrow> 'x demo_operation" where
  "agentA m w = (case m \<lparr>aw_runtime = w, aw_adapter = ()\<rparr> of (r, v) \<Rightarrow> (r, aw_runtime v))"

definition trace_summary :: "hash \<Rightarrow> RunTrace \<Rightarrow> payload result" where
  "trace_summary H trace =
     bindR (trace_digest H trace) (\<lambda>digest.
     Inr [(''event_types'', JArr (map (JStr \<circ> tr_event_type) (rt_records trace))),
       (''final_status'', JStr (rt_final_status trace)),
       (''metrics'', JObj (trace_metrics_dict (rt_metrics trace))),
       (''run_id'', JStr (rt_run_id trace)),
       (''schema_version'', JInt (rt_schema_version trace)),
       (''trace_digest'', JStr digest)])"

text \<open>The loop runs with fuel; None is only that the fuel was used up.\<close>

definition trace_demo_script :: "nat \<Rightarrow> demo \<Rightarrow> payload option demo_operation" where
  "trace_demo_script fuel D =
     bindA (outsideA (\<lambda>fs. put_node fs (demo_workspace D) (Some Directory))) (\<lambda>_.
     bindA (write_text (demo_workspace D @ [''input.txt'']) trace_demo_content) (\<lambda>_.
     bindA (liftA (make_trace_demo_runtime D)) (\<lambda>R.
     bindA (append_trace_event R (trace_demo_run @ '':0:created'') 0 RUN_CREATED [(''max_steps'', JInt 2)]) (\<lambda>_.
     bindA (append_trace_event R (trace_demo_run @ '':1:started'') 1 RUN_STARTED []) (\<lambda>_.
     bindA (liftA trace_demo_actions) (\<lambda>actions.
     bindA (liftA (expectation_post_init
       \<lparr>ce_expected_answer = trace_demo_answer, ce_require_verified_observation = True\<rparr>)) (\<lambda>completion_expectation.
     bindA (agentA (run_loop fuel (trace_demo_agent R actions)
       (demo_expectation_for (dm_sha256 D (utf8_encode trace_demo_content))) completion_expectation)) (\<lambda>result.
     case result of
       None \<Rightarrow> returnA None
     | Some r \<Rightarrow>
         checkA (ml_outcome r = LOOP_COMPLETED) PyRuntimeError
         (bindA (eventsA R trace_demo_run) (\<lambda>es.
          bindA (liftA (build_run_trace (dm_hash D) trace_demo_run es)) (\<lambda>trace.
          bindA (liftA (trace_summary (dm_hash D) trace)) (\<lambda>summary.
          returnA (Some summary)))))))))))))"

definition run_trace_demo :: "nat \<Rightarrow> demo \<Rightarrow> payload option demo_operation" where
  "run_trace_demo fuel D = temporary_directory D (trace_demo_script fuel D)"

end
