(* ===== verification/TraceDemoProperties.thy ===== *)
theory TraceDemoProperties
  imports TraceDemo FileDemoProperties ToolRuns TraceProperties AgentSafety
begin

section \<open>Properties of the trace demonstration\<close>

text \<open>
  The agent of the script completes its run in two turns, and the summary of the trace is the one
  its authors document; the script leaves nothing behind.
\<close>

subsection \<open>The trace of a replayed run\<close>

lemma trace_of_replay:
  assumes "\<forall>e \<in> set es. wf_event e" and "replay H run es = Inr s"
  obtains t where "build_run_trace H run es = Inr t" and "rt_run_id t = run"
    and "rt_final_status t = status_value (status s)" and "rt_metrics t = trace_metrics s es"
    and "rt_schema_version t = TRACE_SCHEMA_VERSION"
    and "map tr_event_type (rt_records t) = map (type_value \<circ> ev_event_type) es"
proof -
  from assms(2) obtain s0 where s: "initial_state run = Inr s0" "foldR (reduce H) s0 es = Inr s"
    by (auto simp: replay_def replay_tail_def result_simps)
  with trace_fold [OF assms(1), of H s0] obtain ts where ts: "foldR (trace_step H) (s0, []) es = Inr (s, ts)"
      "length ts = length es" "\<forall>i < length es. between H s0 es i (ts ! i)" by auto
  have "tr_event_type (ts ! i) = type_value (ev_event_type (es ! i))" if i: "i < length es" for i
  proof -
    have "wf_event (es ! i)" "between H s0 es i (ts ! i)" using assms(1) ts(3) i by simp_all
    then show ?thesis by (auto simp: between_def trace_record_eq dest!: sym [of _ "ts ! i"])
  qed
  then have "map tr_event_type ts = map (type_value \<circ> ev_event_type) es"
    using ts(2) by (intro nth_equalityI) simp_all
  with that s(1) ts(1) show thesis by (simp add: build_run_trace_def)
qed

subsection \<open>The configuration\<close>

definition trace_demo_context :: "demo \<Rightarrow> AuthorizationContext" where
  "trace_demo_context D = \<lparr>ac_registry = file_registry_of, ac_resolver = dm_resolver D, ac_root = demo_workspace D,
     ac_risk_rules = [], ac_policy = \<lparr>op_default_mode = AUTO, op_rules = []\<rparr>, ac_minimum_mode = AUTO\<rparr>"

definition trace_demo_runtime_of :: "demo \<Rightarrow> demo_runtime" where
  "trace_demo_runtime_of D = (demo_runtime_of D)\<lparr>ru_context := trace_demo_context D, ru_clock := \<lambda>_. TRACE_DEMO_TIME\<rparr>"

lemma trace_demo_time: "valid_datetime TRACE_DEMO_TIME" "utcoffset TRACE_DEMO_TIME = Some 0"
  by (simp_all add: TRACE_DEMO_TIME_def valid_datetime_def days_in_month_def)

lemma trace_demo_runtime_simps [simp]:
  "ru_hash (trace_demo_runtime_of D) = dm_hash D" "ru_registry (trace_demo_runtime_of D) = file_registry_of"
  "ru_context (trace_demo_runtime_of D) = trace_demo_context D"
  "ru_runner (trace_demo_runtime_of D) = file_runner (dm_describe D) (dm_envs D)"
  "ru_injector (trace_demo_runtime_of D) = no_crash"
  by (simp_all add: trace_demo_runtime_of_def)

lemma trace_demo_runtime_made: "make_trace_demo_runtime D = Inr (trace_demo_runtime_of D)"
proof -
  have registry: "make_restricted_file_registry = Inr file_registry_of"
    by (simp add: make_restricted_file_registry_def make_registry_Inr_iff file_registry_of_def
        restricted_file_tool_definitions_def)
  show ?thesis unfolding make_trace_demo_runtime_def registry
    by (simp add: runtime_init_def ensure_def trace_demo_runtime_of_def demo_runtime_of_def trace_demo_context_def)
qed

lemma trace_demo_on:
  "runtime_on (dm_hash D) (sqlite_events (dm_hash D)) (sqlite_effects (dm_hash D)) file_registry_of (trace_demo_runtime_of D)"
  "undisturbed (trace_demo_runtime_of D)"
proof -
  have "sqlite_runtime (trace_demo_runtime_of D)"
    by (simp add: sqlite_runtime_def trace_demo_runtime_of_def demo_runtime_of_def trace_demo_time)
  from sqlite_runtime_on [OF this]
  show "runtime_on (dm_hash D) (sqlite_events (dm_hash D)) (sqlite_effects (dm_hash D)) file_registry_of (trace_demo_runtime_of D)"
    by simp
  show "undisturbed (trace_demo_runtime_of D)"
    by (simp add: undisturbed_def trace_demo_runtime_of_def demo_runtime_of_def trace_demo_time)
qed

text \<open>The runtime's event ids end in a type, those of the script do not.\<close>

lemma runtime_id_type:
  "takeWhile (\<lambda>c. c \<noteq> CHR '':'') (rev (runtime_event_id r n k)) = rev (type_value k)"
  by (cases k) (simp_all add: runtime_event_id_def)

lemma script_id:
  assumes "takeWhile (\<lambda>c. c \<noteq> CHR '':'') (rev i) = rev w" and "w \<notin> range type_value"
  shows "i \<noteq> runtime_event_id r n k"
  using assms runtime_id_type [of r n k] by (metis rangeI rev_rev_ident)

lemma script_ids:
  "trace_demo_run @ '':0:created'' \<noteq> runtime_event_id r n k"
  "trace_demo_run @ '':1:started'' \<noteq> runtime_event_id r n k"
proof -
  have "type_value k \<noteq> ''created''" "type_value k \<noteq> ''started''" for k by (cases k; simp)+
  then have w: "''created'' \<notin> range type_value" "''started'' \<notin> range type_value" by (metis imageE)+
  show "trace_demo_run @ '':0:created'' \<noteq> runtime_event_id r n k"
    "trace_demo_run @ '':1:started'' \<noteq> runtime_event_id r n k"
    using script_id [OF _ w(1)] script_id [OF _ w(2)] by (simp_all add: trace_demo_run_def)
qed

subsection \<open>The begun run\<close>

lemma trace_demo_begun:
  assumes w: "sqlite_runtime.world_at (dm_hash D) (\<lambda>_. []) T w"
  obtains v v' es s where
    "append_trace_event (trace_demo_runtime_of D) (trace_demo_run @ '':0:created'') 0 RUN_CREATED [(''max_steps'', JInt 2)] w =
      (Inr (), v)"
    and "append_trace_event (trace_demo_runtime_of D) (trace_demo_run @ '':1:started'') 1 RUN_STARTED [] v = (Inr (), v')"
    and "sqlite_runtime.world_at (dm_hash D) ((\<lambda>_. [])(trace_demo_run := es)) T v'"
    and "map ev_event_type es = [RUN_CREATED, RUN_STARTED]" and "\<forall>e \<in> set es. wf_event e"
    and "replay (dm_hash D) trace_demo_run es = Inr s" and "status s = READY" and "max_steps s = Some 2"
    and "turn_index s = 0"
proof -
  let ?R = "trace_demo_runtime_of D" and ?run = trace_demo_run
  let ?a = "trace_demo_run @ '':0:created''" and ?b = "trace_demo_run @ '':1:started''"
  have run: "?run \<noteq> []" "?a \<noteq> []" "?b \<noteq> []" "?a \<noteq> ?b" by (simp_all add: trace_demo_run_def)
  have p: "canon (JObj [(''max_steps'', JInt 2)])" "canon (JObj [])" by (simp_all add: canon_obj)
  have offset: "utcoffset TRACE_DEMO_TIME \<noteq> None" by (simp add: trace_demo_time)
  obtain e where e: "build_event ?a ?run 0 RUN_CREATED TRACE_DEMO_TIME [(''max_steps'', JInt 2)] = Inr e"
      "wf_event e" "payload e = [(''max_steps'', JInt 2)]" "ev_event_id e = ?a" "ev_run_id e = ?run" "ev_sequence e = 0"
      "ev_event_type e = RUN_CREATED"
    by (rule build_event_payload [OF p(1) run(2,1) _ offset trace_demo_time(1), where n = 0]) simp_all
  obtain f where f: "build_event ?b ?run 1 RUN_STARTED TRACE_DEMO_TIME [] = Inr f"
      "wf_event f" "payload f = []" "ev_event_id f = ?b" "ev_run_id f = ?run" "ev_sequence f = 1"
      "ev_event_type f = RUN_STARTED"
    by (rule build_event_payload [OF p(2) run(3,1) _ offset trace_demo_time(1), where n = 1]) simp_all
  obtain v where v: "storeEventA ?R e w = (Inr (), v)"
      "sqlite_runtime.world_at (dm_hash D) (extended (\<lambda>_. []) (ev_run_id e) e) T v"
    by (rule sqlite_runtime.caller_append [OF trace_demo_on(1) w e(2)]) (simp_all add: e script_ids)
  obtain v' where v': "storeEventA ?R f v = (Inr (), v')"
      "sqlite_runtime.world_at (dm_hash D) (extended (extended (\<lambda>_. []) (ev_run_id e) e) (ev_run_id f) f) T v'"
    by (rule sqlite_runtime.caller_append [OF trace_demo_on(1) v(2) f(2)])
       (use run(4) in \<open>auto simp: e f script_ids extended_def\<close>)
  let ?s = "(empty_state ?run)\<lparr>status := READY, next_sequence := 2, max_steps := Some 2,
    applied_event_fingerprints := [(?a, fingerprint (dm_hash D) e), (?b, fingerprint (dm_hash D) f)]\<rparr>"
  have s: "replay (dm_hash D) ?run [e, f] = Inr ?s"
    using run e(3-) f(3-)
    by (simp add: replay_def replay_tail_def initial_state_def empty_state_def reduce_eval)
  show thesis
  proof (rule that [of v v' "[e, f]" ?s])
    show "append_trace_event ?R ?a 0 RUN_CREATED [(''max_steps'', JInt 2)] w = (Inr (), v)"
      using e(1) v(1) by (simp add: append_trace_event_def bindA_def)
    show "append_trace_event ?R ?b 1 RUN_STARTED [] v = (Inr (), v')"
      using f(1) v'(1) by (simp add: append_trace_event_def bindA_def)
    show "sqlite_runtime.world_at (dm_hash D) ((\<lambda>_. [])(?run := [e, f])) T v'"
      using v'(2) by (simp add: extended_def e f)
  qed (use s in \<open>simp_all add: e f empty_state_def\<close>)
qed

subsection \<open>The agent\<close>

definition demo_call :: ToolCallAction where
  "demo_call = \<lparr>tca_tool_call_id = ''call-read'', tca_tool_name = ''read_file'',
     tca_arguments_json = render (JObj [(''path'', JStr ''input.txt'')])\<rparr>"

lemma canon_demo_path: "canon (JObj [(''path'', JStr ''input.txt'')])"
  by (simp add: canon_obj)

lemma demo_call_simps:
  "trace_demo_actions = Inr [ToolCall demo_call, FinalAnswer trace_demo_answer]"
  "wf_action (ToolCall demo_call)" "decoded (tca_arguments_json demo_call) = [(''path'', JStr ''input.txt'')]"
  "tca_tool_name demo_call = ''read_file''" "trace_demo_answer \<noteq> []"
proof -
  have j: "canonical_object_json [(''path'', JStr ''input.txt'')] = Inr (tca_arguments_json demo_call)"
    using canon_demo_path by (simp add: demo_call_def canonical_object_json_canon)
  have c: "tool_call_post_init demo_call = Inr demo_call"
    using canon_demo_path
    by (simp add: demo_call_def tool_call_post_init_def ensure_def canonical_object_json_canon loads_render
        validate_object_text_def)
  then show "wf_action (ToolCall demo_call)" by (simp add: wf_action_def action_post_init_def)
  show "decoded (tca_arguments_json demo_call) = [(''path'', JStr ''input.txt'')]"
    using canon_demo_path by (simp add: demo_call_def decoded_def loads_render)
  show answer: "trace_demo_answer \<noteq> []" by (simp add: trace_demo_answer_def)
  have eq: "\<lparr>tca_tool_call_id = ''call-read'', tca_tool_name = ''read_file'',
      tca_arguments_json = tca_arguments_json demo_call\<rparr> = demo_call" by (simp add: demo_call_def)
  show "trace_demo_actions = Inr [ToolCall demo_call, FinalAnswer trace_demo_answer]"
    using c answer unfolding trace_demo_actions_def build_tool_call_def j
    by (simp add: eq final_answer_post_init_def ensure_def)
qed (simp add: demo_call_def)

lemma demo_step_one: "show_int 1 = ''1''"
  by code_simp

lemma trace_demo_granted:
  assumes D: "demo_ok D" and i: "i \<noteq> []" and s: "turn_index s = 0" and c: "c = turn_input trace_demo_run s es"
  shows "\<exists>q g. tool_request_from_action c (ToolCall demo_call) (Some i) = Inr q \<and>
    authorize q (trace_demo_context D) = Inr g \<and> ad_outcome g = ALLOW"
proof -
  let ?q = "\<lparr>tr_run_id = trace_demo_run, tr_step_id = ''step-1'', tr_tool_call_id = ''call-read'',
    tr_tool_name = ''read_file'', tr_arguments_json = render (JObj [(''path'', JStr ''input.txt'')]),
    tr_model_action_event_id = Some i\<rparr>"
  have "next_step_id s = ''step-1''" by (simp add: next_step_id_def s demo_step_one)
  then have q: "tool_request_from_action c (ToolCall demo_call) (Some i) = Inr ?q"
    using i canon_demo_path
    by (simp add: tool_request_from_action_def c demo_call_def trace_demo_run_def request_post_init_def ensure_def
        canonical_object_def canonical_json_canon loads_render)
  have "resolve (ac_registry (trace_demo_context D)) (tr_tool_name ?q) =
      Inr \<lparr>td_tool_name = ''read_file'', td_retry_is_idempotent = True, td_path_argument_names = [''path'']\<rparr>"
    using resolve_file_tools(1) by (simp add: trace_demo_context_def)
  moreover have "request_arguments ?q = [(''path'', JStr ''input.txt'')]"
    using canon_demo_path by (simp add: request_arguments_def decoded_def loads_render)
  moreover have "normalize_arguments (trace_demo_context D) [(''path'', JStr ''input.txt'')] [''path''] = Inr [''input.txt'']"
    using boundary_simple [where root = "demo_workspace D" and resolver = "dm_resolver D", OF demo_names(1) demo_resolved [OF D demo_names(1)]]
    by (simp add: trace_demo_context_def get_def get_default_def)
  moreover have "make_plan_step (execution_step ?q [''input.txt'']) = Inr (execution_step ?q [''input.txt''])"
    by (simp add: make_plan_step_def execution_step_def step_id_pattern_def is_alnum_def is_digit_def)
  moreover have "od_mode (classify_step (execution_step ?q [''input.txt'']) (ownership_context (trace_demo_context D))) = AUTO"
    by (simp add: classify_step_def Let_def ownership_context_def trace_demo_context_def evaluate_risks_def
        minimum_mode_for_def matching_rules_def more_restrictive_def)
  ultimately have "\<exists>g. authorize ?q (trace_demo_context D) = Inr g \<and> ad_outcome g = ALLOW"
    by (simp add: authorize_def Let_def make_decision_simps)
  with q show ?thesis by blast
qed

subsection \<open>The script\<close>

definition trace_demo_events :: "EventType list" where
  "trace_demo_events = [RUN_CREATED, RUN_STARTED, MODEL_ACTION_REQUESTED, MODEL_ACTION_PROPOSED, TOOL_REQUESTED,
     TOOL_AUTHORIZED, TOOL_STARTED, TOOL_SUCCEEDED, VERIFICATION_SUCCEEDED, MODEL_ACTION_REQUESTED,
     MODEL_ACTION_PROPOSED, COMPLETION_ACCEPTED]"

definition trace_demo_summary :: "nat \<Rightarrow> string \<Rightarrow> payload" where
  "trace_demo_summary duration digest =
     [(''event_types'', JArr (map (JStr \<circ> type_value) trace_demo_events)), (''final_status'', JStr ''completed''),
      (''metrics'', JObj [(''duration_ms'', JInt (int duration)), (''event_count'', JInt 12),
         (''gate_escalation_count'', JInt 0), (''model_action_count'', JInt 2), (''runtime_steps'', JInt 2),
         (''tool_request_count'', JInt 1), (''verification_failure_count'', JInt 0),
         (''verification_success_count'', JInt 1)]),
      (''run_id'', JStr ''r4l-trace-demo''), (''schema_version'', JInt 1), (''trace_digest'', JStr digest)]"

lemma count_type_map: "count_type k es = count_list (map ev_event_type es) k"
  by (induction es) (simp_all add: count_type_def)

lemma trace_demo_summary_eval:
  assumes "\<forall>e \<in> set es. wf_event e" and "replay H trace_demo_run es = Inr s" and "map ev_event_type es = trace_demo_events"
    and "status s = COMPLETED" and "turn_index s = 2"
  obtains t where "build_run_trace H trace_demo_run es = Inr t"
    and "trace_summary H t = Inr (trace_demo_summary (duration_ms es) (H (trace_text t)))"
proof -
  obtain t where t: "build_run_trace H trace_demo_run es = Inr t" "rt_run_id t = trace_demo_run"
      "rt_final_status t = status_value (status s)" "rt_metrics t = trace_metrics s es"
      "rt_schema_version t = TRACE_SCHEMA_VERSION" "map tr_event_type (rt_records t) = map (type_value \<circ> ev_event_type) es"
    by (rule trace_of_replay [OF assms(1,2)])
  have "map (JStr \<circ> tr_event_type) (rt_records t) = map (JStr \<circ> type_value) trace_demo_events"
    using arg_cong [OF t(6), of "map JStr"] by (simp flip: assms(3))
  moreover have "length es = 12" using arg_cong [OF assms(3), of length] by (simp add: trace_demo_events_def)
  then have "trace_metrics_dict (rt_metrics t) = [(''duration_ms'', JInt (int (duration_ms es))), (''event_count'', JInt 12),
      (''gate_escalation_count'', JInt 0), (''model_action_count'', JInt 2), (''runtime_steps'', JInt 2),
      (''tool_request_count'', JInt 1), (''verification_failure_count'', JInt 0), (''verification_success_count'', JInt 1)]"
    using assms(3,5) by (simp add: t(4) trace_metrics_def trace_metrics_dict_def count_type_map trace_demo_events_def)
  ultimately have "trace_summary H t = Inr (trace_demo_summary (duration_ms es) (H (trace_text t)))"
    using t(2,3,5) assms(4) trace_digest_eq [OF assms(1) t(1)]
    by (simp add: trace_summary_def trace_demo_summary_def TRACE_SCHEMA_VERSION_def trace_demo_run_def)
  with that t(1) show thesis .
qed

text \<open>The digests of a gate and of a completion have one form.\<close>

lemma hex_char:
  assumes "is_digit c \<or> 97 \<le> (of_char c :: nat) \<and> (of_char c :: nat) \<le> 102"
  shows "lower_hex c"
proof -
  define n :: nat where "n = of_char c"
  have c: "c = char_of n" by (simp add: n_def)
  have "n \<in> set ([48..<58] @ [97..<103])"
    unfolding set_append set_upt using assms by (auto simp: n_def is_digit_def)
  moreover have "list_all (\<lambda>n. lower_hex (char_of n)) ([48..<58] @ [97..<103])" by code_simp
  ultimately show ?thesis unfolding c list_all_iff by blast
qed

lemma demo_hex: "demo_ok D \<Longrightarrow> hex_hash (dm_hash D)"
  using hex_char by (simp add: demo_ok_def hex_digest_def hex_hash_def list_all_iff)

lemma trace_demo_loop:
  assumes D: "demo_ok D" and sha: "dm_sha256 D (utf8_encode trace_demo_content) \<noteq> []"
    and w: "sqlite_runtime.world_at (dm_hash D) ((\<lambda>_. [])(trace_demo_run := es)) (fresh_world (F, 0)) w"
    and s: "replay (dm_hash D) trace_demo_run es = Inr s" "status s = READY" "max_steps s = Some 2" "turn_index s = 0"
    and F: "workspace_ok F (demo_workspace D)"
      "F (demo_workspace D @ [''input.txt'']) = Some (RegularFile (utf8_encode trace_demo_content))"
  shows "\<exists>r v l T. agentA (run_loop (Suc (Suc fuel)) (trace_demo_agent (trace_demo_runtime_of D)
        [ToolCall demo_call, FinalAnswer trace_demo_answer])
        (demo_expectation_for (dm_sha256 D (utf8_encode trace_demo_content)))
        \<lparr>ce_expected_answer = trace_demo_answer, ce_require_verified_observation = True\<rparr>) w = (Inr (Some r), v) \<and>
    ml_outcome r = LOOP_COMPLETED \<and> status (ml_state r) = COMPLETED \<and> turn_index (ml_state r) = 2 \<and>
    sqlite_runtime.world_at (dm_hash D) l T v \<and> replay (dm_hash D) trace_demo_run (l trace_demo_run) = Inr (ml_state r) \<and>
    map ev_event_type (l trace_demo_run) = map ev_event_type es @ verified_call_events @
      [MODEL_ACTION_REQUESTED, MODEL_ACTION_PROPOSED, COMPLETION_ACCEPTED] \<and>
    tw_outside T = (F, 1) \<and> length (tw_calls T) = 1"
proof -
  let ?R = "trace_demo_runtime_of D" and ?run = trace_demo_run and ?sha = "dm_sha256 D (utf8_encode trace_demo_content)"
  let ?A = "trace_demo_agent ?R [ToolCall demo_call, FinalAnswer trace_demo_answer]"
  let ?c = "turn_input ?run s es" and ?l = "(\<lambda>_. [])(?run := es)"
  let ?out = "[(''bytes'', JInt 26), (''content'', JStr trace_demo_content), (''path'', JStr ''input.txt''),
    (''sha256'', JStr ?sha)]"
  have A: "ag_runtime ?A = ?R" "ag_run_id ?A = ?run" "ag_injector ?A = None"
      "ag_adapter ?A = (\<lambda>c a. (static_next_action [ToolCall demo_call, FinalAnswer trace_demo_answer] c, a))"
    by (simp_all add: trace_demo_agent_def)
  have run: "?run \<noteq> []" by (simp add: trace_demo_run_def)
  have length: "length (utf8_encode trace_demo_content) = 26" by (simp add: trace_demo_content_def utf8_encode_def)
  have "read_file (dm_envs D 0) [(''path'', JStr ''input.txt'')] F = Inr ?out"
    using read_simple [where env = "dm_envs D 0" and fs = F and n = "''input.txt''" and
        b = "utf8_encode trace_demo_content" and t = trace_demo_content] demo_env [OF D F(1), of 0] demo_names(1) F(2)
    by (simp add: utf8_roundtrip length)
  then have ran: "ru_runner ?R ''read_file'' [(''path'', JStr ''input.txt'')] k (F, 0) = (Returned ?out, (F, 1))" for k
    by (simp add: file_runner_def invoke_file_tool_def)
  have e: "demo_expectation_for ?sha ?c demo_call = Inr (Some \<lparr>ve_path = ''input.txt'', ve_sha256 = ?sha\<rparr>)"
    using sha demo_call_simps(3)
    by (simp add: demo_expectation_for_def Let_def tool_call_arguments_def get_def get_default_def ensure_def
        make_expectation_def)
  have "\<exists>r v tr vr cv l T. run_loop (Suc (Suc fuel)) ?A (demo_expectation_for ?sha)
        \<lparr>ce_expected_answer = trace_demo_answer, ce_require_verified_observation = True\<rparr>
        \<lparr>aw_runtime = w, aw_adapter = ()\<rparr> = (Inr (Some r), v) \<and> ml_outcome r = LOOP_COMPLETED \<and>
      status (ml_state r) = COMPLETED \<and> ml_actions r = [ToolCall demo_call, FinalAnswer (ce_expected_answer
        \<lparr>ce_expected_answer = trace_demo_answer, ce_require_verified_observation = True\<rparr>)] \<and>
      ml_tool_results r = [tr] \<and> rt_outcome tr = EXECUTED \<and> ml_verifications r = [vr] \<and> vr_outcome vr = PASSED \<and>
      ml_completions r = [cv] \<and> sqlite_runtime.world_at (dm_hash D) l T (aw_runtime v) \<and>
      replay (dm_hash D) (ag_run_id ?A) (l (ag_run_id ?A)) = Inr (ml_state r) \<and>
      sqlite_runtime.further (ag_run_id ?A) (verified_call_events @
        [MODEL_ACTION_REQUESTED, MODEL_ACTION_PROPOSED, COMPLETION_ACCEPTED]) ?l l \<and>
      turn_index (ml_state r) = turn_index s + 2 \<and> tw_outside T = (F, 1) \<and>
      tw_calls T = tw_calls (fresh_world (F, 0 :: nat)) @ [\<lparr>tc_tool_name = tca_tool_name demo_call,
        tc_arguments = decoded (tca_arguments_json demo_call),
        tc_key = dm_hash D (effect_identity (ag_run_id ?A) (tca_tool_call_id demo_call))\<rparr>]"
    by (rule sqlite_runtime.tool_then_answer [where T = "fresh_world (F, 0)" and registry = file_registry_of and s = s and m = 2 and c = ?c and
          b = "()" and out = ?out and e = "\<lparr>ve_path = ''input.txt'', ve_sha256 = ?sha\<rparr>"])
       (use trace_demo_on [of D] demo_on(3) w s run demo_hex [OF D] demo_call_simps trace_demo_granted [OF D _ s(4) refl]
          resolve_file_tools(1) ran e in
        \<open>simp_all add: A static_next_action_def ensure_def fresh_world_def empty_effects_def select_intent_def
          receipt_at_def select_receipt_def canon_obj get_def get_default_def\<close>)
  then obtain r v l T where r: "run_loop (Suc (Suc fuel)) ?A (demo_expectation_for ?sha)
        \<lparr>ce_expected_answer = trace_demo_answer, ce_require_verified_observation = True\<rparr>
        \<lparr>aw_runtime = w, aw_adapter = ()\<rparr> = (Inr (Some r), v)" "ml_outcome r = LOOP_COMPLETED"
      "status (ml_state r) = COMPLETED" "sqlite_runtime.world_at (dm_hash D) l T (aw_runtime v)"
      "replay (dm_hash D) ?run (l ?run) = Inr (ml_state r)"
      "sqlite_runtime.further ?run (verified_call_events @
        [MODEL_ACTION_REQUESTED, MODEL_ACTION_PROPOSED, COMPLETION_ACCEPTED]) ?l l"
      "turn_index (ml_state r) = turn_index s + 2" "tw_outside T = (F, 1)" "length (tw_calls T) = 1"
    unfolding A by (auto simp: fresh_world_def)
  then show ?thesis
    by (intro exI [of _ r] exI [of _ "aw_runtime v"] exI [of _ l] exI [of _ T])
       (auto simp: agentA_def s(4) sqlite_runtime.further_def)
qed

lemma trace_demo_started:
  assumes "demo_ok D" and "new_directory fs (dm_root D)"
    and "F = (with_workspace D fs)(demo_workspace D @ [''input.txt''] \<mapsto> RegularFile (utf8_encode trace_demo_content))"
  obtains w0 w1 w2 w3 w es s where
    "outsideA (\<lambda>fs. put_node fs (dm_root D) (Some Directory)) (start_world (fs, 0)) = (Inr (), w0)"
    and "outsideA (\<lambda>fs. put_node fs (demo_workspace D) (Some Directory)) w0 = (Inr (), w1)"
    and "write_text (demo_workspace D @ [''input.txt'']) trace_demo_content w1 = (Inr (), w2)"
    and "append_trace_event (trace_demo_runtime_of D) (trace_demo_run @ '':0:created'') 0 RUN_CREATED
      [(''max_steps'', JInt 2)] w2 = (Inr (), w3)"
    and "append_trace_event (trace_demo_runtime_of D) (trace_demo_run @ '':1:started'') 1 RUN_STARTED [] w3 = (Inr (), w)"
    and "sqlite_runtime.world_at (dm_hash D) ((\<lambda>_. [])(trace_demo_run := es)) (fresh_world (F, 0)) w"
    and "map ev_event_type es = [RUN_CREATED, RUN_STARTED]" and "replay (dm_hash D) trace_demo_run es = Inr s"
    and "status s = READY" and "max_steps s = Some 2" and "turn_index s = 0" and "workspace_ok F (demo_workspace D)"
    and "F (demo_workspace D @ [''input.txt'']) = Some (RegularFile (utf8_encode trace_demo_content))"
proof -
  let ?w = "demo_workspace D" and ?M = "with_workspace D fs"
  note made = directories_made [OF assms(1,2)]
  let ?e = "\<lambda>fs. put_node fs (dm_root D) (Some Directory)" and ?f = "\<lambda>fs. put_node fs ?w (Some Directory)"
  let ?g = "\<lambda>fs. put_node fs (?w @ [''input.txt'']) (Some (RegularFile (utf8_encode trace_demo_content)))"
  have g: "?g ?M = F" unfolding assms(3) using made(3) by (intro entry_plain(3)) simp
  have F: "workspace_ok F ?w" "F (?w @ [''input.txt'']) = Some (RegularFile (utf8_encode trace_demo_content))"
    unfolding assms(3) using made(2) by (simp_all add: workspace_ok_update with_workspace_def)
  obtain w0 where w0: "outsideA ?e (start_world (fs, 0)) = (Inr (), w0)"
      "sqlite_runtime.world_at (dm_hash D) (\<lambda>_. []) (fresh_world (?e fs, 0)) w0"
    using outsideA_eval [OF start_at [of D fs], of ?e] by (simp add: fresh_world_def)
  obtain w1 where w1: "outsideA ?f w0 = (Inr (), w1)"
      "sqlite_runtime.world_at (dm_hash D) (\<lambda>_. []) (fresh_world (?M, 0)) w1"
    using outsideA_eval [OF w0(2), of ?f] made(1) by (simp add: fresh_world_def)
  obtain w2 where w2: "write_text (?w @ [''input.txt'']) trace_demo_content w1 = (Inr (), w2)"
      "sqlite_runtime.world_at (dm_hash D) (\<lambda>_. []) (fresh_world (F, 0)) w2"
    using outsideA_eval [OF w1(2), of ?g] g by (simp add: fresh_world_def write_text_def)
  show thesis by (rule trace_demo_begun [OF w2(2)]) (rule that [OF w0(1) w1(1) w2(1) _ _ _ _ _ _ _ _ F])
qed

text \<open>The clock of the script stands still, so every event has its time and the run took no time.\<close>

lemma no_duration:
  assumes "\<And>e. e \<in> set es \<Longrightarrow> ev_occurred_at e = t"
  shows "duration_ms es = 0"
proof (cases "es = []")
  case False
  then have "ev_occurred_at (last es) = t" "ev_occurred_at (hd es) = t" using assms by simp_all
  moreover have "0 < d \<Longrightarrow> double_div 0 d = (0, 0)" for d
    by (simp add: double_div_def double_shift_def round_half_even_def find_None_iff option.case_eq_if)
  then have "truncated_ms 0 = 0" by (simp add: truncated_ms_def total_seconds_def)
  ultimately show ?thesis by (simp add: duration_ms_def)
qed (simp add: duration_ms_def)

lemma agent_keeps_stamped:
  assumes "ag_runtime A = R" and "stamped_on R t w"
  shows "stamped_on R t (snd (agentA (run_loop fuel A xs x) w))"
proof -
  have "kept_by_operations.inside_agent (stamped_on R t) (snd (run_loop fuel A xs x \<lparr>aw_runtime = w, aw_adapter = ()\<rparr>))"
    by (rule keepsD [OF stamped.loops(1) [OF assms(1)]]) (simp add: stamped.inside_agent_def assms(2))
  then show ?thesis by (simp add: agentA_def stamped.inside_agent_def split_beta)
qed

lemma script_keeps_stamped:
  fixes D :: demo
  defines "R \<equiv> trace_demo_runtime_of D"
  shows "keeps (stamped_on R TRACE_DEMO_TIME) (outsideA f)"
    and "keeps (stamped_on R TRACE_DEMO_TIME) (write_text p c)"
    and "keeps (stamped_on R TRACE_DEMO_TIME) (append_trace_event R i n k d)"
proof -
  show "keeps (stamped_on R TRACE_DEMO_TIME) (outsideA f)" "keeps (stamped_on R TRACE_DEMO_TIME) (write_text p c)"
    by (simp_all add: keeps_def stamped_on_def write_text_def outsideA_def)
  have "keeps (stamped_on R TRACE_DEMO_TIME) (storeEventA R e)"
    if "build_event i trace_demo_run n k TRACE_DEMO_TIME d = Inr e" for e
    by (rule store_stamped) (rule build_event_time [OF that])
  then show "keeps (stamped_on R TRACE_DEMO_TIME) (append_trace_event R i n k d)"
    by (auto simp: append_trace_event_def keeps_def bindA_def liftA_def split: sum.split)
qed

lemma stamped_start: "stamped_on R t (start_world o0)"
  by (simp add: stamped_on_def stamped_def start_world_def empty_events_def)

lemma trace_demo_stamped: "stamped_on (trace_demo_runtime_of D) TRACE_DEMO_TIME w \<longleftrightarrow> stamped TRACE_DEMO_TIME (rw_events w)"
  by (simp add: stamped_on_def trace_demo_runtime_of_def demo_runtime_of_def)

text \<open>C22: the trace demonstration: with a new temporary directory, the agent calls the read tool once,
  verifies its receipt and completes in its two turns; the script returns the summary of the trace
  of exactly that log: the twelve events, the metrics with the duration 0, the final status and the
  digest of the trace, and nothing of the content, the path or the answer. When its block ends the
  directory holds the one file the script wrote; after it the directory and its database are gone,
  and the file system is as it was before.\<close>

theorem trace_demo_completes:
  assumes "demo_ok D" and "new_directory fs (dm_root D)" and "dm_sha256 D (utf8_encode trace_demo_content) \<noteq> []"
  shows "\<exists>v w es t. in_directory D (trace_demo_script (Suc (Suc fuel)) D) (start_world (fs, 0)) =
      (Inr (Some (trace_demo_summary 0 (dm_hash D (trace_text t)))), v) \<and>
    es = history (rw_events v) trace_demo_run \<and> map ev_event_type es = trace_demo_events \<and>
    build_run_trace (dm_hash D) trace_demo_run es = Inr t \<and> length (tw_calls (rw_tools v)) = 1 \<and>
    fst (tw_outside (rw_tools v)) = (with_workspace D fs)
      (demo_workspace D @ [''input.txt''] \<mapsto> RegularFile (utf8_encode trace_demo_content)) \<and>
    run_trace_demo (Suc (Suc fuel)) D (start_world (fs, 0)) =
      (Inr (Some (trace_demo_summary 0 (dm_hash D (trace_text t)))), w) \<and>
    fst (tw_outside (rw_tools w)) = fs \<and> rw_events w = empty_events \<and> tw_store (rw_tools w) = empty_effects"
proof -
  let ?R = "trace_demo_runtime_of D" and ?H = "dm_hash D" and ?w = "demo_workspace D"
  let ?F = "(with_workspace D fs)(?w @ [''input.txt''] \<mapsto> RegularFile (utf8_encode trace_demo_content))"
  let ?S = "stamped_on ?R TRACE_DEMO_TIME"
  obtain w0 w1 w2 w3 w4 es s where b: "outsideA (\<lambda>fs. put_node fs (dm_root D) (Some Directory)) (start_world (fs, 0)) = (Inr (), w0)"
      "outsideA (\<lambda>fs. put_node fs ?w (Some Directory)) w0 = (Inr (), w1)"
      "write_text (?w @ [''input.txt'']) trace_demo_content w1 = (Inr (), w2)"
      "append_trace_event ?R (trace_demo_run @ '':0:created'') 0 RUN_CREATED [(''max_steps'', JInt 2)] w2 = (Inr (), w3)"
      "append_trace_event ?R (trace_demo_run @ '':1:started'') 1 RUN_STARTED [] w3 = (Inr (), w4)"
      "sqlite_runtime.world_at ?H ((\<lambda>_. [])(trace_demo_run := es)) (fresh_world (?F, 0)) w4"
      "map ev_event_type es = [RUN_CREATED, RUN_STARTED]"
      "replay ?H trace_demo_run es = Inr s" "status s = READY" "max_steps s = Some 2" "turn_index s = 0"
      "workspace_ok ?F ?w" "?F (?w @ [''input.txt'']) = Some (RegularFile (utf8_encode trace_demo_content))"
    by (rule trace_demo_started [OF assms(1,2) refl])
  note keep = keepsD [OF script_keeps_stamped(1)] keepsD [OF script_keeps_stamped(2)] keepsD [OF script_keeps_stamped(3)]
  have "?S w0" "?S w0 \<Longrightarrow> ?S w1" "?S w1 \<Longrightarrow> ?S w2" "?S w2 \<Longrightarrow> ?S w3" "?S w3 \<Longrightarrow> ?S w4"
    using keep(1) [OF stamped_start] keep(1) keep(2) keep(3) b(1-5) by (metis snd_conv)+
  then have s4: "?S w4" by blast
  let ?A = "trace_demo_agent ?R [ToolCall demo_call, FinalAnswer trace_demo_answer]"
  let ?xs = "demo_expectation_for (dm_sha256 D (utf8_encode trace_demo_content))"
  let ?x = "\<lparr>ce_expected_answer = trace_demo_answer, ce_require_verified_observation = True\<rparr>"
  obtain r v l T where r: "agentA (run_loop (Suc (Suc fuel)) ?A ?xs ?x) w4 = (Inr (Some r), v)"
      "ml_outcome r = LOOP_COMPLETED" "status (ml_state r) = COMPLETED" "turn_index (ml_state r) = 2"
      "sqlite_runtime.world_at ?H l T v" "replay ?H trace_demo_run (l trace_demo_run) = Inr (ml_state r)"
      "map ev_event_type (l trace_demo_run) = map ev_event_type es @ verified_call_events @
        [MODEL_ACTION_REQUESTED, MODEL_ACTION_PROPOSED, COMPLETION_ACCEPTED]" "tw_outside T = (?F, 1)" "length (tw_calls T) = 1"
    using trace_demo_loop [OF assms(1,3) b(6,8-13)] by blast
  have log: "history (rw_events v) = l" "rw_tools v = T" using r(5) by (simp_all add: sqlite_runtime.world_at_def)
  have types: "map ev_event_type (l trace_demo_run) = trace_demo_events"
    using r(7) b(7) by (simp add: verified_call_events_def trace_demo_events_def)
  have wf: "\<forall>e \<in> set (l trace_demo_run). wf_event e"
    using sqlite_log.log_events r(5) by (auto simp: sqlite_runtime.world_at_def)
  have "?S v" using agent_keeps_stamped [of ?A ?R TRACE_DEMO_TIME w4 "Suc (Suc fuel)" ?xs ?x] s4 r(1)
    by (simp add: trace_demo_agent_def)
  then have time: "ev_occurred_at e = TRACE_DEMO_TIME" if "e \<in> set (l trace_demo_run)" for e
    using stamped_history [OF stored_history_log _ trace_demo_time(1), where H = ?H and db = "rw_events v" and run = trace_demo_run] r(5) that
    by (auto simp: trace_demo_stamped sqlite_runtime.world_at_def)
  have zero: "duration_ms (l trace_demo_run) = 0" by (rule no_duration) (rule time)
  obtain t where t: "build_run_trace ?H trace_demo_run (l trace_demo_run) = Inr t"
      "trace_summary ?H t = Inr (trace_demo_summary 0 (?H (trace_text t)))"
    by (rule trace_demo_summary_eval [OF wf r(6) types r(3,4), unfolded zero])
  have ev: "eventsA ?R trace_demo_run v = (Inr (l trace_demo_run), v)"
    by (rule sqlite_runtime.log_read [OF trace_demo_on(1) r(5)])
  have body: "in_directory D (trace_demo_script (Suc (Suc fuel)) D) (start_world (fs, 0)) =
      (Inr (Some (trace_demo_summary 0 (?H (trace_text t)))), v)"
    using b(1-5) r(1,2) t ev demo_call_simps(5)
    by (simp add: in_directory_def trace_demo_script_def bindA_def demo_call_simps(1) trace_demo_runtime_made
        expectation_post_init_def ensure_def checkA_def)
  then have "run_trace_demo (Suc (Suc fuel)) D (start_world (fs, 0)) =
      (Inr (Some (trace_demo_summary 0 (?H (trace_text t)))), removed D v)"
    by (simp add: run_trace_demo_def temporary_directory_def)
  moreover have "remove_tree (dm_root D) ?F = fs" by (rule with_workspace_removed [OF assms(2)])
  ultimately show ?thesis using body types t(1) r(8,9) log
    by (intro exI [of _ v] exI [of _ "removed D v"] exI [of _ "l trace_demo_run"] exI [of _ t]) (simp add: removed_def)
qed

theorem trace_demo_completes_witness:
  "\<exists>v w t. in_directory sample_demo (trace_demo_script 2 sample_demo) (start_world (\<lambda>_. None, 0)) =
      (Inr (Some (trace_demo_summary 0 (dm_hash sample_demo (trace_text t)))), v) \<and>
    map ev_event_type (history (rw_events v) trace_demo_run) = trace_demo_events \<and>
    run_trace_demo 2 sample_demo (start_world (\<lambda>_. None, 0)) =
      (Inr (Some (trace_demo_summary 0 (dm_hash sample_demo (trace_text t)))), w) \<and>
    fst (tw_outside (rw_tools w)) = (\<lambda>_. None)"
proof -
  have root: "dm_root sample_demo = [''t'']" "dm_sha256 sample_demo (utf8_encode trace_demo_content) \<noteq> []"
    by (simp_all add: sample_demo_def trace_demo_content_def utf8_encode_def)
  have new: "new_directory (\<lambda>_. None) (dm_root sample_demo)"
    by (simp add: new_directory_def plain_def link_target_def root)
  show ?thesis
    using trace_demo_completes [OF sample_demo_ok new root(2), of 0] by (auto simp: numeral_2_eq_2)
qed

end
