(* ===== verification/SmokeTest.thy ===== *)
theory SmokeTest
  imports ProviderProperties
begin

section \<open>The live smoke test (examples/r4k\_deepseek\_smoke.py)\<close>

text \<open>
  One call of the chat-completions adapter with fixed settings. The credentials, the transport and
  what counts as a network location are parameters, as in the model of the adapter.
\<close>

text \<open>\<open>str.strip()\<close> on the characters of the model.\<close>

definition py_space :: "char \<Rightarrow> bool" where
  "py_space c \<longleftrightarrow> (let n = of_char c :: nat in (9 \<le> n \<and> n \<le> 13) \<or> (28 \<le> n \<and> n \<le> 32) \<or> n = 133 \<or> n = 160)"

definition py_strip :: "string \<Rightarrow> string" where
  "py_strip t = rev (dropWhile py_space (rev (dropWhile py_space t)))"

definition smoke_expected :: string where
  "smoke_expected = ''R4K_SMOKE_OK''"

definition smoke_adapter :: "(string \<Rightarrow> bool) \<Rightarrow> OpenAICompatibleModelAdapter result" where
  "smoke_adapter netloc_ok = adapter_post_init netloc_ok
     \<lparr>oa_model = ''deepseek-chat'', oa_task = ''Return exactly '' @ smoke_expected @ '' and nothing else.'',
       oa_tools = [], oa_base_url = ''https://api.deepseek.com'', oa_api_key_env = ''DEEPSEEK_API_KEY'',
       oa_timeout_seconds = JFloat ''30.0'', oa_max_tokens = JInt 16, oa_temperature = JFloat ''0.0''\<rparr>"

definition smoke_context :: "ModelInput result" where
  "smoke_context = build_input ''r4k-live-smoke'' ''step-1'' 0 READY []"

definition check_smoke_action :: "ModelAction \<Rightarrow> string result" where
  "check_smoke_action action =
     (case action of
        FinalAnswer answer \<Rightarrow>
          ensure (py_strip answer = smoke_expected) PyRuntimeError (Inr ''DeepSeek adapter smoke: PASS'')
      | ToolCall _ \<Rightarrow> Inl PyRuntimeError)"

definition smoke_main :: "json_limits \<Rightarrow> (string \<Rightarrow> bool) \<Rightarrow> 'a credentials \<Rightarrow> 'a transport \<Rightarrow> (('a, string) action)" where
  "smoke_main L netloc_ok credentials transport =
     bindA (liftA (smoke_adapter netloc_ok)) (\<lambda>A.
     bindA (liftA smoke_context) (\<lambda>c.
     bindA (\<lambda>w. apfst request_model_action (provider_adapter L credentials transport A c w)) (\<lambda>action.
     liftA (check_smoke_action action))))"

text \<open>With a key and a response, the test passes exactly when the response carries the expected answer.\<close>

definition smoke_request :: payload where
  "smoke_request = [(''model'', JStr ''deepseek-chat''),
     (''messages'', JArr [JObj [(''role'', JStr ''system''), (''content'', JStr SYSTEM_PROMPT)],
        JObj [(''role'', JStr ''user''), (''content'', JStr (render (JObj
          [(''runtime_context'', JObj [(''observation'', JObj []), (''run_id'', JStr ''r4k-live-smoke''),
             (''state_status'', JStr ''ready''), (''step_id'', JStr ''step-1''), (''turn_index'', JInt 0)]),
           (''task'', JStr (''Return exactly '' @ smoke_expected @ '' and nothing else.''))])))]]),
     (''max_tokens'', JInt 16), (''n'', JInt 1), (''stream'', JBool False), (''temperature'', JFloat ''0.0'')]"

lemma smoke_settings:
  assumes "netloc_ok ''api.deepseek.com''"
  obtains A c where "smoke_adapter netloc_ok = Inr A" and "smoke_context = Inr c"
    and "provider_payload A c = Inr smoke_request" and "oa_api_key_env A = ''DEEPSEEK_API_KEY''"
    and "completions_url A = ''https://api.deepseek.com/chat/completions''" and "oa_timeout_seconds A = JFloat ''30.0''"
proof -
  let ?A = "\<lparr>oa_model = ''deepseek-chat'', oa_task = ''Return exactly '' @ smoke_expected @ '' and nothing else.'',
       oa_tools = [], oa_base_url = ''https://api.deepseek.com'', oa_api_key_env = ''DEEPSEEK_API_KEY'',
       oa_timeout_seconds = JFloat ''30.0'', oa_max_tokens = JInt 16, oa_temperature = JFloat ''0.0''\<rparr>"
  let ?c = "\<lparr>mi_run_id = ''r4k-live-smoke'', mi_step_id = ''step-1'', mi_turn_index = 0, mi_state_status = READY,
    mi_observation_json = render (JObj [])\<rparr>"
  have "validate_base_url netloc_ok ''https://api.deepseek.com'' = Inr ''https://api.deepseek.com''"
    using assms
    by (simp add: validate_base_url_def clean_url_def split_scheme_def ascii_alpha_def scheme_char_def
      ascii_lower_def split_netloc_def url_delimiter_def after_char_def rstrip_slash_def Let_def char_of_def)
  then have A: "smoke_adapter netloc_ok = Inr ?A"
    by (simp add: smoke_adapter_def adapter_post_init_def ensure_def check_number_def is_digit_def)
  have canon: "canon (JObj [])" by (simp add: canon_obj)
  have c: "smoke_context = Inr ?c" unfolding smoke_context_def by (rule built_input [OF canon]) simp_all
  have wf: "wf_input ?c" using canon by (simp add: wf_input_def result_simps loads_render)
  have "input_observation ?c = []" using canon by (simp add: input_observation_def decoded_def loads_render)
  then have "runtime_context ?c = [(''observation'', JObj []), (''run_id'', JStr ''r4k-live-smoke''),
      (''state_status'', JStr ''ready''), (''step_id'', JStr ''step-1''), (''turn_index'', JInt 0)]"
    by (simp add: runtime_context_def)
  then have "provider_payload ?A ?c = Inr smoke_request"
    using user_content_eq [OF wf, of ?A] by (simp add: provider_payload_def smoke_request_def)
  with A c show thesis by (intro that [of ?A ?c]) (simp_all add: completions_url_def)
qed

text \<open>Live smoke test: given a key, the script sends exactly this one request, and passes exactly when
  the response is a final answer whose text, stripped, is the expected one.\<close>

theorem smoke_test_checks_answer:
  assumes "netloc_ok ''api.deepseek.com''" and "credentials ''DEEPSEEK_API_KEY'' w = (Inr (Some key), w')" and "key \<noteq> []"
    and "transport ''https://api.deepseek.com/chat/completions'' (request_headers key) smoke_request (JFloat ''30.0'') w' =
      (Inr response, w'')"
  shows "smoke_main L netloc_ok credentials transport w = (bindR (parse_chat_completion L response) check_smoke_action, w'')"
proof -
  obtain A c where s: "smoke_adapter netloc_ok = Inr A" "smoke_context = Inr c" and "provider_payload A c = Inr smoke_request"
      "oa_api_key_env A = ''DEEPSEEK_API_KEY''" "completions_url A = ''https://api.deepseek.com/chat/completions''"
      "oa_timeout_seconds A = JFloat ''30.0''"
    by (rule smoke_settings [of netloc_ok, OF assms(1)])
  then show ?thesis using assms(2-4)
    by (cases "parse_chat_completion L response")
       (simp_all add: s smoke_main_def bindA_def provider_adapter_def next_action_def load_api_key_def ensure_def
          request_model_action_def liftA_def)
qed

end
