(* ===== verification/Spec2Isabelle.thy ===== *)
theory Spec2Isabelle
  imports Histories EffectProperties StoreProperties UpgradeProperties OwnershipProperties RuntimeProperties
    GateProperties AgentProperties TraceProperties ProviderProperties SystemProperties FileDemoProperties
    TraceDemoProperties SmokeTest
begin

text \<open>
  A model of the agent runtime under \<open>src/agent_runtime_lab\<close>, and of what it promises.

  The program. An agent run is a history of immutable events. A pure reducer
  (\<open>domain/reducer.py\<close>) derives the state of the run from its history; nothing else stores it. The
  runtime (\<open>authorized_tool_runtime.py\<close>) turns requests for tool calls into events: a request is
  authorized against a registry, a workspace, risk rules and an ownership policy
  (\<open>ownership/\<close>); it is denied, granted, or escalated to a gate a person answers; a granted call is
  executed by the durable executor (\<open>durable_tool_executor.py\<close>) between an intent stored before and
  a receipt stored after the invocation, so that a crash never makes a tool that may not be
  retried run twice. Events and effects live in two SQLite stores (\<open>persistence/\<close>); the event
  store chains the digests of a run's events and keeps disposable snapshots. A model, behind an
  adapter, proposes one action per turn (\<open>model_adapter.py\<close>); the agents (\<open>fake_agent.py\<close>) drive
  the runtime, check every receipt (\<open>verification.py\<close>) and accept a final answer only when the
  application's conditions hold (\<open>completion.py\<close>). \<open>trace.py\<close> shows a redacted view of a history,
  \<open>openai_compatible_adapter.py\<close> is an adapter over HTTP, \<open>restricted_file_tools.py\<close> are the tools.

  How code is modelled. A pure function is a HOL function of the same name; one that may raise
  returns \<open>error + value\<close> (Prelude). A method that changes an object is an action, from the state
  to the result and the state left behind, also when it raises (Actions). A frozen dataclass is a
  record with its constructor checks in a \<open>..._post_init\<close>; an enum is a datatype. Python integers
  are \<open>int\<close>; payloads are JSON values (Json), dictionaries association lists in key order; SQLite
  tables are lists of rows with the constraints of the schema, a transaction leaves them as they
  were when it raises. Every definition that a witness evaluates computes.

  The theories, in the order they build on each other.

  Prelude, Actions, Machines: results, actions and their triples, and the interfaces of
  event-driven machines (an invariant, a monotone order, redelivery of applied events) as locales
  that the reducer interprets.

  Json, PyTime: \<open>json.dumps\<close> with sorted keys and its parser, and timestamps with their ISO
  text; both with their round trips. JsonLimits has the errors of the interpreter's own limits on
  JSON, which code that reads texts from outside can meet.

  Events, RunStates, Reducer: \<open>domain/events.py\<close>, \<open>domain/state.py\<close>, \<open>domain/reducer.py\<close> and
  \<open>domain/replay.py\<close>, one definition per guard helper and per branch of \<open>_transition\<close>.
  Lifecycle proves that every branch keeps the well-formedness of a state and follows an abstract
  lifecycle, the step relation \<open>lifecycle\<close>. Samples has the concrete histories the witnesses use.
  Histories has the properties of replayed histories: delivery, the lifecycle as a
  simulation, the budgets of steps and of gate attempts, and what a start of a tool, an approval
  and a completion presuppose.

  ToolEffects, EffectStore, Executor: \<open>domain/tool_effects.py\<close>, \<open>tool_registry.py\<close>,
  \<open>tool_recovery.py\<close>, the store interface \<open>ToolEffectStore\<close> as the locale
  \<open>tool_effect_store\<close>, \<open>persistence/sqlite_tool_effect_store.py\<close>, which interprets it, and
  \<open>durable_tool_executor.py\<close>. EffectProperties: at most one invocation of a tool that may not
  be retried, intents before invocations, receipts after them, whatever crashes.

  Snapshots, EventStore: \<open>persistence/snapshots.py\<close> and \<open>persistence/sqlite_store.py\<close>; the
  locale \<open>run_log\<close> is the contract of an event log with snapshots, interpreted by the SQLite store.
  StoreProperties: the log only grows, a chain digest binds its prefix, recovery from a snapshot is
  the full replay. StoreMigration models the opening of both SQLite files, one commit at a time, with
  the constraints in which the tables of the versions differ; UpgradeProperties shows that a file of
  an older version becomes the one the current version would have written but for two constraints
  that make no difference to any append, that an upgrade interrupted after any commit is resumed,
  and that no receipt is lost.

  Ownership, Authorization, Gates: \<open>domain/plan.py\<close>, \<open>ownership/\<close>. OwnershipProperties:
  the classification is the strictest of all rules, claims can only raise it, an allowed request
  stays in the workspace, a gate passes exactly on the right answer, a digest binds its proposal.

  ModelActions, Verification: \<open>model_adapter.py\<close>, \<open>verification.py\<close>, \<open>completion.py\<close>.

  Runtime, ModelTurns: \<open>authorized_tool_runtime.py\<close>, every public operation, over any event log
  and effect store. RuntimeLaws, RuntimeSafety and RuntimeOperations work in the locale
  \<open>runtime_stores\<close> (the two contracts together): the invariant that every tool call is of a
  request the log records as granted and started before, kept by every operation wherever it
  raises. RuntimeSystem instantiates it with the SQLite stores and defines the runs of the whole
  system: any operations, in any order, each with its own crashes, between events the caller
  appends. RuntimeRuns, RecoveryRuns and TurnRuns compute what operations do that nothing disturbs,
  and what recovery does after a crash at any checkpoint; GateRuns computes an escalated request from
  its gate over the decision of a person to its receipt. RuntimeProperties and GateProperties have
  the properties.

  FakeAgents: \<open>fake_agent.py\<close>. TurnOperations and AgentLaws show that every iteration of the loop
  keeps the safety invariant and uses a step of the budget or ends; AgentRuns and ToolRuns
  compute the iterations that answer and that call a tool, ResumedRuns what resuming an
  interrupted step does. AgentProperties and FileAgents have the properties: the loop ends,
  completes only with the expected answer, and does complete. CallEffects shows that the state
  outside is the result of the calls in the log of calls; AgentSafety states, as the locale
  \<open>kept_by_operations\<close>, that an agent keeps whatever the operations of the runtime keep, and is
  interpreted for this law, for the times of the events under a clock that stands still, and for the
  safety invariant. SystemProperties has what follows for
  runs of any agents and operations in any order: which calls there can be, how often, and what
  they do to the file system; and that a step whose process died is taken up from its receipt.

  Trace, TraceProperties: \<open>trace.py\<close>; ModelProvider, ProviderProperties:
  \<open>openai_compatible_adapter.py\<close>; RestrictedFiles, FileLaws, FileProperties:
  \<open>restricted_file_tools.py\<close> over a POSIX file system with symbolic links in which any call of
  the operating system may fail, also those whose failure the standard library hides; FileRuntime and FileAgents put the file tools under the runtime and
  the agent.

  FileDemo and TraceDemo are the scripts \<open>examples/r4a_restricted_file_demo.py\<close> and
  \<open>examples/r4l_trace_demo.py\<close>, from the new temporary directory over the summary they print to the
  removal of the directory and of the database in it (the world's two stores); FileDemoRuns
  computes their scenarios, and FileDemoProperties and TraceDemoProperties show that each returns
  exactly the summary its authors document, whatever else the file system holds, and leaves the
  file system as it was. SmokeTest is
  \<open>examples/r4k_deepseek_smoke.py\<close>, one call of the adapter over any transport.

  Parameters. The hash (SHA-256) is a function from texts to texts; where a property needs it to be
  free of collisions on the texts hashed, it says so. The clock, the tool runner, the model adapter,
  the application's expectations, the transport and the credentials of the HTTP adapter, the
  resolver of paths in \<open>WorkspaceBoundary\<close> (which may refuse a path or raise, as \<open>Path.resolve\<close>
  does on a loop of links; for the file tools it is \<open>resolve_path\<close> of RestrictedFiles), the depth
  of nesting at which \<open>json\<close> raises \<open>RecursionError\<close>, the random part of a staging file's name, and the
  texts of exceptions that the code only forwards are arguments. A crash is an injector that raises at
  one of the code's own checkpoints; failing calls of the operating system are part of the
  environment of a file tool.

  Bounds and fuel. The JSON parser recurses with the length of its input as fuel, one more than it
  can use. The agent's loop runs with fuel, and \<open>agent_loop_terminates\<close> shows that the steps left
  in the budget are enough; the result \<open>None\<close> of a loop means only that fuel ran out. The kernel
  follows at most \<open>MAX_LINKS\<close> (40) links in one path, as Linux does; \<open>os.path.realpath\<close>, which
  follows links itself, has no such limit and is a partial function (\<open>joinrealpath\<close>), which every
  path of a workspace without links on it computes. A duration is
  rounded to double precision as the code's division does, with a search below 128 for the shift
  that fills the 53 bits of the result; for a number of microseconds above zero 73 is enough.

  Limits of the model. A character is one of 256 code points; a text outside them, and a value of
  a type that a typed record cannot hold, is the marker \<open>IllTypedValue\<close>, which is not an
  exception of the code. Floats in payloads are their decimal texts.
  The limits of JsonLimits apply where the text comes from a provider; what the program dumped itself
  and reads back is taken to be within them. The kernel resolves a path with a missing component
  name by name, so that a call on such a path fails where it looks for the last name.
  \<open>Path.resolve\<close> is that of Python before 3.13. The confinement of the file tools holds under the
  condition \<open>probes_see\<close> on \<open>os.path.lexists\<close>, which the code relies on, as
  \<open>unseen_link_is_followed\<close> shows.

  Not modelled. The SQLite connection itself (\<open>close\<close>, the context managers, pragmas, indexes that
  only speed up queries), which is the library's. The HTTP library under the transport, and TLS.
  The lines that print. The \<open>__init__\<close> modules re-export names. Concurrent processes on one database are
  serialized by the transactions of SQLite and appear as interleaved operations.
\<close>

end
